(* ===== verification/Prelude.thy ===== *)
theory Prelude
  imports Main "HOL-Library.Char_ord" "HOL-Library.List_Lexorder"
begin

text \<open>
  Shared ground of the development: Go strings as byte lists, the string functions of the
  standard library that the sources call (HasPrefix, Contains, ContainsAny, LastIndex, Trim,
  TrimPrefix, ToLower), decimal formatting, Go errors as a datatype, and the reading of a Go map
  with its zero value. A Go string is a sequence of bytes, and so is a HOL string; the order on
  strings is the byte order that Go's comparison and bbolt's keys use.
\<close>

named_theorems go_defs \<open>unfolding rules for the small string and error helpers\<close>

type_synonym strmap = "string \<Rightarrow> string option"
type_synonym duration = int \<comment> \<open>time.Duration, nanoseconds\<close>
type_synonym timestamp = int \<comment> \<open>time.Time as nanoseconds since the epoch\<close>

definition nano_per_second :: int where
  "nano_per_second = 1000000000"

definition seconds :: "int \<Rightarrow> duration" where
  "seconds n = n * nano_per_second"

definition minutes :: "int \<Rightarrow> duration" where
  "minutes n = seconds (60 * n)"

section \<open>Errors\<close>

text \<open>
  A Go error: a plain message, a message wrapped around a cause (the format ends in a colon,
  a blank and \<open>%w\<close>), the policy gate's typed failure (rule and detail), and the two errors of
  a context.
\<close>

datatype ctx_err = DeadlineExceeded | Canceled

datatype goerr =
    ErrString string
  | Wrapf string goerr
  | PolicyError string string
  | CtxErr ctx_err

fun ctx_err_text :: "ctx_err \<Rightarrow> string" where
  "ctx_err_text DeadlineExceeded = ''context deadline exceeded''"
| "ctx_err_text Canceled = ''context canceled''"

fun error_text :: "goerr \<Rightarrow> string" where
  "error_text (ErrString s) = s"
| "error_text (Wrapf p e) = p @ '': '' @ error_text e"
| "error_text (PolicyError r d) = ''policy: '' @ r @ '' denied: '' @ d"
| "error_text (CtxErr c) = ctx_err_text c"

type_synonym 'a res = "goerr + 'a"

section \<open>Maps with a zero value\<close>

definition mget :: "strmap \<Rightarrow> string \<Rightarrow> string" where
  "mget m k = (case m k of None \<Rightarrow> '''' | Some v \<Rightarrow> v)"

lemma mget_upd [simp]: "mget (m(k \<mapsto> v)) k' = (if k' = k then v else mget m k')"
  by (simp add: mget_def)

lemma mget_empty [simp]: "mget Map.empty k = ''''"
  by (simp add: mget_def)

section \<open>Strings\<close>

fun has_prefix :: "string \<Rightarrow> string \<Rightarrow> bool" where
  "has_prefix s [] = True"
| "has_prefix [] (p # ps) = False"
| "has_prefix (c # cs) (p # ps) = (c = p \<and> has_prefix cs ps)"

fun contains :: "string \<Rightarrow> string \<Rightarrow> bool" where
  "contains [] sub = (sub = [])"
| "contains (c # cs) sub = (has_prefix (c # cs) sub \<or> contains cs sub)"

definition contains_any :: "string \<Rightarrow> string \<Rightarrow> bool" where
  "contains_any s chars = list_ex (\<lambda>c. c \<in> set chars) s"

text \<open>\<open>strings.LastIndex\<close> for a one-byte separator: the text before and after the last one.\<close>

fun cut_last :: "char \<Rightarrow> string \<Rightarrow> (string \<times> string) option" where
  "cut_last c [] = None"
| "cut_last c (x # xs) =
     (case cut_last c xs of
        Some (a, b) \<Rightarrow> Some (x # a, b)
      | None \<Rightarrow> (if x = c then Some ([], xs) else None))"

definition trim_left :: "string \<Rightarrow> string \<Rightarrow> string" where
  "trim_left cutset s = dropWhile (\<lambda>c. c \<in> set cutset) s"

definition trim :: "string \<Rightarrow> string \<Rightarrow> string" where
  "trim cutset s = rev (trim_left cutset (rev (trim_left cutset s)))"

definition trim_prefix :: "string \<Rightarrow> string \<Rightarrow> string" where
  "trim_prefix p s = (if has_prefix s p then drop (length p) s else s)"

definition ascii_space :: string where
  "ascii_space = [CHR 0x09, CHR 0x0A, CHR 0x0B, CHR 0x0C, CHR 0x0D, CHR 0x20]"

definition trim_space :: "string \<Rightarrow> string" where
  "trim_space s = trim ascii_space s"

definition is_upper :: "char \<Rightarrow> bool" where
  "is_upper c = (65 \<le> (of_char c :: nat) \<and> (of_char c :: nat) \<le> 90)"

definition is_lower :: "char \<Rightarrow> bool" where
  "is_lower c = (97 \<le> (of_char c :: nat) \<and> (of_char c :: nat) \<le> 122)"

definition is_digit :: "char \<Rightarrow> bool" where
  "is_digit c = (48 \<le> (of_char c :: nat) \<and> (of_char c :: nat) \<le> 57)"

definition to_lower_char :: "char \<Rightarrow> char" where
  "to_lower_char c = (if is_upper c then char_of ((of_char c :: nat) + 32) else c)"

definition to_lower :: "string \<Rightarrow> string" where
  "to_lower s = map to_lower_char s"

section \<open>Decimal formatting\<close>

definition digit_char :: "nat \<Rightarrow> char" where
  "digit_char d = char_of (48 + d)"

fun nat_digits :: "nat \<Rightarrow> nat list" where
  "nat_digits n = (if n < 10 then [n] else nat_digits (n div 10) @ [n mod 10])"

declare nat_digits.simps [simp del]

definition itoa_nat :: "nat \<Rightarrow> string" where
  "itoa_nat n = map digit_char (nat_digits n)"

definition itoa :: "int \<Rightarrow> string" where
  "itoa i = (if i < 0 then CHR ''-'' # itoa_nat (nat (- i)) else itoa_nat (nat i))"

text \<open>The verb \<open>%020d\<close>: zero padding between the sign and the digits, to 20 columns in all.\<close>

definition pad_zero :: "nat \<Rightarrow> string \<Rightarrow> string" where
  "pad_zero w s = replicate (w - length s) (CHR ''0'') @ s"

definition format_020d :: "int \<Rightarrow> string" where
  "format_020d i =
     (if i < 0 then CHR ''-'' # pad_zero 19 (itoa_nat (nat (- i))) else pad_zero 20 (itoa_nat (nat i)))"

text \<open>
  The verb \<open>%q\<close> on text: double quotes around it, with the quote, the backslash and the control
  bytes escaped. Bytes from 128 upwards are kept, which is what the verb does for printable text
  in UTF-8.
\<close>

definition hex_char :: "nat \<Rightarrow> char" where
  "hex_char d = (if d < 10 then char_of (48 + d) else char_of (87 + d))"

fun hex_digits :: "nat \<Rightarrow> nat list" where
  "hex_digits n = (if n < 16 then [n] else hex_digits (n div 16) @ [n mod 16])"

declare hex_digits.simps [simp del]

text \<open>The verb \<open>%x\<close> on an unsigned integer.\<close>

definition hex_text :: "nat \<Rightarrow> string" where
  "hex_text n = map hex_char (hex_digits n)"

definition quote_char :: "char \<Rightarrow> string" where
  "quote_char c =
     (let n = (of_char c :: nat); bs = CHR 0x5C
      in if c = CHR 0x22 \<or> c = bs then [bs, c]
         else if n = 7 then [bs, CHR ''a'']
         else if n = 8 then [bs, CHR ''b'']
         else if n = 9 then [bs, CHR ''t'']
         else if n = 10 then [bs, CHR ''n'']
         else if n = 11 then [bs, CHR ''v'']
         else if n = 12 then [bs, CHR ''f'']
         else if n = 13 then [bs, CHR ''r'']
         else if n < 32 \<or> n = 127 then [bs, CHR ''x'', hex_char (n div 16), hex_char (n mod 16)]
         else [c])"

definition go_quote :: "string \<Rightarrow> string" where
  "go_quote s = [CHR 0x22] @ concat (map quote_char s) @ [CHR 0x22]"

section \<open>Formatting a duration\<close>

text \<open>\<open>time.Duration.String\<close>: hours, minutes and seconds with the fraction stripped of trailing zeros,
  or one small unit below a second.\<close>

definition frac_text :: "nat \<Rightarrow> nat \<Rightarrow> string" where
  "frac_text prec n =
     (let ds = rev (dropWhile (\<lambda>c. c = CHR ''0'') (rev (pad_zero prec (itoa_nat n))))
      in if ds = [] then [] else CHR ''.'' # ds)"

definition unit_text :: "nat \<Rightarrow> nat \<Rightarrow> string \<Rightarrow> string" where
  "unit_text prec u suffix =
     itoa_nat (u div 10 ^ prec) @ (if u mod 10 ^ prec = 0 then [] else frac_text prec (u mod 10 ^ prec))
     @ suffix"

definition duration_abs_text :: "nat \<Rightarrow> string" where
  "duration_abs_text u =
     (if u = 0 then ''0s''
      else if u < 1000 then unit_text 0 u ''ns''
      else if u < 1000000 then unit_text 3 u [CHR 0xC2, CHR 0xB5, CHR ''s'']
      else if u < 1000000000 then unit_text 6 u ''ms''
      else let m = u div 60000000000; h = m div 60
           in (if h > 0 then itoa_nat h @ ''h'' else []) @
              (if m > 0 then itoa_nat (m mod 60) @ ''m'' else []) @
              unit_text 9 (u mod 60000000000) ''s'')"

definition duration_text :: "duration \<Rightarrow> string" where
  "duration_text d =
     (if d < 0 then CHR ''-'' # duration_abs_text (nat (- d)) else duration_abs_text (nat d))"

section \<open>Lemmas on strings\<close>

lemma has_prefix_iff: "has_prefix s p \<longleftrightarrow> (\<exists>t. s = p @ t)"
  by (induction s p rule: has_prefix.induct) auto

lemma has_prefix_append [simp]: "has_prefix (p @ t) p"
  by (auto simp: has_prefix_iff)

lemma has_prefix_trans: "has_prefix s p \<Longrightarrow> has_prefix p q \<Longrightarrow> has_prefix s q"
  by (auto simp: has_prefix_iff)

lemma contains_iff: "contains s sub \<longleftrightarrow> (\<exists>a b. s = a @ sub @ b)"
proof (induction s)
  case Nil
  show ?case by auto
next
  case (Cons c cs)
  have "(\<exists>a b. c # cs = a @ sub @ b) \<longleftrightarrow>
      (\<exists>b. c # cs = sub @ b) \<or> (\<exists>a b. cs = a @ sub @ b)"
    by (metis append_Cons append_Nil list.exhaust list.inject)
  with Cons show ?case by (simp add: has_prefix_iff)
qed

lemma contains_any_iff: "contains_any s chars \<longleftrightarrow> set s \<inter> set chars \<noteq> {}"
  by (auto simp: contains_any_def list_ex_iff)

lemma cut_last_None: "cut_last c s = None \<longleftrightarrow> c \<notin> set s"
  by (induction s) (auto split: option.splits)

lemma append_sep_last_inj:
  assumes "a @ c # b = a' @ c # b'" and "c \<notin> set b" and "c \<notin> set b'"
  shows "a = a' \<and> b = b'"
  using assms
proof (induction a arbitrary: a')
  case Nil
  then show ?case by (cases a') auto
next
  case (Cons x a)
  then show ?case by (cases a') auto
qed

lemma cut_last_SomeD: "cut_last c s = Some (a, b) \<Longrightarrow> s = a @ c # b \<and> c \<notin> set b"
  by (induction s arbitrary: a b) (auto simp: cut_last_None split: option.splits if_splits)

lemma cut_last_append [simp]: "c \<notin> set b \<Longrightarrow> cut_last c (a @ c # b) = Some (a, b)"
  by (induction a) (simp_all add: cut_last_None [THEN iffD2])

lemma cut_last_Some: "cut_last c s = Some (a, b) \<longleftrightarrow> s = a @ c # b \<and> c \<notin> set b"
  using cut_last_SomeD [of c s a b] by auto

lemma set_dropWhile_sub: "set (dropWhile P s) \<subseteq> set s"
  by (induction s) auto

lemma hd_dropWhile_not: "dropWhile P s \<noteq> [] \<Longrightarrow> \<not> P (hd (dropWhile P s))"
  by (induction s) auto

lemma set_trim: "set (trim cutset s) \<subseteq> set s"
  unfolding trim_def trim_left_def
  using set_dropWhile_sub [of _ "rev (dropWhile (\<lambda>c. c \<in> set cutset) s)"] set_dropWhile_sub [of _ s]
  by (metis set_rev subset_trans)

lemma length_trim: "length (trim cutset s) \<le> length s"
  unfolding trim_def trim_left_def
  by (metis length_dropWhile_le length_rev le_trans)

section \<open>Lemmas on decimal formatting\<close>

fun undigits :: "nat \<Rightarrow> nat list \<Rightarrow> nat" where
  "undigits acc [] = acc"
| "undigits acc (d # ds) = undigits (10 * acc + d) ds"

lemma undigits_append: "undigits acc (xs @ ys) = undigits (undigits acc xs) ys"
  by (induction xs arbitrary: acc) auto

lemma undigits_nat_digits [simp]: "undigits 0 (nat_digits n) = n"
proof (induction n rule: nat_digits.induct)
  case (1 n)
  show ?case
  proof (cases "n < 10")
    case True
    then show ?thesis by (simp add: nat_digits.simps [of n])
  next
    case False
    with 1 have "undigits 0 (nat_digits (n div 10)) = n div 10" by simp
    with False show ?thesis by (simp add: nat_digits.simps [of n] undigits_append)
  qed
qed

lemma nat_digits_small: "d \<in> set (nat_digits n) \<Longrightarrow> d < 10"
proof (induction n rule: nat_digits.induct)
  case (1 n)
  then show ?case by (cases "n < 10") (auto simp: nat_digits.simps [of n])
qed

lemma nat_digits_nonempty [simp]: "nat_digits n \<noteq> []"
  by (subst nat_digits.simps) simp

lemma of_char_digit: "d < 10 \<Longrightarrow> (of_char (digit_char d) :: nat) = 48 + d"
  by (simp add: digit_char_def)

definition char_digit :: "char \<Rightarrow> nat" where
  "char_digit c = of_char c - 48"

lemma char_digit_digit_char: "d < 10 \<Longrightarrow> char_digit (digit_char d) = d"
  by (simp add: char_digit_def of_char_digit)

lemma map_char_digit_itoa: "map char_digit (itoa_nat n) = nat_digits n"
  using nat_digits_small [of _ n]
  by (auto simp: itoa_nat_def char_digit_digit_char intro: map_idI)

lemma itoa_nat_digit: "c \<in> set (itoa_nat n) \<Longrightarrow> is_digit c"
  by (auto simp: itoa_nat_def is_digit_def of_char_digit dest!: nat_digits_small)

lemma undigits_replicate0: "undigits 0 (replicate k 0 @ ds) = undigits 0 ds"
  by (induction k) auto

lemma char_digit_0 [simp]: "char_digit (CHR ''0'') = 0"
  by (simp add: char_digit_def)

lemma pad_zero_value: "undigits 0 (map char_digit (pad_zero w (itoa_nat n))) = n"
  by (simp add: pad_zero_def map_char_digit_itoa undigits_replicate0)

lemma pad_zero_digit: "c \<in> set (pad_zero w (itoa_nat n)) \<Longrightarrow> is_digit c"
  by (auto simp: pad_zero_def dest: itoa_nat_digit split: if_splits) (simp add: is_digit_def)

lemma pad_zero_inj: "pad_zero w (itoa_nat m) = pad_zero w (itoa_nat n) \<Longrightarrow> m = n"
  by (metis pad_zero_value)

lemma minus_not_digit [simp]: "\<not> is_digit (CHR ''-'')" "\<not> is_digit (CHR '':'')"
  by (simp_all add: is_digit_def)

lemma pad_zero_nonempty: "pad_zero w (itoa_nat n) \<noteq> []"
  by (simp add: pad_zero_def itoa_nat_def)

lemma format_020d_no_colon: "CHR '':'' \<notin> set (format_020d i)"
  using pad_zero_digit [of "CHR '':''"] by (auto simp: format_020d_def)

lemma format_020d_inj: "format_020d i = format_020d j \<Longrightarrow> i = j"
proof -
  assume eq: "format_020d i = format_020d j"
  have digit: "hd (pad_zero 20 (itoa_nat n)) \<noteq> CHR ''-''" for n
    using pad_zero_digit [of "hd (pad_zero 20 (itoa_nat n))" 20 n] pad_zero_nonempty [of 20 n]
    by (metis hd_in_set minus_not_digit(1))
  show "i = j"
    using eq digit [of "nat i"] digit [of "nat j"]
    by (auto simp: format_020d_def split: if_splits dest: pad_zero_inj) (metis list.sel(1))+
qed

lemma append_sep_inj:
  assumes "a @ c # b = a' @ c # b'" and "c \<notin> set a" and "c \<notin> set a'"
  shows "a = a' \<and> b = b'"
  using assms
proof (induction a arbitrary: a')
  case Nil
  then show ?case by (cases a') auto
next
  case (Cons x a)
  then show ?case by (cases a') auto
qed

lemma takeWhile_sep: "takeWhile (\<lambda>c. c \<noteq> x) (a @ x # b) = takeWhile (\<lambda>c. c \<noteq> x) a"
  by (induction a) auto

lemma dropWhile_id: "(\<And>x. x \<in> set xs \<Longrightarrow> \<not> P x) \<Longrightarrow> dropWhile P xs = xs"
  by (cases xs) auto

end
