(* ===== verification/Dsd.thy ===== *)
theory Dsd
  imports Prelude
begin

text \<open>
  The Desired-State Document (agent/internal/dsd/dsd.go, cp/internal/dsd/dsd.go): the op and
  document types, signing and verification, and the dependency ordering \<open>TopoOrder\<close>.

  Ed25519, base64 and the JSON encoding are arguments of the definitions that use them. An op's
  payload is a JSON value the op's handler decodes; its type is the parameter \<open>'p\<close> here, and the
  container components instantiate it with what the decoder returns.

  The closure \<open>visit\<close> of \<open>TopoOrder\<close> updates three captured variables; the model threads them as
  the record \<open>topo\<close>. The main results: the ordering always terminates, lists exactly the ops whose
  dependencies can be resolved, each one once and after all its dependencies, and reports every
  other op as unresolved.
\<close>

section \<open>Types\<close>

record 'p Op =
  ID :: string
  Kind :: string
  DependsOn :: "string list"
  Spec :: 'p

record 'p Document =
  Version :: int
  OrgID :: string
  ServerID :: string
  Ops :: "'p Op list"

record 'p Signed =
  Doc :: "'p Document"
  Signature :: string

section \<open>Signing and verification\<close>

text \<open>
  The cryptography the code imports: base64 decoding, the two Ed25519 functions and the canonical
  JSON encoding of a document, which can fail.
\<close>

record 'p crypto =
  b64_decode :: "string \<Rightarrow> string res"
  ed_sign :: "string \<Rightarrow> string \<Rightarrow> string" \<comment> \<open>private key, message\<close>
  ed_verify :: "string \<Rightarrow> string \<Rightarrow> string \<Rightarrow> bool" \<comment> \<open>public key, message, signature\<close>
  canonical :: "'p Document \<Rightarrow> string res"

definition PublicKeySize :: nat where
  "PublicKeySize = 32"

definition Verify :: "'p crypto \<Rightarrow> string \<Rightarrow> 'p Signed \<Rightarrow> unit res" where
  "Verify cr pubB64 s =
     (case b64_decode cr pubB64 of
        Inl e \<Rightarrow> Inl (Wrapf ''dsd: bad pinned key'' e)
      | Inr raw \<Rightarrow>
          if length raw \<noteq> PublicKeySize
          then Inl (ErrString (''dsd: pinned key is '' @ itoa_nat (length raw) @ '' bytes, want ''
                               @ itoa_nat PublicKeySize))
          else (case canonical cr (Doc s) of
                  Inl e \<Rightarrow> Inl e
                | Inr b \<Rightarrow>
                    if \<not> ed_verify cr raw b (Signature s)
                    then Inl (ErrString ''dsd: signature verification failed'')
                    else Inr ()))"

text \<open>The control plane's side: signing, and its own verification with a decoded key.\<close>

definition Sign :: "'p crypto \<Rightarrow> string \<Rightarrow> 'p Document \<Rightarrow> string res" where
  "Sign cr priv doc =
     (case canonical cr doc of Inl e \<Rightarrow> Inl e | Inr b \<Rightarrow> Inr (ed_sign cr priv b))"

definition cp_Verify :: "'p crypto \<Rightarrow> string \<Rightarrow> 'p Signed \<Rightarrow> unit res" where
  "cp_Verify cr pub s =
     (case canonical cr (Doc s) of
        Inl e \<Rightarrow> Inl e
      | Inr b \<Rightarrow>
          if \<not> ed_verify cr pub b (Signature s)
          then Inl (ErrString ''dsd: signature verification failed'')
          else Inr ())"

section \<open>Dependency ordering\<close>

text \<open>\<open>byID\<close>: the loop overwrites, so of two ops with one id the later one is kept.\<close>

fun byID_from :: "'p Op list \<Rightarrow> (string \<Rightarrow> 'p Op option) \<Rightarrow> string \<Rightarrow> 'p Op option" where
  "byID_from [] m = m"
| "byID_from (x # xs) m = byID_from xs (m(ID x \<mapsto> x))"

definition byID :: "'p Op list \<Rightarrow> string \<Rightarrow> 'p Op option" where
  "byID ops = byID_from ops Map.empty"

text \<open>
  The captured variables: \<open>state\<close> (0 unseen, 1 visiting, 2 done), \<open>bad\<close> and \<open>order\<close>.
\<close>

record 'p topo =
  tstate :: "string \<Rightarrow> nat"
  tbad :: "string \<Rightarrow> bool"
  torder :: "'p Op list"

definition topo_init :: "'p topo" where
  "topo_init = \<lparr>tstate = (\<lambda>_. 0), tbad = (\<lambda>_. False), torder = []\<rparr>"

definition mark :: "string \<Rightarrow> nat \<Rightarrow> 'p topo \<Rightarrow> 'p topo" where
  "mark i n s = s\<lparr>tstate := (tstate s)(i := n)\<rparr>"

definition set_bad :: "string \<Rightarrow> 'p topo \<Rightarrow> 'p topo" where
  "set_bad i s = s\<lparr>tstate := (tstate s)(i := 2), tbad := (tbad s)(i := True)\<rparr>"

definition set_done :: "string \<Rightarrow> 'p Op \<Rightarrow> 'p topo \<Rightarrow> 'p topo" where
  "set_done i x s = s\<lparr>tstate := (tstate s)(i := 2), torder := torder s @ [x]\<rparr>"

function (sequential)
  visit :: "'p Op list \<Rightarrow> string \<Rightarrow> 'p topo \<Rightarrow> bool \<times> 'p topo" and
  visit_deps :: "'p Op list \<Rightarrow> string \<Rightarrow> 'p Op \<Rightarrow> string list \<Rightarrow> 'p topo \<Rightarrow> bool \<times> 'p topo"
where
  "visit ops i s =
     (case byID ops i of
        None \<Rightarrow> (False, s)
      | Some x \<Rightarrow>
          if tstate s i = 2 then (\<not> tbad s i, s)
          else if tstate s i = 1 then (False, s)
          else visit_deps ops i x (DependsOn x) (mark i 1 s))"
| "visit_deps ops i x [] s = (True, set_done i x s)"
| "visit_deps ops i x (d # ds) s =
     (case visit ops d s of
        (False, s') \<Rightarrow> (False, set_bad i s')
      | (True, s') \<Rightarrow> visit_deps ops i x ds s')"
  by pat_completeness auto

text \<open>
  Termination: a call of \<open>visit\<close> that recurses marks an unseen op, so the number of known ids not
  yet marked falls; no call ever unmarks one, which the partial induction rule shows first.
\<close>

definition unseen :: "'p Op list \<Rightarrow> 'p topo \<Rightarrow> string set" where
  "unseen ops s = {i \<in> ID ` set ops. tstate s i \<noteq> 1 \<and> tstate s i \<noteq> 2}"

lemma finite_unseen [simp]: "finite (unseen ops s)"
  by (simp add: unseen_def)

lemma byID_from_Some: "byID_from xs m i = Some x \<Longrightarrow> m i = Some x \<or> (x \<in> set xs \<and> ID x = i)"
  by (induction xs arbitrary: m) (fastforce split: if_splits)+

lemma byID_Some: "byID ops i = Some x \<Longrightarrow> x \<in> set ops \<and> ID x = i"
  using byID_from_Some [of ops Map.empty i x] by (simp add: byID_def)

lemma byID_from_dom: "byID_from xs m i = None \<longleftrightarrow> m i = None \<and> i \<notin> ID ` set xs"
  by (induction xs arbitrary: m) auto

lemma byID_None: "byID ops i = None \<longleftrightarrow> i \<notin> ID ` set ops"
  using byID_from_dom [of ops Map.empty i] by (simp add: byID_def)

lemma unseen_updates [simp]:
  "n = 1 \<or> n = 2 \<Longrightarrow> unseen ops (mark i n s) = unseen ops s - {i}"
  "unseen ops (set_bad i s) = unseen ops s - {i}"
  "unseen ops (set_done i x s) = unseen ops s - {i}"
  by (auto simp: unseen_def mark_def set_bad_def set_done_def)

lemma visit_unseen_mono:
  "visit_visit_deps_dom (Inl (ops, i, s)) \<Longrightarrow> unseen ops (snd (visit ops i s)) \<subseteq> unseen ops s"
  "visit_visit_deps_dom (Inr (ops, i, x, ds, s)) \<Longrightarrow>
     unseen ops (snd (visit_deps ops i x ds s)) \<subseteq> unseen ops s"
proof (induction ops i s and ops i x ds s rule: visit_visit_deps.pinduct)
  case (1 ops i s)
  from "1.IH" have "unseen ops (snd (visit_deps ops i x (DependsOn x) (mark i 1 s))) \<subseteq> unseen ops s"
    if "byID ops i = Some x" "tstate s i \<noteq> 2" "tstate s i \<noteq> 1" for x
    using that by fastforce
  with "1.hyps" show ?case by (auto simp: visit.psimps split: option.splits)
next
  case (2 ops i x s)
  then show ?case by (auto simp: visit_deps.psimps)
next
  case (3 ops i x d ds s)
  obtain b s' where v: "visit ops d s = (b, s')" by fastforce
  with "3.IH"(1) have "unseen ops s' \<subseteq> unseen ops s" by simp
  with v "3.hyps" "3.IH"(2) show ?case
    by (cases b) (fastforce simp: visit_deps.psimps)+
qed

lemma card_unseen_mark:
  assumes "byID ops i = Some x" "tstate s i \<noteq> 2" "tstate s i \<noteq> 1"
  shows "card (unseen ops (mark i 1 s)) < card (unseen ops s)"
proof -
  from assms(1) have "i \<in> ID ` set ops" by (metis byID_None option.distinct(1))
  with assms have "i \<in> unseen ops s" by (simp add: unseen_def)
  then have "unseen ops s - {i} \<subset> unseen ops s" by blast
  then show ?thesis by (metis finite_unseen psubset_card_mono unseen_updates(1))
qed

termination visit
proof (relation "measures [
    case_sum (\<lambda>(ops, i, s). card (unseen ops s)) (\<lambda>(ops, i, x, ds, s). card (unseen ops s)),
    case_sum (\<lambda>_. 0) (\<lambda>(ops, i, x, ds, s). Suc (length ds))]", goal_cases)
  case 1
  show ?case by simp
next
  case (2 ops i s x)
  then show ?case using card_unseen_mark [of ops i x s] by simp
next
  case (3 ops i x d ds s)
  show ?case by simp
next
  case (4 ops i x d ds s b s')
  then have "card (unseen ops s') \<le> card (unseen ops s)"
    using visit_unseen_mono(1) [of ops d s] by (metis card_mono finite_unseen snd_conv)
  then show ?case by auto
qed

declare visit.simps [simp del] visit_deps.simps [simp del]

definition TopoOrder :: "'p Op list \<Rightarrow> 'p Op list \<times> string list" where
  "TopoOrder ops =
     (let s = fold (\<lambda>x s. if tstate s (ID x) = 0 then snd (visit ops (ID x) s) else s) ops topo_init
      in (torder s, filter (tbad s) (map ID ops)))"

section \<open>Correctness of the ordering\<close>

text \<open>
  The specification, independent of the traversal: an id is resolvable when it names an op all of
  whose dependencies are resolvable. An op on a cycle, or one that needs a missing op, is not.
\<close>

inductive resolvable :: "'p Op list \<Rightarrow> string \<Rightarrow> bool" for ops where
  resolvable_op: "byID ops i = Some x \<Longrightarrow> (\<And>d. d \<in> set (DependsOn x) \<Longrightarrow> resolvable ops d) \<Longrightarrow>
     resolvable ops i"

inductive_cases resolvable_E: "resolvable ops i"

definition deps :: "'p Op list \<Rightarrow> (string \<times> string) set" where
  "deps ops = {(i, d). \<exists>x. byID ops i = Some x \<and> d \<in> set (DependsOn x)}"

lemma resolvable_dep: "resolvable ops i \<Longrightarrow> (i, d) \<in> deps ops \<Longrightarrow> resolvable ops d"
  by (auto simp: deps_def elim: resolvable_E)

lemma resolvable_no_cycle: "resolvable ops i \<Longrightarrow> (i, i) \<notin> (deps ops)\<^sup>+"
proof (induction rule: resolvable.induct)
  case (resolvable_op i x)
  show ?case
  proof
    assume "(i, i) \<in> (deps ops)\<^sup>+"
    then obtain d where d: "(i, d) \<in> deps ops" "(d, i) \<in> (deps ops)\<^sup>*"
      by (meson tranclD)
    then have "(d, d) \<in> (deps ops)\<^sup>+" by (simp add: rtrancl_into_trancl1 trancl_into_trancl2
      rtrancl_trancl_trancl r_into_trancl)
    moreover from d(1) resolvable_op.hyps have "d \<in> set (DependsOn x)" by (auto simp: deps_def)
    ultimately show False using resolvable_op.IH by blast
  qed
qed

text \<open>
  The invariant of the traversal. Marked ids are known ids; a done id is bad exactly when it is not
  resolvable; the order lists the good done ids once each, as the ops \<open>byID\<close> gives, and every op
  comes after its dependencies.
\<close>

fun deps_before :: "'p Op list \<Rightarrow> bool" where
  "deps_before [] = True"
| "deps_before (x # xs) = (set (DependsOn x) \<subseteq> ID ` set xs \<and> deps_before xs)"

definition topo_inv :: "'p Op list \<Rightarrow> 'p topo \<Rightarrow> bool" where
  "topo_inv ops s \<longleftrightarrow>
     (\<forall>i. tstate s i \<le> 2) \<and>
     (\<forall>i. tstate s i \<noteq> 0 \<longrightarrow> byID ops i \<noteq> None) \<and>
     (\<forall>i. tbad s i \<longleftrightarrow> tstate s i = 2 \<and> \<not> resolvable ops i) \<and>
     (\<forall>x \<in> set (torder s). byID ops (ID x) = Some x) \<and>
     ID ` set (torder s) = {i. tstate s i = 2 \<and> resolvable ops i} \<and>
     distinct (map ID (torder s)) \<and>
     deps_before (rev (torder s))"

definition grey :: "'p topo \<Rightarrow> string set" where
  "grey s = {i. tstate s i = 1}"

text \<open>What a call achieves: the invariant, the same ids in progress, nothing done is undone.\<close>

definition visit_post :: "'p Op list \<Rightarrow> string set \<Rightarrow> 'p topo \<Rightarrow> bool \<Rightarrow> string \<Rightarrow> 'p topo \<Rightarrow> bool" where
  "visit_post ops g s b i s' \<longleftrightarrow>
     topo_inv ops s' \<and> grey s' = g \<and> (b \<longleftrightarrow> resolvable ops i) \<and>
     (\<forall>j. tstate s j = 2 \<longrightarrow> tstate s' j = 2)"

lemma topo_state_cases: "topo_inv ops s \<Longrightarrow> tstate s i = 0 \<or> tstate s i = 1 \<or> tstate s i = 2"
proof -
  assume "topo_inv ops s"
  then have "tstate s i \<le> 2" by (simp add: topo_inv_def)
  then show ?thesis by arith
qed

lemma topo_inv_mark:
  assumes "topo_inv ops s" "byID ops i = Some x" "tstate s i = 0"
  shows "topo_inv ops (mark i 1 s)"
proof -
  have "{j. tstate (mark i 1 s) j = 2 \<and> resolvable ops j} = {j. tstate s j = 2 \<and> resolvable ops j}"
    using assms(3) by (auto simp: mark_def)
  with assms show ?thesis by (auto simp: topo_inv_def mark_def)
qed

lemma topo_inv_bad:
  assumes "topo_inv ops s" "tstate s i = 1" "\<not> resolvable ops i"
  shows "topo_inv ops (set_bad i s)"
proof -
  have "{j. tstate (set_bad i s) j = 2 \<and> resolvable ops j} = {j. tstate s j = 2 \<and> resolvable ops j}"
    using assms(2,3) by (auto simp: set_bad_def)
  with assms show ?thesis by (auto simp: topo_inv_def set_bad_def)
qed

lemma topo_inv_done:
  assumes inv: "topo_inv ops s" and i: "tstate s i = 1" "byID ops i = Some x"
    and ds: "\<forall>d \<in> set (DependsOn x). resolvable ops d \<and> tstate s d = 2"
  shows "topo_inv ops (set_done i x s)"
proof -
  from i(2) have x: "ID x = i" by (auto dest: byID_Some)
  have res: "resolvable ops i" using i(2) ds by (auto intro: resolvable_op)
  from inv ds have sub: "set (DependsOn x) \<subseteq> ID ` set (torder s)" by (auto simp: topo_inv_def)
  have "{j. tstate (set_done i x s) j = 2 \<and> resolvable ops j} =
      insert i {j. tstate s j = 2 \<and> resolvable ops j}"
    using res by (auto simp: set_done_def)
  moreover have "i \<notin> ID ` set (torder s)" using inv i(1) by (auto simp: topo_inv_def)
  ultimately show ?thesis
    using inv i res sub x by (auto simp: topo_inv_def set_done_def)
qed

lemma visit_correct:
  "topo_inv ops s \<Longrightarrow> \<forall>g \<in> grey s. (g, i) \<in> (deps ops)\<^sup>+ \<Longrightarrow>
     visit_post ops (grey s) s (fst (visit ops i s)) i (snd (visit ops i s)) \<and>
     (fst (visit ops i s) \<longrightarrow> tstate (snd (visit ops i s)) i = 2)"
  "topo_inv ops s \<Longrightarrow> byID ops i = Some x \<Longrightarrow> tstate s i = 1 \<Longrightarrow>
     \<forall>g \<in> grey s. (g, i) \<in> (deps ops)\<^sup>* \<Longrightarrow>
     \<exists>pre. DependsOn x = pre @ ds \<and> (\<forall>d \<in> set pre. resolvable ops d \<and> tstate s d = 2) \<Longrightarrow>
     visit_post ops (grey s - {i}) s (fst (visit_deps ops i x ds s)) i (snd (visit_deps ops i x ds s)) \<and>
     tstate (snd (visit_deps ops i x ds s)) i = 2"
proof (induction ops i s and ops i x ds s rule: visit_visit_deps.induct)
  case (1 ops i s)
  show ?case
  proof (cases "byID ops i")
    case None
    then have "\<not> resolvable ops i" by (auto elim: resolvable_E)
    with None 1 show ?thesis by (simp add: visit.simps visit_post_def)
  next
    case (Some x)
    consider "tstate s i = 2" | "tstate s i = 1" | "tstate s i = 0"
      using topo_state_cases [OF "1.prems"(1), of i] by linarith
    then show ?thesis
    proof cases
      case 1
      with Some "1.prems" show ?thesis by (auto simp: visit.simps visit_post_def topo_inv_def)
    next
      case 2
      then have "\<not> resolvable ops i" using "1.prems"(2) resolvable_no_cycle [of ops i]
        by (auto simp: grey_def)
      with 2 Some "1.prems" show ?thesis by (simp add: visit.simps visit_post_def)
    next
      case 3
      let ?s = "mark i 1 s"
      from 3 have grey: "grey ?s = insert i (grey s)" "i \<notin> grey s" by (auto simp: grey_def mark_def)
      have "visit_post ops (grey ?s - {i}) ?s (fst (visit_deps ops i x (DependsOn x) ?s)) i
          (snd (visit_deps ops i x (DependsOn x) ?s)) \<and>
          tstate (snd (visit_deps ops i x (DependsOn x) ?s)) i = 2"
      proof (rule "1.IH")
        show "byID ops i = Some x" "tstate s i \<noteq> 2" "tstate s i \<noteq> 1" "byID ops i = Some x"
          using Some 3 by auto
        show "topo_inv ops ?s" using topo_inv_mark "1.prems"(1) Some 3 by blast
        show "tstate ?s i = 1" by (simp add: mark_def)
        show "\<forall>g \<in> grey ?s. (g, i) \<in> (deps ops)\<^sup>*" using "1.prems"(2) grey by auto
        show "\<exists>pre. DependsOn x = pre @ DependsOn x \<and>
            (\<forall>d \<in> set pre. resolvable ops d \<and> tstate ?s d = 2)" by simp
      qed
      moreover have "tstate s j = 2 \<Longrightarrow> tstate ?s j = 2" for j using 3 by (auto simp: mark_def)
      ultimately show ?thesis using grey Some 3 by (simp add: visit.simps visit_post_def)
    qed
  qed
next
  case (2 ops i x s)
  then have "topo_inv ops (set_done i x s)" by (intro topo_inv_done) auto
  moreover have "resolvable ops i" using 2 by (auto intro: resolvable_op)
  ultimately show ?case
    by (auto simp: visit_deps.simps visit_post_def set_done_def grey_def)
next
  case (3 ops i x d ds s)
  obtain b s' where v: "visit ops d s = (b, s')" by fastforce
  have edge: "(i, d) \<in> deps ops" using "3.prems"(2,5) by (auto simp: deps_def)
  then have "\<forall>g \<in> grey s. (g, d) \<in> (deps ops)\<^sup>+" using "3.prems"(4)
    by (auto intro: rtrancl_into_trancl1)
  with "3.IH"(1) "3.prems"(1) v have post: "visit_post ops (grey s) s b d s'"
    and b2: "b \<Longrightarrow> tstate s' d = 2" by auto
  from post "3.prems"(3) have i1: "tstate s' i = 1" by (auto simp: visit_post_def grey_def)
  show ?case
  proof (cases b)
    case False
    with post have "\<not> resolvable ops d" by (simp add: visit_post_def)
    with edge have bad: "\<not> resolvable ops i" by (auto dest: resolvable_dep)
    with post i1 have "topo_inv ops (set_bad i s')" by (auto simp: visit_post_def intro: topo_inv_bad)
    with False v bad post show ?thesis
      by (auto simp: visit_deps.simps visit_post_def set_bad_def grey_def)
  next
    case True
    from "3.prems"(5) obtain pre where pre: "DependsOn x = pre @ d # ds"
      "\<forall>d \<in> set pre. resolvable ops d \<and> tstate s d = 2" by blast
    have ex: "\<exists>pre. DependsOn x = pre @ ds \<and> (\<forall>d \<in> set pre. resolvable ops d \<and> tstate s' d = 2)"
      using pre post True b2 by (intro exI [of _ "pre @ [d]"]) (auto simp: visit_post_def)
    have "visit_post ops (grey s' - {i}) s' (fst (visit_deps ops i x ds s')) i
        (snd (visit_deps ops i x ds s')) \<and> tstate (snd (visit_deps ops i x ds s')) i = 2"
      by (rule "3.IH"(2)) (use True post i1 "3.prems" ex v in \<open>auto simp: visit_post_def\<close>)
    with True v post show ?thesis by (auto simp: visit_deps.simps visit_post_def)
  qed
qed

section \<open>The whole ordering\<close>

definition topo_loop :: "'p Op list \<Rightarrow> 'p Op list \<Rightarrow> 'p topo \<Rightarrow> 'p topo" where
  "topo_loop ops xs s =
     fold (\<lambda>x s. if tstate s (ID x) = 0 then snd (visit ops (ID x) s) else s) xs s"

lemma visit_top:
  assumes "topo_inv ops s" "grey s = {}" "byID ops i \<noteq> None"
  shows "topo_inv ops (snd (visit ops i s))" "grey (snd (visit ops i s)) = {}"
    "tstate (snd (visit ops i s)) i = 2" "tstate s j = 2 \<Longrightarrow> tstate (snd (visit ops i s)) j = 2"
proof -
  note v = visit_correct(1) [of ops s i]
  from v assms show "topo_inv ops (snd (visit ops i s))" "grey (snd (visit ops i s)) = {}"
    "tstate s j = 2 \<Longrightarrow> tstate (snd (visit ops i s)) j = 2" by (auto simp: visit_post_def)
  obtain x where x: "byID ops i = Some x" using assms(3) by auto
  show "tstate (snd (visit ops i s)) i = 2"
  proof (cases "tstate s i = 0")
    case True
    have "visit_post ops (grey (mark i 1 s) - {i}) (mark i 1 s)
        (fst (visit_deps ops i x (DependsOn x) (mark i 1 s))) i
        (snd (visit_deps ops i x (DependsOn x) (mark i 1 s))) \<and>
        tstate (snd (visit_deps ops i x (DependsOn x) (mark i 1 s))) i = 2"
      using True assms x topo_inv_mark [of ops s i x]
      by (intro visit_correct(2)) (auto simp: mark_def grey_def)
    with True x show ?thesis by (simp add: visit.simps)
  next
    case False
    then have "tstate s i = 2" using topo_state_cases [OF assms(1), of i] assms(2) by (auto simp: grey_def)
    with x show ?thesis by (simp add: visit.simps)
  qed
qed

lemma topo_loop_correct:
  "topo_inv ops s \<Longrightarrow> grey s = {} \<Longrightarrow> set xs \<subseteq> set ops \<Longrightarrow>
     topo_inv ops (topo_loop ops xs s) \<and> grey (topo_loop ops xs s) = {} \<and>
     (\<forall>j. tstate s j = 2 \<or> j \<in> ID ` set xs \<longrightarrow> tstate (topo_loop ops xs s) j = 2)"
proof (induction xs arbitrary: s)
  case Nil
  then show ?case by (simp add: topo_loop_def)
next
  case (Cons x xs)
  let ?s = "if tstate s (ID x) = 0 then snd (visit ops (ID x) s) else s"
  have known: "byID ops (ID x) \<noteq> None" using Cons.prems(3) byID_None [of ops "ID x"] by auto
  note top = visit_top [OF Cons.prems(1,2) known]
  have inv: "topo_inv ops ?s" "grey ?s = {}" using top Cons.prems by auto
  have "tstate ?s (ID x) = 2"
  proof (cases "tstate s (ID x) = 0")
    case True
    then show ?thesis using top(3) by simp
  next
    case False
    then show ?thesis using topo_state_cases [OF Cons.prems(1), of "ID x"] Cons.prems(2) by (auto simp: grey_def)
  qed
  moreover have "tstate s j = 2 \<Longrightarrow> tstate ?s j = 2" for j using top(4) by auto
  moreover have "topo_loop ops (x # xs) s = topo_loop ops xs ?s" by (simp add: topo_loop_def)
  ultimately show ?case using Cons.IH [OF inv] Cons.prems(3) by auto
qed

lemma TopoOrder_loop:
  "TopoOrder ops = (torder (topo_loop ops ops topo_init),
     filter (tbad (topo_loop ops ops topo_init)) (map ID ops))"
  by (simp add: TopoOrder_def topo_loop_def Let_def)

lemma topo_inv_init: "topo_inv ops topo_init" "grey topo_init = {}"
  by (auto simp: topo_inv_def topo_init_def grey_def)

lemma resolvable_known: "resolvable ops i \<Longrightarrow> i \<in> ID ` set ops"
  by (metis byID_None option.distinct(1) resolvable_E)

lemma TopoOrder_props:
  assumes "TopoOrder ops = (ordered, unresolved)"
  shows "ID ` set ordered = {i. resolvable ops i}"
    and "distinct (map ID ordered)"
    and "x \<in> set ordered \<Longrightarrow> byID ops (ID x) = Some x"
    and "deps_before (rev ordered)"
    and "unresolved = filter (\<lambda>i. \<not> resolvable ops i) (map ID ops)"
proof -
  let ?s = "topo_loop ops ops topo_init"
  have inv: "topo_inv ops ?s" and all2: "\<And>j. j \<in> ID ` set ops \<Longrightarrow> tstate ?s j = 2"
    using topo_loop_correct [OF topo_inv_init, of ops ops] by auto
  have eq: "ordered = torder ?s" "unresolved = filter (tbad ?s) (map ID ops)"
    using assms TopoOrder_loop [of ops] by auto
  show "ID ` set ordered = {i. resolvable ops i}"
    using inv all2 resolvable_known [of ops] by (auto simp: topo_inv_def eq)
  show "distinct (map ID ordered)" "deps_before (rev ordered)"
    "x \<in> set ordered \<Longrightarrow> byID ops (ID x) = Some x"
    using inv by (auto simp: topo_inv_def eq)
  show "unresolved = filter (\<lambda>i. \<not> resolvable ops i) (map ID ops)"
    unfolding eq using inv all2 by (intro filter_cong) (auto simp: topo_inv_def)
qed

lemma deps_before_split:
  "deps_before (rev xs) \<Longrightarrow> xs = pre @ x # post \<Longrightarrow> set (DependsOn x) \<subseteq> ID ` set pre"
proof (induction xs arbitrary: pre post rule: rev_induct)
  case Nil
  then show ?case by simp
next
  case (snoc y ys)
  note IH = snoc.IH and prems = snoc.prems
  show ?case
  proof (cases post rule: rev_cases)
    case Nil
    with prems show ?thesis by auto
  next
    case (snoc post' z)
    with prems have "deps_before (rev ys)" "ys = pre @ x # post'" by auto
    then show ?thesis by (rule IH)
  qed
qed

section \<open>Properties\<close>

text \<open>
  C38. The dependency order (agent dsd.go, TopoOrder, mirrored by cp dsd.go). For every list of ops,
  cyclic, dangling and duplicate ids included: the ordered ops are exactly the resolvable ones,
  the ids whose dependencies are all known and, hereditarily, reach neither a missing id nor a cycle;
  each appears once and is the last op listed under its id; every dependency of an op stands
  before it; and the unresolved ids are the remaining ones, in document order. In particular no id is lost.
\<close>

theorem topo_order_exact:
  assumes "TopoOrder ops = (ordered, unresolved)"
  shows "ID ` set ordered = {i. resolvable ops i} \<and> distinct (map ID ordered) \<and>
    (\<forall>x \<in> set ordered. byID ops (ID x) = Some x) \<and>
    (\<forall>pre x post. ordered = pre @ x # post \<longrightarrow> set (DependsOn x) \<subseteq> ID ` set pre) \<and>
    unresolved = filter (\<lambda>i. \<not> resolvable ops i) (map ID ops) \<and>
    (\<forall>i. resolvable ops i \<longrightarrow> (i, i) \<notin> (deps ops)\<^sup>+)"
  using TopoOrder_props [OF assms] deps_before_split [of ordered] resolvable_no_cycle [of ops] by blast

definition topo_demo :: "unit Op list" where
  "topo_demo =
     [\<lparr>ID = ''b'', Kind = ''k'', DependsOn = [''a''], Spec = ()\<rparr>,
      \<lparr>ID = ''x'', Kind = ''k'', DependsOn = [''x''], Spec = ()\<rparr>,
      \<lparr>ID = ''a'', Kind = ''k'', DependsOn = [], Spec = ()\<rparr>]"

lemma topo_demo_byID:
  "byID topo_demo ''b'' = Some \<lparr>ID = ''b'', Kind = ''k'', DependsOn = [''a''], Spec = ()\<rparr>"
  "byID topo_demo ''x'' = Some \<lparr>ID = ''x'', Kind = ''k'', DependsOn = [''x''], Spec = ()\<rparr>"
  "byID topo_demo ''a'' = Some \<lparr>ID = ''a'', Kind = ''k'', DependsOn = [], Spec = ()\<rparr>"
  by (simp_all add: byID_def topo_demo_def)

lemma topo_demo_b: "resolvable topo_demo ''b''"
proof -
  have "resolvable topo_demo ''a''"
    by (rule resolvable_op [OF topo_demo_byID(3)]) simp
  then show ?thesis
    by (intro resolvable_op [OF topo_demo_byID(1)]) simp
qed

theorem topo_order_exact_witness:
  "\<exists>ordered unresolved. TopoOrder topo_demo = (ordered, unresolved) \<and>
   ''b'' \<in> ID ` set ordered \<and> ''x'' \<in> set unresolved \<and>
   (\<forall>pre x post. ordered = pre @ x # post \<longrightarrow> set (DependsOn x) \<subseteq> ID ` set pre)"
proof -
  obtain ordered unresolved where run: "TopoOrder topo_demo = (ordered, unresolved)" by (metis surj_pair)
  note props = topo_order_exact [OF run]
  have "(''x'', ''x'') \<in> deps topo_demo" by (simp add: deps_def topo_demo_byID)
  then have "\<not> resolvable topo_demo ''x''" using props by blast
  moreover have "''x'' \<in> set (map ID topo_demo)" by (simp add: topo_demo_def)
  ultimately have "''x'' \<in> set unresolved" using props by simp
  then show ?thesis using props run topo_demo_b by blast
qed

text \<open>
  A document signed by the control plane verifies at the agent (cp dsd.go Sign and Verify, agent
  dsd.go Verify), for every document that has a canonical encoding, when the pinned text decodes to a public
  key of 32 bytes whose signatures of this encoding verify; and the agent accepts
  exactly what the control plane's own Verify accepts under that key, so that the two
  sides never disagree on a document.
\<close>

theorem sign_verify_roundtrip:
  assumes pinned: "b64_decode cr pubB64 = Inr pub" "length pub = PublicKeySize"
    and pair: "\<forall>m. ed_verify cr pub m (ed_sign cr priv m)"
    and signed: "Sign cr priv doc = Inr sig"
  shows "Verify cr pubB64 \<lparr>Doc = doc, Signature = sig\<rparr> = Inr () \<and>
    (\<forall>s. Verify cr pubB64 s = cp_Verify cr pub s)"
  using assms by (auto simp: Verify_def Sign_def cp_Verify_def split: sum.splits)

definition demo_crypto :: "unit crypto" where
  "demo_crypto =
     \<lparr>b64_decode = (\<lambda>t. if t = ''pinned'' then Inr (replicate 32 CHR ''k'') else Inl (ErrString ''illegal base64 data'')),
      ed_sign = (\<lambda>k m. ''sig:'' @ m),
      ed_verify = (\<lambda>k m s. s = ''sig:'' @ m),
      canonical = (\<lambda>doc. Inr (itoa (Version doc) @ ServerID doc))\<rparr>"

theorem sign_verify_roundtrip_witness:
  "let doc = \<lparr>Version = 3, OrgID = ''o'', ServerID = ''s'', Ops = topo_demo\<rparr> in
   \<exists>sig. Sign demo_crypto ''priv'' doc = Inr sig \<and>
     Verify demo_crypto ''pinned'' \<lparr>Doc = doc, Signature = sig\<rparr> = Inr () \<and>
     (\<forall>s. Verify demo_crypto ''pinned'' s = cp_Verify demo_crypto (replicate 32 CHR ''k'') s)"
proof -
  let ?doc = "\<lparr>Version = 3, OrgID = ''o'', ServerID = ''s'', Ops = topo_demo\<rparr>"
  have sig: "Sign demo_crypto ''priv'' ?doc = Inr (''sig:'' @ itoa 3 @ ''s'')"
    by (simp add: Sign_def demo_crypto_def)
  have "b64_decode demo_crypto ''pinned'' = Inr (replicate 32 CHR ''k'')"
    "length (replicate 32 CHR ''k'') = PublicKeySize"
    "\<forall>m. ed_verify demo_crypto (replicate 32 CHR ''k'') m (ed_sign demo_crypto ''priv'' m)"
    by (simp_all add: demo_crypto_def PublicKeySize_def)
  from sign_verify_roundtrip [OF this sig] sig show ?thesis unfolding Let_def by blast
qed


end
