(* ===== verification/Container_Spec.thy ===== *)
theory Container_Spec
  imports Complex_Main Dsd
begin

text \<open>
  The data of the container runtime (agent/internal/container/spec.go, and the result types of
  dockerapi.go): op kinds, managed labels, the specs an op carries, the state of a container, the
  body of a create request, and the Docker client as an interface.

  The Docker daemon is not part of the repository. Its client is the record \<open>docker\<close> of operations on
  an arbitrary daemon state \<open>'d\<close>; the same record carries the other things a container op asks of
  its environment: a clock, a sleep that may end in cancellation, the health probe's connection,
  the secret fetch and the write of secret files. Nothing is assumed about them unless a theorem
  says so. A JSON payload is decoded by the \<open>codec\<close>, which also carries the spec hash (a SHA-256
  of the encoded spec).
\<close>

section \<open>Constants\<close>

definition KindNetworkEnsure :: string where "KindNetworkEnsure = ''network.ensure''"
definition KindVolumeEnsure :: string where "KindVolumeEnsure = ''volume.ensure''"
definition KindImagePull :: string where "KindImagePull = ''image.pull''"
definition KindContainerApply :: string where "KindContainerApply = ''container.apply''"
definition KindVolumeRemove :: string where "KindVolumeRemove = ''volume.remove''"
definition KindDeployRollout :: string where "KindDeployRollout = ''deploy.rollout''"
definition KindDeployRecreate :: string where "KindDeployRecreate = ''deploy.recreate''"
definition KindResourceSync :: string where "KindResourceSync = ''resource.sync''"
definition KindProxyTraefik :: string where "KindProxyTraefik = ''proxy.traefik''"

lemmas kind_defs = KindNetworkEnsure_def KindVolumeEnsure_def KindImagePull_def
  KindContainerApply_def KindVolumeRemove_def KindDeployRollout_def KindDeployRecreate_def
  KindResourceSync_def KindProxyTraefik_def

definition LabelManaged :: string where "LabelManaged = ''sigmahub.managed''"
definition LabelResourceID :: string where "LabelResourceID = ''sigmahub.resourceId''"
definition LabelSpecHash :: string where "LabelSpecHash = ''sigmahub.specHash''"
definition LabelService :: string where "LabelService = ''sigmahub.service''"
definition LabelServerID :: string where "LabelServerID = ''sigmahub.serverId''"

lemmas label_defs = LabelManaged_def LabelResourceID_def LabelSpecHash_def LabelService_def
  LabelServerID_def

definition SecretsMountDir :: string where "SecretsMountDir = ''/run/secrets''"

section \<open>Specs\<close>

record HealthProbe =
  HP_Type :: string
  HP_Path :: string
  HP_Port :: int
  HP_IntervalSec :: int
  HP_TimeoutSec :: int

record NetworkSpec =
  N_Name :: string

record VolumeSpec =
  VS_Name :: string
  VS_ResourceID :: string

record ImageSpec =
  I_Image :: string
  I_RegistryHost :: string

record PortMapping =
  P_Container :: int
  P_Host :: int
  P_Protocol :: string
  P_HostIP :: string

record VolumeMount =
  V_Name :: string
  V_MountPath :: string
  V_ReadOnly :: bool

record HostMount =
  HM_Source :: string
  HM_Target :: string

record SecretRef =
  SR_Name :: string
  SR_EnvVar :: bool

record Secret =
  S_Name :: string
  S_Value :: string
  S_EnvVar :: bool

text \<open>
  \<open>Env\<close> is a Go map, here the list of its entries; \<open>CPUs\<close> is a float64 in the source and a rational
  here. Integers are Go's 64-bit ints.
\<close>

record ContainerSpec =
  ResourceID :: string
  Service :: string
  Name :: string
  Image :: string
  Network :: string
  NetworkAliases :: "string list"
  Env :: "(string \<times> string) list"
  Ports :: "PortMapping list"
  Volumes :: "VolumeMount list"
  Cmd :: "string list"
  User :: string
  ReadOnlyRootfs :: bool
  Tmpfs :: "string list"
  CPUs :: rat
  MemoryMB :: int
  Restart :: string
  SecretRefs :: "SecretRef list"
  Labels :: strmap
  GPUs :: int
  ShmSizeMB :: int
  Privileged :: bool
  HostNetwork :: bool
  HostPID :: bool
  HostMounts :: "HostMount list"

record RolloutSpec =
  RS_Container :: ContainerSpec
  RS_Generation :: string
  RS_Health :: HealthProbe
  RS_DeploymentID :: string

record RecreateSpec =
  RC_Container :: ContainerSpec
  RC_Generation :: string
  RC_Health :: HealthProbe
  RC_DeploymentID :: string

record resourceSyncSpec =
  Sync_ResourceID :: string
  Sync_Retain :: "string list"

record TraefikSpec =
  T_ServerID :: string
  T_CertResolver :: string
  T_ChallengeType :: string
  T_ACMEEmail :: string
  T_ACMECADirURL :: string

text \<open>\<open>json.Unmarshal\<close> of an op's payload at each type, and the digests.\<close>

record 'p codec =
  dec_network :: "'p \<Rightarrow> NetworkSpec res"
  dec_volume :: "'p \<Rightarrow> VolumeSpec res"
  dec_image :: "'p \<Rightarrow> ImageSpec res"
  dec_container :: "'p \<Rightarrow> ContainerSpec res"
  dec_rollout :: "'p \<Rightarrow> RolloutSpec res"
  dec_recreate :: "'p \<Rightarrow> RecreateSpec res"
  dec_sync :: "'p \<Rightarrow> resourceSyncSpec res"
  dec_traefik :: "'p \<Rightarrow> TraefikSpec res"
  SpecHash :: "ContainerSpec \<Rightarrow> string"
  traefik_hash :: "TraefikSpec \<Rightarrow> string" \<comment> \<open>\<open>TraefikSpec.hash\<close>: the JSON, hashed\<close>
  sha256_hex8 :: "string \<Rightarrow> string" \<comment> \<open>the first 8 bytes of SHA-256, in hex\<close>

section \<open>Containers and create requests\<close>

record ContainerState =
  C_ID :: string
  C_Name :: string
  C_Image :: string
  C_Running :: bool
  C_Pid :: int
  C_IP :: string
  C_Labels :: strmap

record ImageSummary =
  IS_ID :: string
  IS_RepoTags :: "string list"
  IS_Created :: int

text \<open>The create body: the keys the code sets, an option where a key is set on a condition only.\<close>

record HostConfig =
  NetworkMode :: "string option"
  SecurityOpt :: "string list"
  HC_Privileged :: bool
  ReadonlyRootfs :: "bool option"
  Binds :: "string list"
  PortBindings :: "string \<Rightarrow> (string \<times> string option) option"
  HC_Tmpfs :: "strmap option"
  NanoCpus :: "int option"
  Memory :: "int option"
  ShmSize :: "int option"
  DeviceCount :: "int option"
  RestartPolicy :: string

record CreateBody =
  B_Image :: string
  B_Labels :: strmap
  B_Env :: "string list"
  B_Exposed :: "string \<Rightarrow> bool"
  B_HostConfig :: HostConfig
  B_Aliases :: "(string \<times> string list) option"
  B_Cmd :: "string list"
  B_User :: "string option"

record RegistryAuth =
  RA_Host :: string
  RA_Username :: string
  RA_Password :: string

section \<open>The Docker client and the environment\<close>

record 'd docker =
  ContainerList :: "'d \<Rightarrow> ContainerState list res \<times> 'd"
  ContainerInspect :: "string \<Rightarrow> 'd \<Rightarrow> ContainerState option res \<times> 'd"
  ContainerCreate :: "string \<Rightarrow> CreateBody \<Rightarrow> 'd \<Rightarrow> string res \<times> 'd"
  ContainerStart :: "string \<Rightarrow> 'd \<Rightarrow> goerr option \<times> 'd"
  ContainerStop :: "string \<Rightarrow> duration \<Rightarrow> 'd \<Rightarrow> goerr option \<times> 'd"
  ContainerRemove :: "string \<Rightarrow> 'd \<Rightarrow> goerr option \<times> 'd"
  ContainerLogTail :: "string \<Rightarrow> nat \<Rightarrow> 'd \<Rightarrow> string list res \<times> 'd"
  ImageList :: "string \<Rightarrow> 'd \<Rightarrow> ImageSummary list res \<times> 'd"
  ImageRemove :: "string \<Rightarrow> 'd \<Rightarrow> goerr option \<times> 'd"
  ImagePullAuth :: "string \<Rightarrow> RegistryAuth \<Rightarrow> 'd \<Rightarrow> goerr option \<times> 'd"
  NetworkExists :: "string \<Rightarrow> 'd \<Rightarrow> bool res \<times> 'd"
  NetworkCreate :: "string \<Rightarrow> strmap \<Rightarrow> 'd \<Rightarrow> goerr option \<times> 'd"
  NetworkConnect :: "string \<Rightarrow> string \<Rightarrow> 'd \<Rightarrow> goerr option \<times> 'd"
  NetworkRemove :: "string \<Rightarrow> 'd \<Rightarrow> goerr option \<times> 'd"
  ManagedNetworks :: "'d \<Rightarrow> string list res \<times> 'd"
  VolumeInspect :: "string \<Rightarrow> 'd \<Rightarrow> strmap option res \<times> 'd"
  VolumeCreate :: "string \<Rightarrow> strmap \<Rightarrow> 'd \<Rightarrow> goerr option \<times> 'd"
  VolumeRemove :: "string \<Rightarrow> 'd \<Rightarrow> goerr option \<times> 'd"
  ManagedVolumes :: "'d \<Rightarrow> string list res \<times> 'd"
  tcp_dial :: "string \<Rightarrow> int \<Rightarrow> 'd \<Rightarrow> goerr option \<times> 'd"
  http_get :: "string \<Rightarrow> int \<Rightarrow> string \<Rightarrow> 'd \<Rightarrow> int res \<times> 'd"
  clock :: "'d \<Rightarrow> timestamp \<times> 'd"
  sleep :: "duration \<Rightarrow> 'd \<Rightarrow> ctx_err option \<times> 'd"
  startup_sink :: "string \<Rightarrow> string list \<Rightarrow> 'd \<Rightarrow> 'd"
  fetch_secrets :: "string \<Rightarrow> 'd \<Rightarrow> Secret list res \<times> 'd"
  fetch_registry :: "'d \<Rightarrow> RegistryAuth res \<times> 'd"
  MkdirAll :: "string \<Rightarrow> 'd \<Rightarrow> goerr option \<times> 'd"
  Statfs :: "string \<Rightarrow> 'd \<Rightarrow> int res \<times> 'd" \<comment> \<open>the type of the file system under the path\<close>
  WriteFile :: "string \<Rightarrow> string \<Rightarrow> 'd \<Rightarrow> goerr option \<times> 'd"

section \<open>64-bit arithmetic\<close>

definition wrap64 :: "int \<Rightarrow> int" where
  "wrap64 x = (x + 2 ^ 63) mod 2 ^ 64 - 2 ^ 63"

lemma wrap64_range: "- (2 ^ 63) \<le> wrap64 x \<and> wrap64 x < 2 ^ 63"
proof -
  have "0 \<le> (x + 2 ^ 63) mod 2 ^ 64" "(x + 2 ^ 63) mod 2 ^ 64 < (2 ^ 64 :: int)" by simp_all
  then show ?thesis by (simp add: wrap64_def)
qed

lemma wrap64_id: "- (2 ^ 63) \<le> x \<Longrightarrow> x < 2 ^ 63 \<Longrightarrow> wrap64 x = x"
  by (simp add: wrap64_def)

end
