(* ===== verification/Policy.thy ===== *)
theory Policy
  imports Container_Spec
begin

text \<open>
  The agent-local gate and what it protects: the deny-by-default policy on a container spec
  (policy.go), the image allowlist (allowlist.go), the check of secret file names (secrets.go) and
  the assembly of the create request (driver.go, \<open>buildCreateBody\<close>). The theorems at the end say
  what the daemon can be asked to do once a spec has passed the gate.
\<close>

section \<open>The policy\<close>

definition managedNamePrefix :: string where
  "managedNamePrefix = ''sigmahub-''"

definition isManagedName :: "string \<Rightarrow> bool" where
  "isManagedName name =
     (if \<not> has_prefix name managedNamePrefix then False
      else if contains_any name [CHR ''/'', CHR 0x5C] \<or> contains name ''..'' then False
      else True)"

fun checkVolumes :: "VolumeMount list \<Rightarrow> goerr option" where
  "checkVolumes [] = None"
| "checkVolumes (v # vs) =
     (if \<not> isManagedName (V_Name v)
      then Some (PolicyError ''volume'' (''volume mount source '' @ go_quote (V_Name v) @
             '' is not a managed named volume; host-path binds are never permitted''))
      else checkVolumes vs)"

definition checkNetwork :: "string \<Rightarrow> goerr option" where
  "checkNetwork network =
     (if network = '''' then
        Some (PolicyError ''network'' ''container network must be an explicit managed network'')
      else if network = ''none'' then None
      else if network = ''host'' then
        Some (PolicyError ''network'' ''host networking is never permitted; use the project network'')
      else if has_prefix network ''container:'' then
        Some (PolicyError ''network'' ''joining another container's network namespace is not permitted'')
      else if has_prefix network ''ns:'' then
        Some (PolicyError ''network'' ''attaching a raw network namespace path is not permitted'')
      else if \<not> isManagedName network then
        Some (PolicyError ''network'' (''network '' @ go_quote network @ '' is not a managed project network''))
      else None)"

definition image_tag :: "string \<Rightarrow> string" where
  "image_tag img =
     (case cut_last (CHR '':'') img of
        Some (pre, rest) \<Rightarrow> if contains rest ''/'' then '''' else rest
      | None \<Rightarrow> '''')"

definition checkImagePinned :: "string \<Rightarrow> goerr option" where
  "checkImagePinned img =
     (if img = '''' then Some (PolicyError ''image'' ''image reference is empty'')
      else if contains img ''@sha256:'' then None
      else let tag = image_tag img
           in if tag = '''' then
                Some (PolicyError ''image'' (''image '' @ go_quote img @ '' is not pinned (no tag or digest)''))
              else if tag = ''latest'' then
                Some (PolicyError ''image''
                  ''the floating 'latest' tag is not permitted; pin a version tag or digest'')
              else None)"

definition CheckPolicy :: "ContainerSpec \<Rightarrow> goerr option" where
  "CheckPolicy s =
     (if Privileged s then
        Some (PolicyError ''privileged'' ''privileged containers are never permitted'')
      else if HostNetwork s then
        Some (PolicyError ''host-network'' ''host networking is never permitted; use the project network'')
      else if HostPID s then
        Some (PolicyError ''host-pid'' ''the host PID namespace is never permitted'')
      else if HostMounts s \<noteq> [] then
        Some (PolicyError ''host-mount'' (''host-path mounts are never permitted ('' @
          itoa_nat (length (HostMounts s)) @ '' requested); use named volumes''))
      else case checkVolumes (Volumes s) of Some e \<Rightarrow> Some e
      | None \<Rightarrow> (case checkNetwork (Network s) of Some e \<Rightarrow> Some e
      | None \<Rightarrow> checkImagePinned (Image s)))"

section \<open>The allowlist\<close>

record ImageAllowlist =
  Enabled :: bool
  Prefixes :: "string list"

definition Check :: "ImageAllowlist \<Rightarrow> string \<Rightarrow> goerr option" where
  "Check a img =
     (if \<not> Enabled a then None
      else if list_ex (\<lambda>p. has_prefix img p) (Prefixes a) then None
      else Some (PolicyError ''image-allowlist'' ''image is not on the org signature allowlist''))"

section \<open>Secret file names\<close>

text \<open>\<open>filepath.Base\<close>: the last element of a path, after dropping trailing separators.\<close>

definition filepath_base :: "string \<Rightarrow> string" where
  "filepath_base p =
     (if p = [] then ''.''
      else let q = rev (dropWhile (\<lambda>c. c = CHR ''/'') (rev p))
           in if q = [] then ''/''
              else (case cut_last (CHR ''/'') q of Some (a, b) \<Rightarrow> b | None \<Rightarrow> q))"

definition safeSecretFileName :: "string \<Rightarrow> string res" where
  "safeSecretFileName name =
     (if name = '''' \<or> name = ''.'' \<or> name = ''..'' then
        Inl (ErrString (''invalid secret name '' @ go_quote name))
      else if contains_any name [CHR ''/'', CHR 0x5C, CHR 0x00] then
        Inl (ErrString (''secret name '' @ go_quote name @ '' must not contain a path separator''))
      else if name \<noteq> filepath_base name then
        Inl (ErrString (''secret name '' @ go_quote name @ '' must be a plain filename''))
      else Inr name)"

section \<open>The create request\<close>

definition managedLabels :: "string \<Rightarrow> string \<Rightarrow> strmap" where
  "managedLabels serverID resourceID =
     (let l = [LabelManaged \<mapsto> ''true'', LabelResourceID \<mapsto> resourceID]
      in if serverID \<noteq> '''' then l(LabelServerID \<mapsto> serverID) else l)"

definition body_labels :: "string \<Rightarrow> ContainerSpec \<Rightarrow> string \<Rightarrow> strmap" where
  "body_labels serverID spec hash =
     (let l = (Labels spec ++ managedLabels serverID (ResourceID spec))(LabelSpecHash \<mapsto> hash)
      in if Service spec \<noteq> '''' then l(LabelService \<mapsto> Service spec) else l)"

definition port_key :: "PortMapping \<Rightarrow> string" where
  "port_key p = itoa (P_Container p) @ ''/'' @ (if P_Protocol p = '''' then ''tcp'' else P_Protocol p)"

fun port_bindings :: "PortMapping list \<Rightarrow> (string \<Rightarrow> (string \<times> string option) option) \<Rightarrow>
    string \<Rightarrow> (string \<times> string option) option" where
  "port_bindings [] m = m"
| "port_bindings (p # ps) m =
     port_bindings ps
       (if P_Host p > 0
        then m(port_key p \<mapsto> (itoa (P_Host p), if P_HostIP p \<noteq> '''' then Some (P_HostIP p) else None))
        else m)"

definition bind_text :: "VolumeMount \<Rightarrow> string" where
  "bind_text v = V_Name v @ '':'' @ V_MountPath v @ '':'' @ (if V_ReadOnly v then ''ro'' else ''rw'')"

definition buildCreateBody :: "string \<Rightarrow> ContainerSpec \<Rightarrow> string \<Rightarrow> CreateBody" where
  "buildCreateBody serverID spec specHash =
     \<lparr>B_Image = Image spec,
      B_Labels = body_labels serverID spec specHash,
      B_Env = sort (map (\<lambda>(k, v). k @ ''='' @ v) (Env spec)),
      B_Exposed = (\<lambda>k. k \<in> set (map port_key (Ports spec))),
      B_HostConfig =
        \<lparr>NetworkMode = Some (Network spec),
         SecurityOpt = [''no-new-privileges:true'', ''apparmor=docker-default''],
         HC_Privileged = False,
         ReadonlyRootfs = Some (ReadOnlyRootfs spec),
         Binds = sort (map bind_text (Volumes spec)),
         PortBindings = port_bindings (Ports spec) Map.empty,
         HC_Tmpfs = (if Tmpfs spec \<noteq> [] then Some (map_of (map (\<lambda>p. (p, '''')) (Tmpfs spec))) else None),
         NanoCpus = (if CPUs spec > 0 then Some \<lfloor>CPUs spec * 1000000000\<rfloor> else None),
         Memory = (if MemoryMB spec > 0 then Some (wrap64 (MemoryMB spec * 1024 * 1024)) else None),
         ShmSize = (if ShmSizeMB spec > 0 then Some (wrap64 (ShmSizeMB spec * 1024 * 1024)) else None),
         DeviceCount = (if GPUs spec \<noteq> 0 then Some (if GPUs spec < 0 then -1 else GPUs spec) else None),
         RestartPolicy = (if Restart spec = '''' then ''unless-stopped'' else Restart spec)\<rparr>,
      B_Aliases = (if NetworkAliases spec \<noteq> [] \<and> Network spec \<noteq> ''''
                   then Some (Network spec, NetworkAliases spec) else None),
      B_Cmd = Cmd spec,
      B_User = (if User spec \<noteq> '''' then Some (User spec) else None)\<rparr>"

section \<open>Lemmas\<close>

lemma isManagedName_iff: "isManagedName n \<longleftrightarrow>
    has_prefix n ''sigmahub-'' \<and> CHR ''/'' \<notin> set n \<and> CHR 0x5C \<notin> set n \<and> \<not> contains n ''..''"
  by (auto simp: isManagedName_def managedNamePrefix_def contains_any_iff)

lemma checkVolumes_None: "checkVolumes vs = None \<longleftrightarrow> (\<forall>v \<in> set vs. isManagedName (V_Name v))"
  by (induction vs) auto

lemma checkNetwork_None: "checkNetwork n = None \<longleftrightarrow> n = ''none'' \<or> isManagedName n"
proof -
  have "isManagedName n \<Longrightarrow> n \<noteq> '''' \<and> n \<noteq> ''host'' \<and> \<not> has_prefix n ''container:'' \<and> \<not> has_prefix n ''ns:''"
    by (auto simp: isManagedName_iff has_prefix_iff)
  then show ?thesis by (auto simp: checkNetwork_def)
qed

lemma checkImagePinned_None: "checkImagePinned i = None \<longleftrightarrow>
    contains i ''@sha256:'' \<or> (i \<noteq> '''' \<and> image_tag i \<noteq> '''' \<and> image_tag i \<noteq> ''latest'')"
  by (auto simp: checkImagePinned_def Let_def)

lemma CheckPolicy_None: "CheckPolicy s = None \<longleftrightarrow>
    \<not> Privileged s \<and> \<not> HostNetwork s \<and> \<not> HostPID s \<and> HostMounts s = [] \<and>
    (\<forall>v \<in> set (Volumes s). isManagedName (V_Name v)) \<and>
    (Network s = ''none'' \<or> isManagedName (Network s)) \<and> checkImagePinned (Image s) = None"
  by (auto simp: CheckPolicy_def checkVolumes_None [symmetric] checkNetwork_None [symmetric]
      split: option.splits)

lemma image_tag_split: "image_tag i = t \<Longrightarrow> t \<noteq> '''' \<Longrightarrow>
    \<exists>repo. i = repo @ '':'' @ t \<and> CHR ''/'' \<notin> set t \<and> CHR '':'' \<notin> set t"
  by (auto simp: image_tag_def cut_last_Some contains_iff split: option.splits if_splits)
    (metis append_Cons append_Nil split_list)

text \<open>The source of a bind, as the daemon reads it: the text before the first colon.\<close>

definition bind_source :: "string \<Rightarrow> string" where
  "bind_source b = takeWhile (\<lambda>c. c \<noteq> CHR '':'') b"

lemma bind_source_managed:
  assumes "isManagedName (V_Name v)"
  shows "has_prefix (bind_source (bind_text v)) ''sigmahub-'' \<and> CHR ''/'' \<notin> set (bind_source (bind_text v)) \<and>
    bind_source (bind_text v) = takeWhile (\<lambda>c. c \<noteq> CHR '':'') (V_Name v)"
proof -
  obtain t where n: "V_Name v = ''sigmahub-'' @ t"
    using assms by (auto simp: isManagedName_iff has_prefix_iff)
  have src: "bind_source (bind_text v) = takeWhile (\<lambda>c. c \<noteq> CHR '':'') (V_Name v)"
    by (simp add: bind_source_def bind_text_def takeWhile_sep)
  have "set (takeWhile (\<lambda>c. c \<noteq> CHR '':'') (V_Name v)) \<subseteq> set (V_Name v)"
    by (auto dest: set_takeWhileD)
  with assms have "CHR ''/'' \<notin> set (bind_source (bind_text v))"
    unfolding src by (auto simp: isManagedName_iff)
  moreover have "has_prefix (bind_source (bind_text v)) ''sigmahub-''"
    unfolding src n by simp
  ultimately show ?thesis using src by simp
qed

lemma body_labels_managed:
  "mget (body_labels sid s h) LabelManaged = ''true''"
  "mget (body_labels sid s h) LabelResourceID = ResourceID s"
  "mget (body_labels sid s h) LabelSpecHash = h"
  "sid \<noteq> '''' \<Longrightarrow> mget (body_labels sid s h) LabelServerID = sid"
  "Service s \<noteq> '''' \<Longrightarrow> mget (body_labels sid s h) LabelService = Service s"
  by (auto simp: body_labels_def managedLabels_def Let_def label_defs mget_def map_add_def)

lemma filepath_base_plain: "n \<noteq> [] \<Longrightarrow> CHR ''/'' \<notin> set n \<Longrightarrow> filepath_base n = n"
proof -
  assume n: "n \<noteq> []" "CHR ''/'' \<notin> set n"
  then have "dropWhile (\<lambda>c. c = CHR ''/'') (rev n) = rev n"
    by (intro dropWhile_id) auto
  with n show ?thesis by (simp add: filepath_base_def cut_last_None [THEN iffD2])
qed

lemma safeSecretFileName_iff: "safeSecretFileName n = Inr m \<longleftrightarrow>
    m = n \<and> n \<noteq> '''' \<and> n \<noteq> ''.'' \<and> n \<noteq> ''..'' \<and>
    CHR ''/'' \<notin> set n \<and> CHR 0x5C \<notin> set n \<and> CHR 0x00 \<notin> set n"
  using filepath_base_plain [of n] by (auto simp: safeSecretFileName_def contains_any_iff)

section \<open>Properties\<close>

definition demo_spec :: ContainerSpec where
  "demo_spec =
     \<lparr>ResourceID = ''res'', Service = '''', Name = ''sigmahub-res'', Image = ''ghcr.io:443/acme/web:1.2'',
      Network = ''sigmahub-proj'', NetworkAliases = [], Env = [], Ports = [],
      Volumes = [\<lparr>V_Name = ''sigmahub-res-data'', V_MountPath = ''/data'', V_ReadOnly = False\<rparr>],
      Cmd = [], User = '''', ReadOnlyRootfs = True, Tmpfs = [], CPUs = 0, MemoryMB = 256, Restart = '''',
      SecretRefs = [], Labels = Map.empty, GPUs = 0, ShmSizeMB = 0, Privileged = False,
      HostNetwork = False, HostPID = False, HostMounts = []\<rparr>"

lemma demo_spec_passes: "CheckPolicy demo_spec = None"
  by code_simp

text \<open>A create request the daemon can serve without giving up the isolation of the host.\<close>

definition isolated :: "CreateBody \<Rightarrow> bool" where
  "isolated b \<longleftrightarrow> (let hc = B_HostConfig b in
    \<not> HC_Privileged hc \<and>
    {''no-new-privileges:true'', ''apparmor=docker-default''} \<subseteq> set (SecurityOpt hc) \<and>
    (\<exists>n. NetworkMode hc = Some n \<and>
       (n = ''none'' \<or> has_prefix n ''sigmahub-'' \<and> CHR ''/'' \<notin> set n \<and> \<not> contains n ''..'')) \<and>
    (\<forall>x \<in> set (Binds hc). has_prefix (bind_source x) ''sigmahub-'' \<and> CHR ''/'' \<notin> set (bind_source x)) \<and>
    (contains (B_Image b) ''@sha256:'' \<or>
     (\<exists>repo tag. B_Image b = repo @ '':'' @ tag \<and> tag \<noteq> '''' \<and> tag \<noteq> ''latest'' \<and> CHR ''/'' \<notin> set tag)))"

lemma policy_isolated:
  assumes "CheckPolicy s = None"
  shows "isolated (buildCreateBody sid (s\<lparr>Env := env\<rparr>) h)"
proof -
  from assms have vols: "\<forall>v \<in> set (Volumes s). isManagedName (V_Name v)"
    and net: "Network s = ''none'' \<or> isManagedName (Network s)"
    and pin: "checkImagePinned (Image s) = None" by (auto simp: CheckPolicy_None)
  from pin have "contains (Image s) ''@sha256:'' \<or>
      (\<exists>repo tag. Image s = repo @ '':'' @ tag \<and> tag \<noteq> '''' \<and> tag \<noteq> ''latest'' \<and> CHR ''/'' \<notin> set tag)"
    using image_tag_split [OF refl, of "Image s"] by (auto simp: checkImagePinned_None)
  moreover have "\<forall>x \<in> set (map bind_text (Volumes s)).
      has_prefix (bind_source x) ''sigmahub-'' \<and> CHR ''/'' \<notin> set (bind_source x)"
    using vols by (auto dest!: bspec bind_source_managed)
  ultimately show ?thesis using net by (auto simp: isolated_def buildCreateBody_def Let_def isManagedName_iff)
qed

text \<open>
  A spec that passes the local policy can only be turned into an isolated create request,
  whatever environment the secret resolution adds and whatever hash and server id are stamped on
  it: not privileged, no-new-privileges and the default AppArmor profile set, the network mode
  either none or a managed network name without path characters, every bind source (the text
  before the first colon, which is where the daemon looks for a host path) a managed volume name
  without a slash, and the image pinned by digest or by a tag other than latest.
\<close>

theorem policy_isolates:
  assumes "CheckPolicy s = None"
  shows "let b = buildCreateBody sid (s\<lparr>Env := env\<rparr>) h; hc = B_HostConfig b in
    \<not> HC_Privileged hc \<and>
    {''no-new-privileges:true'', ''apparmor=docker-default''} \<subseteq> set (SecurityOpt hc) \<and>
    (\<exists>n. NetworkMode hc = Some n \<and>
       (n = ''none'' \<or> has_prefix n ''sigmahub-'' \<and> CHR ''/'' \<notin> set n \<and> \<not> contains n ''..'')) \<and>
    (\<forall>x \<in> set (Binds hc). has_prefix (bind_source x) ''sigmahub-'' \<and> CHR ''/'' \<notin> set (bind_source x)) \<and>
    (contains (B_Image b) ''@sha256:'' \<or>
     (\<exists>repo tag. B_Image b = repo @ '':'' @ tag \<and> tag \<noteq> '''' \<and> tag \<noteq> ''latest'' \<and> CHR ''/'' \<notin> set tag))"
  using policy_isolated [OF assms, of sid env h] unfolding isolated_def Let_def .

theorem policy_isolates_witness:
  "let b = buildCreateBody ''srv'' (demo_spec\<lparr>Env := [(''K'', ''v'')]\<rparr>) ''h''; hc = B_HostConfig b in
    \<not> HC_Privileged hc \<and>
    {''no-new-privileges:true'', ''apparmor=docker-default''} \<subseteq> set (SecurityOpt hc) \<and>
    (\<exists>n. NetworkMode hc = Some n \<and>
       (n = ''none'' \<or> has_prefix n ''sigmahub-'' \<and> CHR ''/'' \<notin> set n \<and> \<not> contains n ''..'')) \<and>
    (\<forall>x \<in> set (Binds hc). has_prefix (bind_source x) ''sigmahub-'' \<and> CHR ''/'' \<notin> set (bind_source x)) \<and>
    (contains (B_Image b) ''@sha256:'' \<or>
     (\<exists>repo tag. B_Image b = repo @ '':'' @ tag \<and> tag \<noteq> '''' \<and> tag \<noteq> ''latest'' \<and> CHR ''/'' \<notin> set tag))"
  by (rule policy_isolates [OF demo_spec_passes])

end
