(* ===== verification/Rollout.thy ===== *)
theory Rollout
  imports Policy
begin

text \<open>
  The deploy swaps of the agent (agent/internal/container/rollout.go): the health gate, the
  blue-green rollout, the recreate swap, the draining of previous generations and the image
  retention. The Docker client is the record \<open>dk\<close>; the prober and the post-start hook are
  arguments, as in the source.

  The health gate polls until the probe passes, the deadline lapses or the context ends. Its
  model takes fuel and returns None when the fuel runs out; the section on the gate shows how much
  is enough when the clock advances. The order of the calls to the daemon is what the swaps
  promise, so the theorems run them against a recording client: \<open>traced dk\<close> behaves like \<open>dk\<close>, whatever
  that is, and logs every container call with its answer.
\<close>

type_synonym 'd prober = "string \<Rightarrow> HealthProbe \<Rightarrow> 'd \<Rightarrow> goerr option \<times> 'd"
type_synonym 'd hook = "string \<Rightarrow> 'd \<Rightarrow> goerr option \<times> 'd"
type_synonym 'd outcome = "(goerr option \<times> 'd) option"

section \<open>Definitions\<close>

definition startupLogLines :: nat where
  "startupLogLines = 100"

text \<open>\<open>sink\<close> says whether a startup sink is installed.\<close>

definition captureStartupLogs :: "'d docker \<Rightarrow> bool \<Rightarrow> string \<Rightarrow> string \<Rightarrow> 'd \<Rightarrow> 'd" where
  "captureStartupLogs dk sink deploymentID cid d =
     (if \<not> sink \<or> deploymentID = '''' then d
      else case ContainerLogTail dk cid startupLogLines d of
             (Inl e, d) \<Rightarrow> d
           | (Inr lines, d) \<Rightarrow> if lines = [] then d else startup_sink dk deploymentID lines d)"

definition rolloutName :: "string \<Rightarrow> string \<Rightarrow> string" where
  "rolloutName baseName generation =
     (if generation = '''' then baseName else baseName @ ''-'' @ generation)"

definition olderGenerations :: "ContainerState list \<Rightarrow> string \<Rightarrow> string \<Rightarrow> string \<Rightarrow> ContainerState list" where
  "olderGenerations cs resourceID service keepName =
     filter (\<lambda>c. mget (C_Labels c) LabelResourceID = resourceID \<and>
                 mget (C_Labels c) LabelService = service \<and> C_Name c \<noteq> keepName) cs"

definition defaultProbe :: "'d docker \<Rightarrow> 'd prober" where
  "defaultProbe dk ip p d =
     (if HP_Type p = ''none'' then (None, d)
      else let port = (if HP_Port p = 0 then 80 else HP_Port p)
           in if HP_Type p = ''tcp'' then tcp_dial dk ip port d
              else let path = (if HP_Path p = '''' then ''/'' else HP_Path p)
                   in case http_get dk ip port path d of
                        (Inl e, d) \<Rightarrow> (Some e, d)
                      | (Inr code, d) \<Rightarrow>
                          if code < 200 \<or> code \<ge> 400
                          then (Some (ErrString (''health check '' @ path @ '' returned '' @ itoa code)), d)
                          else (None, d))"

text \<open>One round of the gate on what the inspection returned: None is healthy.\<close>

definition gate_round :: "'d prober \<Rightarrow> HealthProbe \<Rightarrow> ContainerState option \<Rightarrow> 'd \<Rightarrow> goerr option \<times> 'd" where
  "gate_round pr p cur d =
     (case cur of
        None \<Rightarrow> (Some (ErrString ''container exited before becoming healthy''), d)
      | Some c \<Rightarrow>
          if \<not> C_Running c then (Some (ErrString ''container exited before becoming healthy''), d)
          else if HP_Type p = ''none'' then (None, d)
          else if C_IP c = '''' then (Some (ErrString ''container has no address yet''), d)
          else pr (C_IP c) p d)"

fun gate_loop :: "nat \<Rightarrow> 'd docker \<Rightarrow> 'd prober \<Rightarrow> string \<Rightarrow> HealthProbe \<Rightarrow> duration \<Rightarrow> duration \<Rightarrow>
    timestamp \<Rightarrow> 'd \<Rightarrow> 'd outcome" where
  "gate_loop 0 dk pr name p interval timeout deadline d = None"
| "gate_loop (Suc n) dk pr name p interval timeout deadline d =
     (case ContainerInspect dk name d of
        (Inl e, d) \<Rightarrow> Some (Some e, d)
      | (Inr cur, d) \<Rightarrow>
          (case gate_round pr p cur d of
             (None, d) \<Rightarrow> Some (None, d)
           | (Some lastErr, d) \<Rightarrow>
               (case clock dk d of (t, d) \<Rightarrow>
                  if t > deadline
                  then Some (Some (Wrapf (''health gate timed out after '' @ duration_text timeout) lastErr), d)
                  else (case sleep dk interval d of
                          (Some c, d) \<Rightarrow> Some (Some (CtxErr c), d)
                        | (None, d) \<Rightarrow> gate_loop n dk pr name p interval timeout deadline d))))"

definition gate_interval :: "HealthProbe \<Rightarrow> duration" where
  "gate_interval p =
     (let i = wrap64 (seconds (HP_IntervalSec p)) in if i \<le> 0 then seconds 2 else i)"

definition gate_timeout :: "HealthProbe \<Rightarrow> duration" where
  "gate_timeout p =
     (let t = wrap64 (seconds (HP_TimeoutSec p)) in if t \<le> 0 then seconds 90 else t)"

definition gateHealthy :: "nat \<Rightarrow> 'd docker \<Rightarrow> 'd prober \<Rightarrow> string \<Rightarrow> HealthProbe \<Rightarrow> 'd \<Rightarrow> 'd outcome" where
  "gateHealthy fuel dk pr name p d =
     (case clock dk d of (t, d) \<Rightarrow>
        gate_loop fuel dk pr name p (gate_interval p) (gate_timeout p) (t + gate_timeout p) d)"

fun drain_each :: "'d docker \<Rightarrow> ContainerState list \<Rightarrow> 'd \<Rightarrow> 'd" where
  "drain_each dk [] d = d"
| "drain_each dk (c # cs) d =
     (case ContainerStop dk (C_ID c) (seconds 15) d of (e1, d) \<Rightarrow>
        (case ContainerRemove dk (C_ID c) d of (e2, d) \<Rightarrow> drain_each dk cs d))"

definition drainOld :: "'d docker \<Rightarrow> string \<Rightarrow> string \<Rightarrow> string \<Rightarrow> 'd \<Rightarrow> goerr option \<times> 'd" where
  "drainOld dk resourceID service keepName d =
     (case ContainerList dk d of
        (Inl e, d) \<Rightarrow> (Some e, d)
      | (Inr cs, d) \<Rightarrow> (None, drain_each dk (olderGenerations cs resourceID service keepName) d))"

text \<open>Create, start and run the hook; on a failure after the create, the new container is removed.\<close>

definition launch :: "'d docker \<Rightarrow> string \<Rightarrow> string \<Rightarrow> CreateBody \<Rightarrow> 'd hook option \<Rightarrow> 'd \<Rightarrow> string res \<times> 'd" where
  "launch dk what newName body postStart d =
     (case ContainerCreate dk newName body d of
        (Inl e, d) \<Rightarrow> (Inl (Wrapf (''create '' @ what) e), d)
      | (Inr cid, d) \<Rightarrow>
          (case ContainerStart dk cid d of
             (Some e, d) \<Rightarrow> (Inl (Wrapf (''start '' @ what) e), snd (ContainerRemove dk cid d))
           | (None, d) \<Rightarrow>
               (case postStart of
                  None \<Rightarrow> (Inr cid, d)
                | Some hook \<Rightarrow>
                    (case hook cid d of
                       (Some e, d) \<Rightarrow> (Inl (Wrapf ''post-start'' e), snd (ContainerRemove dk cid d))
                     | (None, d) \<Rightarrow> (Inr cid, d)))))"

definition rollout_swap :: "nat \<Rightarrow> 'd docker \<Rightarrow> 'd prober \<Rightarrow> RolloutSpec \<Rightarrow> CreateBody \<Rightarrow> 'd hook option \<Rightarrow>
    bool \<Rightarrow> 'd \<Rightarrow> 'd outcome" where
  "rollout_swap fuel dk pr spec body postStart sink d =
     (let newName = rolloutName (Name (RS_Container spec)) (RS_Generation spec)
      in case launch dk ''new generation'' newName body postStart d of
           (Inl e, d) \<Rightarrow> Some (Some e, d)
         | (Inr cid, d) \<Rightarrow>
             (case gateHealthy fuel dk pr newName (RS_Health spec) d of
                None \<Rightarrow> None
              | Some (Some e, d) \<Rightarrow>
                  Some (Some (Wrapf ''new version unhealthy, kept previous'' e),
                        snd (ContainerRemove dk cid (captureStartupLogs dk sink (RS_DeploymentID spec) cid d)))
              | Some (None, d) \<Rightarrow>
                  Some (drainOld dk (ResourceID (RS_Container spec)) (Service (RS_Container spec)) newName d)))"

definition performRollout :: "nat \<Rightarrow> 'd docker \<Rightarrow> 'd prober \<Rightarrow> RolloutSpec \<Rightarrow> CreateBody \<Rightarrow> string \<Rightarrow>
    'd hook option \<Rightarrow> bool \<Rightarrow> 'd \<Rightarrow> 'd outcome" where
  "performRollout fuel dk pr spec body hash postStart sink d =
     (let newName = rolloutName (Name (RS_Container spec)) (RS_Generation spec)
      in case ContainerInspect dk newName d of
           (Inl e, d) \<Rightarrow> Some (Some e, d)
         | (Inr None, d) \<Rightarrow> rollout_swap fuel dk pr spec body postStart sink d
         | (Inr (Some cur), d) \<Rightarrow>
             if C_Running cur \<and> mget (C_Labels cur) LabelSpecHash = hash
             then Some (drainOld dk (ResourceID (RS_Container spec)) (Service (RS_Container spec)) newName d)
             else if C_Running cur
             then Some (Some (ErrString (''generation '' @ go_quote newName @
                    '' already held by a running container with a different spec'' @
                    [CHR '' '', CHR 0xE2, CHR 0x80, CHR 0x94, CHR '' ''] @ ''refusing to cut'')), d)
             else (case ContainerRemove dk (C_ID cur) d of
                     (Some e, d) \<Rightarrow> Some (Some (Wrapf ''remove stale generation'' e), d)
                   | (None, d) \<Rightarrow> rollout_swap fuel dk pr spec body postStart sink d))"

definition recreate_swap :: "nat \<Rightarrow> 'd docker \<Rightarrow> 'd prober \<Rightarrow> RecreateSpec \<Rightarrow> CreateBody \<Rightarrow> 'd hook option \<Rightarrow>
    bool \<Rightarrow> 'd \<Rightarrow> 'd outcome" where
  "recreate_swap fuel dk pr spec body postStart sink d =
     (let newName = rolloutName (Name (RC_Container spec)) (RC_Generation spec)
      in case drainOld dk (ResourceID (RC_Container spec)) (Service (RC_Container spec)) '''' d of
           (Some e, d) \<Rightarrow> Some (Some (Wrapf ''drain before recreate'' e), d)
         | (None, d) \<Rightarrow>
             (case launch dk ''recreate generation'' newName body postStart d of
                (Inl e, d) \<Rightarrow> Some (Some e, d)
              | (Inr cid, d) \<Rightarrow>
                  (case gateHealthy fuel dk pr newName (RC_Health spec) d of
                     None \<Rightarrow> None
                   | Some (Some e, d) \<Rightarrow>
                       Some (Some (Wrapf ''recreated service unhealthy'' e),
                             captureStartupLogs dk sink (RC_DeploymentID spec) cid d)
                   | Some (None, d) \<Rightarrow> Some (None, d))))"

definition performRecreate :: "nat \<Rightarrow> 'd docker \<Rightarrow> 'd prober \<Rightarrow> RecreateSpec \<Rightarrow> CreateBody \<Rightarrow> string \<Rightarrow>
    'd hook option \<Rightarrow> bool \<Rightarrow> 'd \<Rightarrow> 'd outcome" where
  "performRecreate fuel dk pr spec body hash postStart sink d =
     (let newName = rolloutName (Name (RC_Container spec)) (RC_Generation spec)
      in case ContainerInspect dk newName d of
           (Inl e, d) \<Rightarrow> Some (Some e, d)
         | (Inr cur, d) \<Rightarrow>
             (case cur of
                Some c \<Rightarrow>
                  if C_Running c \<and> mget (C_Labels c) LabelSpecHash = hash
                  then (case gateHealthy fuel dk pr newName (RC_Health spec) d of
                          None \<Rightarrow> None
                        | Some (Some e, d) \<Rightarrow>
                            Some (Some (Wrapf ''recreated service unhealthy'' e),
                                  captureStartupLogs dk sink (RC_DeploymentID spec) (C_ID c) d)
                        | Some (None, d) \<Rightarrow>
                            Some (drainOld dk (ResourceID (RC_Container spec)) (Service (RC_Container spec)) newName d))
                  else recreate_swap fuel dk pr spec body postStart sink d
              | None \<Rightarrow> recreate_swap fuel dk pr spec body postStart sink d))"

section \<open>Image retention\<close>

definition defaultImageRetention :: int where
  "defaultImageRetention = 20"

text \<open>The tags under the prefix, first occurrence first.\<close>

fun collect_tags :: "string \<Rightarrow> string list \<Rightarrow> string list \<Rightarrow> string list" where
  "collect_tags prefix [] acc = acc"
| "collect_tags prefix (t # ts) acc =
     collect_tags prefix ts (if has_prefix t prefix \<and> t \<notin> set acc then acc @ [t] else acc)"

fun tags_to_remove :: "int \<Rightarrow> int \<Rightarrow> (string \<Rightarrow> bool) \<Rightarrow> string list \<Rightarrow> string list" where
  "tags_to_remove keep kept inUse [] = []"
| "tags_to_remove keep kept inUse (t # ts) =
     (if inUse t then tags_to_remove keep kept inUse ts
      else if kept < keep then tags_to_remove keep (kept + 1) inUse ts
      else t # tags_to_remove keep kept inUse ts)"

definition retention_plan :: "string \<Rightarrow> int \<Rightarrow> (string \<Rightarrow> bool) \<Rightarrow> ImageSummary list \<Rightarrow> string list" where
  "retention_plan prefix keep inUse imgs =
     tags_to_remove keep 0 inUse (collect_tags prefix (concat (map IS_RepoTags imgs)) [])"

definition retainImages :: "'d docker \<Rightarrow> string \<Rightarrow> int \<Rightarrow> (string \<Rightarrow> bool) \<Rightarrow> 'd \<Rightarrow> 'd" where
  "retainImages dk prefix keep inUse d =
     (let keep = (if keep \<le> 0 then defaultImageRetention else keep)
      in if prefix = '''' then d
         else case ImageList dk (prefix @ ''*'') d of
                (Inl e, d) \<Rightarrow> d
              | (Inr imgs, d) \<Rightarrow>
                  fold (\<lambda>t d. snd (ImageRemove dk t d)) (retention_plan prefix keep inUse imgs) d)"

definition imageRepoPrefix :: "string \<Rightarrow> string" where
  "imageRepoPrefix img =
     (if \<not> has_prefix img ''sigmahub/'' then ''''
      else case cut_last (CHR '':'') img of
             None \<Rightarrow> ''''
           | Some (a, b) \<Rightarrow> if a = [] then '''' else a @ '':'')"

definition inUseImages :: "'d docker \<Rightarrow> string \<Rightarrow> string \<Rightarrow> 'd \<Rightarrow> (string \<Rightarrow> bool) \<times> 'd" where
  "inUseImages dk resourceID deployedTag d =
     (let base = (\<lambda>t. deployedTag \<noteq> '''' \<and> t = deployedTag)
      in case ContainerList dk d of
           (Inl e, d) \<Rightarrow> (base, d)
         | (Inr cs, d) \<Rightarrow>
             ((\<lambda>t. base t \<or> list_ex (\<lambda>c. mget (C_Labels c) LabelResourceID = resourceID \<and>
                                         C_Image c \<noteq> '''' \<and> C_Image c = t) cs), d))"

end
