(* ===== verification/Demo_Daemon.thy ===== *)
theory Demo_Daemon
  imports Rollout
begin

text \<open>
  A small in-memory Docker daemon, for the concrete runs of the development. The theorems of the
  components hold for every \<open>'d docker\<close>; this one only serves to evaluate them.
\<close>

record daemon =
  dm_containers :: "ContainerState list"
  dm_next :: nat
  dm_now :: int
  dm_images :: "ImageSummary list"
  dm_networks :: "string list"
  dm_volumes :: "(string \<times> strmap) list"
  dm_secrets :: "Secret list"
  dm_written :: "string list"

definition dm_find :: "string \<Rightarrow> daemon \<Rightarrow> ContainerState option" where
  "dm_find x m = find (\<lambda>c. C_Name c = x \<or> C_ID c = x) (dm_containers m)"

definition dm_update :: "string \<Rightarrow> (ContainerState \<Rightarrow> ContainerState) \<Rightarrow> daemon \<Rightarrow> goerr option \<times> daemon" where
  "dm_update x f m =
     (case dm_find x m of
        None \<Rightarrow> (Some (ErrString ''no such container''), m)
      | Some c0 \<Rightarrow> (None, m\<lparr>dm_containers := map (\<lambda>c. if C_ID c = C_ID c0 then f c else c) (dm_containers m)\<rparr>))"

definition dm_create :: "string \<Rightarrow> CreateBody \<Rightarrow> daemon \<Rightarrow> string res \<times> daemon" where
  "dm_create nm b m =
     (if dm_find nm m \<noteq> None then (Inl (ErrString ''409: name already in use''), m)
      else let i = ''c'' @ itoa_nat (dm_next m) in
           (Inr i, m\<lparr>dm_next := Suc (dm_next m),
                     dm_containers := dm_containers m @
                       [\<lparr>C_ID = i, C_Name = nm, C_Image = B_Image b, C_Running = False, C_Pid = 0, C_IP = '''',
                         C_Labels = B_Labels b\<rparr>]\<rparr>))"

definition dm_remove :: "string \<Rightarrow> daemon \<Rightarrow> goerr option \<times> daemon" where
  "dm_remove x m =
     (None, m\<lparr>dm_containers := filter (\<lambda>c. C_ID c \<noteq> x \<and> C_Name c \<noteq> x) (dm_containers m)\<rparr>)"

definition memory_docker :: "daemon docker" where
  "memory_docker =
     \<lparr>ContainerList = (\<lambda>m. (Inr (dm_containers m), m)),
      ContainerInspect = (\<lambda>n m. (Inr (dm_find n m), m)),
      ContainerCreate = dm_create,
      ContainerStart = (\<lambda>i. dm_update i (\<lambda>c. c\<lparr>C_Running := True, C_Pid := 7, C_IP := ''10.0.0.2''\<rparr>)),
      ContainerStop = (\<lambda>i g. dm_update i (\<lambda>c. c\<lparr>C_Running := False\<rparr>)),
      ContainerRemove = dm_remove,
      ContainerLogTail = (\<lambda>i n m. (Inr [''boot''], m)),
      ImageList = (\<lambda>r m. (Inr (dm_images m), m)),
      ImageRemove = (\<lambda>r m. (None, m\<lparr>dm_images := filter (\<lambda>i. r \<notin> set (IS_RepoTags i)) (dm_images m)\<rparr>)),
      ImagePullAuth = (\<lambda>i a m. (None, m)),
      NetworkExists = (\<lambda>n m. (Inr (n \<in> set (dm_networks m)), m)),
      NetworkCreate = (\<lambda>n l m. (None, m\<lparr>dm_networks := n # dm_networks m\<rparr>)),
      NetworkConnect = (\<lambda>n c m. (None, m)),
      NetworkRemove = (\<lambda>n m. (None, m\<lparr>dm_networks := filter (\<lambda>x. x \<noteq> n) (dm_networks m)\<rparr>)),
      ManagedNetworks = (\<lambda>m. (Inr (dm_networks m), m)),
      VolumeInspect = (\<lambda>n m. (Inr (map_of (dm_volumes m) n), m)),
      VolumeCreate = (\<lambda>n l m. (None, m\<lparr>dm_volumes := (n, l) # dm_volumes m\<rparr>)),
      VolumeRemove = (\<lambda>n m. (None, m\<lparr>dm_volumes := filter (\<lambda>x. fst x \<noteq> n) (dm_volumes m)\<rparr>)),
      ManagedVolumes = (\<lambda>m. (Inr (map fst (dm_volumes m)), m)),
      tcp_dial = (\<lambda>a p m. (None, m)),
      http_get = (\<lambda>a p u m. (Inr 200, m)),
      clock = (\<lambda>m. (dm_now m, m)),
      sleep = (\<lambda>i m. (None, m\<lparr>dm_now := dm_now m + i\<rparr>)),
      startup_sink = (\<lambda>i ls m. m),
      fetch_secrets = (\<lambda>r m. (Inr (dm_secrets m), m)),
      fetch_registry = (\<lambda>m. (Inr \<lparr>RA_Host = '''', RA_Username = ''u'', RA_Password = ''p''\<rparr>, m)),
      MkdirAll = (\<lambda>p m. (None, m)),
      Statfs = (\<lambda>p m. (Inr 16914836, m)),
      WriteFile = (\<lambda>p v m. (None, m\<lparr>dm_written := p # dm_written m\<rparr>))\<rparr>"

text \<open>A daemon that serves the first generation of \<open>demo_spec\<close>, and the rollout to the second.\<close>

definition demo_container :: "string \<Rightarrow> string \<Rightarrow> string \<Rightarrow> ContainerState" where
  "demo_container i nm h =
     \<lparr>C_ID = i, C_Name = nm, C_Image = Image demo_spec, C_Running = True, C_Pid = 5, C_IP = ''10.0.0.1'',
      C_Labels = [LabelManaged \<mapsto> ''true'', LabelResourceID \<mapsto> ResourceID demo_spec, LabelSpecHash \<mapsto> h]\<rparr>"

definition demo_daemon :: daemon where
  "demo_daemon =
     \<lparr>dm_containers = [demo_container ''c0'' ''sigmahub-res-g1'' ''h1''], dm_next = 1, dm_now = 0, dm_images = [],
      dm_networks = [''sigmahub-proj''], dm_volumes = [], dm_secrets = [], dm_written = []\<rparr>"

definition demo_probe :: HealthProbe where
  "demo_probe = \<lparr>HP_Type = ''http'', HP_Path = '''', HP_Port = 8080, HP_IntervalSec = 0, HP_TimeoutSec = 0\<rparr>"

definition demo_rollout :: RolloutSpec where
  "demo_rollout = \<lparr>RS_Container = demo_spec, RS_Generation = ''g2'', RS_Health = demo_probe, RS_DeploymentID = ''dep''\<rparr>"

definition demo_recreate :: RecreateSpec where
  "demo_recreate = \<lparr>RC_Container = demo_spec, RC_Generation = ''g2'', RC_Health = demo_probe, RC_DeploymentID = ''dep''\<rparr>"

definition demo_body :: CreateBody where
  "demo_body = buildCreateBody ''srv'' demo_spec ''h2''"

text \<open>A codec whose payloads are the decoded values, and a digest of the spec's name and image.\<close>

datatype payload =
    PNetwork NetworkSpec | PVolume VolumeSpec | PImage ImageSpec | PContainer ContainerSpec
  | PRollout RolloutSpec | PRecreate RecreateSpec | PSync resourceSyncSpec | PTraefik TraefikSpec

definition bad_json :: goerr where
  "bad_json = ErrString ''invalid character''"

definition demo_codec :: "payload codec" where
  "demo_codec =
     \<lparr>dec_network = (\<lambda>p. case p of PNetwork x \<Rightarrow> Inr x | _ \<Rightarrow> Inl bad_json),
      dec_volume = (\<lambda>p. case p of PVolume x \<Rightarrow> Inr x | _ \<Rightarrow> Inl bad_json),
      dec_image = (\<lambda>p. case p of PImage x \<Rightarrow> Inr x | _ \<Rightarrow> Inl bad_json),
      dec_container = (\<lambda>p. case p of PContainer x \<Rightarrow> Inr x | _ \<Rightarrow> Inl bad_json),
      dec_rollout = (\<lambda>p. case p of PRollout x \<Rightarrow> Inr x | _ \<Rightarrow> Inl bad_json),
      dec_recreate = (\<lambda>p. case p of PRecreate x \<Rightarrow> Inr x | _ \<Rightarrow> Inl bad_json),
      dec_sync = (\<lambda>p. case p of PSync x \<Rightarrow> Inr x | _ \<Rightarrow> Inl bad_json),
      dec_traefik = (\<lambda>p. case p of PTraefik x \<Rightarrow> Inr x | _ \<Rightarrow> Inl bad_json),
      SpecHash = (\<lambda>s. Name s @ ''|'' @ Image s),
      traefik_hash = (\<lambda>s. T_ServerID s @ ''|'' @ T_CertResolver s),
      sha256_hex8 = (\<lambda>x. x)\<rparr>"


end
