(* ===== verification/Rollout_Trace.thy ===== *)
theory Rollout_Trace
  imports Rollout Demo_Daemon
begin

text \<open>
  What the swaps of \<open>Rollout\<close> ask of the daemon, and in which order. \<open>traced dk\<close> is the client \<open>dk\<close> with a
  log of its container calls; \<open>dk\<close> itself is arbitrary, so every statement here holds for any daemon
  behaviour, failures included.
\<close>

section \<open>The recording client\<close>

datatype call =
    EList "ContainerState list option"
  | EInspect string "ContainerState option option"
  | ECreate string "string option"
  | EStart string
  | EStop string
  | ERemove string
  | ELog string
  | EProbe string bool

type_synonym 'd tr = "'d \<times> call list"

definition rec_call :: "('r \<Rightarrow> call list) \<Rightarrow> ('d \<Rightarrow> 'r \<times> 'd) \<Rightarrow> 'd tr \<Rightarrow> 'r \<times> 'd tr" where
  "rec_call ev f s = (case f (fst s) of (r, d) \<Rightarrow> (r, (d, snd s @ ev r)))"

abbreviation quiet :: "('d \<Rightarrow> 'r \<times> 'd) \<Rightarrow> 'd tr \<Rightarrow> 'r \<times> 'd tr" where
  "quiet \<equiv> rec_call (\<lambda>_. [])"

fun ok_of :: "'a res \<Rightarrow> 'a option" where
  "ok_of (Inl e) = None"
| "ok_of (Inr x) = Some x"

definition traced :: "'d docker \<Rightarrow> 'd tr docker" where
  "traced dk =
     \<lparr>ContainerList = rec_call (\<lambda>r. [EList (ok_of r)]) (ContainerList dk),
      ContainerInspect = (\<lambda>n. rec_call (\<lambda>r. [EInspect n (ok_of r)]) (ContainerInspect dk n)),
      ContainerCreate = (\<lambda>n b. rec_call (\<lambda>r. [ECreate n (ok_of r)]) (ContainerCreate dk n b)),
      ContainerStart = (\<lambda>i. rec_call (\<lambda>_. [EStart i]) (ContainerStart dk i)),
      ContainerStop = (\<lambda>i g. rec_call (\<lambda>_. [EStop i]) (ContainerStop dk i g)),
      ContainerRemove = (\<lambda>i. rec_call (\<lambda>_. [ERemove i]) (ContainerRemove dk i)),
      ContainerLogTail = (\<lambda>i n. rec_call (\<lambda>_. [ELog i]) (ContainerLogTail dk i n)),
      ImageList = (\<lambda>r. quiet (ImageList dk r)),
      ImageRemove = (\<lambda>r. quiet (ImageRemove dk r)),
      ImagePullAuth = (\<lambda>i a. quiet (ImagePullAuth dk i a)),
      NetworkExists = (\<lambda>n. quiet (NetworkExists dk n)),
      NetworkCreate = (\<lambda>n l. quiet (NetworkCreate dk n l)),
      NetworkConnect = (\<lambda>n c. quiet (NetworkConnect dk n c)),
      NetworkRemove = (\<lambda>n. quiet (NetworkRemove dk n)),
      ManagedNetworks = quiet (ManagedNetworks dk),
      VolumeInspect = (\<lambda>n. quiet (VolumeInspect dk n)),
      VolumeCreate = (\<lambda>n l. quiet (VolumeCreate dk n l)),
      VolumeRemove = (\<lambda>n. quiet (VolumeRemove dk n)),
      ManagedVolumes = quiet (ManagedVolumes dk),
      tcp_dial = (\<lambda>a p. quiet (tcp_dial dk a p)),
      http_get = (\<lambda>a p u. quiet (http_get dk a p u)),
      clock = quiet (clock dk),
      sleep = (\<lambda>i. quiet (sleep dk i)),
      startup_sink = (\<lambda>i ls s. (startup_sink dk i ls (fst s), snd s)),
      fetch_secrets = (\<lambda>r. quiet (fetch_secrets dk r)),
      fetch_registry = quiet (fetch_registry dk),
      MkdirAll = (\<lambda>p. quiet (MkdirAll dk p)),
      Statfs = (\<lambda>p. quiet (Statfs dk p)),
      WriteFile = (\<lambda>p v. quiet (WriteFile dk p v))\<rparr>"

definition traced_probe :: "'d prober \<Rightarrow> 'd tr prober" where
  "traced_probe pr = (\<lambda>ip p. rec_call (\<lambda>r. [EProbe ip (r = None)]) (pr ip p))"

definition traced_hook :: "'d hook \<Rightarrow> 'd tr hook" where
  "traced_hook h = (\<lambda>i. quiet (h i))"

lemma traced_simps [simp]:
  "ContainerList (traced dk) = rec_call (\<lambda>r. [EList (ok_of r)]) (ContainerList dk)"
  "ContainerInspect (traced dk) n = rec_call (\<lambda>r. [EInspect n (ok_of r)]) (ContainerInspect dk n)"
  "ContainerCreate (traced dk) n b = rec_call (\<lambda>r. [ECreate n (ok_of r)]) (ContainerCreate dk n b)"
  "ContainerStart (traced dk) i = rec_call (\<lambda>_. [EStart i]) (ContainerStart dk i)"
  "ContainerStop (traced dk) i g = rec_call (\<lambda>_. [EStop i]) (ContainerStop dk i g)"
  "ContainerRemove (traced dk) i = rec_call (\<lambda>_. [ERemove i]) (ContainerRemove dk i)"
  "ContainerLogTail (traced dk) i k = rec_call (\<lambda>_. [ELog i]) (ContainerLogTail dk i k)"
  "clock (traced dk) = quiet (clock dk)"
  "sleep (traced dk) g = quiet (sleep dk g)"
  "startup_sink (traced dk) i ls s = (startup_sink dk i ls (fst s), snd s)"
  by (simp_all add: traced_def)

lemma rec_call_eq: "rec_call ev f s = (r, t) \<longleftrightarrow>
    (\<exists>d. f (fst s) = (r, d) \<and> t = (d, snd s @ ev r))"
  by (auto simp: rec_call_def split: prod.splits)

lemma snd_rec_call: "snd (rec_call ev f s) = (snd (f (fst s)), snd s @ ev (fst (f (fst s))))"
  by (simp add: rec_call_def split: prod.splits)

section \<open>Pieces\<close>

fun cut_of :: "call \<Rightarrow> string option" where
  "cut_of (EStop i) = Some i"
| "cut_of (ERemove i) = Some i"
| "cut_of _ = None"

text \<open>The calls of the gate: inspections and probes only.\<close>

definition gate_calls :: "call list \<Rightarrow> bool" where
  "gate_calls cs = list_all (\<lambda>c. case c of EInspect n r \<Rightarrow> True | EProbe i b \<Rightarrow> True | _ \<Rightarrow> False) cs"

text \<open>
  Evidence that the new generation serves: a passed probe, or an inspection that shows it running
  when there is nothing to probe; for a rollout also when it runs with the wanted spec hash.
\<close>

definition gate_evidence :: "string \<Rightarrow> HealthProbe \<Rightarrow> call \<Rightarrow> bool" where
  "gate_evidence name p c \<longleftrightarrow>
     (\<exists>ip. c = EProbe ip True) \<or>
     (\<exists>s. c = EInspect name (Some (Some s)) \<and> C_Running s \<and> HP_Type p = ''none'')"

definition live_evidence :: "string \<Rightarrow> HealthProbe \<Rightarrow> string \<Rightarrow> call \<Rightarrow> bool" where
  "live_evidence name p hash c \<longleftrightarrow> gate_evidence name p c \<or>
     (\<exists>s. c = EInspect name (Some (Some s)) \<and> C_Running s \<and> mget (C_Labels s) LabelSpecHash = hash)"

lemma gate_round_traced:
  assumes "gate_round (traced_probe pr) p cur s = (r, t)"
  shows "\<exists>mid. snd t = snd s @ mid \<and> gate_calls mid \<and>
    (r = None \<longrightarrow> (mid = [] \<and> HP_Type p = ''none'' \<and> (\<exists>c. cur = Some c \<and> C_Running c)) \<or>
       (mid \<noteq> [] \<and> (\<exists>ip. last mid = EProbe ip True)))"
  using assms
  by (auto simp: gate_round_def traced_probe_def rec_call_eq gate_calls_def split: option.splits if_splits)

lemma gate_loop_traced:
  "gate_loop n (traced dk) (traced_probe pr) name p i t dl s = Some (e, s') \<Longrightarrow>
     \<exists>mid. snd s' = snd s @ mid \<and> gate_calls mid \<and>
       (e = None \<longrightarrow> mid \<noteq> [] \<and> gate_evidence name p (last mid))"
proof (induction n arbitrary: s)
  case 0
  then show ?case by simp
next
  case (Suc n)
  obtain r s1 where ins: "ContainerInspect (traced dk) name s = (r, s1)" by (metis surj_pair)
  then have s1: "snd s1 = snd s @ [EInspect name (ok_of r)]" by (auto simp: rec_call_eq)
  show ?case
  proof (cases r)
    case (Inl err)
    with Suc.prems ins s1 show ?thesis by (auto simp: gate_calls_def)
  next
    case (Inr cur)
    obtain q s2 where rd: "gate_round (traced_probe pr) p cur s1 = (q, s2)" by (metis surj_pair)
    from gate_round_traced [OF rd] obtain mid where mid: "snd s2 = snd s1 @ mid" "gate_calls mid"
      and live: "q = None \<Longrightarrow> (mid = [] \<and> HP_Type p = ''none'' \<and> (\<exists>c. cur = Some c \<and> C_Running c)) \<or>
        (mid \<noteq> [] \<and> (\<exists>ip. last mid = EProbe ip True))" by auto
    have log: "snd s2 = snd s @ EInspect name (ok_of r) # mid"
      "gate_calls (EInspect name (ok_of r) # mid)" using s1 mid by (auto simp: gate_calls_def)
    show ?thesis
    proof (cases q)
      case None
      with Suc.prems ins rd Inr have "e = None" "s' = s2" by auto
      with None log live Inr show ?thesis by (fastforce simp: gate_evidence_def)
    next
      case (Some err)
      obtain u s3 where clk: "clock (traced dk) s2 = (u, s3)" by (metis surj_pair)
      obtain c s4 where slp: "sleep (traced dk) i s3 = (c, s4)" by (metis surj_pair)
      have same: "snd s3 = snd s2" "snd s4 = snd s2" using clk slp by (auto simp: rec_call_eq)
      show ?thesis
      proof (cases "u > dl \<or> c \<noteq> None")
        case True
        with Suc.prems ins rd Inr Some clk slp same log show ?thesis
          by (auto split: if_splits option.splits simp del: traced_simps)
      next
        case False
        with Suc.prems ins rd Inr Some clk slp
        have "gate_loop n (traced dk) (traced_probe pr) name p i t dl s4 = Some (e, s')"
          by (auto simp del: traced_simps)
        from Suc.IH [OF this] obtain m2 where "snd s' = snd s4 @ m2" "gate_calls m2"
          "e = None \<longrightarrow> m2 \<noteq> [] \<and> gate_evidence name p (last m2)" by blast
        with same log show ?thesis
          by (intro exI [of _ "(EInspect name (ok_of r) # mid) @ m2"]) (auto simp: gate_calls_def)
      qed
    qed
  qed
qed

lemma gateHealthy_traced:
  assumes "gateHealthy n (traced dk) (traced_probe pr) name p s = Some (e, s')"
  shows "\<exists>mid. snd s' = snd s @ mid \<and> gate_calls mid \<and>
       (e = None \<longrightarrow> mid \<noteq> [] \<and> gate_evidence name p (last mid))"
proof -
  obtain u s1 where clk: "clock (traced dk) s = (u, s1)" by (metis surj_pair)
  then have "snd s1 = snd s" by (auto simp: rec_call_eq)
  moreover have "gate_loop n (traced dk) (traced_probe pr) name p (gate_interval p) (gate_timeout p)
      (u + gate_timeout p) s1 = Some (e, s')"
    using assms clk by (simp add: gateHealthy_def del: traced_simps)
  ultimately show ?thesis using gate_loop_traced by metis
qed

text \<open>The calls of a drain: the listing, then stop and remove for each older generation in it.\<close>

definition drain_log :: "string \<Rightarrow> string \<Rightarrow> string \<Rightarrow> ContainerState list option \<Rightarrow> call list" where
  "drain_log res svc keep cs =
     EList cs # (case cs of
        None \<Rightarrow> []
      | Some l \<Rightarrow> concat (map (\<lambda>c. [EStop (C_ID c), ERemove (C_ID c)]) (olderGenerations l res svc keep)))"

lemma drain_each_traced:
  "snd (drain_each (traced dk) cs s) =
     snd s @ concat (map (\<lambda>c. [EStop (C_ID c), ERemove (C_ID c)]) cs)"
  by (induction cs arbitrary: s) (auto simp: rec_call_def split: prod.splits)

lemma drainOld_traced:
  assumes "drainOld (traced dk) res svc keep s = (e, s')"
  shows "\<exists>cs. snd s' = snd s @ drain_log res svc keep cs \<and> (e = None \<longleftrightarrow> cs \<noteq> None)"
proof -
  obtain r s1 where ls: "ContainerList (traced dk) s = (r, s1)" by (metis surj_pair)
  then have "snd s1 = snd s @ [EList (ok_of r)]" by (auto simp: rec_call_eq)
  with assms ls show ?thesis
    by (cases r) (auto simp: drainOld_def drain_log_def drain_each_traced intro!: exI [of _ "ok_of r"]
        simp del: traced_simps)
qed

text \<open>Launching touches nothing but the container it created.\<close>

lemma launch_traced:
  assumes "launch (traced dk) what name body (map_option traced_hook hook) s = (r, s')"
  shows "\<exists>mid. snd s' = snd s @ mid \<and>
    (\<forall>c \<in> set mid. \<forall>i. cut_of c = Some i \<longrightarrow> ECreate name (Some i) \<in> set mid) \<and>
    (\<forall>i. r = Inr i \<longrightarrow> ECreate name (Some i) \<in> set mid)"
  using assms
  by (cases hook)
    (auto simp: launch_def rec_call_eq snd_rec_call traced_hook_def split: prod.splits sum.splits option.splits)

lemma capture_traced: "\<exists>mid. snd (captureStartupLogs (traced dk) sink dep i s) = snd s @ mid \<and>
    (\<forall>c \<in> set mid. cut_of c = None)"
  by (auto simp: captureStartupLogs_def rec_call_eq split: prod.splits sum.splits)

section \<open>The never-cut invariant\<close>

text \<open>
  \<open>own_cuts name cs\<close>: every stop and every removal in \<open>cs\<close> is of a container that was created in \<open>cs\<close>
  under \<open>name\<close>. \<open>swapped\<close> is how a swap may end: with an error and no drain, or with evidence that
  the new generation serves followed by one drain.
\<close>

definition own_cuts :: "string \<Rightarrow> call list \<Rightarrow> bool" where
  "own_cuts name cs \<longleftrightarrow> (\<forall>c \<in> set cs. \<forall>i. cut_of c = Some i \<longrightarrow> ECreate name (Some i) \<in> set cs)"

definition swapped :: "string \<Rightarrow> string \<Rightarrow> string \<Rightarrow> HealthProbe \<Rightarrow> string \<Rightarrow> call list \<Rightarrow> call list \<Rightarrow>
    goerr option \<Rightarrow> bool" where
  "swapped res svc name p hash pre post e \<longleftrightarrow>
     (post = [] \<and> e \<noteq> None) \<or>
     (pre \<noteq> [] \<and> live_evidence name p hash (last pre) \<and>
      (\<exists>cs. post = drain_log res svc name cs \<and> (e = None \<longleftrightarrow> cs \<noteq> None)))"

lemma gate_calls_no_cut: "gate_calls cs \<Longrightarrow> c \<in> set cs \<Longrightarrow> cut_of c = None"
  by (cases c) (auto simp: gate_calls_def list_all_iff)

lemma own_cutsD: "own_cuts n cs \<Longrightarrow> c \<in> set cs \<Longrightarrow> cut_of c = Some i \<Longrightarrow> ECreate n (Some i) \<in> set cs"
  unfolding own_cuts_def by blast

lemma own_cuts_append: "own_cuts n xs \<Longrightarrow> own_cuts n ys \<Longrightarrow> own_cuts n (xs @ ys)"
  by (auto simp: own_cuts_def)

lemma own_cuts_quiet: "(\<And>c. c \<in> set cs \<Longrightarrow> cut_of c = None) \<Longrightarrow> own_cuts n cs"
  by (auto simp: own_cuts_def)

lemma own_cuts_snoc_created:
  "own_cuts n cs \<Longrightarrow> ECreate n (Some i) \<in> set cs \<Longrightarrow> own_cuts n (cs @ [ERemove i])"
  by (auto simp: own_cuts_def)

lemma swapped_err: "e \<noteq> None \<Longrightarrow> swapped res svc nm p h pre [] e"
  by (simp add: swapped_def)

lemma swapped_drained:
  "pre \<noteq> [] \<Longrightarrow> live_evidence nm p h (last pre) \<Longrightarrow> (e = None \<longleftrightarrow> cs \<noteq> None) \<Longrightarrow>
     swapped res svc nm p h pre (drain_log res svc nm cs) e"
  unfolding swapped_def by blast

lemma exI2: "P a b \<Longrightarrow> \<exists>x y. P x y"
  by blast

lemma rollout_swap_traced:
  assumes run: "rollout_swap fuel (traced dk) (traced_probe pr) spec body (map_option traced_hook hook) sink s
      = Some (e, s')"
  defines "nm \<equiv> rolloutName (Name (RS_Container spec)) (RS_Generation spec)"
  shows "\<exists>pre post. snd s' = snd s @ pre @ post \<and> own_cuts nm pre \<and>
    swapped (ResourceID (RS_Container spec)) (Service (RS_Container spec)) nm (RS_Health spec) hash pre post e"
proof -
  obtain r s1 where la: "launch (traced dk) ''new generation'' nm body (map_option traced_hook hook) s = (r, s1)"
    by (metis surj_pair)
  from launch_traced [OF la] obtain m1 where m1: "snd s1 = snd s @ m1" "own_cuts nm m1"
    "\<And>i. r = Inr i \<Longrightarrow> ECreate nm (Some i) \<in> set m1" unfolding own_cuts_def by blast
  show ?thesis
  proof (cases r)
    case (Inl err)
    with run la m1 show ?thesis
      by (intro exI2 [of _ m1 "[]"]) (auto simp: rollout_swap_def nm_def [symmetric] swapped_def)
  next
    case (Inr cid)
    then obtain g s2 where gh: "gateHealthy fuel (traced dk) (traced_probe pr) nm (RS_Health spec) s1 = Some (g, s2)"
      using run la by (auto simp: rollout_swap_def nm_def [symmetric] split: option.splits)
    from gateHealthy_traced [OF gh] obtain m2 where m2: "snd s2 = snd s1 @ m2" "gate_calls m2"
      "g = None \<Longrightarrow> m2 \<noteq> [] \<and> live_evidence nm (RS_Health spec) hash (last m2)"
      unfolding live_evidence_def by blast
    have own2: "own_cuts nm (m1 @ m2)"
      by (rule own_cuts_append [OF m1(2) own_cuts_quiet]) (rule gate_calls_no_cut [OF m2(2)])
    show ?thesis
    proof (cases g)
      case None
      with run la gh Inr have "drainOld (traced dk) (ResourceID (RS_Container spec)) (Service (RS_Container spec)) nm s2
          = (e, s')" by (auto simp: rollout_swap_def nm_def [symmetric])
      from drainOld_traced [OF this] obtain cs where
        "snd s' = snd s2 @ drain_log (ResourceID (RS_Container spec)) (Service (RS_Container spec)) nm cs"
        "e = None \<longleftrightarrow> cs \<noteq> None" by blast
      moreover have "m1 @ m2 \<noteq> []" "live_evidence nm (RS_Health spec) hash (last (m1 @ m2))"
        using m2(3) [OF None] by auto
      ultimately show ?thesis using own2 m1(1) m2(1)
        by (intro exI2 [of _ "m1 @ m2"
              "drain_log (ResourceID (RS_Container spec)) (Service (RS_Container spec)) nm cs"] conjI swapped_drained)
          simp_all
    next
      case (Some err)
      let ?s3 = "captureStartupLogs (traced dk) sink (RS_DeploymentID spec) cid s2"
      from capture_traced [of dk sink "RS_DeploymentID spec" cid s2]
      obtain m3 where m3: "snd ?s3 = snd s2 @ m3" "own_cuts nm m3" by (auto simp: own_cuts_def)
      have "own_cuts nm ((m1 @ m2 @ m3) @ [ERemove cid])"
        using own_cuts_append [OF own2 m3(2)] m1(3) Inr by (intro own_cuts_snoc_created) auto
      moreover have "e \<noteq> None \<and> snd s' = snd ?s3 @ [ERemove cid]"
        using run la gh Inr Some by (auto simp: rollout_swap_def nm_def [symmetric] snd_rec_call)
      ultimately show ?thesis using m1 m2 m3
        by (intro exI2 [of _ "m1 @ m2 @ m3 @ [ERemove cid]" "[]"]) (auto simp: swapped_def)
    qed
  qed
qed

lemma swapped_prefix: "swapped res svc nm p h pre post e \<Longrightarrow> swapped res svc nm p h (xs @ pre) post e"
  by (auto simp: swapped_def)

text \<open>A swap that runs after the calls \<open>xs\<close>, whose cuts are of a leftover shown stopped by the first of them.\<close>

lemma rollout_swap_after:
  assumes run: "rollout_swap fuel (traced dk) (traced_probe pr) spec body (map_option traced_hook hook) sink s1
      = Some (e, (d', trc))"
    and xs: "snd s1 = xs" "xs \<noteq> []"
    and stale: "\<And>c i. c \<in> set xs \<Longrightarrow> cut_of c = Some i \<Longrightarrow>
      \<exists>s. hd xs = EInspect (rolloutName (Name (RS_Container spec)) (RS_Generation spec)) (Some (Some s)) \<and>
          C_ID s = i \<and> \<not> C_Running s"
  shows "\<exists>pre post. trc = pre @ post \<and>
    (\<forall>c \<in> set pre. \<forall>i. cut_of c = Some i \<longrightarrow>
       ECreate (rolloutName (Name (RS_Container spec)) (RS_Generation spec)) (Some i) \<in> set pre \<or>
       (\<exists>s. hd pre = EInspect (rolloutName (Name (RS_Container spec)) (RS_Generation spec)) (Some (Some s)) \<and>
            C_ID s = i \<and> \<not> C_Running s)) \<and>
    swapped (ResourceID (RS_Container spec)) (Service (RS_Container spec))
      (rolloutName (Name (RS_Container spec)) (RS_Generation spec)) (RS_Health spec) hash pre post e"
proof -
  from rollout_swap_traced [OF run, of hash] obtain pre post where
    log: "trc = (xs @ pre) @ post"
    and own: "own_cuts (rolloutName (Name (RS_Container spec)) (RS_Generation spec)) pre"
    and sw: "swapped (ResourceID (RS_Container spec)) (Service (RS_Container spec))
      (rolloutName (Name (RS_Container spec)) (RS_Generation spec)) (RS_Health spec) hash pre post e"
    using xs by auto
  have "hd (xs @ pre) = hd xs" using xs by simp
  with log own stale swapped_prefix [OF sw, of xs] show ?thesis
    by (intro exI2 [of _ "xs @ pre" post] conjI ballI allI impI) (auto dest: own_cutsD)
qed

text \<open>
  C1. A rollout never cuts (rollout.go, performRollout). Whatever the daemon, the prober and the
  hook answer, the calls of a rollout that returns split in two parts. In the first part, every
  stop or removal is of a container this rollout itself created under the new generation's name, or of the
  leftover of that name which the first inspection showed not running. The second part is either empty, and then the
  rollout returns an error, or it is one drain of the older generations of the same
  (resource, service) group, and then the last call before it showed the new
  generation live: a probe that passed, or an inspection that showed it running when there is
  nothing to probe or when it already carries the wanted spec hash.
\<close>

theorem rollout_never_cuts:
  assumes "performRollout fuel (traced dk) (traced_probe pr) spec body hash (map_option traced_hook hook) sink
      (d, []) = Some (e, (d', trc))"
  shows "\<exists>pre post. trc = pre @ post \<and>
    (\<forall>c \<in> set pre. \<forall>i. cut_of c = Some i \<longrightarrow>
       ECreate (rolloutName (Name (RS_Container spec)) (RS_Generation spec)) (Some i) \<in> set pre \<or>
       (\<exists>s. hd pre = EInspect (rolloutName (Name (RS_Container spec)) (RS_Generation spec)) (Some (Some s)) \<and>
            C_ID s = i \<and> \<not> C_Running s)) \<and>
    swapped (ResourceID (RS_Container spec)) (Service (RS_Container spec))
      (rolloutName (Name (RS_Container spec)) (RS_Generation spec)) (RS_Health spec) hash pre post e"
proof -
  let ?nm = "rolloutName (Name (RS_Container spec)) (RS_Generation spec)"
  obtain r s1 where ins: "ContainerInspect (traced dk) ?nm (d, []) = (r, s1)" by (metis surj_pair)
  then have s1: "snd s1 = [EInspect ?nm (ok_of r)]" by (auto simp: rec_call_eq)
  note run = assms [unfolded performRollout_def Let_def ins prod.case]
  consider (err) x where "r = Inl x" | (new) "r = Inr None" | (held) cur where "r = Inr (Some cur)"
    by (metis not_Some_eq sum.exhaust)
  then show ?thesis
  proof cases
    case err
    with run s1 show ?thesis by (intro exI2 [of _ trc "[]"]) (auto simp: swapped_def)
  next
    case new
    with run s1 show ?thesis
      by (intro rollout_swap_after [of fuel dk pr spec body hook sink s1 e d' trc "[EInspect ?nm (Some None)]"]) auto
  next
    case held
    show ?thesis
    proof (cases "C_Running cur")
      case True
      show ?thesis
      proof (cases "mget (C_Labels cur) LabelSpecHash = hash")
        case True
        with run held \<open>C_Running cur\<close>
        have "drainOld (traced dk) (ResourceID (RS_Container spec)) (Service (RS_Container spec)) ?nm s1 = (e, (d', trc))"
          by simp
        from drainOld_traced [OF this] s1 held obtain cs where
          "trc = [EInspect ?nm (Some (Some cur))] @
             drain_log (ResourceID (RS_Container spec)) (Service (RS_Container spec)) ?nm cs"
          "e = None \<longleftrightarrow> cs \<noteq> None" by auto
        moreover have "live_evidence ?nm (RS_Health spec) hash (EInspect ?nm (Some (Some cur)))"
          using True \<open>C_Running cur\<close> by (simp add: live_evidence_def)
        ultimately show ?thesis
          by (intro exI2 [of _ "[EInspect ?nm (Some (Some cur))]"
                "drain_log (ResourceID (RS_Container spec)) (Service (RS_Container spec)) ?nm cs"] conjI swapped_drained)
            simp_all
      next
        case False
        with run held \<open>C_Running cur\<close> s1 show ?thesis
          by (intro exI2 [of _ trc "[]"]) (auto simp: swapped_def)
      qed
    next
      case False
      obtain q s2 where rm: "ContainerRemove (traced dk) (C_ID cur) s1 = (q, s2)" by (metis surj_pair)
      then have s2: "snd s2 = [EInspect ?nm (Some (Some cur)), ERemove (C_ID cur)]"
        using s1 held by (auto simp: rec_call_eq)
      show ?thesis
      proof (cases q)
        case None
        with run held False rm s2 show ?thesis
          by (intro rollout_swap_after [of fuel dk pr spec body hook sink s2 e d' trc
                "[EInspect ?nm (Some (Some cur)), ERemove (C_ID cur)]"]) (auto simp del: traced_simps)
      next
        case (Some x)
        with run held False rm s2 show ?thesis
          by (intro exI2 [of _ trc "[]"]) (auto simp: swapped_def simp del: traced_simps)
      qed
    qed
  qed
qed


definition demo_rollout_run :: "daemon tr outcome" where
  "demo_rollout_run =
     performRollout 1 (traced memory_docker) (traced_probe (defaultProbe memory_docker)) demo_rollout demo_body
       ''h2'' None True (demo_daemon, [])"

lemma demo_rollout_drains:
  "(case demo_rollout_run of None \<Rightarrow> False
    | Some (e, d, trc) \<Rightarrow> e = None \<and> List.map_filter cut_of trc = [''c0'', ''c0''] \<and>
        map C_Name (dm_containers d) = [''sigmahub-res-g2''])"
  by code_simp

theorem rollout_never_cuts_witness:
  "\<exists>e d' trc. demo_rollout_run = Some (e, (d', trc)) \<and> (\<exists>pre post. trc = pre @ post \<and>
    (\<forall>c \<in> set pre. \<forall>i. cut_of c = Some i \<longrightarrow>
       ECreate ''sigmahub-res-g2'' (Some i) \<in> set pre \<or>
       (\<exists>s. hd pre = EInspect ''sigmahub-res-g2'' (Some (Some s)) \<and> C_ID s = i \<and> \<not> C_Running s)) \<and>
    swapped ''res'' '''' ''sigmahub-res-g2'' demo_probe ''h2'' pre post e)"
proof -
  obtain e d' trc where run: "demo_rollout_run = Some (e, (d', trc))"
    using demo_rollout_drains by (auto split: option.splits)
  have names: "rolloutName (Name (RS_Container demo_rollout)) (RS_Generation demo_rollout) = ''sigmahub-res-g2''"
    "ResourceID (RS_Container demo_rollout) = ''res''" "Service (RS_Container demo_rollout) = ''''"
    "RS_Health demo_rollout = demo_probe"
    by (simp_all add: demo_rollout_def demo_spec_def rolloutName_def)
  from run rollout_never_cuts [of 1 memory_docker "defaultProbe memory_docker" demo_rollout demo_body "''h2''" None
      True demo_daemon e d' trc, unfolded names] show ?thesis
    by (simp add: demo_rollout_run_def)
qed


end
