(* ===== verification/Rollout_Props.thy ===== *)
theory Rollout_Props
  imports Rollout_Trace
begin

text \<open>
  The recreate swap, the health gate's termination and the image retention of
  agent/internal/container/rollout.go.
\<close>

section \<open>Recreate\<close>

fun is_create :: "call \<Rightarrow> bool" where
  "is_create (ECreate n r) = True"
| "is_create _ = False"

definition no_create :: "call list \<Rightarrow> bool" where
  "no_create cs \<longleftrightarrow> (\<forall>c \<in> set cs. \<not> is_create c)"

lemma no_create_simps [simp]:
  "no_create []" "no_create (xs @ ys) \<longleftrightarrow> no_create xs \<and> no_create ys"
  "no_create (c # ys) \<longleftrightarrow> \<not> is_create c \<and> no_create ys"
  by (auto simp: no_create_def)

lemma no_create_gate: "gate_calls cs \<Longrightarrow> no_create cs"
  by (auto simp: gate_calls_def list_all_iff no_create_def split: call.splits elim!: is_create.elims)

lemma no_create_drain [simp]: "no_create (drain_log res svc keep cs)"
  by (auto simp: drain_log_def no_create_def split: option.splits)

lemma launch_first:
  assumes "launch (traced dk) what name body (map_option traced_hook hook) s = (r, s')"
  shows "\<exists>x rest. snd s' = snd s @ ECreate name x # rest \<and> no_create rest"
  using assms
  by (cases hook)
    (auto simp: launch_def rec_call_eq snd_rec_call traced_hook_def split: prod.splits sum.splits option.splits)

lemma capture_no_create:
  "\<exists>mid. snd (captureStartupLogs (traced dk) sink dep i s) = snd s @ mid \<and> no_create mid"
  by (auto simp: captureStartupLogs_def rec_call_eq split: prod.splits sum.splits)

text \<open>
  \<open>evidenced\<close>: the log holds the evidence of the gate, and nothing but a drain comes after it.
\<close>

definition evidenced :: "string \<Rightarrow> string \<Rightarrow> string \<Rightarrow> HealthProbe \<Rightarrow> call list \<Rightarrow> bool" where
  "evidenced res svc nm p cs \<longleftrightarrow>
     (\<exists>pre c post. cs = pre @ c # post \<and> gate_evidence nm p c \<and>
        (post = [] \<or> (\<exists>l. post = drain_log res svc nm l)))"

lemma evidencedI: "cs \<noteq> [] \<Longrightarrow> gate_evidence nm p (last cs) \<Longrightarrow> post = [] \<or> (\<exists>l. post = drain_log res svc nm l) \<Longrightarrow>
    evidenced res svc nm p (xs @ cs @ post)"
  unfolding evidenced_def
  by (metis append.assoc append_Cons append_Nil append_butlast_last_id)

lemma recreate_swap_traced:
  assumes run: "recreate_swap fuel (traced dk) (traced_probe pr) spec body (map_option traced_hook hook) sink s
      = Some (e, s')"
  defines "nm \<equiv> rolloutName (Name (RC_Container spec)) (RC_Generation spec)"
    and "res \<equiv> ResourceID (RC_Container spec)" and "svc \<equiv> Service (RC_Container spec)"
  shows "\<exists>cs rest. snd s' = snd s @ drain_log res svc '''' cs @ rest \<and>
    (rest = [] \<or> (\<exists>l x ts. cs = Some l \<and> rest = ECreate nm x # ts \<and> no_create ts)) \<and>
    (e = None \<longrightarrow> evidenced res svc nm (RC_Health spec) (snd s'))"
proof -
  obtain q s1 where dr: "drainOld (traced dk) res svc '''' s = (q, s1)" by (metis surj_pair)
  from drainOld_traced [OF this] obtain cs where s1: "snd s1 = snd s @ drain_log res svc '''' cs"
    "q = None \<longleftrightarrow> cs \<noteq> None" by blast
  note run = run [unfolded recreate_swap_def Let_def, folded nm_def res_def svc_def, unfolded dr prod.case]
  show ?thesis
  proof (cases q)
    case (Some err)
    with run s1 show ?thesis by (intro exI2 [of _ cs "[]"]) auto
  next
    case None
    obtain r s2 where la: "launch (traced dk) ''recreate generation'' nm body (map_option traced_hook hook) s1 = (r, s2)"
      by (metis surj_pair)
    from launch_first [OF this] obtain x ts where s2: "snd s2 = snd s1 @ ECreate nm x # ts" "no_create ts" by blast
    show ?thesis
    proof (cases r)
      case (Inl err)
      with run None la s1 s2 show ?thesis by (intro exI2 [of _ cs "ECreate nm x # ts"]) auto
    next
      case (Inr cid)
      with run None la obtain g s3
        where gh: "gateHealthy fuel (traced dk) (traced_probe pr) nm (RC_Health spec) s2 = Some (g, s3)"
        by (auto split: option.splits)
      from gateHealthy_traced [OF gh] obtain m where m: "snd s3 = snd s2 @ m" "gate_calls m"
        "g = None \<Longrightarrow> m \<noteq> [] \<and> gate_evidence nm (RC_Health spec) (last m)" by blast
      show ?thesis
      proof (cases g)
        case None
        with run \<open>q = None\<close> la Inr gh have "e = None" "s' = s3" by auto
        moreover have "evidenced res svc nm (RC_Health spec) (snd s3)"
          using evidencedI [of m nm "RC_Health spec" "[]" res svc "snd s2"] m None by simp
        ultimately show ?thesis using s1 s2 m None \<open>q = None\<close> no_create_gate [OF m(2)]
          by (intro exI2 [of _ cs "ECreate nm x # ts @ m"]) auto
      next
        case (Some err)
        from capture_no_create [of dk sink "RC_DeploymentID spec" cid s3] obtain k where
          "snd (captureStartupLogs (traced dk) sink (RC_DeploymentID spec) cid s3) = snd s3 @ k" "no_create k" by blast
        with run \<open>q = None\<close> la Inr gh Some s1 s2 m no_create_gate [OF m(2)] show ?thesis
          by (intro exI2 [of _ cs "ECreate nm x # ts @ m @ k"]) auto
      qed
    qed
  qed
qed

lemma no_create_split: "no_create pre \<Longrightarrow> pre @ ECreate n r # ts = p2 @ ECreate n' r' # post \<Longrightarrow> no_create ts \<Longrightarrow>
    n' = n \<and> p2 = pre"
  by (auto simp: append_eq_append_conv2 append_eq_Cons_conv Cons_eq_append_conv)

lemma converged_recreate_traced:
  assumes ins: "ContainerInspect (traced dk) nm s = (Inr (Some c), s1)"
    and gh: "gateHealthy fuel (traced dk) (traced_probe pr) nm p s1 = Some (g, s2)"
    and fin: "(case g of
        None \<Rightarrow> drainOld (traced dk) res svc nm s2
      | Some err \<Rightarrow> (Some (Wrapf txt err), captureStartupLogs (traced dk) sink dep cid s2)) = (e, s')"
    and empty: "snd s = []"
  shows "no_create (snd s') \<and> (e = None \<longrightarrow> evidenced res svc nm p (snd s'))"
proof -
  from ins empty have s1: "snd s1 = [EInspect nm (Some (Some c))]" by (auto simp: rec_call_eq)
  from gateHealthy_traced [OF gh] obtain m where m: "snd s2 = snd s1 @ m" "gate_calls m"
    "g = None \<Longrightarrow> m \<noteq> [] \<and> gate_evidence nm p (last m)" by blast
  show ?thesis
  proof (cases g)
    case None
    with fin have "drainOld (traced dk) res svc nm s2 = (e, s')" by simp
    from drainOld_traced [OF this] obtain cs where s': "snd s' = snd s1 @ m @ drain_log res svc nm cs"
      using m by auto
    have "evidenced res svc nm p (snd s')"
      unfolding s' by (rule evidencedI) (use m None in auto)
    with s' s1 no_create_gate [OF m(2)] show ?thesis by simp
  next
    case (Some err)
    from capture_no_create [of dk sink dep cid s2] obtain k where
      "snd (captureStartupLogs (traced dk) sink dep cid s2) = snd s2 @ k" "no_create k" by blast
    with fin Some s1 m no_create_gate [OF m(2)] show ?thesis by auto
  qed
qed

text \<open>
  C18. A recreate never lets two generations hold the exclusive resource and never reports success on
  trust (rollout.go, performRecreate). Whatever the daemon answers: a container is created under the
  generation's name only, and only right after a drain that listed the containers successfully and
  stopped and removed every one of the (resource, service) group; and when no error is returned, the
  calls include the evidence of the health gate (a passed probe, or the container seen running
  when there is nothing to probe), also when the generation was already running with the
  wanted spec hash, with nothing but a drain of the other generations after it.
\<close>

theorem recreate_exclusive:
  assumes "performRecreate fuel (traced dk) (traced_probe pr) spec body hash (map_option traced_hook hook) sink
      (d, []) = Some (e, (d', trc))"
  defines "nm \<equiv> rolloutName (Name (RC_Container spec)) (RC_Generation spec)"
    and "res \<equiv> ResourceID (RC_Container spec)" and "svc \<equiv> Service (RC_Container spec)"
  shows "(\<forall>pre n r post. trc = pre @ ECreate n r # post \<longrightarrow>
       n = nm \<and> (\<exists>x cs. pre = EInspect nm x # drain_log res svc '''' (Some cs))) \<and>
    (e = None \<longrightarrow> evidenced res svc nm (RC_Health spec) trc)"
proof -
  obtain q s1 where ins: "ContainerInspect (traced dk) nm (d, []) = (q, s1)" by (metis surj_pair)
  then have s1: "snd s1 = [EInspect nm (ok_of q)]" by (auto simp: rec_call_eq)
  note run = assms(1) [unfolded performRecreate_def Let_def, folded nm_def res_def svc_def, unfolded ins prod.case]
  have none: "no_create trc \<Longrightarrow> ?thesis" if "e = None \<longrightarrow> evidenced res svc nm (RC_Health spec) trc"
    using that by (auto simp: no_create_def)
  have swap: ?thesis
    if "recreate_swap fuel (traced dk) (traced_probe pr) spec body (map_option traced_hook hook) sink s1
        = Some (e, (d', trc))"
  proof -
    from recreate_swap_traced [OF that, folded nm_def res_def svc_def] s1 obtain cs rest where
      trc: "trc = (EInspect nm (ok_of q) # drain_log res svc '''' cs) @ rest"
      and rest: "rest = [] \<or> (\<exists>l x ts. cs = Some l \<and> rest = ECreate nm x # ts \<and> no_create ts)"
      and ev: "e = None \<longrightarrow> evidenced res svc nm (RC_Health spec) trc" by auto
    have "n = nm \<and> (\<exists>x l. pre = EInspect nm x # drain_log res svc '''' (Some l))"
      if eq: "trc = pre @ ECreate n r # post" for pre n r post
    proof (cases rest)
      case Nil
      then have "no_create trc" using trc by simp
      with eq show ?thesis by simp
    next
      case (Cons a b)
      with rest obtain l x ts where *: "cs = Some l" "rest = ECreate nm x # ts" "no_create ts" by blast
      have "no_create (EInspect nm (ok_of q) # drain_log res svc '''' cs)" by simp
      from no_create_split [OF this eq [unfolded trc *(2)] *(3)] * show ?thesis by blast
    qed
    with ev show ?thesis by blast
  qed
  consider (err) x where "q = Inl x" | (new) "q = Inr None" | (held) cur where "q = Inr (Some cur)"
    by (metis not_Some_eq sum.exhaust)
  then show ?thesis
  proof cases
    case err
    with run s1 show ?thesis by (intro none) auto
  next
    case new
    with run show ?thesis by (intro swap) simp
  next
    case held
    show ?thesis
    proof (cases "C_Running cur \<and> mget (C_Labels cur) LabelSpecHash = hash")
      case False
      with run held show ?thesis by (intro swap) auto
    next
      case True
      with run held obtain g s2
        where gh: "gateHealthy fuel (traced dk) (traced_probe pr) nm (RC_Health spec) s1 = Some (g, s2)"
        by (auto split: option.splits)
      from converged_recreate_traced [OF ins [unfolded held] this, of res svc
          "''recreated service unhealthy''" sink "RC_DeploymentID spec" "C_ID cur" e "(d', trc)"] run held True gh
      show ?thesis by (intro none) (auto split: option.splits)
    qed
  qed
qed

definition demo_recreate_run :: "daemon tr outcome" where
  "demo_recreate_run =
     performRecreate 1 (traced memory_docker) (traced_probe (defaultProbe memory_docker)) demo_recreate demo_body
       ''h2'' None True (demo_daemon, [])"

lemma demo_recreate_cuts_first:
  "(case demo_recreate_run of None \<Rightarrow> False
    | Some (e, d, trc) \<Rightarrow> e = None \<and> map is_create trc = [False, False, False, False, True, False, False, False] \<and>
        map C_Name (dm_containers d) = [''sigmahub-res-g2''])"
  by code_simp

theorem recreate_exclusive_witness:
  "\<exists>d' trc. demo_recreate_run = Some (None, (d', trc)) \<and>
    (\<forall>pre n r post. trc = pre @ ECreate n r # post \<longrightarrow>
       n = ''sigmahub-res-g2'' \<and> (\<exists>x cs. pre = EInspect ''sigmahub-res-g2'' x # drain_log ''res'' '''' '''' (Some cs))) \<and>
    evidenced ''res'' '''' ''sigmahub-res-g2'' demo_probe trc"
proof -
  obtain d' trc where run: "demo_recreate_run = Some (None, (d', trc))"
    using demo_recreate_cuts_first by (auto split: option.splits)
  have names: "rolloutName (Name (RC_Container demo_recreate)) (RC_Generation demo_recreate) = ''sigmahub-res-g2''"
    "ResourceID (RC_Container demo_recreate) = ''res''" "Service (RC_Container demo_recreate) = ''''"
    "RC_Health demo_recreate = demo_probe"
    by (simp_all add: demo_recreate_def demo_spec_def rolloutName_def)
  have "performRecreate 1 (traced memory_docker) (traced_probe (defaultProbe memory_docker)) demo_recreate demo_body
       ''h2'' (map_option traced_hook None) True (demo_daemon, []) = Some (None, (d', trc))"
    using run by (simp add: demo_recreate_run_def)
  from recreate_exclusive [OF this, unfolded names] run show ?thesis by blast
qed


section \<open>The health gate returns\<close>

text \<open>
  \<open>steady dk pr\<close>: the clock never runs backwards, neither across a reading nor across an
  inspection or a probe, and a timer that fires has waited at least its interval. This is what Go
  documents of \<open>time.Now\<close> (its monotonic reading) and of \<open>time.After\<close>.
\<close>

definition now_at :: "'d docker \<Rightarrow> 'd \<Rightarrow> timestamp" where
  "now_at dk d = fst (clock dk d)"

definition steady :: "'d docker \<Rightarrow> 'd prober \<Rightarrow> bool" where
  "steady dk pr \<longleftrightarrow>
     (\<forall>d. now_at dk d \<le> now_at dk (snd (clock dk d))) \<and>
     (\<forall>n d. now_at dk d \<le> now_at dk (snd (ContainerInspect dk n d))) \<and>
     (\<forall>ip p d. now_at dk d \<le> now_at dk (snd (pr ip p d))) \<and>
     (\<forall>i d. fst (sleep dk i d) = None \<longrightarrow> now_at dk d + i \<le> now_at dk (snd (sleep dk i d)))"

lemma steadyD:
  assumes "steady dk pr"
  shows "clock dk d = (t, d1) \<Longrightarrow> t = now_at dk d \<and> t \<le> now_at dk d1"
    "ContainerInspect dk n d = (r, d1) \<Longrightarrow> now_at dk d \<le> now_at dk d1"
    "gate_round pr p cur d = (e, d1) \<Longrightarrow> now_at dk d \<le> now_at dk d1"
    "sleep dk i d = (None, d1) \<Longrightarrow> now_at dk d + i \<le> now_at dk d1"
  using assms unfolding steady_def gate_round_def now_at_def
  by (auto split: option.splits if_splits dest!: spec [where x = d]) (metis fst_conv snd_conv order_refl)+

lemma gate_loop_returns:
  assumes st: "steady dk pr" and i: "0 < i"
  shows "dl - now_at dk d < int n * i \<Longrightarrow> n < m \<Longrightarrow> gate_loop m dk pr name p i t dl d \<noteq> None"
proof (induction n arbitrary: m d)
  case (0 m d)
  then obtain k where m: "m = Suc k" by (cases m) auto
  obtain r d1 where a: "ContainerInspect dk name d = (r, d1)" by (metis surj_pair)
  show ?case
  proof (cases r)
    case (Inr cur)
    obtain e d2 where b: "gate_round pr p cur d1 = (e, d2)" by (metis surj_pair)
    obtain u d3 where c: "clock dk d2 = (u, d3)" by (metis surj_pair)
    from steadyD(2) [OF st a] steadyD(3) [OF st b] steadyD(1) [OF st c] 0 have "u > dl" by auto
    with m a b c Inr show ?thesis by (auto split: option.splits)
  qed (use m a in simp)
next
  case (Suc n m d)
  then obtain k where m: "m = Suc k" "n < k" by (cases m) auto
  obtain r d1 where a: "ContainerInspect dk name d = (r, d1)" by (metis surj_pair)
  show ?case
  proof (cases r)
    case (Inr cur)
    obtain e d2 where b: "gate_round pr p cur d1 = (e, d2)" by (metis surj_pair)
    obtain u d3 where c: "clock dk d2 = (u, d3)" by (metis surj_pair)
    obtain q d4 where f: "sleep dk i d3 = (q, d4)" by (metis surj_pair)
    show ?thesis
    proof (cases q)
      case None
      from steadyD(2) [OF st a] steadyD(3) [OF st b] steadyD(1) [OF st c] steadyD(4) [OF st f [unfolded None]]
      have "now_at dk d + i \<le> now_at dk d4" by linarith
      moreover have "int (Suc n) * i = int n * i + i" by (simp add: algebra_simps)
      ultimately have "dl - now_at dk d4 < int n * i" using Suc.prems(1) by linarith
      from Suc.IH [OF this m(2)] m a b c f Inr None show ?thesis by (auto split: option.splits)
    qed (use m a b c f Inr in \<open>auto split: option.splits\<close>)
  qed (use m a in simp)
qed

lemma gate_interval_pos: "0 < gate_interval p" and gate_timeout_pos: "0 < gate_timeout p"
  by (auto simp: gate_interval_def gate_timeout_def Let_def seconds_def nano_per_second_def)

text \<open>The rounds of the gate: one per interval until the deadline, and one past it.\<close>

definition gate_rounds :: "HealthProbe \<Rightarrow> nat" where
  "gate_rounds p = nat (gate_timeout p div gate_interval p) + 2"

lemma gateHealthy_returns:
  assumes "steady dk pr" "gate_rounds p \<le> fuel"
  shows "\<exists>e d'. gateHealthy fuel dk pr name p d = Some (e, d')"
proof -
  obtain u d1 where c: "clock dk d = (u, d1)" by (metis surj_pair)
  let ?n = "nat (gate_timeout p div gate_interval p) + 1"
  have "0 \<le> gate_timeout p div gate_interval p"
    using gate_interval_pos [of p] gate_timeout_pos [of p] by (simp add: pos_imp_zdiv_nonneg_iff)
  then have n: "int ?n = gate_timeout p div gate_interval p + 1" by simp
  have "gate_timeout p < (gate_timeout p div gate_interval p + 1) * gate_interval p"
    using div_mult_mod_eq [of "gate_timeout p" "gate_interval p"]
      pos_mod_bound [OF gate_interval_pos, of "gate_timeout p" p] unfolding distrib_right by linarith
  then have "u + gate_timeout p - now_at dk d1 < int ?n * gate_interval p"
    unfolding n using steadyD(1) [OF assms(1) c] by linarith
  from gate_loop_returns [OF assms(1) gate_interval_pos this] assms(2) c show ?thesis
    by (auto simp: gateHealthy_def gate_rounds_def)
qed

text \<open>
  C40. A rollout returns (rollout.go, performRollout and gateHealthy). When the clock is steady, the
  polling loop of the health gate makes at most timeout / interval + 2 rounds, with the timeout and
  the interval of the probe or their defaults, also when the products with a second overflow, so a
  swap with that much fuel ends with a result; and more fuel never takes it away.
\<close>

theorem rollout_returns:
  assumes "steady dk pr" "gate_rounds (RS_Health spec) \<le> fuel"
  shows "\<exists>e d'. performRollout fuel dk pr spec body hash hook sink d = Some (e, d')"
proof -
  have swap: "\<exists>e d'. rollout_swap fuel dk pr spec body hook sink d1 = Some (e, d')" for d1
    using gateHealthy_returns [OF assms, of "rolloutName (Name (RS_Container spec)) (RS_Generation spec)"]
    by (auto simp: rollout_swap_def Let_def split: prod.splits sum.splits option.splits) (metis option.distinct(1))+
  show ?thesis
    using swap by (auto simp: performRollout_def Let_def split: prod.splits sum.splits option.splits)
qed


lemma memory_docker_steady: "steady memory_docker (defaultProbe memory_docker)"
  by (auto simp: steady_def now_at_def memory_docker_def defaultProbe_def Let_def)

theorem rollout_returns_witness:
  "gate_rounds demo_probe = 47 \<and>
   (\<exists>e d'. performRollout 47 memory_docker (defaultProbe memory_docker) demo_rollout demo_body ''h2'' None True
      demo_daemon = Some (e, d'))"
proof -
  have rounds: "gate_rounds demo_probe = 47" by code_simp
  then have "gate_rounds (RS_Health demo_rollout) \<le> 47" by (simp add: demo_rollout_def)
  from rollout_returns [OF memory_docker_steady this] rounds show ?thesis by blast
qed

section \<open>Image retention\<close>

text \<open>The list without the later repetitions.\<close>

definition remdups_first :: "string list \<Rightarrow> string list" where
  "remdups_first xs = rev (remdups (rev xs))"

lemma remdups_absorb: "t \<in> set ys \<Longrightarrow> remdups (xs @ t # ys) = remdups (xs @ ys)"
  by (induction xs) auto

lemma collect_tags_eq:
  "distinct acc \<Longrightarrow> collect_tags prefix ts acc = remdups_first (acc @ filter (\<lambda>t. has_prefix t prefix) ts)"
proof (induction ts arbitrary: acc)
  case Nil
  then show ?case by (simp add: remdups_first_def distinct_remdups_id)
next
  case (Cons t ts)
  have "remdups_first (acc @ t # r) = remdups_first (acc @ r)" if "t \<in> set acc" for r
    using that by (simp add: remdups_first_def remdups_absorb)
  with Cons show ?case by auto
qed

lemma collect_tags_inv:
  "distinct acc \<Longrightarrow> distinct (collect_tags prefix ts acc) \<and>
     set (collect_tags prefix ts acc) = set acc \<union> {t \<in> set ts. has_prefix t prefix}"
  by (induction ts arbitrary: acc) auto

text \<open>The tags retention spares: those in use, and the first \<open>keep - kept\<close> of the others.\<close>

lemma tags_to_remove_eq:
  "tags_to_remove keep kept inUse ts = drop (nat (keep - kept)) (filter (\<lambda>t. \<not> inUse t) ts)"
proof (induction ts arbitrary: kept)
  case (Cons t ts)
  show ?case
  proof (cases "kept < keep")
    case True
    then have "nat (keep - kept) = Suc (nat (keep - (kept + 1)))" by simp
    with Cons True show ?thesis by simp
  next
    case False
    then show ?thesis using Cons [of kept] by simp
  qed
qed simp

lemma retention_plan_props:
  "let tags = collect_tags prefix (concat (map IS_RepoTags imgs)) [];
       plan = retention_plan prefix keep inUse imgs;
       idle = filter (\<lambda>t. \<not> inUse t) tags
   in distinct plan \<and>
      set plan \<subseteq> {t. has_prefix t prefix \<and> \<not> inUse t} \<and>
      take (nat keep) idle @ plan = idle \<and>
      tags = remdups_first (filter (\<lambda>t. has_prefix t prefix) (concat (map IS_RepoTags imgs)))"
proof -
  let ?tags = "collect_tags prefix (concat (map IS_RepoTags imgs)) []"
  have t: "distinct ?tags"
    "set ?tags = {t \<in> set (concat (map IS_RepoTags imgs)). has_prefix t prefix}"
    using collect_tags_inv [of "[]" prefix "concat (map IS_RepoTags imgs)"] by simp_all
  have plan: "retention_plan prefix keep inUse imgs = drop (nat keep) (filter (\<lambda>t. \<not> inUse t) ?tags)"
    by (simp add: retention_plan_def tags_to_remove_eq)
  have "set (drop (nat keep) (filter (\<lambda>t. \<not> inUse t) ?tags)) \<subseteq> {t. has_prefix t prefix \<and> \<not> inUse t}"
    using set_drop_subset t(2) by fastforce
  with t plan show ?thesis by (auto simp: Let_def collect_tags_eq)
qed

text \<open>
  Image retention (rollout.go, retainImages). With a prefix and the daemon's images, newest
  first, retention makes exactly one removal call for each tag of a plan and no
  other: the planned tags are distinct, carry the prefix, so nothing outside the resource's repository is
  touched, and none is in use. Listing the prefixed tags that are not in use in the
  daemon's order, without repetition, the first \<open>keep\<close> are spared and the plan is all the rest; a \<open>keep\<close> of
  zero or less means the default of 20.
\<close>

theorem retention_spares:
  assumes "prefix \<noteq> ''''" and "ImageList dk (prefix @ ''*'') d = (Inr imgs, d1)"
  shows "\<exists>tags plan.
      retainImages dk prefix keep inUse d = fold (\<lambda>t d. snd (ImageRemove dk t d)) plan d1 \<and>
      distinct plan \<and> set plan \<subseteq> {t. has_prefix t prefix \<and> \<not> inUse t} \<and>
      tags = remdups_first (filter (\<lambda>t. has_prefix t prefix) (concat (map IS_RepoTags imgs))) \<and>
      take (nat (if keep \<le> 0 then 20 else keep)) (filter (\<lambda>t. \<not> inUse t) tags) @ plan
        = filter (\<lambda>t. \<not> inUse t) tags"
proof -
  let ?keep = "if keep \<le> 0 then 20 else keep"
  have "retainImages dk prefix keep inUse d =
      fold (\<lambda>t d. snd (ImageRemove dk t d)) (retention_plan prefix ?keep inUse imgs) d1"
    using assms by (simp add: retainImages_def Let_def defaultImageRetention_def)
  with retention_plan_props [of prefix imgs ?keep inUse] show ?thesis
    unfolding Let_def by blast
qed

definition demo_images :: "ImageSummary list" where
  "demo_images =
     [\<lparr>IS_ID = ''i3'', IS_RepoTags = [''sigmahub/res:c''], IS_Created = 3\<rparr>,
      \<lparr>IS_ID = ''i2'', IS_RepoTags = [''sigmahub/res:b'', ''postgres:16''], IS_Created = 2\<rparr>,
      \<lparr>IS_ID = ''i1'', IS_RepoTags = [''sigmahub/res:a''], IS_Created = 1\<rparr>]"

lemma demo_retention: "retention_plan ''sigmahub/res:'' 1 (\<lambda>t. t = ''sigmahub/res:c'') demo_images = [''sigmahub/res:a'']"
  by code_simp

theorem retention_spares_witness:
  "\<exists>tags plan.
      retainImages memory_docker ''sigmahub/res:'' 1 (\<lambda>t. t = ''sigmahub/res:c'') (demo_daemon\<lparr>dm_images := demo_images\<rparr>)
        = fold (\<lambda>t d. snd (ImageRemove memory_docker t d)) plan (demo_daemon\<lparr>dm_images := demo_images\<rparr>) \<and>
      distinct plan \<and> set plan \<subseteq> {t. has_prefix t ''sigmahub/res:'' \<and> \<not> t = ''sigmahub/res:c''} \<and>
      tags = remdups_first (filter (\<lambda>t. has_prefix t ''sigmahub/res:'') (concat (map IS_RepoTags demo_images))) \<and>
      take (nat (if (1::int) \<le> 0 then 20 else 1)) (filter (\<lambda>t. \<not> t = ''sigmahub/res:c'') tags) @ plan
        = filter (\<lambda>t. \<not> t = ''sigmahub/res:c'') tags"
  by (rule retention_spares) (simp_all add: memory_docker_def)

end
