(* ===== verification/Bolt.thy ===== *)
theory Bolt
  imports Prelude
begin

text \<open>
  The storage interface of the agent. The journal and the desired-state store keep their data in
  bbolt buckets. What they rely on is the documented contract of a bucket: a map from byte
  strings to values whose cursor runs through the keys in byte order. The locale \<open>kv_bucket\<close>
  states that contract, with the lemmas its clients need; the interpretation at the end shows it
  for the sorted association lists that represent buckets in the model.

  A transaction commits or fails as the disk decides: the record \<open>db\<close> carries the outcomes of the
  coming transactions (True: the next one fails; past the end of the list every transaction
  commits). Values are kept decoded: the code stores the JSON encoding of a value and decodes the
  same type back.
\<close>

section \<open>The contract\<close>

text \<open>
  The cursor loop \<open>for k, v := c.Seek(prefix); k != nil && bytes.HasPrefix(k, prefix); k, v = c.Next()\<close>
  over the entries in key order: skip to the first key not below the prefix, stop at the first key
  without it.
\<close>

definition cursor_scan :: "string \<Rightarrow> (string \<times> 'v) list \<Rightarrow> (string \<times> 'v) list" where
  "cursor_scan p es = takeWhile (\<lambda>(k, v). has_prefix k p) (dropWhile (\<lambda>(k, v). k < p) es)"

locale kv_bucket =
  fixes get :: "string \<Rightarrow> 'b \<Rightarrow> 'v option"
    and put :: "string \<Rightarrow> 'v \<Rightarrow> 'b \<Rightarrow> 'b"
    and del :: "string \<Rightarrow> 'b \<Rightarrow> 'b"
    and entries :: "'b \<Rightarrow> (string \<times> 'v) list"
    and ok :: "'b \<Rightarrow> bool"
  assumes get_put: "ok b \<Longrightarrow> get k (put k' v b) = (if k = k' then Some v else get k b)"
    and get_del: "ok b \<Longrightarrow> get k (del k' b) = (if k = k' then None else get k b)"
    and ok_put: "ok b \<Longrightarrow> ok (put k v b)"
    and ok_del: "ok b \<Longrightarrow> ok (del k b)"
    and entries_get: "ok b \<Longrightarrow> (k, v) \<in> set (entries b) \<longleftrightarrow> get k b = Some v"
    and entries_sorted: "ok b \<Longrightarrow> sorted_wrt (<) (map fst (entries b))"
begin

lemma prefix_ge: "has_prefix k p \<Longrightarrow> p \<le> (k :: string)"
proof (induction k p rule: has_prefix.induct)
  case (3 c cs q qs)
  then show ?case by simp
qed simp_all

lemma prefix_convex: "has_prefix k p \<Longrightarrow> p \<le> j \<Longrightarrow> j \<le> k \<Longrightarrow> has_prefix j p"
proof (induction k p arbitrary: j rule: has_prefix.induct)
  case (1 s)
  then show ?case by simp
next
  case (2 q qs)
  then show ?case by simp
next
  case (3 c cs q qs)
  then obtain d ds where j: "j = d # ds" by (cases j) auto
  with 3 have "d = c" by auto
  with 3 j show ?case by auto
qed

lemma scan_set: "sorted_wrt (<) (map fst es) \<Longrightarrow>
    set (takeWhile (\<lambda>(k, v). has_prefix k p) (dropWhile (\<lambda>(k, v). k < p) es)) =
    {(k, v) \<in> set es. has_prefix k p}"
proof (induction es)
  case Nil
  show ?case by simp
next
  case (Cons e es)
  obtain k v where e: "e = (k, v)" by (cases e)
  show ?case
  proof (cases "k < p")
    case True
    then have "\<not> has_prefix k p" using prefix_ge [of k p] by auto
    with True e Cons show ?thesis by auto
  next
    case False
    have "has_prefix j p \<Longrightarrow> has_prefix k p" if "(j, u) \<in> set (e # es)" for j u
    proof -
      assume jp: "has_prefix j p"
      from that e Cons.prems have "k \<le> j" by (force simp: less_imp_le)
      then show "has_prefix k p" using prefix_convex [OF jp, of k] False by (auto simp: not_less)
    qed
    moreover have "takeWhile (\<lambda>(k, v). has_prefix k p) es =
        takeWhile (\<lambda>(k, v). has_prefix k p) (dropWhile (\<lambda>(k, v). k < p) es)"
    proof (cases es)
      case (Cons f fs)
      then have "\<not> fst f < p" using False e Cons.prems by (cases f) auto
      then show ?thesis using Cons by (cases f) auto
    qed simp
    ultimately show ?thesis using False e Cons by (auto split: if_splits)
  qed
qed

lemma scan_iff: "ok b \<Longrightarrow> (k, v) \<in> set (cursor_scan p (entries b)) \<longleftrightarrow> get k b = Some v \<and> has_prefix k p"
  by (auto simp: cursor_scan_def scan_set [OF entries_sorted] entries_get)

lemma entries_distinct: "ok b \<Longrightarrow> distinct (map fst (entries b))"
  using entries_sorted [of b] by (simp add: strict_sorted_iff)

lemma scan_distinct: "ok b \<Longrightarrow> distinct (map fst (cursor_scan p (entries b)))"
proof -
  assume "ok b"
  then have "distinct (map fst (dropWhile (\<lambda>(k, v). k < p) (entries b)))"
    using entries_distinct [of b] by (simp add: distinct_map)
      (meson inj_on_subset set_dropWhile_sub)
  then show ?thesis unfolding cursor_scan_def
    by (simp add: distinct_map) (meson inj_on_subset set_takeWhileD subsetI)
qed

end

section \<open>Buckets as sorted association lists\<close>

type_synonym 'v bucket = "(string \<times> 'v) list"

fun bput :: "string \<Rightarrow> 'v \<Rightarrow> 'v bucket \<Rightarrow> 'v bucket" where
  "bput k v [] = [(k, v)]"
| "bput k v (e # es) =
     (if k = fst e then (k, v) # es
      else if k < fst e then (k, v) # e # es
      else e # bput k v es)"

definition bget :: "string \<Rightarrow> 'v bucket \<Rightarrow> 'v option" where
  "bget k b = map_of b k"

definition bdel :: "string \<Rightarrow> 'v bucket \<Rightarrow> 'v bucket" where
  "bdel k b = filter (\<lambda>e. fst e \<noteq> k) b"

definition bucket_ok :: "'v bucket \<Rightarrow> bool" where
  "bucket_ok b = sorted_wrt (<) (map fst b)"

lemma bget_bput: "bget k (bput k' v b) = (if k = k' then Some v else bget k b)"
  unfolding bget_def by (induction b) (auto split: if_splits)

lemma keys_bput: "fst ` set (bput k v b) = insert k (fst ` set b)"
  by (induction b) (auto split: if_splits)

lemma bucket_ok_bput: "bucket_ok b \<Longrightarrow> bucket_ok (bput k v b)"
  unfolding bucket_ok_def
proof (induction b)
  case (Cons e es)
  have keys: "set (map fst (bput k v es)) = insert k (set (map fst es))"
    using keys_bput [of k v es] by simp
  from Cons show ?case by (auto simp: keys simp del: set_map)
qed simp

lemma bget_bdel: "bget k (bdel k' b) = (if k = k' then None else bget k b)"
  unfolding bget_def bdel_def by (induction b) auto

lemma bucket_ok_bdel: "bucket_ok b \<Longrightarrow> bucket_ok (bdel k b)"
  unfolding bucket_ok_def bdel_def by (induction b) auto

lemma bucket_ok_entries: "bucket_ok b \<Longrightarrow> (k, v) \<in> set b \<longleftrightarrow> bget k b = Some v"
  unfolding bucket_ok_def bget_def by (simp add: map_of_eq_Some_iff strict_sorted_iff)

interpretation kv: kv_bucket bget bput bdel "\<lambda>b. b" bucket_ok
  by unfold_locales
    (auto simp: bget_bput bget_bdel bucket_ok_bput bucket_ok_bdel bucket_ok_entries,
      simp add: bucket_ok_def)

lemma bucket_ok_Nil [simp]: "bucket_ok []"
  by (simp add: bucket_ok_def)

section \<open>Transactions\<close>

record disk =
  faults :: "bool list"

definition bolt_error :: goerr where
  "bolt_error = ErrString ''bolt: transaction failed''"

text \<open>Whether the next transaction fails, and the disk after it.\<close>

definition tx :: "'r disk_scheme \<Rightarrow> bool \<times> 'r disk_scheme" where
  "tx d = (case faults d of [] \<Rightarrow> (False, d) | f # fs \<Rightarrow> (f, d\<lparr>faults := fs\<rparr>))"

end
