(* ===== verification/Store.thy ===== *)
theory Store
  imports Container_Spec Bolt
begin

text \<open>
  The desired-state store of the agent (agent/internal/container/store.go): one bucket from container
  name to the last applied spec, on the transactions of \<open>Bolt\<close>, any of which can fail. A spec is kept as
  it is; the JSON text between \<open>PutDesired\<close> and \<open>AllDesired\<close> is not modelled.
\<close>

record store = disk +
  desired :: "ContainerSpec bucket"

definition OpenStore :: "bool list \<Rightarrow> store res" where
  "OpenStore fs = (let (fl, st) = tx \<lparr>faults = fs, desired = []\<rparr> in if fl then Inl bolt_error else Inr st)"

definition PutDesired :: "string \<Rightarrow> ContainerSpec \<Rightarrow> store \<Rightarrow> goerr option \<times> store" where
  "PutDesired name spec st =
     (let (fl, st') = tx st
      in if fl then (Some bolt_error, st') else (None, st'\<lparr>desired := bput name spec (desired st')\<rparr>))"

definition DeleteDesired :: "string \<Rightarrow> store \<Rightarrow> goerr option \<times> store" where
  "DeleteDesired name st =
     (let (fl, st') = tx st
      in if fl then (Some bolt_error, st') else (None, st'\<lparr>desired := bdel name (desired st')\<rparr>))"

definition HasDesired :: "string \<Rightarrow> store \<Rightarrow> bool res \<times> store" where
  "HasDesired name st =
     (let (fl, st') = tx st
      in if fl then (Inl bolt_error, st') else (Inr (bget name (desired st') \<noteq> None), st'))"

definition AllDesired :: "store \<Rightarrow> (string \<times> ContainerSpec) list res \<times> store" where
  "AllDesired st =
     (let (fl, st') = tx st in if fl then (Inl bolt_error, st') else (Inr (desired st'), st'))"

section \<open>The store as a map\<close>

definition sview :: "store \<Rightarrow> string \<Rightarrow> ContainerSpec option" where
  "sview st n = bget n (desired st)"

text \<open>What the driver relies on of a store: the law of each operation on the map it stands for.\<close>

locale desired_store =
  fixes put :: "string \<Rightarrow> 'v \<Rightarrow> 's \<Rightarrow> goerr option \<times> 's"
    and del :: "string \<Rightarrow> 's \<Rightarrow> goerr option \<times> 's"
    and has :: "string \<Rightarrow> 's \<Rightarrow> bool res \<times> 's"
    and all :: "'s \<Rightarrow> (string \<times> 'v) list res \<times> 's"
    and view :: "'s \<Rightarrow> string \<Rightarrow> 'v option"
    and ok :: "'s \<Rightarrow> bool"
    and calm :: "'s \<Rightarrow> bool" \<comment> \<open>no failure ahead\<close>
  assumes put_ok: "put n v s = (None, s') \<Longrightarrow> view s' = (view s)(n \<mapsto> v)"
    and put_err: "put n v s = (Some e, s') \<Longrightarrow> view s' = view s"
    and del_ok: "del n s = (None, s') \<Longrightarrow> view s' = (view s)(n := None)"
    and del_err: "del n s = (Some e, s') \<Longrightarrow> view s' = view s"
    and has_ok: "has n s = (Inr b, s') \<Longrightarrow> b = (view s n \<noteq> None)"
    and has_view: "has n s = (r, s') \<Longrightarrow> view s' = view s"
    and all_ok: "ok s \<Longrightarrow> all s = (Inr es, s') \<Longrightarrow> distinct (map fst es) \<and> map_of es = view s"
    and all_view: "all s = (q, s') \<Longrightarrow> view s' = view s"
    and ok_put: "ok s \<Longrightarrow> ok (snd (put n v s))"
    and ok_del: "ok s \<Longrightarrow> ok (snd (del n s))"
    and ok_has: "ok s \<Longrightarrow> ok (snd (has n s))"
    and ok_all: "ok s \<Longrightarrow> ok (snd (all s))"
    and calm_del: "calm s \<Longrightarrow> fst (del n s) = None \<and> calm (snd (del n s))"
begin

text \<open>Pruning the entries that satisfy a predicate, errors ignored, as the driver's loops do.\<close>

definition prune :: "(string \<Rightarrow> 'v \<Rightarrow> bool) \<Rightarrow> (string \<times> 'v) list \<Rightarrow> 's \<Rightarrow> 's" where
  "prune P es s = fold (\<lambda>(n, v) s. if P n v then snd (del n s) else s) es s"

lemma prune_simps [simp]:
  "prune P [] s = s"
  "prune P ((n, v) # es) s = prune P es (if P n v then snd (del n s) else s)"
  by (simp_all add: prune_def)

lemma del_view: "view (snd (del n s)) = (view s)(n := None) \<or> view (snd (del n s)) = view s"
  using del_ok [of n s "snd (del n s)"] del_err [of n s _ "snd (del n s)"]
  by (metis not_Some_eq prod.collapse)

lemma ok_prune: "ok s \<Longrightarrow> ok (prune P es s)"
  by (induction es arbitrary: s) (auto simp: ok_del)

lemma prune_subset: "view (prune P es s) n = Some v \<Longrightarrow> view s n = Some v"
proof (induction es arbitrary: s)
  case (Cons e es)
  obtain m w where e: "e = (m, w)" by (cases e)
  show ?case
  proof (cases "P m w")
    case True
    then have "view (snd (del m s)) n = Some v" using Cons e by simp
    then show ?thesis using del_view [of m s] by (auto split: if_splits)
  qed (use Cons e in simp)
qed simp

lemma prune_keeps: "(\<And>w. (n, w) \<in> set es \<Longrightarrow> \<not> P n w) \<Longrightarrow> view (prune P es s) n = view s n"
proof (induction es arbitrary: s)
  case (Cons e es)
  obtain m w where e: "e = (m, w)" by (cases e)
  have "view (if P m w then snd (del m s) else s) n = view s n"
    using Cons.prems e del_view [of m s] by auto
  then show ?case using Cons e by simp
qed simp

lemma prune_removes:
  "calm s \<Longrightarrow> (n, w) \<in> set es \<Longrightarrow> P n w \<Longrightarrow> view (prune P es s) n = None"
proof (induction es arbitrary: s)
  case (Cons e es)
  obtain m u where e: "e = (m, u)" by (cases e)
  show ?case
  proof (cases "(n, w) \<in> set es")
    case True
    then show ?thesis using Cons e by (simp add: calm_del)
  next
    case False
    then have "m = n" "u = w" using Cons.prems e by auto
    have "view (snd (del n s)) n = None"
      using calm_del [OF Cons.prems(1), of n] by (metis del_ok fun_upd_same prod.collapse)
    then have "view (prune P es (snd (del n s))) n = None"
      using prune_subset [of P es "snd (del n s)" n] by (metis not_None_eq)
    then show ?thesis using e \<open>m = n\<close> \<open>u = w\<close> Cons.prems(3) by simp
  qed
qed simp

lemma calm_prune: "calm s \<Longrightarrow> calm (prune P es s)"
  by (induction es arbitrary: s) (auto simp: calm_del)

lemma prune_exact:
  assumes "ok s" "calm s" "all s = (Inr es, s)"
  shows "view (prune P es s) n = (case view s n of None \<Rightarrow> None | Some v \<Rightarrow> if P n v then None else Some v)"
proof (cases "view s n")
  case None
  then show ?thesis using prune_subset [of P es s n] by (metis not_None_eq option.simps(4))
next
  case (Some v)
  have es: "distinct (map fst es)" "map_of es = view s" using all_ok [OF assms(1,3)] by auto
  then have "(n, w) \<in> set es \<longleftrightarrow> w = v" for w using Some by (metis map_of_eq_Some_iff option.inject)
  then show ?thesis using Some prune_removes [OF assms(2), of n v es P] prune_keeps [of n es P s] by auto
qed

end

definition store_ok :: "store \<Rightarrow> bool" where
  "store_ok st = bucket_ok (desired st)"

lemma tx_desired [simp]: "tx st = (fl, st') \<Longrightarrow> desired st' = desired st"
  by (auto simp: tx_def split: list.splits)

lemma bucket_ok_map: "bucket_ok b \<Longrightarrow> distinct (map fst b) \<and> map_of b = (\<lambda>n. bget n b)"
  by (auto simp: bucket_ok_def bget_def strict_sorted_iff)

lemma store_tx: "faults st = [] \<Longrightarrow> tx st = (False, st)"
  by (simp add: tx_def)

interpretation ds: desired_store PutDesired DeleteDesired HasDesired AllDesired sview store_ok "\<lambda>st. faults st = []"
  by unfold_locales
    (auto simp: PutDesired_def DeleteDesired_def HasDesired_def AllDesired_def sview_def store_ok_def
      bget_bput bget_bdel bucket_ok_bput bucket_ok_bdel fun_eq_iff Let_def store_tx dest: bucket_ok_map
      split: prod.splits if_splits)

lemma no_fault_store:
  assumes "faults st = []"
  shows "fst (PutDesired n v st) = None" "faults (snd (PutDesired n v st)) = []"
    "fst (DeleteDesired n st) = None" "faults (snd (DeleteDesired n st)) = []"
    "HasDesired n st = (Inr (sview st n \<noteq> None), st)"
    "AllDesired st = (Inr (desired st), st)"
  using assms by (simp_all add: PutDesired_def DeleteDesired_def HasDesired_def AllDesired_def store_tx sview_def)

end
