(* ===== verification/RateLimit.thy ===== *)
theory RateLimit
  imports Complex_Main Prelude
begin

text \<open>
  The token bucket in front of the container ops (agent/internal/container/ratelimit.go). The
  float64 fields are rationals here, so rounding is not modelled; times are nanoseconds, as in
  Go. The clock function of the struct is the argument \<open>now\<close> of \<open>allow\<close>.
\<close>

record rateLimiter =
  tokens :: rat
  max_tokens :: rat
  perSec :: rat
  lastFill :: timestamp

definition newRateLimiter :: "int \<Rightarrow> rat \<Rightarrow> timestamp \<Rightarrow> rateLimiter" where
  "newRateLimiter burst rate now =
     \<lparr>tokens = of_int burst, max_tokens = of_int burst, perSec = rate, lastFill = now\<rparr>"

definition duration_seconds :: "duration \<Rightarrow> rat" where
  "duration_seconds d = of_int d / of_int nano_per_second"

definition allow :: "timestamp \<Rightarrow> rateLimiter \<Rightarrow> bool \<times> rateLimiter" where
  "allow now r =
     (let elapsed = duration_seconds (now - lastFill r);
          r = (if elapsed > 0
               then r\<lparr>tokens := (if tokens r + elapsed * perSec r > max_tokens r then max_tokens r
                                else tokens r + elapsed * perSec r),
                      lastFill := now\<rparr>
               else r)
      in if tokens r < 1 then (False, r) else (True, r\<lparr>tokens := tokens r - 1\<rparr>))"

text \<open>A sequence of calls at the given readings of the clock, with the number allowed.\<close>

fun allow_run :: "timestamp list \<Rightarrow> rateLimiter \<Rightarrow> nat \<times> rateLimiter" where
  "allow_run [] r = (0, r)"
| "allow_run (t # ts) r =
     (let (ok, r1) = allow t r; (n, r2) = allow_run ts r1 in ((if ok then Suc n else n), r2))"

definition limiter_ok :: "rateLimiter \<Rightarrow> bool" where
  "limiter_ok r \<longleftrightarrow> 0 \<le> tokens r \<and> tokens r \<le> max_tokens r \<and> 0 \<le> perSec r"

lemma duration_seconds_pos [simp]: "0 < duration_seconds d \<longleftrightarrow> 0 < d"
  by (simp add: duration_seconds_def nano_per_second_def)

lemma duration_seconds_0 [simp]: "duration_seconds 0 = 0"
  by (simp add: duration_seconds_def)

lemma allow_step:
  assumes "limiter_ok r" "allow t r = (ok, r1)"
  shows "limiter_ok r1 \<and> perSec r1 = perSec r \<and> max_tokens r1 = max_tokens r \<and>
    lastFill r1 = max (lastFill r) t \<and>
    (if ok then 1 else 0) + tokens r1 \<le> tokens r + duration_seconds (lastFill r1 - lastFill r) * perSec r"
proof (cases "lastFill r < t")
  case True
  have "0 \<le> duration_seconds (t - lastFill r) * perSec r"
    using True assms(1) by (simp add: limiter_ok_def duration_seconds_def nano_per_second_def)
  then show ?thesis using assms True
    by (auto simp: allow_def limiter_ok_def Let_def max_def split: if_splits)
next
  case False
  then show ?thesis using assms
    by (auto simp: allow_def limiter_ok_def Let_def max_def split: if_splits)
qed

lemma duration_seconds_add: "duration_seconds (a - b) + duration_seconds (b - c) = duration_seconds (a - c)"
  by (simp add: duration_seconds_def nano_per_second_def field_simps)

lemma allow_run_bound:
  "limiter_ok r \<Longrightarrow> allow_run ts r = (n, r') \<Longrightarrow>
     limiter_ok r' \<and> perSec r' = perSec r \<and> max_tokens r' = max_tokens r \<and>
     lastFill r' = fold max ts (lastFill r) \<and>
     of_nat n + tokens r' \<le> tokens r + duration_seconds (lastFill r' - lastFill r) * perSec r"
proof (induction ts arbitrary: r n)
  case Nil
  then show ?case by (simp add: duration_seconds_def)
next
  case (Cons t ts)
  obtain ok r1 where s: "allow t r = (ok, r1)" by (metis surj_pair)
  obtain m where run: "allow_run ts r1 = (m, r')" and n: "n = (if ok then Suc m else m)"
    using Cons.prems(2) s by (auto simp: Let_def split: prod.splits)
  note st = allow_step [OF Cons.prems(1) s]
  note ih = Cons.IH [OF conjunct1 [OF st] run]
  have "duration_seconds (lastFill r' - lastFill r1) * perSec r + duration_seconds (lastFill r1 - lastFill r) * perSec r
      = duration_seconds (lastFill r' - lastFill r) * perSec r"
    by (simp add: duration_seconds_add flip: distrib_right)
  then show ?case using st ih n by (auto simp: max.commute)
qed

text \<open>
  The rate limit (ratelimit.go, allow). From any well-formed state of the limiter, whatever
  clock readings the calls see, in order or not, the number of calls it allows
  is at most its burst plus the rate times the time from its last refill to the latest reading;
  the bucket never goes negative nor above its burst. So a runaway document cannot drive more
  operations than that, in any window.
\<close>

theorem rate_limit_bound:
  assumes "limiter_ok r" "allow_run ts r = (n, r')"
  shows "limiter_ok r' \<and>
    of_nat n \<le> max_tokens r + perSec r * duration_seconds (fold max ts (lastFill r) - lastFill r)"
  using allow_run_bound [OF assms] assms(1) by (auto simp: limiter_ok_def mult.commute)

theorem rate_limit_bound_witness:
  "limiter_ok (newRateLimiter 20 5 0) \<and>
   of_nat (fst (allow_run (replicate 22 0 @ [seconds 1, seconds 1]) (newRateLimiter 20 5 0))) \<le> (25 :: rat)"
proof -
  let ?r = "newRateLimiter 20 5 0" and ?ts = "replicate 22 0 @ [seconds 1, seconds 1]"
  have ok: "limiter_ok ?r" by (simp add: limiter_ok_def newRateLimiter_def)
  obtain n r' where run: "allow_run ?ts ?r = (n, r')" by (metis surj_pair)
  have "fold max ?ts (0 :: int) = seconds 1" by code_simp
  with rate_limit_bound [OF ok run] run ok show ?thesis
    by (simp add: newRateLimiter_def duration_seconds_def seconds_def nano_per_second_def)
qed

text \<open>
  The rate limit throttles and does not drop (ratelimit.go, allow). Once the
  clock is at least one token's worth of time past the last refill, the next call is allowed, however
  empty the bucket was.
\<close>

theorem rate_limit_recovers:
  assumes "limiter_ok r" "1 \<le> max_tokens r" "1 \<le> perSec r * duration_seconds (t - lastFill r)"
  shows "fst (allow t r)"
proof -
  have "0 < duration_seconds (t - lastFill r)"
    using assms(1,3) by (metis limiter_ok_def mult_nonneg_nonpos not_less not_one_le_zero order_trans)
  then show ?thesis using assms
    by (auto simp: allow_def limiter_ok_def Let_def mult.commute split: if_splits)
qed

theorem rate_limit_recovers_witness:
  "fst (allow (seconds 1) ((newRateLimiter 20 5 0)\<lparr>tokens := 0\<rparr>))"
  by (rule rate_limit_recovers)
    (simp_all add: limiter_ok_def newRateLimiter_def duration_seconds_def seconds_def nano_per_second_def)

end
