(* ===== verification/Driver.thy ===== *)
theory Driver
  imports Store RateLimit Rollout "HOL-Library.AList"
begin

text \<open>
  The driver of the agent (agent/internal/container: driver.go, secrets.go and the handlers of
  rollout.go): the op handlers behind the apply registry. \<open>Driver\<close> holds the fields that do not
  change after start-up, \<open>dstate\<close> what the handlers change: the desired-state store, the
  rate limiter and the host with its Docker daemon.
\<close>

section \<open>State\<close>

record 'd Driver =
  docker :: "'d docker"
  allowlist :: ImageAllowlist
  serverID :: string
  has_secrets :: bool \<comment> \<open>whether the secret fetcher is set\<close>
  has_startup :: bool
  has_registry :: bool

record 'd dstate =
  ds_store :: store
  ds_limiter :: rateLimiter
  ds_world :: 'd

definition on_world :: "('d \<Rightarrow> 'r \<times> 'd) \<Rightarrow> 'd dstate \<Rightarrow> 'r \<times> 'd dstate" where
  "on_world f s = (case f (ds_world s) of (r, w) \<Rightarrow> (r, s\<lparr>ds_world := w\<rparr>))"

definition on_store :: "(store \<Rightarrow> 'r \<times> store) \<Rightarrow> 'd dstate \<Rightarrow> 'r \<times> 'd dstate" where
  "on_store f s = (case f (ds_store s) of (r, st) \<Rightarrow> (r, s\<lparr>ds_store := st\<rparr>))"

definition NewDriver :: "'d docker \<Rightarrow> bool \<Rightarrow> store \<Rightarrow> 'd \<Rightarrow> 'd Driver \<times> 'd dstate" where
  "NewDriver dk fetcher st w =
     (case clock dk w of (t, w) \<Rightarrow>
        (\<lparr>docker = dk, allowlist = \<lparr>Enabled = False, Prefixes = []\<rparr>, serverID = '''', has_secrets = fetcher,
          has_startup = False, has_registry = False\<rparr>,
         \<lparr>ds_store = st, ds_limiter = newRateLimiter 20 5 t, ds_world = w\<rparr>))"

definition throttle :: "'d Driver \<Rightarrow> 'd dstate \<Rightarrow> goerr option \<times> 'd dstate" where
  "throttle dv s =
     (case on_world (clock (docker dv)) s of (t, s) \<Rightarrow>
        (case allow t (ds_limiter s) of (ok, l) \<Rightarrow>
           (if ok then None
            else Some (ErrString ''rate limited: too many container ops; will retry on next resync''),
            s\<lparr>ds_limiter := l\<rparr>)))"

section \<open>Networks, volumes and images\<close>

definition VolumeExists :: "'d docker \<Rightarrow> string \<Rightarrow> 'd \<Rightarrow> bool res \<times> 'd" where
  "VolumeExists dk name d =
     (case VolumeInspect dk name d of (Inl e, d) \<Rightarrow> (Inl e, d) | (Inr l, d) \<Rightarrow> (Inr (l \<noteq> None), d))"

definition no_auth :: RegistryAuth where
  "no_auth = \<lparr>RA_Host = '''', RA_Username = '''', RA_Password = ''''\<rparr>"

definition opNetworkEnsure :: "'d Driver \<Rightarrow> 'p codec \<Rightarrow> 'p Op \<Rightarrow> 'd dstate \<Rightarrow> goerr option \<times> 'd dstate" where
  "opNetworkEnsure dv cd op s =
     (case throttle dv s of
        (Some e, s) \<Rightarrow> (Some e, s)
      | (None, s) \<Rightarrow>
          (case dec_network cd (Spec op) of
             Inl e \<Rightarrow> (Some (Wrapf ''decode network spec'' e), s)
           | Inr spec \<Rightarrow>
               (case on_world (NetworkExists (docker dv) (N_Name spec)) s of
                  (Inl e, s) \<Rightarrow> (Some e, s)
                | (Inr True, s) \<Rightarrow> (None, s)
                | (Inr False, s) \<Rightarrow>
                    on_world (NetworkCreate (docker dv) (N_Name spec) [LabelManaged \<mapsto> ''true'']) s)))"

definition opVolumeEnsure :: "'d Driver \<Rightarrow> 'p codec \<Rightarrow> 'p Op \<Rightarrow> 'd dstate \<Rightarrow> goerr option \<times> 'd dstate" where
  "opVolumeEnsure dv cd op s =
     (case throttle dv s of
        (Some e, s) \<Rightarrow> (Some e, s)
      | (None, s) \<Rightarrow>
          (case dec_volume cd (Spec op) of
             Inl e \<Rightarrow> (Some (Wrapf ''decode volume spec'' e), s)
           | Inr spec \<Rightarrow>
               (case on_world (VolumeExists (docker dv) (VS_Name spec)) s of
                  (Inl e, s) \<Rightarrow> (Some e, s)
                | (Inr True, s) \<Rightarrow> (None, s)
                | (Inr False, s) \<Rightarrow>
                    on_world (VolumeCreate (docker dv) (VS_Name spec)
                      (managedLabels (serverID dv) (VS_ResourceID spec))) s)))"

definition opImagePull :: "'d Driver \<Rightarrow> 'p codec \<Rightarrow> 'p Op \<Rightarrow> 'd dstate \<Rightarrow> goerr option \<times> 'd dstate" where
  "opImagePull dv cd op s =
     (case throttle dv s of
        (Some e, s) \<Rightarrow> (Some e, s)
      | (None, s) \<Rightarrow>
          (case dec_image cd (Spec op) of
             Inl e \<Rightarrow> (Some (Wrapf ''decode image spec'' e), s)
           | Inr spec \<Rightarrow>
               (case Check (allowlist dv) (I_Image spec) of
                  Some e \<Rightarrow> (Some e, s)
                | None \<Rightarrow>
                    if I_RegistryHost spec = '''' then
                      on_world (ImagePullAuth (docker dv) (I_Image spec) no_auth) s
                    else if \<not> has_registry dv then
                      (Some (ErrString (''pull from '' @ I_RegistryHost spec @
                         '' needs a registry credential and this agent has no way to fetch one'')), s)
                    else (case on_world (fetch_registry (docker dv)) s of
                            (Inl e, s) \<Rightarrow>
                              (Some (Wrapf (''resolve registry credential for '' @ I_RegistryHost spec) e), s)
                          | (Inr got, s) \<Rightarrow>
                              let auth = (if RA_Host got = '''' then got\<lparr>RA_Host := I_RegistryHost spec\<rparr> else got)
                              in on_world (ImagePullAuth (docker dv) (I_Image spec) auth) s))))"

definition opVolumeRemove :: "'d Driver \<Rightarrow> 'p codec \<Rightarrow> 'p Op \<Rightarrow> 'd dstate \<Rightarrow> goerr option \<times> 'd dstate" where
  "opVolumeRemove dv cd op s =
     (case throttle dv s of
        (Some e, s) \<Rightarrow> (Some e, s)
      | (None, s) \<Rightarrow>
          (case dec_volume cd (Spec op) of
             Inl e \<Rightarrow> (Some (Wrapf ''decode volume spec'' e), s)
           | Inr spec \<Rightarrow>
               (case on_world (VolumeInspect (docker dv) (VS_Name spec)) s of
                  (Inl e, s) \<Rightarrow> (Some e, s)
                | (Inr None, s) \<Rightarrow> (None, s)
                | (Inr (Some labels), s) \<Rightarrow>
                    if mget labels LabelManaged \<noteq> ''true'' then
                      (Some (PolicyError ''volume-unmanaged''
                         (''refusing to remove unmanaged volume '' @ go_quote (VS_Name spec))), s)
                    else on_world (VolumeRemove (docker dv) (VS_Name spec)) s)))"

section \<open>Secrets\<close>

definition tmpfsMagic :: int where
  "tmpfsMagic = 0x01021994"

definition secrets_dir :: "int \<Rightarrow> string" where
  "secrets_dir pid = ''/proc/'' @ itoa pid @ ''/root'' @ SecretsMountDir"

text \<open>\<open>filepath.Join\<close> on a clean absolute directory and a plain file name.\<close>

definition filepath_join :: "string \<Rightarrow> string \<Rightarrow> string" where
  "filepath_join dir name = dir @ ''/'' @ name"

fun write_each :: "'d docker \<Rightarrow> string \<Rightarrow> Secret list \<Rightarrow> 'd \<Rightarrow> goerr option \<times> 'd" where
  "write_each dk dir [] d = (None, d)"
| "write_each dk dir (s # ss) d =
     (case safeSecretFileName (S_Name s) of
        Inl e \<Rightarrow> (Some e, d)
      | Inr name \<Rightarrow>
          let dst = filepath_join dir name
          in if \<not> has_prefix (dst @ ''/'') (dir @ ''/'') then
               (Some (ErrString (''secret '' @ go_quote (S_Name s) @ '' resolves outside '' @ SecretsMountDir)), d)
             else (case WriteFile dk dst (S_Value s) d of
                     (Some e, d) \<Rightarrow> (Some (Wrapf (''write secret '' @ go_quote name) e), d)
                   | (None, d) \<Rightarrow> write_each dk dir ss d))"

definition writeFileSecrets :: "'d docker \<Rightarrow> int \<Rightarrow> Secret list \<Rightarrow> 'd \<Rightarrow> goerr option \<times> 'd" where
  "writeFileSecrets dk pid secrets d =
     (if pid \<le> 0 then (Some (ErrString ''container has no pid; cannot seed secret files''), d)
      else let dir = secrets_dir pid
           in case MkdirAll dk dir d of
                (Some e, d) \<Rightarrow> (Some (Wrapf ''create secrets dir'' e), d)
              | (None, d) \<Rightarrow>
                  (case Statfs dk dir d of
                     (Inl e, d) \<Rightarrow> (Some (Wrapf ''statfs secrets dir'' e), d)
                   | (Inr ty, d) \<Rightarrow>
                       if ty \<noteq> tmpfsMagic then
                         (Some (ErrString (SecretsMountDir @ '' is not tmpfs-backed in the container (fs=0x'' @
                            hex_text (nat (ty mod 2 ^ 64)) @ ''); refusing to seed secrets to disk'')), d)
                       else write_each dk dir secrets d))"

text \<open>
  The references of a spec against the fetched values: env-mode values go into the environment,
  file-mode values are collected in order. A name fetched twice keeps the later value.
\<close>

definition byName :: "Secret list \<Rightarrow> string \<Rightarrow> Secret option" where
  "byName fetched = map_of (rev (map (\<lambda>s. (S_Name s, s)) fetched))"

fun resolve_refs :: "string \<Rightarrow> (string \<Rightarrow> Secret option) \<Rightarrow> SecretRef list \<Rightarrow> (string \<times> string) list \<Rightarrow> Secret list \<Rightarrow>
    ((string \<times> string) list \<times> Secret list) res" where
  "resolve_refs by by_name [] env files = Inr (env, files)"
| "resolve_refs by by_name (ref # refs) env files =
     (case by_name (SR_Name ref) of
        None \<Rightarrow> Inl (ErrString (''secret '' @ go_quote (SR_Name ref) @ '' referenced but not provided'' @ by))
      | Some s \<Rightarrow>
          if SR_EnvVar ref then resolve_refs by by_name refs (AList.update (SR_Name ref) (S_Value s) env) files
          else resolve_refs by by_name refs env (files @ [s]))"

text \<open>
  \<open>resolveSecrets\<close>, and the same code inside \<open>converge\<close>, whose message ends in \<open>by the control plane\<close>.
\<close>

definition resolve_secrets :: "string \<Rightarrow> 'd Driver \<Rightarrow> ContainerSpec \<Rightarrow> 'd \<Rightarrow> (ContainerSpec \<times> Secret list) res \<times> 'd" where
  "resolve_secrets by dv spec d =
     (if SecretRefs spec = [] \<or> \<not> has_secrets dv then (Inr (spec, []), d)
      else case fetch_secrets (docker dv) (ResourceID spec) d of
             (Inl e, d) \<Rightarrow> (Inl (Wrapf ''fetch secrets'' e), d)
           | (Inr fetched, d) \<Rightarrow>
               (case resolve_refs by (byName fetched) (SecretRefs spec) (Env spec) [] of
                  Inl e \<Rightarrow> (Inl e, d)
                | Inr (env, files) \<Rightarrow> (Inr (spec\<lparr>Env := env\<rparr>, files), d)))"

definition resolveSecrets :: "'d Driver \<Rightarrow> ContainerSpec \<Rightarrow> 'd \<Rightarrow> (ContainerSpec \<times> Secret list) res \<times> 'd" where
  "resolveSecrets = resolve_secrets ''''"

section \<open>Converging one container\<close>

definition terminalRestart :: "string \<Rightarrow> bool" where
  "terminalRestart policy \<longleftrightarrow> policy = ''no'' \<or> policy = ''on-failure''"

definition converged :: "'p codec \<Rightarrow> ContainerSpec \<Rightarrow> ContainerState option \<Rightarrow> bool" where
  "converged cd spec cur =
     (case cur of
        None \<Rightarrow> False
      | Some c \<Rightarrow>
          if mget (C_Labels c) LabelSpecHash \<noteq> SpecHash cd spec then False
          else if C_Running c then True
          else terminalRestart (Restart spec))"

definition removeQuietly :: "'d docker \<Rightarrow> string \<Rightarrow> 'd \<Rightarrow> 'd" where
  "removeQuietly dk cid d = snd (ContainerRemove dk cid d)"

definition seed_after_start :: "'d docker \<Rightarrow> string \<Rightarrow> string \<Rightarrow> Secret list \<Rightarrow> 'd \<Rightarrow> goerr option \<times> 'd" where
  "seed_after_start dk name cid files d =
     (if files = [] then (None, d)
      else case ContainerInspect dk cid d of
             (Inl e, d) \<Rightarrow> (Some (Wrapf ''inspect for secret seeding'' e), removeQuietly dk cid d)
           | (Inr cur, d) \<Rightarrow>
               (case cur of
                  Some c \<Rightarrow>
                    if \<not> C_Running c \<or> C_Pid c \<le> 0 then
                      (Some (ErrString (''container '' @ go_quote name @
                         '' not running after start; refusing to seed secrets to disk'')), removeQuietly dk cid d)
                    else (case writeFileSecrets dk (C_Pid c) files d of
                            (Some e, d) \<Rightarrow> (Some (Wrapf ''seed secret files'' e), removeQuietly dk cid d)
                          | (None, d) \<Rightarrow> (None, d))
                | None \<Rightarrow>
                    (Some (ErrString (''container '' @ go_quote name @
                       '' not running after start; refusing to seed secrets to disk'')), removeQuietly dk cid d)))"

definition create_fresh :: "'d Driver \<Rightarrow> ContainerSpec \<Rightarrow> CreateBody \<Rightarrow> Secret list \<Rightarrow> 'd \<Rightarrow> goerr option \<times> 'd" where
  "create_fresh dv spec body files d =
     (case ContainerCreate (docker dv) (Name spec) body d of
        (Inl e, d) \<Rightarrow> (Some (Wrapf ''create container'' e), d)
      | (Inr cid, d) \<Rightarrow>
          (case ContainerStart (docker dv) cid d of
             (Some e, d) \<Rightarrow> (Some (Wrapf ''start container'' e), d)
           | (None, d) \<Rightarrow> seed_after_start (docker dv) (Name spec) cid files d))"

definition converge :: "'d Driver \<Rightarrow> 'p codec \<Rightarrow> ContainerSpec \<Rightarrow> 'd \<Rightarrow> goerr option \<times> 'd" where
  "converge dv cd spec d =
     (case ContainerInspect (docker dv) (Name spec) d of
        (Inl e, d) \<Rightarrow> (Some e, d)
      | (Inr cur, d) \<Rightarrow>
          if converged cd spec cur then (None, d)
          else (case resolve_secrets '' by the control plane'' dv spec d of
                  (Inl e, d) \<Rightarrow> (Some e, d)
                | (Inr (effective, files), d) \<Rightarrow>
                    let body = buildCreateBody (serverID dv) effective (SpecHash cd spec)
                    in case cur of
                         Some c \<Rightarrow>
                           (case ContainerRemove (docker dv) (C_ID c) d of
                              (Some e, d) \<Rightarrow> (Some (Wrapf ''remove stale container'' e), d)
                            | (None, d) \<Rightarrow> create_fresh dv spec body files d)
                       | None \<Rightarrow> create_fresh dv spec body files d))"

definition opContainerApply :: "'d Driver \<Rightarrow> 'p codec \<Rightarrow> 'p Op \<Rightarrow> 'd dstate \<Rightarrow> goerr option \<times> 'd dstate" where
  "opContainerApply dv cd op s =
     (case throttle dv s of
        (Some e, s) \<Rightarrow> (Some e, s)
      | (None, s) \<Rightarrow>
          (case dec_container cd (Spec op) of
             Inl e \<Rightarrow> (Some (Wrapf ''decode container spec'' e), s)
           | Inr spec \<Rightarrow>
               (case CheckPolicy spec of
                  Some e \<Rightarrow> (Some e, s)
                | None \<Rightarrow>
                    (case on_world (converge dv cd spec) s of
                       (Some e, s) \<Rightarrow> (Some e, s)
                     | (None, s) \<Rightarrow> on_store (PutDesired (Name spec) spec) s))))"

section \<open>Deploys\<close>

definition persistRolloutGeneration :: "ContainerSpec \<Rightarrow> store \<Rightarrow> goerr option \<times> store" where
  "persistRolloutGeneration genSpec st =
     (let st = (case AllDesired st of
                  (Inl e, st) \<Rightarrow> st
                | (Inr all, st) \<Rightarrow>
                    fold (\<lambda>(name, s) st.
                            if name \<noteq> Name genSpec \<and> ResourceID s = ResourceID genSpec \<and> Service s = Service genSpec
                            then snd (DeleteDesired name st) else st) all st)
      in PutDesired (Name genSpec) genSpec st)"

definition postStart :: "'d docker \<Rightarrow> Secret list \<Rightarrow> 'd hook" where
  "postStart dk fileSecrets cid d =
     (if fileSecrets = [] then (None, d)
      else case ContainerInspect dk cid d of
             (Inl e, d) \<Rightarrow> (Some e, d)
           | (Inr cur, d) \<Rightarrow>
               (case cur of
                  Some c \<Rightarrow>
                    if \<not> C_Running c \<or> C_Pid c \<le> 0
                    then (Some (ErrString ''container not running after start; refusing to seed secrets to disk''), d)
                    else writeFileSecrets dk (C_Pid c) fileSecrets d
                | None \<Rightarrow>
                    (Some (ErrString ''container not running after start; refusing to seed secrets to disk''), d)))"

text \<open>After the swap: record the generation, errors logged only, then prune the images.\<close>

definition after_deploy :: "'d Driver \<Rightarrow> ContainerSpec \<Rightarrow> ContainerSpec \<Rightarrow> 'd dstate \<Rightarrow> 'd dstate" where
  "after_deploy dv container genSpec s =
     (let s = snd (on_store (persistRolloutGeneration genSpec) s)
      in case on_world (inUseImages (docker dv) (ResourceID container) (Image container)) s of
           (inUse, s) \<Rightarrow>
             s\<lparr>ds_world := retainImages (docker dv) (imageRepoPrefix (Image container)) defaultImageRetention inUse
                 (ds_world s)\<rparr>)"

definition opRollout :: "nat \<Rightarrow> 'd Driver \<Rightarrow> 'p codec \<Rightarrow> 'p Op \<Rightarrow> 'd dstate \<Rightarrow> (goerr option \<times> 'd dstate) option" where
  "opRollout fuel dv cd op s =
     (case throttle dv s of
        (Some e, s) \<Rightarrow> Some (Some e, s)
      | (None, s) \<Rightarrow>
          (case dec_rollout cd (Spec op) of
             Inl e \<Rightarrow> Some (Some (Wrapf ''decode rollout spec'' e), s)
           | Inr spec \<Rightarrow>
               (case CheckPolicy (RS_Container spec) of
                  Some e \<Rightarrow> Some (Some e, s)
                | None \<Rightarrow>
                    (case on_world (resolveSecrets dv (RS_Container spec)) s of
                       (Inl e, s) \<Rightarrow> Some (Some e, s)
                     | (Inr (effective, files), s) \<Rightarrow>
                         let genSpec = (RS_Container spec)\<lparr>Name := rolloutName (Name (RS_Container spec)) (RS_Generation spec)\<rparr>;
                             hash = SpecHash cd genSpec;
                             body = buildCreateBody (serverID dv) effective hash
                         in case performRollout fuel (docker dv) (defaultProbe (docker dv)) spec body hash
                                   (Some (postStart (docker dv) files)) (has_startup dv) (ds_world s) of
                              None \<Rightarrow> None
                            | Some (Some e, w) \<Rightarrow> Some (Some e, s\<lparr>ds_world := w\<rparr>)
                            | Some (None, w) \<Rightarrow>
                                Some (None, after_deploy dv (RS_Container spec) genSpec (s\<lparr>ds_world := w\<rparr>))))))"

definition opRecreate :: "nat \<Rightarrow> 'd Driver \<Rightarrow> 'p codec \<Rightarrow> 'p Op \<Rightarrow> 'd dstate \<Rightarrow> (goerr option \<times> 'd dstate) option" where
  "opRecreate fuel dv cd op s =
     (case throttle dv s of
        (Some e, s) \<Rightarrow> Some (Some e, s)
      | (None, s) \<Rightarrow>
          (case dec_recreate cd (Spec op) of
             Inl e \<Rightarrow> Some (Some (Wrapf ''decode recreate spec'' e), s)
           | Inr spec \<Rightarrow>
               (case CheckPolicy (RC_Container spec) of
                  Some e \<Rightarrow> Some (Some e, s)
                | None \<Rightarrow>
                    (case on_world (resolveSecrets dv (RC_Container spec)) s of
                       (Inl e, s) \<Rightarrow> Some (Some e, s)
                     | (Inr (effective, files), s) \<Rightarrow>
                         let genSpec = (RC_Container spec)\<lparr>Name := rolloutName (Name (RC_Container spec)) (RC_Generation spec)\<rparr>;
                             hash = SpecHash cd genSpec;
                             body = buildCreateBody (serverID dv) effective hash
                         in case performRecreate fuel (docker dv) (defaultProbe (docker dv)) spec body hash
                                   (Some (postStart (docker dv) files)) (has_startup dv) (ds_world s) of
                              None \<Rightarrow> None
                            | Some (Some e, w) \<Rightarrow> Some (Some e, s\<lparr>ds_world := w\<rparr>)
                            | Some (None, w) \<Rightarrow>
                                Some (None, after_deploy dv (RC_Container spec) genSpec (s\<lparr>ds_world := w\<rparr>))))))"


end
