(* ===== verification/Driver_Props.thy ===== *)
theory Driver_Props
  imports Driver Demo_Daemon
begin

text \<open>
  What the handlers of \<open>Driver\<close> guarantee whatever the daemon, the control plane and the document do:
  no create request escapes the isolation rules, no secret is written anywhere but into memory,
  the desired-state store changes exactly with a successful apply.
\<close>

section \<open>Isolation\<close>

text \<open>
  \<open>sealed dk g\<close> is \<open>dk\<close> with another behaviour \<open>g\<close>, any one, on the create requests that are not
  isolated. A handler that does the same with \<open>sealed dk g\<close> as with \<open>dk\<close> never makes such a request.
\<close>

definition sealed :: "'d docker \<Rightarrow> (string \<Rightarrow> CreateBody \<Rightarrow> 'd \<Rightarrow> string res \<times> 'd) \<Rightarrow> 'd docker" where
  "sealed dk g = dk\<lparr>ContainerCreate := (\<lambda>n b. if isolated b then ContainerCreate dk n b else g n b)\<rparr>"

lemma sealed_simps [simp]:
  "ContainerList (sealed dk g) = ContainerList dk" "ContainerInspect (sealed dk g) = ContainerInspect dk"
  "ContainerStart (sealed dk g) = ContainerStart dk" "ContainerStop (sealed dk g) = ContainerStop dk"
  "ContainerRemove (sealed dk g) = ContainerRemove dk" "ContainerLogTail (sealed dk g) = ContainerLogTail dk"
  "ImageList (sealed dk g) = ImageList dk" "ImageRemove (sealed dk g) = ImageRemove dk"
  "clock (sealed dk g) = clock dk" "sleep (sealed dk g) = sleep dk" "startup_sink (sealed dk g) = startup_sink dk"
  "tcp_dial (sealed dk g) = tcp_dial dk" "http_get (sealed dk g) = http_get dk"
  "fetch_secrets (sealed dk g) = fetch_secrets dk" "MkdirAll (sealed dk g) = MkdirAll dk"
  "Statfs (sealed dk g) = Statfs dk" "WriteFile (sealed dk g) = WriteFile dk"
  "isolated b \<Longrightarrow> ContainerCreate (sealed dk g) n b = ContainerCreate dk n b"
  by (simp_all add: sealed_def)

lemma sealed_gate: "gate_loop fuel (sealed dk g) pr name p i t dl d = gate_loop fuel dk pr name p i t dl d"
  by (induction fuel arbitrary: d) (auto split: prod.splits sum.splits option.splits)

lemma sealed_drain: "drain_each (sealed dk g) cs d = drain_each dk cs d"
  by (induction cs arbitrary: d) (auto split: prod.splits)

lemma sealed_write: "write_each (sealed dk g) dir ss d = write_each dk dir ss d"
  by (induction ss arbitrary: d) (auto simp: Let_def split: prod.splits sum.splits option.splits)

lemma sealed_ops [simp]:
  "gateHealthy fuel (sealed dk g) pr name p d = gateHealthy fuel dk pr name p d"
  "drainOld (sealed dk g) res svc keep d = drainOld dk res svc keep d"
  "captureStartupLogs (sealed dk g) sink dep i d = captureStartupLogs dk sink dep i d"
  "defaultProbe (sealed dk g) = defaultProbe dk"
  "writeFileSecrets (sealed dk g) pid ss d = writeFileSecrets dk pid ss d"
  "retainImages (sealed dk g) prefix k inUse d = retainImages dk prefix k inUse d"
  "inUseImages (sealed dk g) res tag d = inUseImages dk res tag d"
  "removeQuietly (sealed dk g) cid d = removeQuietly dk cid d"
  by (simp_all add: gateHealthy_def sealed_gate drainOld_def sealed_drain captureStartupLogs_def defaultProbe_def
      writeFileSecrets_def sealed_write retainImages_def inUseImages_def removeQuietly_def fun_eq_iff
      cong: sum.case_cong prod.case_cong option.case_cong if_cong)

lemma sealed_hook [simp]: "postStart (sealed dk g) files = postStart dk files"
  by (simp add: postStart_def fun_eq_iff cong: sum.case_cong prod.case_cong option.case_cong if_cong)

lemma sealed_launch: "isolated body \<Longrightarrow> launch (sealed dk g) what name body hook d = launch dk what name body hook d"
  by (simp add: launch_def cong: sum.case_cong prod.case_cong option.case_cong if_cong)

lemma sealed_rollout:
  assumes "isolated body"
  shows "performRollout fuel (sealed dk g) pr spec body hash hook sink d = performRollout fuel dk pr spec body hash hook sink d"
    "performRecreate fuel (sealed dk g) pr rspec body hash hook sink d = performRecreate fuel dk pr rspec body hash hook sink d"
  using assms
  by (simp_all add: performRollout_def performRecreate_def rollout_swap_def recreate_swap_def sealed_launch Let_def
      cong: sum.case_cong prod.case_cong option.case_cong if_cong)

lemma resolve_secrets_env:
  "resolve_secrets by dv spec d = (Inr (eff, files), d1) \<Longrightarrow> \<exists>env. eff = spec\<lparr>Env := env\<rparr>"
  by (auto simp: resolve_secrets_def split: prod.splits sum.splits if_splits intro: exI [of _ "Env spec"])

lemma sealed_resolve: "resolve_secrets by (dv\<lparr>docker := sealed dk g\<rparr>) spec d = resolve_secrets by (dv\<lparr>docker := dk\<rparr>) spec d"
  by (simp add: resolve_secrets_def)

lemma sealed_fresh:
  "isolated body \<Longrightarrow> create_fresh (dv\<lparr>docker := sealed dk g\<rparr>) spec body files d = create_fresh (dv\<lparr>docker := dk\<rparr>) spec body files d"
  by (simp add: create_fresh_def seed_after_start_def cong: sum.case_cong prod.case_cong option.case_cong if_cong)

lemma sealed_converge:
  assumes "CheckPolicy spec = None"
  shows "converge (dv\<lparr>docker := sealed dk g\<rparr>) cd spec = converge (dv\<lparr>docker := dk\<rparr>) cd spec"
proof
  fix d
  have "isolated (buildCreateBody (serverID dv) eff (SpecHash cd spec))"
    if "resolve_secrets msg (dv\<lparr>docker := dk\<rparr>) spec d1 = (Inr (eff, files), d2)" for msg eff files d1 d2
    using resolve_secrets_env [OF that] policy_isolated [OF assms] by auto
  then show "converge (dv\<lparr>docker := sealed dk g\<rparr>) cd spec d = converge (dv\<lparr>docker := dk\<rparr>) cd spec d"
    by (auto simp: converge_def sealed_resolve Let_def sealed_fresh split: prod.splits sum.splits option.splits)
qed

lemma sealed_throttle [simp]: "throttle (dv\<lparr>docker := sealed dk g\<rparr>) s = throttle (dv\<lparr>docker := dk\<rparr>) s"
  by (simp add: throttle_def)

lemma sealed_after [simp]: "after_deploy (dv\<lparr>docker := sealed dk g\<rparr>) c gs s = after_deploy (dv\<lparr>docker := dk\<rparr>) c gs s"
  by (simp add: after_deploy_def on_world_def Let_def)

lemma on_world_resolve:
  "on_world (resolveSecrets dv spec) s = (Inr (eff, files), s1) \<Longrightarrow> \<exists>env. eff = spec\<lparr>Env := env\<rparr>"
  by (auto simp: on_world_def resolveSecrets_def split: prod.splits dest: resolve_secrets_env)

lemma sealed_on_resolve:
  "on_world (resolveSecrets (dv\<lparr>docker := sealed dk g\<rparr>) spec) s = on_world (resolveSecrets (dv\<lparr>docker := dk\<rparr>) spec) s"
  by (simp add: on_world_def resolveSecrets_def sealed_resolve)

lemma resolved_isolated:
  "CheckPolicy spec = None \<Longrightarrow> on_world (resolveSecrets dv spec) s = (Inr (eff, files), s1) \<Longrightarrow>
     isolated (buildCreateBody sid eff h)"
  using on_world_resolve policy_isolated by fastforce

text \<open>
  C2. Every create request of a handler is isolated (driver.go opContainerApply, rollout.go opRollout and
  opRecreate). Whatever document arrives, however it is signed, whatever
  the secrets hold and the daemon answers, the three handlers that create containers from a spec
  behave the same when the daemon's behaviour on every request that is not isolated is replaced by an
  arbitrary other one: they never make such a request. Isolated means not privileged, with
  no-new-privileges and the default AppArmor profile, on no network or a managed one, with managed volumes
  only and a pinned image.
\<close>

theorem handlers_create_isolated:
  "opContainerApply (dv\<lparr>docker := sealed dk g\<rparr>) cd op s = opContainerApply (dv\<lparr>docker := dk\<rparr>) cd op s \<and>
   opRollout fuel (dv\<lparr>docker := sealed dk g\<rparr>) cd op s = opRollout fuel (dv\<lparr>docker := dk\<rparr>) cd op s \<and>
   opRecreate fuel (dv\<lparr>docker := sealed dk g\<rparr>) cd op s = opRecreate fuel (dv\<lparr>docker := dk\<rparr>) cd op s"
proof (intro conjI)
  show "opContainerApply (dv\<lparr>docker := sealed dk g\<rparr>) cd op s = opContainerApply (dv\<lparr>docker := dk\<rparr>) cd op s"
    by (auto simp: opContainerApply_def sealed_converge split: prod.splits sum.splits option.splits)
  show "opRollout fuel (dv\<lparr>docker := sealed dk g\<rparr>) cd op s = opRollout fuel (dv\<lparr>docker := dk\<rparr>) cd op s"
    by (auto simp: opRollout_def sealed_on_resolve Let_def sealed_rollout resolved_isolated
        split: prod.splits sum.splits option.splits)
  show "opRecreate fuel (dv\<lparr>docker := sealed dk g\<rparr>) cd op s = opRecreate fuel (dv\<lparr>docker := dk\<rparr>) cd op s"
    by (auto simp: opRecreate_def sealed_on_resolve Let_def sealed_rollout resolved_isolated
        split: prod.splits sum.splits option.splits)
qed


section \<open>Secrets\<close>

definition plain_name :: "string \<Rightarrow> bool" where
  "plain_name n \<longleftrightarrow> n \<notin> {'''', ''.'', ''..''} \<and> CHR ''/'' \<notin> set n \<and> CHR 0x5C \<notin> set n \<and> CHR 0x00 \<notin> set n"

lemma safe_plain: "safeSecretFileName n = Inr m \<Longrightarrow> m = n \<and> plain_name n"
  by (auto simp: safeSecretFileName_iff plain_name_def)

text \<open>\<open>confined dk P g\<close> writes the files whose path satisfies \<open>P\<close> as \<open>dk\<close> does, and anything for the others.\<close>

definition confined :: "'d docker \<Rightarrow> (string \<Rightarrow> bool) \<Rightarrow> (string \<Rightarrow> string \<Rightarrow> 'd \<Rightarrow> goerr option \<times> 'd) \<Rightarrow> 'd docker" where
  "confined dk P g = dk\<lparr>WriteFile := (\<lambda>p v. if P p then WriteFile dk p v else g p v)\<rparr>"

lemma confined_simps [simp]:
  "MkdirAll (confined dk P g) = MkdirAll dk" "Statfs (confined dk P g) = Statfs dk"
  "P p \<Longrightarrow> WriteFile (confined dk P g) p v = WriteFile dk p v"
  by (simp_all add: confined_def)

lemma confined_write:
  "(\<And>n. plain_name n \<Longrightarrow> P (dir @ ''/'' @ n)) \<Longrightarrow> write_each (confined dk P g) dir ss d = write_each dk dir ss d"
proof (induction ss arbitrary: d)
  case (Cons s ss)
  have "P (filepath_join dir m)" if "safeSecretFileName (S_Name s) = Inr m" for m
    using safe_plain [OF that] Cons.prems by (auto simp: filepath_join_def)
  with Cons show ?case by (auto simp: Let_def split: sum.splits prod.splits option.splits)
qed simp

text \<open>
  Secret values reach memory only (secrets.go, writeFileSecrets). The files it writes are
  named by a plain file name directly in the secrets directory of the container's mount
  namespace: the run is the same when every other write of the host is replaced by anything. And unless
  the process id is positive, the directory could be made and the kernel says
  that it lies on a tmpfs, nothing at all is written and an error is returned.
\<close>

theorem secrets_stay_in_memory:
  "writeFileSecrets (confined dk (\<lambda>p. \<exists>n. plain_name n \<and> p = secrets_dir pid @ ''/'' @ n) g) pid ss d
     = writeFileSecrets dk pid ss d \<and>
   ((\<nexists>d1 d2. 0 < pid \<and> MkdirAll dk (secrets_dir pid) d = (None, d1) \<and>
       Statfs dk (secrets_dir pid) d1 = (Inr 0x01021994, d2)) \<longrightarrow>
     writeFileSecrets (confined dk (\<lambda>p. False) g) pid ss d = writeFileSecrets dk pid ss d \<and>
     fst (writeFileSecrets dk pid ss d) \<noteq> None)"
proof (intro conjI impI)
  show "writeFileSecrets (confined dk (\<lambda>p. \<exists>n. plain_name n \<and> p = secrets_dir pid @ ''/'' @ n) g) pid ss d
     = writeFileSecrets dk pid ss d"
    by (simp add: writeFileSecrets_def confined_write Let_def cong: sum.case_cong prod.case_cong option.case_cong if_cong)
  assume no: "\<nexists>d1 d2. 0 < pid \<and> MkdirAll dk (secrets_dir pid) d = (None, d1) \<and>
       Statfs dk (secrets_dir pid) d1 = (Inr 0x01021994, d2)"
  show "writeFileSecrets (confined dk (\<lambda>p. False) g) pid ss d = writeFileSecrets dk pid ss d"
    using no by (auto simp: writeFileSecrets_def tmpfsMagic_def Let_def split: sum.splits prod.splits option.splits)
  show "fst (writeFileSecrets dk pid ss d) \<noteq> None"
    using no by (auto simp: writeFileSecrets_def tmpfsMagic_def Let_def split: sum.splits prod.splits option.splits)
qed

theorem secrets_stay_in_memory_witness:
  "fst (writeFileSecrets (memory_docker\<lparr>Statfs := (\<lambda>p m. (Inr 61267, m))\<rparr>) 7
      [\<lparr>S_Name = ''KEY'', S_Value = ''v'', S_EnvVar = False\<rparr>] demo_daemon) \<noteq> None"
  using secrets_stay_in_memory [of "memory_docker\<lparr>Statfs := (\<lambda>p m. (Inr 61267, m))\<rparr>" 7 _
      "[\<lparr>S_Name = ''KEY'', S_Value = ''v'', S_EnvVar = False\<rparr>]" demo_daemon]
  by simp

section \<open>The desired-state store\<close>

lemma throttle_store: "throttle dv s = (e, s1) \<Longrightarrow> ds_store s1 = ds_store s"
  by (auto simp: throttle_def on_world_def split: prod.splits)

lemma on_world_store: "on_world f s = (r, s1) \<Longrightarrow> ds_store s1 = ds_store s"
  by (auto simp: on_world_def split: prod.splits)

text \<open>
  An apply is recorded exactly when it succeeded (driver.go, opContainerApply). Without an error the
  document carried a spec that passes the policy, and the store maps its name to that spec, secret
  references and not their values, every other record as before; with any error, the throttle, the
  decoding, the policy, the convergence or the write itself, the store is unchanged.
\<close>

theorem apply_records_success:
  assumes "opContainerApply dv cd op s = (e, s')"
  shows "(e = None \<longrightarrow> (\<exists>spec. dec_container cd (Spec op) = Inr spec \<and> CheckPolicy spec = None \<and>
       sview (ds_store s') = (sview (ds_store s))(Name spec \<mapsto> spec))) \<and>
    (e \<noteq> None \<longrightarrow> sview (ds_store s') = sview (ds_store s))"
proof -
  obtain q s1 where th: "throttle dv s = (q, s1)" by (metis surj_pair)
  show ?thesis
  proof (cases "q = None \<and> (\<exists>spec. dec_container cd (Spec op) = Inr spec \<and> CheckPolicy spec = None)")
    case False
    with assms th throttle_store [OF th] show ?thesis
      by (auto simp: opContainerApply_def split: sum.splits option.splits)
  next
    case True
    then obtain spec where spec: "dec_container cd (Spec op) = Inr spec" "CheckPolicy spec = None" by blast
    obtain r s2 where cv: "on_world (converge dv cd spec) s1 = (r, s2)" by (metis surj_pair)
    have st: "ds_store s2 = ds_store s" using throttle_store [OF th] on_world_store [OF cv] by simp
    show ?thesis
    proof (cases r)
      case (Some x)
      with assms th True spec cv st show ?thesis by (auto simp: opContainerApply_def)
    next
      case None
      obtain z st' where put: "PutDesired (Name spec) spec (ds_store s) = (z, st')" by (metis surj_pair)
      with assms th True spec cv st None have "e = z" "ds_store s' = st'"
        by (auto simp: opContainerApply_def on_store_def)
      with spec ds.put_ok [of "Name spec" spec "ds_store s" st'] ds.put_err [of "Name spec" spec "ds_store s" _ st'] put
      show ?thesis by (cases z) auto
    qed
  qed
qed


definition demo_driver :: "daemon Driver" where
  "demo_driver =
     \<lparr>docker = memory_docker, allowlist = \<lparr>Enabled = False, Prefixes = []\<rparr>, serverID = ''srv'', has_secrets = True,
      has_startup = True, has_registry = False\<rparr>"

definition demo_dstate :: "daemon dstate" where
  "demo_dstate =
     \<lparr>ds_store = \<lparr>faults = [], desired = []\<rparr>, ds_limiter = newRateLimiter 20 5 0, ds_world = demo_daemon\<rparr>"

definition demo_apply_op :: "payload Op" where
  "demo_apply_op = \<lparr>ID = ''a'', Kind = KindContainerApply, DependsOn = [], Spec = PContainer demo_spec\<rparr>"

definition demo_applied :: "goerr option \<times> daemon dstate" where
  "demo_applied = opContainerApply demo_driver demo_codec demo_apply_op demo_dstate"

lemma demo_applied_ok: "(case demo_applied of (e, s) \<Rightarrow> e = None \<and>
    map C_Name (dm_containers (ds_world s)) = [''sigmahub-res-g1'', ''sigmahub-res''])"
  by code_simp

theorem apply_records_success_witness:
  "fst demo_applied = None \<and> (\<exists>spec. dec_container demo_codec (Spec demo_apply_op) = Inr spec \<and>
     CheckPolicy spec = None \<and>
     sview (ds_store (snd demo_applied)) = (sview (ds_store demo_dstate))(Name spec \<mapsto> spec))"
proof -
  have none: "fst demo_applied = None" by (rule conjunct1 [OF demo_applied_ok [unfolded case_prod_beta]])
  have "opContainerApply demo_driver demo_codec demo_apply_op demo_dstate = (fst demo_applied, snd demo_applied)"
    by (simp add: demo_applied_def)
  from apply_records_success [OF this] none show ?thesis by blast
qed

text \<open>
  Recording a deployed generation (driver.go, persistRolloutGeneration). When the store's
  transactions succeed, the generation is the only record of its (resource, service) group left and
  every record of another group is as before, so the reconcile loop can repair the new
  generation and never brings back an older one.
\<close>

theorem persist_generation_exact:
  assumes "store_ok st" "faults st = []" "persistRolloutGeneration gs st = (e, st')"
  shows "e = None \<and> store_ok st' \<and>
    sview st' n = (if n = Name gs then Some gs
      else case sview st n of
             None \<Rightarrow> None
           | Some s \<Rightarrow> if ResourceID s = ResourceID gs \<and> Service s = Service gs then None else Some s)"
proof -
  let ?P = "\<lambda>n s. n \<noteq> Name gs \<and> ResourceID s = ResourceID gs \<and> Service s = Service gs"
  let ?st = "ds.prune ?P (desired st) st"
  have all: "AllDesired st = (Inr (desired st), st)" by (rule no_fault_store [OF assms(2)])
  have run: "PutDesired (Name gs) gs ?st = (e, st')"
    using assms(3) all by (simp add: persistRolloutGeneration_def ds.prune_def Let_def)
  have "faults ?st = []" using ds.calm_prune [OF assms(2)] .
  then have e: "e = None" using no_fault_store(1) [of ?st "Name gs" gs] run by simp
  have "store_ok ?st" by (rule ds.ok_prune [OF assms(1)])
  from ds.ok_put [OF this, of "Name gs" gs] have ok: "store_ok st'" unfolding run by simp
  show ?thesis
    using e ok ds.prune_exact [OF assms(1,2) all, of ?P n]
    unfolding ds.put_ok [OF run [unfolded e]] by (cases "n = Name gs"; cases "sview st n") simp_all
qed

definition demo_store :: store where
  "demo_store =
     \<lparr>faults = [], desired = [(''other'', demo_spec\<lparr>Name := ''other'', ResourceID := ''res2''\<rparr>),
        (''sigmahub-res-g1'', demo_spec\<lparr>Name := ''sigmahub-res-g1''\<rparr>)]\<rparr>"

theorem persist_generation_exact_witness:
  "sview (snd (persistRolloutGeneration (demo_spec\<lparr>Name := ''sigmahub-res-g2''\<rparr>) demo_store)) ''sigmahub-res-g1'' = None"
proof -
  let ?gs = "demo_spec\<lparr>Name := ''sigmahub-res-g2''\<rparr>"
  obtain e st' where run: "persistRolloutGeneration ?gs demo_store = (e, st')" by (metis surj_pair)
  have "store_ok demo_store" by (simp add: store_ok_def demo_store_def bucket_ok_def less_list_code less_char_def)
  moreover have "faults demo_store = []" by (simp add: demo_store_def)
  ultimately show ?thesis using persist_generation_exact [OF _ _ run, of "''sigmahub-res-g1''"] run
    by (simp add: demo_store_def sview_def bget_def demo_spec_def)
qed


end
