(* ===== verification/Gc.thy ===== *)
theory Gc
  imports Driver
begin

text \<open>
  Reconciliation, garbage collection and decommissioning (agent/internal/container: reconcile.go and
  purge.go). All three run under the driver's lock, so each definition is one atomic
  step; \<open>Gc_Props\<close> interleaves them. Go's maps are predicates where only
  membership counts, and their iteration order is the order of the store.
\<close>

section \<open>Reconciliation\<close>

definition reconcileOne :: "'d Driver \<Rightarrow> 'p codec \<Rightarrow> string \<Rightarrow> ContainerSpec \<Rightarrow> 'd dstate \<Rightarrow> 'd dstate" where
  "reconcileOne dv cd name spec s =
     (case on_store (HasDesired name) s of
        (Inl e, s) \<Rightarrow> s
      | (Inr False, s) \<Rightarrow> s
      | (Inr True, s) \<Rightarrow>
          (case on_world (ContainerInspect (docker dv) name) s of
             (Inl e, s) \<Rightarrow> s
           | (Inr cur, s) \<Rightarrow>
               if converged cd spec cur then s
               else snd (on_world (converge dv cd spec) s)))"

text \<open>The loop over the snapshot; \<open>cancelled\<close> is \<open>ctx.Err() != nil\<close> before the n-th container.\<close>

fun reconcile_each :: "'d Driver \<Rightarrow> 'p codec \<Rightarrow> (nat \<Rightarrow> bool) \<Rightarrow> nat \<Rightarrow> (string \<times> ContainerSpec) list \<Rightarrow> 'd dstate \<Rightarrow> 'd dstate" where
  "reconcile_each dv cd cancelled i [] s = s"
| "reconcile_each dv cd cancelled i ((name, spec) # es) s =
     (if cancelled i then s
      else reconcile_each dv cd cancelled (Suc i) es (reconcileOne dv cd name spec s))"

definition Reconcile :: "'d Driver \<Rightarrow> 'p codec \<Rightarrow> (nat \<Rightarrow> bool) \<Rightarrow> 'd dstate \<Rightarrow> 'd dstate" where
  "Reconcile dv cd cancelled s =
     (case on_store AllDesired s of
        (Inl e, s) \<Rightarrow> s
      | (Inr es, s) \<Rightarrow> reconcile_each dv cd cancelled 0 es s)"

section \<open>What a document keeps\<close>

definition traefikContainerName :: string where
  "traefikContainerName = ''sigmahub-traefik''"

definition rolloutGroupKey :: "string \<Rightarrow> string \<Rightarrow> string" where
  "rolloutGroupKey resourceID service = resourceID @ [CHR 0x00] @ service"

definition ownedByAnotherServer :: "strmap \<Rightarrow> string \<Rightarrow> bool" where
  "ownedByAnotherServer labels sid =
     (let owner = mget labels LabelServerID in owner \<noteq> '''' \<and> sid \<noteq> '''' \<and> owner \<noteq> sid)"

definition rollout_container :: "'p codec \<Rightarrow> 'p Op \<Rightarrow> ContainerSpec option" where
  "rollout_container cd op =
     (if Kind op = KindDeployRollout then
        (case dec_rollout cd (Spec op) of Inl e \<Rightarrow> None | Inr rs \<Rightarrow> Some (RS_Container rs))
      else if Kind op = KindDeployRecreate then
        (case dec_recreate cd (Spec op) of Inl e \<Rightarrow> None | Inr rs \<Rightarrow> Some (RC_Container rs))
      else None)"

definition rolloutManagedGroups :: "'p codec \<Rightarrow> 'p Document \<Rightarrow> string \<Rightarrow> bool" where
  "rolloutManagedGroups cd doc =
     fold (\<lambda>op groups.
             case rollout_container cd op of
               None \<Rightarrow> groups
             | Some c \<Rightarrow> if ResourceID c \<noteq> '''' then groups(rolloutGroupKey (ResourceID c) (Service c) := True) else groups)
       (Ops doc) (\<lambda>_. False)"

definition protectedGroups :: "'p codec \<Rightarrow> 'p Document \<Rightarrow> string \<Rightarrow> bool" where
  "protectedGroups cd doc =
     fold (\<lambda>op groups.
             if Kind op \<noteq> KindResourceSync then groups
             else case dec_sync cd (Spec op) of
                    Inl e \<Rightarrow> groups
                  | Inr stub \<Rightarrow>
                      if Sync_ResourceID stub = '''' then groups
                      else fold (\<lambda>svc g. g(rolloutGroupKey (Sync_ResourceID stub) svc := True)) (Sync_Retain stub) groups)
       (Ops doc) (rolloutManagedGroups cd doc)"

definition wanted_name :: "'p codec \<Rightarrow> 'p Op \<Rightarrow> string option" where
  "wanted_name cd op =
     (if Kind op = KindProxyTraefik then Some traefikContainerName
      else if Kind op = KindContainerApply then
        (case dec_container cd (Spec op) of
           Inl e \<Rightarrow> None | Inr spec \<Rightarrow> if Name spec \<noteq> '''' then Some (Name spec) else None)
      else if Kind op = KindDeployRollout then
        (case dec_rollout cd (Spec op) of
           Inl e \<Rightarrow> None
         | Inr rs \<Rightarrow> if Name (RS_Container rs) \<noteq> '''' then Some (rolloutName (Name (RS_Container rs)) (RS_Generation rs)) else None)
      else if Kind op = KindDeployRecreate then
        (case dec_recreate cd (Spec op) of
           Inl e \<Rightarrow> None
         | Inr rs \<Rightarrow> if Name (RC_Container rs) \<noteq> '''' then Some (rolloutName (Name (RC_Container rs)) (RC_Generation rs)) else None)
      else None)"

definition desiredNames :: "'p codec \<Rightarrow> 'p Document \<Rightarrow> string \<Rightarrow> bool" where
  "desiredNames cd doc =
     fold (\<lambda>op names. case wanted_name cd op of None \<Rightarrow> names | Some n \<Rightarrow> names(n := True)) (Ops doc) (\<lambda>_. False)"

definition gcReap :: "ContainerState \<Rightarrow> (string \<Rightarrow> bool) \<Rightarrow> (string \<Rightarrow> bool) \<Rightarrow> string \<Rightarrow> bool" where
  "gcReap c want protected sid =
     (if want (C_Name c) then False
      else if ownedByAnotherServer (C_Labels c) sid then False
      else let rid = mget (C_Labels c) LabelResourceID
           in if rid \<noteq> '''' \<and> protected (rolloutGroupKey rid (mget (C_Labels c) LabelService)) then False else True)"

section \<open>Garbage collection\<close>

fun remove_each :: "'d docker \<Rightarrow> ContainerState list \<Rightarrow> 'd \<Rightarrow> 'd" where
  "remove_each dk [] d = d"
| "remove_each dk (c # cs) d = remove_each dk cs (snd (ContainerRemove dk (C_ID c) d))"

definition gc_prune :: "(string \<Rightarrow> bool) \<Rightarrow> store \<Rightarrow> store" where
  "gc_prune want st =
     (case AllDesired st of
        (Inl e, st) \<Rightarrow> st
      | (Inr es, st) \<Rightarrow> fold (\<lambda>(name, spec) st. if \<not> want name then snd (DeleteDesired name st) else st) es st)"

definition GC :: "'d Driver \<Rightarrow> 'p codec \<Rightarrow> 'p Document \<Rightarrow> 'd dstate \<Rightarrow> 'd dstate" where
  "GC dv cd doc s =
     (let want = desiredNames cd doc;
          s = s\<lparr>ds_store := gc_prune want (ds_store s)\<rparr>;
          protected = protectedGroups cd doc
      in case on_world (ContainerList (docker dv)) s of
           (Inl e, s) \<Rightarrow> s
         | (Inr managed, s) \<Rightarrow>
             s\<lparr>ds_world := remove_each (docker dv) (filter (\<lambda>c. gcReap c want protected (serverID dv)) managed) (ds_world s)\<rparr>)"

section \<open>Decommissioning\<close>

text \<open>\<open>errors.Join\<close>: no error when the list is empty.\<close>

fun join_errors :: "goerr list \<Rightarrow> goerr option" where
  "join_errors [] = None"
| "join_errors (e # es) = Some (ErrString (concat (map (\<lambda>x. error_text x @ [CHR 0x0A]) (butlast (e # es))) @ error_text (last (e # es))))"

fun forget_each :: "(string \<times> ContainerSpec) list \<Rightarrow> store \<Rightarrow> goerr list \<times> store" where
  "forget_each [] st = ([], st)"
| "forget_each ((name, spec) # es) st =
     (case DeleteDesired name st of
        (e, st) \<Rightarrow>
          (case forget_each es st of
             (errs, st) \<Rightarrow>
               ((case e of None \<Rightarrow> errs | Some x \<Rightarrow> Wrapf (''forget desired container '' @ name) x # errs), st)))"

fun purge_each :: "('k \<Rightarrow> 'd \<Rightarrow> goerr option \<times> 'd) \<Rightarrow> ('k \<Rightarrow> string) \<Rightarrow> 'k list \<Rightarrow> 'd \<Rightarrow> goerr list \<times> 'd" where
  "purge_each rm what [] d = ([], d)"
| "purge_each rm what (x # xs) d =
     (case rm x d of
        (e, d) \<Rightarrow>
          (case purge_each rm what xs d of
             (errs, d) \<Rightarrow> ((case e of None \<Rightarrow> errs | Some y \<Rightarrow> Wrapf (what x) y # errs), d)))"

definition RemoveManagedContainers :: "'d Driver \<Rightarrow> 'd dstate \<Rightarrow> goerr option \<times> 'd dstate" where
  "RemoveManagedContainers dv s =
     (case on_store AllDesired s of
        (Inl e, s) \<Rightarrow> (Some (Wrapf ''read desired containers'' e), s)
      | (Inr stored, s) \<Rightarrow>
          (case on_store (forget_each stored) s of
             (errs, s) \<Rightarrow>
               (case on_world (ContainerList (docker dv)) s of
                  (Inl e, s) \<Rightarrow> (join_errors (errs @ [Wrapf ''list managed containers'' e]), s)
                | (Inr managed, s) \<Rightarrow>
                    (case on_world (purge_each (\<lambda>c. ContainerRemove (docker dv) (C_ID c))
                            (\<lambda>c. ''remove container '' @ C_Name c)
                            (filter (\<lambda>c. \<not> ownedByAnotherServer (C_Labels c) (serverID dv)) managed)) s of
                       (errs2, s) \<Rightarrow> (join_errors (errs @ errs2), s)))))"

definition RemoveManagedNetworks :: "'d Driver \<Rightarrow> 'd \<Rightarrow> goerr option \<times> 'd" where
  "RemoveManagedNetworks dv d =
     (case ManagedNetworks (docker dv) d of
        (Inl e, d) \<Rightarrow> (Some (Wrapf ''list managed networks'' e), d)
      | (Inr nets, d) \<Rightarrow>
          (case purge_each (NetworkRemove (docker dv)) (\<lambda>n. ''remove network '' @ n) nets d of
             (errs, d) \<Rightarrow> (join_errors errs, d)))"

definition RemoveManagedVolumes :: "'d Driver \<Rightarrow> 'd \<Rightarrow> goerr option \<times> 'd" where
  "RemoveManagedVolumes dv d =
     (case ManagedVolumes (docker dv) d of
        (Inl e, d) \<Rightarrow> (Some (Wrapf ''list managed volumes'' e), d)
      | (Inr vols, d) \<Rightarrow>
          (case purge_each (VolumeRemove (docker dv)) (\<lambda>n. ''remove volume '' @ n) vols d of
             (errs, d) \<Rightarrow> (join_errors errs, d)))"

end
