(* ===== verification/Gc_Props.thy ===== *)
theory Gc_Props
  imports Gc Rollout_Trace Driver_Props
begin

text \<open>
  What garbage collection spares, and that no interleaving of the steps that hold the driver's lock
  brings back a container that is not desired.
\<close>

section \<open>The keep rules\<close>

lemma fold_set_true:
  "fold (\<lambda>x g. case f x of None \<Rightarrow> g | Some n \<Rightarrow> g(n := True)) xs g k \<longleftrightarrow> g k \<or> (\<exists>x \<in> set xs. f x = Some k)"
  by (induction xs arbitrary: g) (auto split: option.splits if_splits)

lemma fold_keys_true: "fold (\<lambda>y g. g(f y := True)) ys g k \<longleftrightarrow> g k \<or> k \<in> f ` set ys"
  by (induction ys arbitrary: g) auto

lemma desiredNames_iff: "desiredNames cd doc n \<longleftrightarrow> (\<exists>op \<in> set (Ops doc). wanted_name cd op = Some n)"
  by (simp add: desiredNames_def fold_set_true)

lemma rolloutManagedGroups_iff: "rolloutManagedGroups cd doc k \<longleftrightarrow>
    (\<exists>op \<in> set (Ops doc). \<exists>c. rollout_container cd op = Some c \<and> ResourceID c \<noteq> '''' \<and>
       k = rolloutGroupKey (ResourceID c) (Service c))"
proof -
  have "fold (\<lambda>op g. case rollout_container cd op of None \<Rightarrow> g
        | Some c \<Rightarrow> if ResourceID c \<noteq> '''' then g(rolloutGroupKey (ResourceID c) (Service c) := True) else g) ops g k \<longleftrightarrow>
      g k \<or> (\<exists>op \<in> set ops. \<exists>c. rollout_container cd op = Some c \<and> ResourceID c \<noteq> '''' \<and>
        k = rolloutGroupKey (ResourceID c) (Service c))" for ops g
    by (induction ops arbitrary: g) (auto split: option.splits if_splits)
  then show ?thesis by (simp add: rolloutManagedGroups_def)
qed

definition retains :: "'p codec \<Rightarrow> 'p Op \<Rightarrow> string \<Rightarrow> string \<Rightarrow> bool" where
  "retains cd op rid svc \<longleftrightarrow> Kind op = KindResourceSync \<and>
     (\<exists>stub. dec_sync cd (Spec op) = Inr stub \<and> Sync_ResourceID stub = rid \<and> svc \<in> set (Sync_Retain stub))"

lemma protectedGroups_iff: "protectedGroups cd doc k \<longleftrightarrow> rolloutManagedGroups cd doc k \<or>
    (\<exists>op \<in> set (Ops doc). \<exists>rid svc. retains cd op rid svc \<and> rid \<noteq> '''' \<and> k = rolloutGroupKey rid svc)"
proof -
  have "fold (\<lambda>op g. if Kind op \<noteq> KindResourceSync then g
          else case dec_sync cd (Spec op) of Inl e \<Rightarrow> g
             | Inr stub \<Rightarrow> if Sync_ResourceID stub = '''' then g
                 else fold (\<lambda>svc g. g(rolloutGroupKey (Sync_ResourceID stub) svc := True)) (Sync_Retain stub) g) ops g k \<longleftrightarrow>
      g k \<or> (\<exists>op \<in> set ops. \<exists>rid svc. retains cd op rid svc \<and> rid \<noteq> '''' \<and> k = rolloutGroupKey rid svc)" for ops g
    by (induction ops arbitrary: g) (auto simp: fold_keys_true retains_def split: sum.splits if_splits)
  then show ?thesis by (simp add: protectedGroups_def)
qed

lemma rolloutGroupKey_inj:
  "CHR 0x00 \<notin> set a \<Longrightarrow> CHR 0x00 \<notin> set c \<Longrightarrow> rolloutGroupKey a b = rolloutGroupKey c d \<longleftrightarrow> a = c \<and> b = d"
  using append_sep_inj [of a "CHR 0x00" b c d] by (auto simp: rolloutGroupKey_def)

text \<open>The rules in terms of the document's ops and the container's labels.\<close>

definition spared :: "'p codec \<Rightarrow> 'p Document \<Rightarrow> string \<Rightarrow> ContainerState \<Rightarrow> bool" where
  "spared cd doc sid c \<longleftrightarrow>
     (let rid = mget (C_Labels c) LabelResourceID; svc = mget (C_Labels c) LabelService;
          owner = mget (C_Labels c) LabelServerID
      in (\<exists>op \<in> set (Ops doc). wanted_name cd op = Some (C_Name c)) \<or>
         (owner \<noteq> '''' \<and> sid \<noteq> '''' \<and> owner \<noteq> sid) \<or>
         (rid \<noteq> '''' \<and> (\<exists>op \<in> set (Ops doc). retains cd op rid svc \<or>
            (\<exists>k. rollout_container cd op = Some k \<and> ResourceID k = rid \<and> Service k = svc))))"

definition nul_free :: "'p codec \<Rightarrow> 'p Document \<Rightarrow> ContainerState \<Rightarrow> bool" where
  "nul_free cd doc c \<longleftrightarrow> CHR 0x00 \<notin> set (mget (C_Labels c) LabelResourceID) \<and>
     (\<forall>op \<in> set (Ops doc). (\<forall>k. rollout_container cd op = Some k \<longrightarrow> CHR 0x00 \<notin> set (ResourceID k)) \<and>
        (\<forall>rid svc. retains cd op rid svc \<longrightarrow> CHR 0x00 \<notin> set rid))"

lemma gcReap_spares:
  "gcReap c (desiredNames cd doc) (protectedGroups cd doc) sid \<Longrightarrow> \<not> spared cd doc sid c"
  unfolding spared_def gcReap_def
  by (simp add: desiredNames_iff protectedGroups_iff rolloutManagedGroups_iff ownedByAnotherServer_def Let_def
      split: if_splits) metis

lemma gcReap_complete:
  assumes "nul_free cd doc c" "\<not> spared cd doc sid c"
  shows "gcReap c (desiredNames cd doc) (protectedGroups cd doc) sid"
proof -
  let ?rid = "mget (C_Labels c) LabelResourceID" and ?svc = "mget (C_Labels c) LabelService"
  have "\<not> protectedGroups cd doc (rolloutGroupKey ?rid ?svc)" if "?rid \<noteq> ''''"
  proof
    assume "protectedGroups cd doc (rolloutGroupKey ?rid ?svc)"
    then consider
        op k where "op \<in> set (Ops doc)" "rollout_container cd op = Some k"
          "rolloutGroupKey ?rid ?svc = rolloutGroupKey (ResourceID k) (Service k)"
      | op rid svc where "op \<in> set (Ops doc)" "retains cd op rid svc"
          "rolloutGroupKey ?rid ?svc = rolloutGroupKey rid svc"
      unfolding protectedGroups_iff rolloutManagedGroups_iff by blast
    then show False
    proof cases
      case (1 op k)
      then have "?rid = ResourceID k \<and> ?svc = Service k"
        using assms(1) rolloutGroupKey_inj [of ?rid "ResourceID k"] unfolding nul_free_def by blast
      with 1 that assms(2) show False by (auto simp: spared_def Let_def)
    next
      case (2 op rid svc)
      then have "?rid = rid \<and> ?svc = svc"
        using assms(1) rolloutGroupKey_inj [of ?rid rid] unfolding nul_free_def by blast
      with 2 that assms(2) show False by (auto simp: spared_def Let_def)
    qed
  qed
  with assms(2) show ?thesis
    by (auto simp: spared_def gcReap_def desiredNames_iff ownedByAnotherServer_def Let_def)
qed

lemma remove_each_traced: "snd (remove_each (traced dk) cs s) = snd s @ map (\<lambda>c. ERemove (C_ID c)) cs"
  by (induction cs arbitrary: s) (auto simp: snd_rec_call)

text \<open>
  C6. What garbage collection removes (reconcile.go, GC with gcReap, desiredNames and protectedGroups). Its
  calls to the daemon are one listing and, if that succeeds, one removal for each
  container of the list that the rules reap, in order. A reaped container is not named by any op of
  the document, not owned by another server, and its (resource, service) group is neither deployed by a rollout or
  recreate op nor retained by a resource.sync stub; and every listed container that
  none of this spares is reaped (when no resource id contains a NUL byte, the separator of the
  group key).
\<close>

theorem gc_reaps_exactly:
  assumes "ds_world s = (d, [])" and "GC (dv\<lparr>docker := traced dk\<rparr>) cd doc s = s'"
  shows "\<exists>r reaped. snd (ds_world s') = EList r # map (\<lambda>c. ERemove (C_ID c)) reaped \<and>
    (r = None \<longrightarrow> reaped = []) \<and>
    (\<forall>cs. r = Some cs \<longrightarrow> set reaped \<subseteq> set cs \<and> (\<forall>c \<in> set reaped. \<not> spared cd doc (serverID dv) c) \<and>
       (\<forall>c \<in> set cs. nul_free cd doc c \<and> \<not> spared cd doc (serverID dv) c \<longrightarrow> c \<in> set reaped))"
proof -
  let ?reap = "\<lambda>c. gcReap c (desiredNames cd doc) (protectedGroups cd doc) (serverID dv)"
  let ?st = "gc_prune (desiredNames cd doc) (ds_store s)"
  obtain x d1 where ls: "ContainerList dk d = (x, d1)" by (metis surj_pair)
  then have call: "on_world (ContainerList (traced dk)) (s\<lparr>ds_store := ?st\<rparr>) =
      (x, s\<lparr>ds_store := ?st, ds_world := (d1, [EList (ok_of x)])\<rparr>)"
    using assms(1) by (simp add: on_world_def rec_call_def)
  show ?thesis
  proof (cases x)
    case (Inl e)
    with assms(2) call have "snd (ds_world s') = [EList None]" by (auto simp: GC_def Let_def)
    then show ?thesis by (intro exI [of _ None] exI [of _ "[]"]) simp
  next
    case (Inr cs)
    with assms(2) call
    have "snd (ds_world s') = EList (Some cs) # map (\<lambda>c. ERemove (C_ID c)) (filter ?reap cs)"
      by (auto simp: GC_def Let_def remove_each_traced simp del: traced_simps)
    then show ?thesis
      by (intro exI [of _ "Some cs"] exI [of _ "filter ?reap cs"]) (auto dest: gcReap_spares gcReap_complete)
  qed
qed

definition held_doc :: "payload Document" where
  "held_doc = \<lparr>Version = 8, OrgID = ''o'', ServerID = ''srv'', Ops =
     [\<lparr>ID = ''s'', Kind = KindResourceSync, DependsOn = [],
       Spec = PSync \<lparr>Sync_ResourceID = ''res'', Sync_Retain = ['''']\<rparr>\<rparr>]\<rparr>"

definition demo_world :: daemon where
  "demo_world = demo_daemon\<lparr>dm_containers :=
     [demo_container ''c0'' ''sigmahub-res-g1'' ''h1'',
      (demo_container ''c1'' ''sigmahub-old'' ''h0'')\<lparr>C_Labels := [LabelManaged \<mapsto> ''true'', LabelResourceID \<mapsto> ''gone'']\<rparr>]\<rparr>"

definition demo_gc :: "daemon tr dstate" where
  "demo_gc = GC (\<lparr>docker = traced memory_docker, allowlist = \<lparr>Enabled = False, Prefixes = []\<rparr>, serverID = ''srv'',
       has_secrets = False, has_startup = False, has_registry = False\<rparr>) demo_codec held_doc
     \<lparr>ds_store = demo_store, ds_limiter = newRateLimiter 20 5 0, ds_world = (demo_world, [])\<rparr>"

lemma demo_gc_reaps: "List.map_filter cut_of (snd (ds_world demo_gc)) = [''c1'']"
  by code_simp

theorem gc_reaps_exactly_witness:
  "\<exists>r reaped. snd (ds_world demo_gc) = EList r # map (\<lambda>c. ERemove (C_ID c)) reaped \<and>
    (r = None \<longrightarrow> reaped = []) \<and>
    (\<forall>cs. r = Some cs \<longrightarrow> set reaped \<subseteq> set cs \<and> (\<forall>c \<in> set reaped. \<not> spared demo_codec held_doc ''srv'' c) \<and>
       (\<forall>c \<in> set cs. nul_free demo_codec held_doc c \<and> \<not> spared demo_codec held_doc ''srv'' c \<longrightarrow> c \<in> set reaped))"
proof -
  let ?dv = "\<lparr>docker = traced memory_docker, allowlist = \<lparr>Enabled = False, Prefixes = []\<rparr>, serverID = ''srv'',
       has_secrets = False, has_startup = False, has_registry = False\<rparr>"
  let ?s = "\<lparr>ds_store = demo_store, ds_limiter = newRateLimiter 20 5 0, ds_world = (demo_world, [])\<rparr>"
  have "GC (?dv\<lparr>docker := traced memory_docker\<rparr>) demo_codec held_doc ?s = demo_gc" by (simp add: demo_gc_def)
  from gc_reaps_exactly [OF _ this] show ?thesis by simp
qed

section \<open>The store after garbage collection\<close>

lemma gc_prune_exact:
  assumes "store_ok st" "faults st = []"
  shows "sview (gc_prune want st) n = (if want n then sview st n else None)"
proof -
  have all: "AllDesired st = (Inr (desired st), st)" by (rule no_fault_store [OF assms(2)])
  have "gc_prune want st = ds.prune (\<lambda>n s. \<not> want n) (desired st) st"
    using all by (simp add: gc_prune_def ds.prune_def)
  with ds.prune_exact [OF assms all, of "\<lambda>n s. \<not> want n" n] show ?thesis by (auto split: option.splits)
qed

lemma gc_prune_sub: "sview (gc_prune want st) n = Some v \<Longrightarrow> sview st n = Some v"
proof -
  assume a: "sview (gc_prune want st) n = Some v"
  obtain r st1 where all: "AllDesired st = (r, st1)" by (metis surj_pair)
  have "sview (ds.prune (\<lambda>n s. \<not> want n) es st1) n = Some v \<Longrightarrow> sview st1 n = Some v" for es
    by (rule ds.prune_subset)
  then have "sview st1 n = Some v" using a all by (auto simp: gc_prune_def ds.prune_def split: sum.splits)
  then show ?thesis using ds.all_view [OF all] by simp
qed

lemma GC_store: "ds_store (GC dv cd doc s) = gc_prune (desiredNames cd doc) (ds_store s)"
  by (auto simp: GC_def Let_def on_world_def split: prod.splits sum.splits)

section \<open>No resurrection\<close>

text \<open>
  A step that holds the driver's lock: the repair of one container of some earlier snapshot of the
  store, however stale, a garbage collection for some document, or the decommissioning.
\<close>

inductive locked :: "'d Driver \<Rightarrow> 'p codec \<Rightarrow> 'd dstate \<Rightarrow> 'd dstate \<Rightarrow> bool" for dv cd where
  repair: "Name spec = n \<Longrightarrow> locked dv cd s (reconcileOne dv cd n spec s)"
| collect: "locked dv cd s (GC dv cd doc s)"
| purge: "locked dv cd s (snd (RemoveManagedContainers dv s))"

inductive locked_steps :: "'d Driver \<Rightarrow> 'p codec \<Rightarrow> 'd dstate \<Rightarrow> 'd dstate \<Rightarrow> bool" for dv cd where
  refl: "locked_steps dv cd s s"
| step: "locked_steps dv cd s s1 \<Longrightarrow> locked dv cd s1 s2 \<Longrightarrow> locked_steps dv cd s s2"

inductive_cases locked_E: "locked dv cd s s'"

text \<open>\<open>extends Q f\<close>: the calls that \<open>f\<close> adds to the log satisfy \<open>Q\<close>.\<close>

definition extends :: "(call \<Rightarrow> bool) \<Rightarrow> ('d tr \<Rightarrow> 'r \<times> 'd tr) \<Rightarrow> bool" where
  "extends Q f \<longleftrightarrow> (\<forall>s. \<exists>mid. snd (snd (f s)) = snd s @ mid \<and> (\<forall>c \<in> set mid. Q c))"

lemma extends_rec [intro!]: "(\<And>r. \<forall>c \<in> set (ev r). Q c) \<Longrightarrow> extends Q (rec_call ev f)"
  by (auto simp: extends_def snd_rec_call)

lemma extends_ret [intro!]: "extends Q (\<lambda>s. (r, s))"
  by (auto simp: extends_def)

lemma extends_bind:
  assumes "extends Q f" "\<And>r. extends Q (g r)"
  shows "extends Q (\<lambda>s. case f s of (r, s1) \<Rightarrow> g r s1)"
  unfolding extends_def
proof
  fix s
  obtain r s1 where f: "f s = (r, s1)" by (metis surj_pair)
  from assms(1) f obtain m1 where m1: "snd s1 = snd s @ m1" "\<forall>c \<in> set m1. Q c" by (metis extends_def snd_conv)
  from assms(2) obtain m2 where "snd (snd (g r s1)) = snd s1 @ m2" "\<forall>c \<in> set m2. Q c" by (metis extends_def)
  with f m1 show "\<exists>mid. snd (snd (case f s of (r, s1) \<Rightarrow> g r s1)) = snd s @ mid \<and> (\<forall>c \<in> set mid. Q c)"
    by (intro exI [of _ "m1 @ m2"]) auto
qed

lemma extends_sum:
  "(\<And>e. extends Q (A e)) \<Longrightarrow> (\<And>x. extends Q (B x)) \<Longrightarrow> extends Q (\<lambda>s. case r of Inl e \<Rightarrow> A e s | Inr x \<Rightarrow> B x s)"
  by (cases r) simp_all

lemma extends_opt:
  "extends Q C \<Longrightarrow> (\<And>x. extends Q (D x)) \<Longrightarrow> extends Q (\<lambda>s. case q of None \<Rightarrow> C s | Some x \<Rightarrow> D x s)"
  by (cases q) simp_all

lemma extends_if:
  "extends Q C \<Longrightarrow> extends Q C' \<Longrightarrow> extends Q (\<lambda>s. if b then C s else C' s)"
  by (cases b) simp_all

lemma extends_pair: "(\<And>a b. extends Q (F a b)) \<Longrightarrow> extends Q (\<lambda>s. case p of (a, b) \<Rightarrow> F a b s)"
  by (cases p) simp

lemmas extends_cases = extends_sum extends_opt extends_if extends_pair

lemma extends_remove: "extends Q (\<lambda>s. (r, removeQuietly (traced dk) cid s))" if "\<And>i. Q (ERemove i)"
  using that by (auto simp: extends_def removeQuietly_def snd_rec_call)

lemma traced_env_simps [simp]:
  "fetch_secrets (traced dk) r = quiet (fetch_secrets dk r)" "MkdirAll (traced dk) p = quiet (MkdirAll dk p)"
  "Statfs (traced dk) p = quiet (Statfs dk p)" "WriteFile (traced dk) p v = quiet (WriteFile dk p v)"
  by (simp_all add: traced_def)

lemma extends_write: "extends Q (write_each (traced dk) dir ss)"
proof (induction ss)
  case (Cons s ss)
  then show ?case
    by (cases "safeSecretFileName (S_Name s)")
      (auto simp: Let_def fun_eq_iff intro!: extends_bind extends_cases)
qed (auto simp: extends_def)

definition creates_only :: "string \<Rightarrow> call \<Rightarrow> bool" where
  "creates_only n c \<longleftrightarrow> (\<forall>m r. c = ECreate m r \<longrightarrow> m = n)"

lemma extends_converge: "extends (creates_only (Name spec)) (converge (dv\<lparr>docker := traced dk\<rparr>) cd spec)"
proof -
  have seed: "extends (creates_only n) (seed_after_start (traced dk) nm cid files)" for n nm cid files
    unfolding seed_after_start_def writeFileSecrets_def Let_def
    by (intro extends_bind extends_cases extends_ret extends_remove extends_write)
      (auto simp: creates_only_def)
  have res: "extends (creates_only n) (resolve_secrets msg (dv\<lparr>docker := traced dk\<rparr>) spec)" for n msg
    unfolding resolve_secrets_def by (auto intro!: extends_bind extends_cases)
  have fresh: "extends (creates_only (Name spec)) (create_fresh (dv\<lparr>docker := traced dk\<rparr>) spec body files)" for body files
    unfolding create_fresh_def by (auto simp: creates_only_def intro!: extends_bind extends_cases seed)
  show ?thesis
    unfolding converge_def Let_def
    by (auto simp: creates_only_def [of "Name spec" "EInspect _ _"] creates_only_def [of "Name spec" "ERemove _"]
        intro!: extends_bind extends_cases res fresh)
qed

definition quiet_step :: "'d tr dstate \<Rightarrow> 'd tr dstate \<Rightarrow> bool" where
  "quiet_step s s' \<longleftrightarrow> sview (ds_store s') \<subseteq>\<^sub>m sview (ds_store s) \<and>
     (\<exists>mid. snd (ds_world s') = snd (ds_world s) @ mid \<and>
        (\<forall>n r. ECreate n r \<in> set mid \<longrightarrow> sview (ds_store s) n \<noteq> None))"

lemma quiet_step_refl: "quiet_step s s"
  by (simp add: quiet_step_def)

lemma map_le_Some: "m \<subseteq>\<^sub>m m' \<Longrightarrow> m n = Some y \<Longrightarrow> m' n = Some y"
  by (metis domI map_le_def)

lemma quiet_step_trans: "quiet_step s s1 \<Longrightarrow> quiet_step s1 s2 \<Longrightarrow> quiet_step s s2"
  unfolding quiet_step_def
  by (auto intro: map_le_trans) (blast dest: map_le_Some)+

lemma quiet_world:
  assumes "extends Q f" "\<And>n r. Q (ECreate n r) \<Longrightarrow> sview (ds_store s) n \<noteq> None"
  shows "quiet_step s (snd (on_world f s))"
proof -
  from assms(1) obtain mid where "snd (snd (f (ds_world s))) = snd (ds_world s) @ mid" "\<forall>c \<in> set mid. Q c"
    unfolding extends_def by blast
  with assms(2) have "snd (snd (f (ds_world s))) = snd (ds_world s) @ mid"
    "\<forall>n r. ECreate n r \<in> set mid \<longrightarrow> sview (ds_store s) n \<noteq> None" by blast+
  then show ?thesis by (auto simp: quiet_step_def on_world_def split: prod.splits)
qed

lemma quiet_reconcileOne:
  assumes "Name spec = n"
  shows "quiet_step s (reconcileOne (dv\<lparr>docker := traced dk\<rparr>) cd n spec s)"
proof -
  obtain r st where has: "HasDesired n (ds_store s) = (r, st)" by (metis surj_pair)
  let ?s1 = "s\<lparr>ds_store := st\<rparr>"
  have view: "sview st = sview (ds_store s)" by (rule ds.has_view [OF has])
  have q1: "quiet_step s ?s1" using view by (simp add: quiet_step_def)
  show ?thesis
  proof (cases "r = Inr True")
    case False
    then have "reconcileOne (dv\<lparr>docker := traced dk\<rparr>) cd n spec s = ?s1"
      using has by (auto simp: reconcileOne_def on_store_def split: sum.splits bool.splits)
    with q1 show ?thesis by simp
  next
    case True
    have desired: "sview (ds_store ?s1) n \<noteq> None" using ds.has_ok [OF has [unfolded True]] view by simp
    obtain c s2 where ins: "on_world (ContainerInspect (traced dk) n) ?s1 = (c, s2)" by (metis surj_pair)
    have "quiet_step ?s1 (snd (on_world (ContainerInspect (traced dk) n) ?s1))"
      by (rule quiet_world [where Q = "\<lambda>c. \<not> (\<exists>n r. c = ECreate n r)"]) auto
    then have q2: "quiet_step s s2" using q1 ins quiet_step_trans by fastforce
    have "sview (ds_store s2) n \<noteq> None" using desired on_world_store [OF ins] by simp
    then have q3: "quiet_step s2 (snd (on_world (converge (dv\<lparr>docker := traced dk\<rparr>) cd spec) s2))"
      using assms by (intro quiet_world [OF extends_converge]) (auto simp: creates_only_def)
    show ?thesis using has True ins q2 quiet_step_trans [OF q2 q3]
      by (auto simp: reconcileOne_def on_store_def simp del: traced_simps split: sum.splits)
  qed
qed

lemma quiet_GC: "quiet_step s (GC (dv\<lparr>docker := traced dk\<rparr>) cd doc s)"
proof -
  have "sview (ds_store (GC (dv\<lparr>docker := traced dk\<rparr>) cd doc s)) \<subseteq>\<^sub>m sview (ds_store s)"
    unfolding GC_store map_le_def by (metis domD gc_prune_sub)
  then show ?thesis
    by (auto simp: quiet_step_def GC_def Let_def on_world_def remove_each_traced rec_call_eq
        split: prod.splits sum.splits)
qed

lemma forget_each_sub: "forget_each es st = (errs, st') \<Longrightarrow> sview st' \<subseteq>\<^sub>m sview st"
proof (induction es st arbitrary: errs st' rule: forget_each.induct)
  case (2 n spec es st)
  obtain e st1 where del: "DeleteDesired n st = (e, st1)" by (metis surj_pair)
  have "sview st1 \<subseteq>\<^sub>m sview st" using ds.del_ok [of n st st1] ds.del_err [of n st _ st1] del
    by (cases e) (auto simp: map_le_def)
  then show ?case using 2 del by (auto split: prod.splits intro: map_le_trans)
qed simp

lemma extends_purge: "extends (\<lambda>c. \<not> is_some_create c) (purge_each (\<lambda>c. ContainerRemove (traced dk) (C_ID c)) what cs)"
  if "\<And>i. \<not> is_some_create (ERemove i)" for is_some_create
proof (induction cs)
  case (Cons c cs)
  then show ?case using that by (auto intro!: extends_bind)
qed auto

lemma quiet_purge: "quiet_step s (snd (RemoveManagedContainers (dv\<lparr>docker := traced dk\<rparr>) s))"
proof -
  let ?create = "\<lambda>c. \<exists>n r. c = ECreate n r"
  obtain r st where all: "AllDesired (ds_store s) = (r, st)" by (metis surj_pair)
  let ?s1 = "s\<lparr>ds_store := st\<rparr>"
  have q1: "quiet_step s ?s1" using ds.all_view [OF all] by (simp add: quiet_step_def)
  show ?thesis
  proof (cases r)
    case (Inl e)
    with all q1 show ?thesis by (simp add: RemoveManagedContainers_def on_store_def)
  next
    case (Inr es)
    obtain errs st2 where fg: "forget_each es st = (errs, st2)" by (metis surj_pair)
    let ?s2 = "s\<lparr>ds_store := st2\<rparr>"
    have q2: "quiet_step s ?s2"
      using quiet_step_trans [OF q1, of ?s2] forget_each_sub [OF fg] by (simp add: quiet_step_def)
    obtain l s3 where ls: "on_world (ContainerList (traced dk)) ?s2 = (l, s3)" by (metis surj_pair)
    have "quiet_step ?s2 (snd (on_world (ContainerList (traced dk)) ?s2))"
      by (rule quiet_world [where Q = "\<lambda>c. \<not> ?create c"]) auto
    with q2 ls have q3: "quiet_step s s3" using quiet_step_trans by fastforce
    have "quiet_step s3 (snd (on_world (purge_each (\<lambda>c. ContainerRemove (traced dk) (C_ID c)) what cs) s3))" for what cs
      by (rule quiet_world [OF extends_purge [of ?create]]) auto
    note q4 = quiet_step_trans [OF q3 this]
    show ?thesis
    proof (cases l)
      case (Inl e)
      with q3 all \<open>r = Inr es\<close> fg ls show ?thesis
        by (simp add: RemoveManagedContainers_def on_store_def del: traced_simps)
    next
      case (Inr cs)
      with q4 all \<open>r = Inr es\<close> fg ls show ?thesis
        by (simp add: RemoveManagedContainers_def on_store_def case_prod_beta del: traced_simps)
    qed
  qed
qed

lemma quiet_locked_steps: "locked_steps (dv\<lparr>docker := traced dk\<rparr>) cd s s' \<Longrightarrow> quiet_step s s'"
proof (induction rule: locked_steps.induct)
  case (refl s)
  show ?case by (rule quiet_step_refl)
next
  case (step s s1 s2)
  from step.hyps(2) have "quiet_step s1 s2"
    by (cases rule: locked.cases) (auto simp: quiet_reconcileOne quiet_GC quiet_purge)
  with step.IH show ?case by (rule quiet_step_trans)
qed

text \<open>
  C5. Nothing removed comes back by itself (reconcile.go reconcileOne and GC, purge.go
  RemoveManagedContainers). Take any sequence of the steps that hold the driver's lock: repairs
  of containers from arbitrarily stale snapshots of the desired set, garbage collections for
  any documents, and the decommissioning, with any failures of the store and the daemon. Every container such a
  sequence creates was desired when it began, and the desired set only shrinks. So a container
  pruned before is not created again until a document asks for it.
\<close>

theorem no_resurrection:
  assumes "locked_steps (dv\<lparr>docker := traced dk\<rparr>) cd s s'" and "ds_world s = (d, [])"
  shows "(\<forall>n r. ECreate n r \<in> set (snd (ds_world s')) \<longrightarrow> sview (ds_store s) n \<noteq> None) \<and>
    sview (ds_store s') \<subseteq>\<^sub>m sview (ds_store s)"
  using quiet_locked_steps [OF assms(1)] assms(2) by (auto simp: quiet_step_def)

definition traced_driver :: "daemon tr Driver" where
  "traced_driver =
     \<lparr>docker = traced memory_docker, allowlist = \<lparr>Enabled = False, Prefixes = []\<rparr>, serverID = ''srv'',
      has_secrets = False, has_startup = False, has_registry = False\<rparr>"

definition repair_start :: "daemon tr dstate" where
  "repair_start = \<lparr>ds_store = demo_store, ds_limiter = newRateLimiter 20 5 0,
     ds_world = (demo_daemon\<lparr>dm_containers := []\<rparr>, [])\<rparr>"

definition repaired :: "daemon tr dstate" where
  "repaired = reconcileOne traced_driver demo_codec ''sigmahub-res-g1'' (demo_spec\<lparr>Name := ''sigmahub-res-g1''\<rparr>) repair_start"

lemma repaired_creates: "map C_Name (dm_containers (fst (ds_world repaired))) = [''sigmahub-res-g1'']"
  by code_simp

theorem no_resurrection_witness:
  "map C_Name (dm_containers (fst (ds_world repaired))) = [''sigmahub-res-g1''] \<and>
    {n. \<exists>r. ECreate n r \<in> set (snd (ds_world repaired))} \<subseteq> dom (sview (ds_store repair_start)) \<and>
    sview (ds_store repaired) \<subseteq>\<^sub>m sview (ds_store repair_start)"
proof -
  have drv: "traced_driver = traced_driver\<lparr>docker := traced memory_docker\<rparr>" by (simp add: traced_driver_def)
  have "locked_steps traced_driver demo_codec repair_start repaired"
    unfolding repaired_def by (rule locked_steps.step [OF locked_steps.refl locked.repair]) simp
  then have "locked_steps (traced_driver\<lparr>docker := traced memory_docker\<rparr>) demo_codec repair_start repaired"
    using drv by simp
  note steps = this
  have "ds_world repair_start = (demo_daemon\<lparr>dm_containers := []\<rparr>, [])" by (simp add: repair_start_def)
  note keep = no_resurrection [OF steps this]
  then show ?thesis using repaired_creates by blast
qed

section \<open>What the desired set misses\<close>

text \<open>
  The desired set after a garbage collection (reconcile.go, GC). When the store's transactions
  succeed it keeps exactly the records whose name some op of the document wants, with their
  specs. A record of a group that is only protected, by a retain list or as the older generation of
  a running deploy, is dropped although its container is spared, and the reconcile step for
  it then leaves the host as it is, whatever happened to the container.
\<close>

theorem gc_desired_exact:
  assumes "store_ok (ds_store s)" "faults (ds_store s) = []"
  shows "sview (ds_store (GC dv cd doc s)) n =
      (if \<exists>op \<in> set (Ops doc). wanted_name cd op = Some n then sview (ds_store s) n else None) \<and>
    ((\<forall>op \<in> set (Ops doc). wanted_name cd op \<noteq> Some n) \<longrightarrow>
       ds_world (reconcileOne dv cd n spec (GC dv cd doc s)) = ds_world (GC dv cd doc s))"
proof -
  have view: "sview (ds_store (GC dv cd doc s)) n =
      (if \<exists>op \<in> set (Ops doc). wanted_name cd op = Some n then sview (ds_store s) n else None)"
    using gc_prune_exact [OF assms, of "desiredNames cd doc" n] by (simp add: GC_store desiredNames_iff)
  obtain r st where has: "HasDesired n (ds_store (GC dv cd doc s)) = (r, st)" by (metis surj_pair)
  have "r \<noteq> Inr True" if "\<forall>op \<in> set (Ops doc). wanted_name cd op \<noteq> Some n"
    using ds.has_ok [of n "ds_store (GC dv cd doc s)" True st] has view that by auto
  then show ?thesis using view has
    by (auto simp: reconcileOne_def on_store_def split: sum.splits bool.splits)
qed

definition held_state :: "daemon dstate" where
  "held_state = \<lparr>ds_store = demo_store, ds_limiter = newRateLimiter 20 5 0, ds_world = demo_world\<rparr>"

theorem gc_desired_exact_witness:
  "map C_Name (dm_containers (ds_world (GC demo_driver demo_codec held_doc held_state))) = [''sigmahub-res-g1''] \<and>
   sview (ds_store held_state) ''sigmahub-res-g1'' \<noteq> None \<and>
   sview (ds_store (GC demo_driver demo_codec held_doc held_state)) ''sigmahub-res-g1'' = None"
proof -
  have live: "map C_Name (dm_containers (ds_world (GC demo_driver demo_codec held_doc held_state))) = [''sigmahub-res-g1'']"
    by code_simp
  have "store_ok (ds_store held_state)"
    by (simp add: store_ok_def held_state_def demo_store_def bucket_ok_def less_list_code less_char_def)
  moreover have "faults (ds_store held_state) = []" by (simp add: held_state_def demo_store_def)
  moreover have "\<forall>op \<in> set (Ops held_doc). wanted_name demo_codec op \<noteq> Some ''sigmahub-res-g1''"
    by (simp add: held_doc_def wanted_name_def kind_defs)
  ultimately show ?thesis
    using live gc_desired_exact [of held_state demo_driver demo_codec held_doc "''sigmahub-res-g1''" demo_spec]
    by (simp add: held_state_def demo_store_def sview_def bget_def)
qed

text \<open>
  Reconcile ticks while a document is applied (main.go runDSDLoop calls GC before the ops;
  reconcile.go). After the garbage collection of a document whose store transactions
  succeeded, no repair from any snapshot, fresh or stale, taken before or after, interleaved with further
  collections in any order, creates a container that the document does not name: in particular a tick
  during a rollout cannot bring back the generation that the rollout drains.
\<close>

theorem gc_ticks_safe:
  assumes ok: "store_ok (ds_store s)" "faults (ds_store s) = []"
    and gc: "s1 = (GC dv0 cd doc s)\<lparr>ds_world := (d, [])\<rparr>"
    and run: "locked_steps (dv\<lparr>docker := traced dk\<rparr>) cd s1 s2"
    and made: "ECreate n r \<in> set (snd (ds_world s2))"
  shows "\<exists>op \<in> set (Ops doc). wanted_name cd op = Some n"
proof -
  have view: "sview (ds_store s1) n = (if desiredNames cd doc n then sview (ds_store s) n else None)"
    using gc_prune_exact [OF ok, of "desiredNames cd doc" n] by (simp add: gc GC_store)
  have "quiet_step s1 s2" by (rule quiet_locked_steps [OF run])
  then have "sview (ds_store s1) n \<noteq> None" using made gc by (auto simp: quiet_step_def)
  with view show ?thesis by (auto simp: desiredNames_iff split: if_splits)
qed

definition tick_doc :: "payload Document" where
  "tick_doc = \<lparr>Version = 9, OrgID = ''o'', ServerID = ''srv'', Ops =
     [\<lparr>ID = ''r'', Kind = KindDeployRollout, DependsOn = [],
       Spec = PRollout (demo_rollout\<lparr>RS_Generation := ''g1''\<rparr>)\<rparr>]\<rparr>"

definition tick_start :: "daemon tr dstate" where
  "tick_start = (GC traced_driver demo_codec tick_doc repair_start)\<lparr>ds_world := (demo_daemon\<lparr>dm_containers := []\<rparr>, [])\<rparr>"

definition ticked :: "daemon tr dstate" where
  "ticked = reconcileOne traced_driver demo_codec ''sigmahub-res-g1'' (demo_spec\<lparr>Name := ''sigmahub-res-g1''\<rparr>) tick_start"

lemma ticked_creates: "filter (\<lambda>c. case c of ECreate n r \<Rightarrow> n = ''sigmahub-res-g1'' | _ \<Rightarrow> False) (snd (ds_world ticked)) \<noteq> []"
  by code_simp

theorem gc_ticks_safe_witness:
  "\<exists>op \<in> set (Ops tick_doc). wanted_name demo_codec op = Some ''sigmahub-res-g1''"
proof -
  have st: "store_ok (ds_store repair_start)" "faults (ds_store repair_start) = []"
    by (simp_all add: store_ok_def repair_start_def demo_store_def bucket_ok_def less_list_code less_char_def)
  have drv: "traced_driver\<lparr>docker := traced memory_docker\<rparr> = traced_driver" by (simp add: traced_driver_def)
  have run: "locked_steps (traced_driver\<lparr>docker := traced memory_docker\<rparr>) demo_codec tick_start ticked"
    unfolding drv ticked_def by (rule locked_steps.step [OF locked_steps.refl locked.repair]) simp
  obtain c where c: "c \<in> set (snd (ds_world ticked))"
    "case c of ECreate n r \<Rightarrow> n = ''sigmahub-res-g1'' | _ \<Rightarrow> False"
    using ticked_creates unfolding filter_empty_conv by blast
  from c(2) obtain r where "c = ECreate ''sigmahub-res-g1'' r" by (cases c) simp_all
  with c(1) have "ECreate ''sigmahub-res-g1'' r \<in> set (snd (ds_world ticked))" by simp
  from gc_ticks_safe [OF st tick_start_def run this] show ?thesis .
qed

end
