(* ===== verification/Journal.thy ===== *)
theory Journal
  imports Bolt
begin

text \<open>
  The on-disk journal of the agent (agent/internal/apply/journal.go): the last applied and last
  reported versions in the bucket \<open>meta\<close>, and one result per (version, op id) in the bucket
  \<open>journal\<close>, under the key \<open>%020d:%s\<close>. Each operation is one bbolt transaction, which may fail.

  The locale \<open>op_journal\<close> is the contract the apply loop relies on: a recorded result is what
  \<open>Result\<close> later returns, a failed transaction changes nothing. It is interpreted on the
  operations below. \<open>ResultsForVersion\<close> is shown to return exactly the results recorded for that
  version, which rests on the key format being injective and on the order of the cursor.
\<close>

section \<open>Data\<close>

datatype op_state = Applied | Failed | Skipped

record OpResult =
  R_Version :: int
  R_OpID :: string
  R_State :: op_state
  R_Err :: string
  R_At :: timestamp

record journal = disk +
  meta :: "int bucket"
  journal :: "OpResult bucket"

definition journal_ok :: "journal \<Rightarrow> bool" where
  "journal_ok j \<longleftrightarrow> bucket_ok (meta j) \<and> bucket_ok (journal j)"

section \<open>Operations\<close>

definition Open :: "bool list \<Rightarrow> journal res" where
  "Open fs = (let (fl, j) = tx \<lparr>faults = fs, meta = [], journal = []\<rparr>
              in if fl then Inl bolt_error else Inr j)"

definition meta_read :: "string \<Rightarrow> journal \<Rightarrow> int res \<times> journal" where
  "meta_read k j =
     (let (fl, j') = tx j
      in if fl then (Inl bolt_error, j')
         else (Inr (case bget k (meta j') of None \<Rightarrow> 0 | Some v \<Rightarrow> v), j'))"

definition meta_write :: "string \<Rightarrow> int \<Rightarrow> journal \<Rightarrow> goerr option \<times> journal" where
  "meta_write k v j =
     (let (fl, j') = tx j
      in if fl then (Some bolt_error, j') else (None, j'\<lparr>meta := bput k v (meta j')\<rparr>))"

definition LastAppliedVersion :: "journal \<Rightarrow> int res \<times> journal" where
  "LastAppliedVersion j = meta_read ''lastAppliedVersion'' j"

definition SetLastAppliedVersion :: "int \<Rightarrow> journal \<Rightarrow> goerr option \<times> journal" where
  "SetLastAppliedVersion v j = meta_write ''lastAppliedVersion'' v j"

definition LastReportedVersion :: "journal \<Rightarrow> int res \<times> journal" where
  "LastReportedVersion j = meta_read ''lastReportedVersion'' j"

definition SetLastReportedVersion :: "int \<Rightarrow> journal \<Rightarrow> goerr option \<times> journal" where
  "SetLastReportedVersion v j = meta_write ''lastReportedVersion'' v j"

definition key :: "int \<Rightarrow> string \<Rightarrow> string" where
  "key version opID = format_020d version @ '':'' @ opID"

fun collect_results :: "(string \<times> OpResult) list \<Rightarrow> (string \<Rightarrow> OpResult option) \<Rightarrow> string \<Rightarrow> OpResult option" where
  "collect_results [] out = out"
| "collect_results ((k, r) # es) out = collect_results es (out(R_OpID r \<mapsto> r))"

definition ResultsForVersion :: "int \<Rightarrow> journal \<Rightarrow> (string \<Rightarrow> OpResult option) res \<times> journal" where
  "ResultsForVersion version j =
     (let (fl, j') = tx j
      in if fl then (Inl bolt_error, j')
         else (Inr (collect_results (cursor_scan (format_020d version @ '':'') (journal j')) Map.empty), j'))"

definition Record :: "OpResult \<Rightarrow> journal \<Rightarrow> goerr option \<times> journal" where
  "Record r j =
     (let (fl, j') = tx j
      in if fl then (Some bolt_error, j')
         else (None, j'\<lparr>journal := bput (key (R_Version r) (R_OpID r)) r (journal j')\<rparr>))"

definition Result :: "int \<Rightarrow> string \<Rightarrow> journal \<Rightarrow> OpResult option res \<times> journal" where
  "Result version opID j =
     (let (fl, j') = tx j
      in if fl then (Inl bolt_error, j') else (Inr (bget (key version opID) (journal j')), j'))"

section \<open>The key format\<close>

lemma key_inj: "key v i = key v' i' \<longleftrightarrow> v = v' \<and> i = i'"
  using append_sep_inj [of "format_020d v" "CHR '':''" i "format_020d v'" i']
  by (auto simp: key_def format_020d_no_colon dest: format_020d_inj)

lemma key_prefix: "has_prefix (key v' i) (format_020d v @ '':'') \<longleftrightarrow> v' = v"
proof
  assume "has_prefix (key v' i) (format_020d v @ '':'')"
  then have "\<exists>t. key v' i = (format_020d v @ '':'') @ t" by (simp only: has_prefix_iff)
  then obtain t where "format_020d v' @ CHR '':'' # i = format_020d v @ CHR '':'' # t"
    by (auto simp: key_def)
  then have "format_020d v' = format_020d v"
    by (rule append_sep_inj [THEN conjunct1]) (rule format_020d_no_colon)+
  then show "v' = v" by (rule format_020d_inj)
next
  assume "v' = v"
  moreover have "key v i = (format_020d v @ '':'') @ i" by (simp add: key_def)
  ultimately show "has_prefix (key v' i) (format_020d v @ '':'')" by (simp only: has_prefix_append)
qed

section \<open>The contract of the apply loop\<close>

text \<open>
  \<open>view j v i\<close> is the result stored for version \<open>v\<close> and op \<open>i\<close>.
\<close>

locale op_journal =
  fixes rec :: "OpResult \<Rightarrow> 'j \<Rightarrow> goerr option \<times> 'j"
    and res :: "int \<Rightarrow> string \<Rightarrow> 'j \<Rightarrow> OpResult option res \<times> 'j"
    and view :: "'j \<Rightarrow> int \<Rightarrow> string \<Rightarrow> OpResult option"
  assumes rec_ok: "rec r j = (None, j') \<Longrightarrow>
      view j' v i = (if v = R_Version r \<and> i = R_OpID r then Some r else view j v i)"
    and rec_err: "rec r j = (Some e, j') \<Longrightarrow> view j' = view j"
    and res_ok: "res v i j = (Inr x, j') \<Longrightarrow> x = view j v i"
    and res_view: "res v i j = (y, j') \<Longrightarrow> view j' = view j"
begin

text \<open>A record leaves every other entry alone, whether it commits or not.\<close>

lemma rec_other: "rec r j = (e, j') \<Longrightarrow> (v, i) \<noteq> (R_Version r, R_OpID r) \<Longrightarrow> view j' v i = view j v i"
  by (cases e) (auto simp: rec_ok rec_err)

lemma rec_then_res:
  assumes "rec r j = (None, j1)" and "res (R_Version r) (R_OpID r) j1 = (Inr x, j2)"
  shows "x = Some r"
  using res_ok [OF assms(2)] rec_ok [OF assms(1)] by simp

end

definition jview :: "journal \<Rightarrow> int \<Rightarrow> string \<Rightarrow> OpResult option" where
  "jview j v i = bget (key v i) (journal j)"

lemma tx_simps [simp]:
  "tx j = (fl, j') \<Longrightarrow> journal j' = journal (j :: journal)"
  "tx j = (fl, j') \<Longrightarrow> meta j' = meta j"
  "tx j = (fl, j') \<Longrightarrow> journal_ok j' = journal_ok j"
  by (auto simp: tx_def journal_ok_def split: list.splits)

interpretation jrn: op_journal Record Result jview
  by unfold_locales
    (auto simp: Record_def Result_def jview_def bget_bput key_inj fun_eq_iff Let_def
      split: prod.splits if_splits)

text \<open>What each operation keeps of the other data.\<close>

lemma Record_frame:
  "Record r j = (e, j') \<Longrightarrow> meta j' = meta j \<and> (journal_ok j \<longrightarrow> journal_ok j')"
  by (auto simp: Record_def Let_def journal_ok_def bucket_ok_bput split: prod.splits if_splits)

lemma Result_frame:
  "Result v i j = (x, j') \<Longrightarrow> meta j' = meta j \<and> (journal_ok j \<longrightarrow> journal_ok j')"
  by (auto simp: Result_def Let_def split: prod.splits if_splits)

definition applied_version :: "journal \<Rightarrow> int" where
  "applied_version j = (case bget ''lastAppliedVersion'' (meta j) of None \<Rightarrow> 0 | Some v \<Rightarrow> v)"

definition reported_version :: "journal \<Rightarrow> int" where
  "reported_version j = (case bget ''lastReportedVersion'' (meta j) of None \<Rightarrow> 0 | Some v \<Rightarrow> v)"

lemma meta_read_frame: "meta_read k j = (x, j') \<Longrightarrow>
    meta j' = meta j \<and> journal j' = journal j \<and> (journal_ok j' = journal_ok j) \<and>
    (\<forall>v. x = Inr v \<longrightarrow> v = (case bget k (meta j) of None \<Rightarrow> 0 | Some v \<Rightarrow> v))"
  by (auto simp: meta_read_def Let_def split: prod.splits if_splits)

lemma meta_write_frame: "meta_write k v j = (e, j') \<Longrightarrow>
    journal j' = journal j \<and> (journal_ok j \<longrightarrow> journal_ok j') \<and>
    (e = None \<longrightarrow> meta j' = bput k v (meta j)) \<and> (e \<noteq> None \<longrightarrow> meta j' = meta j)"
  by (auto simp: meta_write_def Let_def journal_ok_def bucket_ok_bput split: prod.splits if_splits)

lemma LastAppliedVersion_ok: "LastAppliedVersion j = (Inr v, j') \<Longrightarrow> v = applied_version j"
  by (auto simp: LastAppliedVersion_def applied_version_def dest: meta_read_frame)

lemma LastReportedVersion_ok: "LastReportedVersion j = (Inr v, j') \<Longrightarrow> v = reported_version j"
  by (auto simp: LastReportedVersion_def reported_version_def dest: meta_read_frame)

lemma SetLastAppliedVersion_ok: "SetLastAppliedVersion v j = (None, j') \<Longrightarrow>
    applied_version j' = v \<and> reported_version j' = reported_version j"
  using meta_write_frame [of "''lastAppliedVersion''" v j None j']
  by (simp add: SetLastAppliedVersion_def applied_version_def reported_version_def bget_bput)

lemma SetLastReportedVersion_ok: "SetLastReportedVersion v j = (None, j') \<Longrightarrow>
    reported_version j' = v \<and> applied_version j' = applied_version j"
  using meta_write_frame [of "''lastReportedVersion''" v j None j']
  by (simp add: SetLastReportedVersion_def applied_version_def reported_version_def bget_bput)

section \<open>Results of one version\<close>

text \<open>Every entry is stored under the key of the result it holds; \<open>Record\<close> keeps that.\<close>

definition keyed :: "journal \<Rightarrow> bool" where
  "keyed j \<longleftrightarrow> journal_ok j \<and>
     (\<forall>k r. bget k (journal j) = Some r \<longrightarrow> k = key (R_Version r) (R_OpID r))"

lemma keyed_empty: "keyed \<lparr>faults = fs, meta = [], journal = []\<rparr>"
  by (simp add: keyed_def journal_ok_def bget_def)

lemma keyed_tx: "tx j = (fl, j') \<Longrightarrow> keyed j' \<longleftrightarrow> keyed j"
  by (simp add: keyed_def)

lemma keyed_Open: "Open fs = Inr j \<Longrightarrow> keyed j"
  using keyed_tx keyed_empty by (fastforce simp: Open_def split: prod.splits if_splits)

lemma keyed_Record: "keyed j \<Longrightarrow> Record r j = (e, j') \<Longrightarrow> keyed j'"
  by (auto simp: keyed_def Record_def Let_def journal_ok_def bucket_ok_bput bget_bput
      split: prod.splits if_splits)

lemma collect_results_other:
  "i \<notin> R_OpID ` snd ` set es \<Longrightarrow> collect_results es out i = out i"
  by (induction es out rule: collect_results.induct) auto

lemma collect_results_iff:
  assumes "distinct (map (\<lambda>e. R_OpID (snd e)) es)" and "i \<notin> dom out"
  shows "collect_results es out i = Some r \<longleftrightarrow> (\<exists>k. (k, r) \<in> set es \<and> R_OpID r = i)"
  using assms
proof (induction es out rule: collect_results.induct)
  case (2 k x es out)
  show ?case
  proof (cases "R_OpID x = i")
    case True
    with 2 have "i \<notin> R_OpID ` snd ` set es" by (auto simp: image_image)
    with True show ?thesis using collect_results_other [of i es "out(R_OpID x \<mapsto> x)"]
      by (auto simp: image_iff)
  next
    case False
    with "2.prems" have "i \<notin> dom (out(R_OpID x \<mapsto> x))" by auto
    with "2.IH" "2.prems" False show ?thesis by (auto simp del: fun_upd_apply)
  qed
qed auto

lemma scan_keyed:
  assumes "keyed j"
  shows "(k, r) \<in> set (cursor_scan (format_020d v @ '':'') (journal j)) \<longleftrightarrow>
      bget k (journal j) = Some r \<and> R_Version r = v"
proof -
  have "bucket_ok (journal j)" using assms by (simp add: keyed_def journal_ok_def)
  then have "(k, r) \<in> set (cursor_scan (format_020d v @ '':'') (journal j)) \<longleftrightarrow>
      bget k (journal j) = Some r \<and> has_prefix k (format_020d v @ '':'')"
    by (rule kv.scan_iff)
  moreover have "bget k (journal j) = Some r \<Longrightarrow> k = key (R_Version r) (R_OpID r)"
    using assms by (simp add: keyed_def)
  ultimately show ?thesis by (auto simp: key_prefix)
qed

lemma scan_distinct_ids:
  assumes "keyed j"
  shows "distinct (map (\<lambda>e. R_OpID (snd e)) (cursor_scan (format_020d v @ '':'') (journal j)))"
proof -
  let ?es = "cursor_scan (format_020d v @ '':'') (journal j)"
  have keys: "distinct (map fst ?es)"
    using assms by (intro kv.scan_distinct) (simp add: keyed_def journal_ok_def)
  have "fst e = key v (R_OpID (snd e))" if "e \<in> set ?es" for e
    using that assms scan_keyed [OF assms, of "fst e" "snd e" v] by (auto simp: keyed_def)
  then have "map fst ?es = map (key v) (map (\<lambda>e. R_OpID (snd e)) ?es)" by simp
  with keys have "distinct (map (key v) (map (\<lambda>e. R_OpID (snd e)) ?es))" by (simp only:)
  then show ?thesis unfolding distinct_map by simp
qed

lemma ResultsForVersion_view:
  assumes "keyed j" and "ResultsForVersion v j = (Inr m, j')"
  shows "m i = jview j v i"
proof -
  let ?es = "cursor_scan (format_020d v @ '':'') (journal j)"
  have m: "m = collect_results ?es Map.empty"
    using assms(2) by (auto simp: ResultsForVersion_def Let_def split: prod.splits if_splits)
  have "m i = Some r \<longleftrightarrow> jview j v i = Some r" for r
  proof -
    have "m i = Some r \<longleftrightarrow> (\<exists>k. (k, r) \<in> set ?es \<and> R_OpID r = i)"
      unfolding m using scan_distinct_ids [OF assms(1)] by (intro collect_results_iff) auto
    also have "\<dots> \<longleftrightarrow> (\<exists>k. bget k (journal j) = Some r \<and> R_Version r = v \<and> R_OpID r = i)"
      by (simp add: scan_keyed [OF assms(1)])
    also have "\<dots> \<longleftrightarrow> bget (key v i) (journal j) = Some r"
      using assms(1) unfolding keyed_def by (metis key_inj)
    finally show ?thesis by (simp add: jview_def)
  qed
  then show ?thesis by (metis not_None_eq)
qed

section \<open>Properties\<close>

fun record_all :: "OpResult list \<Rightarrow> journal \<Rightarrow> journal" where
  "record_all [] j = j"
| "record_all (r # rs) j = record_all rs (snd (Record r j))"

lemma keyed_record_all: "keyed j \<Longrightarrow> keyed (record_all rs j)"
  by (induction rs j rule: record_all.induct) (simp, metis keyed_Record record_all.simps(2) surj_pair snd_conv)

text \<open>
  The journal (agent/internal/apply/journal.go, Record, Result and ResultsForVersion). After any
  sequence of successful or failing writes from an opened journal, the prefix
  scan that reports a version returns, for each op id, exactly the record a lookup by version and id
  returns: entries of other versions never leak in, whatever the ids contain, and none is missed;
  and a record just written is the one read back, with every other record left as it was.
\<close>

theorem journal_scan_exact:
  assumes "Open fs = Inr j0" and "j = record_all rs j0"
    and "ResultsForVersion v j = (Inr m, j1)"
  shows "(\<forall>i. m i = jview j v i) \<and>
    (\<forall>r j2. Record r j = (None, j2) \<longrightarrow>
       jview j2 = (jview j)(R_Version r := (jview j (R_Version r))(R_OpID r \<mapsto> r)))"
proof (intro conjI allI impI)
  have "keyed j" using assms(1,2) keyed_Open keyed_record_all by blast
  then show "m i = jview j v i" for i using assms(3) by (rule ResultsForVersion_view)
next
  fix r j2
  assume "Record r j = (None, j2)"
  then show "jview j2 = (jview j)(R_Version r := (jview j (R_Version r))(R_OpID r \<mapsto> r))"
    by (intro ext) (auto simp: Record_def Let_def jview_def bget_bput key_inj split: prod.splits if_splits)
qed


definition scan_demo :: journal where
  "scan_demo = record_all
     [\<lparr>R_Version = 12, R_OpID = ''a'', R_State = Applied, R_Err = '''', R_At = 1\<rparr>,
      \<lparr>R_Version = 1, R_OpID = ''2:a'', R_State = Failed, R_Err = ''boom'', R_At = 2\<rparr>]
     \<lparr>faults = [], meta = [], journal = []\<rparr>"

theorem journal_scan_exact_witness:
  "\<exists>m j1. ResultsForVersion 12 scan_demo = (Inr m, j1) \<and> (\<forall>i. m i = jview scan_demo 12 i)"
proof -
  have "Open [] = Inr \<lparr>faults = [], meta = [], journal = []\<rparr>" by (simp add: Open_def tx_def)
  moreover have "faults scan_demo = []" by (simp add: scan_demo_def Record_def Let_def tx_def)
  then obtain m j1 where "ResultsForVersion 12 scan_demo = (Inr m, j1)"
    by (simp add: ResultsForVersion_def Let_def tx_def)
  ultimately show ?thesis using journal_scan_exact [OF _ scan_demo_def] by blast
qed


end
