(* ===== verification/Apply.thy ===== *)
theory Apply
  imports Dsd Journal
begin

text \<open>
  The apply loop of the agent (agent/internal/apply/apply.go): the registry of typed op handlers
  with their deadlines, and \<open>Apply\<close>, which runs a document's ops in dependency order, resumes from
  the journal, skips the dependents of a failed op and records every outcome.

  The world the handlers act on is the type parameter \<open>'w\<close>; \<open>now\<close> reads its clock. A handler gets
  its time budget, the op and the world and reports the error it returned together with the
  errors of its own context and of the caller's context once it has returned. Apply ends early
  when the journal fails; what had happened until then stays, so every function here returns the
  state next to the error. The component \<open>a_ran\<close> logs which handlers were invoked.
\<close>

section \<open>The registry\<close>

record handler_out =
  h_err :: "goerr option"      \<comment> \<open>what the handler returned\<close>
  h_ctx :: "ctx_err option"    \<comment> \<open>\<open>opCtx.Err()\<close> afterwards\<close>
  h_parent :: "ctx_err option" \<comment> \<open>\<open>ctx.Err()\<close> afterwards\<close>

type_synonym ('p, 'w) handler = "duration \<Rightarrow> 'p Op \<Rightarrow> 'w \<Rightarrow> 'w \<times> handler_out"

record ('p, 'w) Registry =
  handlers :: "string \<Rightarrow> ('p, 'w) handler option"
  timeouts :: "string \<Rightarrow> duration option"

definition DefaultOpTimeout :: duration where
  "DefaultOpTimeout = minutes 15"

definition defaultOpTimeouts :: "string \<Rightarrow> duration option" where
  "defaultOpTimeouts =
     [''image.build'' \<mapsto> minutes 30,
      ''image.pull'' \<mapsto> minutes 15,
      ''backup.run'' \<mapsto> minutes 30,
      ''backup.base'' \<mapsto> minutes 30,
      ''backup.verify'' \<mapsto> minutes 30,
      ''backup.restore'' \<mapsto> minutes 30,
      ''backup.restore-pitr'' \<mapsto> minutes 30,
      ''k8s.node'' \<mapsto> minutes 30]"

definition NewRegistry :: "('p, 'w) Registry" where
  "NewRegistry = \<lparr>handlers = Map.empty, timeouts = defaultOpTimeouts\<rparr>"

definition Register :: "string \<Rightarrow> ('p, 'w) handler \<Rightarrow> ('p, 'w) Registry \<Rightarrow> ('p, 'w) Registry" where
  "Register kind h r = r\<lparr>handlers := (handlers r)(kind \<mapsto> h)\<rparr>"

definition SetTimeout :: "string \<Rightarrow> duration \<Rightarrow> ('p, 'w) Registry \<Rightarrow> ('p, 'w) Registry" where
  "SetTimeout kind d r = r\<lparr>timeouts := (timeouts r)(kind \<mapsto> d)\<rparr>"

definition timeoutFor :: "('p, 'w) Registry \<Rightarrow> string \<Rightarrow> duration" where
  "timeoutFor r kind =
     (case timeouts r kind of
        Some d \<Rightarrow> if d > 0 then d else DefaultOpTimeout
      | None \<Rightarrow> DefaultOpTimeout)"

section \<open>Applying a document\<close>

record 'w ast =
  a_world :: 'w
  a_journal :: journal
  a_results :: "string \<Rightarrow> OpResult option"
  a_failed :: "string \<Rightarrow> bool"
  a_ran :: "string list"

text \<open>Record a result, and only then enter it into \<open>results\<close> and \<open>failed\<close>.\<close>

definition commit_result :: "OpResult \<Rightarrow> 'w ast \<Rightarrow> goerr option \<times> 'w ast" where
  "commit_result r s =
     (case Record r (a_journal s) of
        (Some e, j) \<Rightarrow> (Some e, s\<lparr>a_journal := j\<rparr>)
      | (None, j) \<Rightarrow>
          (None, s\<lparr>a_journal := j,
                   a_results := (a_results s)(R_OpID r \<mapsto> r),
                   a_failed := (if R_State r = Applied then a_failed s
                                else (a_failed s)(R_OpID r := True))\<rparr>))"

text \<open>The first dependency that failed or was skipped, with the error text a skip carries.\<close>

fun failed_prereq :: "string list \<Rightarrow> 'w ast \<Rightarrow> string option" where
  "failed_prereq [] s = None"
| "failed_prereq (d # ds) s =
     (if a_failed s d
      then Some (case a_results s d of
                   Some p \<Rightarrow> if R_Err p \<noteq> [] then ''prerequisite '' @ d @ '' failed: '' @ R_Err p
                             else ''prerequisite '' @ d @ '' failed''
                 | None \<Rightarrow> ''prerequisite '' @ d @ '' failed'')
      else failed_prereq ds s)"

text \<open>State and error text of an executed handler: a deadline of its own outranks what it returned.\<close>

definition handler_verdict :: "duration \<Rightarrow> handler_out \<Rightarrow> op_state \<times> string" where
  "handler_verdict budget out =
     (if h_ctx out = Some DeadlineExceeded \<and> h_parent out = None
      then (Failed, ''op timed out after '' @ duration_text budget @
                    (case h_err out of Some e \<Rightarrow> '': '' @ error_text e | None \<Rightarrow> []))
      else (case h_err out of Some e \<Rightarrow> (Failed, error_text e) | None \<Rightarrow> (Applied, [])))"

definition execute_op :: "('p, 'w) Registry \<Rightarrow> ('w \<Rightarrow> timestamp) \<Rightarrow> int \<Rightarrow> 'p Op \<Rightarrow> 'w ast \<Rightarrow> goerr option \<times> 'w ast" where
  "execute_op r now v x s =
     (let at = now (a_world s)
      in case handlers r (Kind x) of
           None \<Rightarrow>
             commit_result \<lparr>R_Version = v, R_OpID = ID x, R_State = Failed,
               R_Err = ''unknown op kind '' @ go_quote (Kind x), R_At = at\<rparr> s
         | Some h \<Rightarrow>
             (let budget = timeoutFor r (Kind x);
                  (w, out) = h budget x (a_world s);
                  (st, err) = handler_verdict budget out
              in commit_result \<lparr>R_Version = v, R_OpID = ID x, R_State = st, R_Err = err, R_At = at\<rparr>
                   (s\<lparr>a_world := w, a_ran := a_ran s @ [ID x]\<rparr>)))"

definition apply_op :: "('p, 'w) Registry \<Rightarrow> ('w \<Rightarrow> timestamp) \<Rightarrow> int \<Rightarrow> 'p Op \<Rightarrow> 'w ast \<Rightarrow> goerr option \<times> 'w ast" where
  "apply_op r now v x s =
     (case Result v (ID x) (a_journal s) of
        (Inl e, j) \<Rightarrow> (Some e, s\<lparr>a_journal := j\<rparr>)
      | (Inr prev, j) \<Rightarrow>
          (let s = s\<lparr>a_journal := j\<rparr>
           in case prev of
                Some p \<Rightarrow>
                  if R_State p = Applied then (None, s\<lparr>a_results := (a_results s)(ID x \<mapsto> p)\<rparr>)
                  else (case failed_prereq (DependsOn x) s of
                          Some err \<Rightarrow>
                            commit_result \<lparr>R_Version = v, R_OpID = ID x, R_State = Skipped,
                              R_Err = err, R_At = now (a_world s)\<rparr> s
                        | None \<Rightarrow> execute_op r now v x s)
              | None \<Rightarrow>
                  (case failed_prereq (DependsOn x) s of
                     Some err \<Rightarrow>
                       commit_result \<lparr>R_Version = v, R_OpID = ID x, R_State = Skipped,
                         R_Err = err, R_At = now (a_world s)\<rparr> s
                   | None \<Rightarrow> execute_op r now v x s)))"

fun apply_unresolved :: "('w \<Rightarrow> timestamp) \<Rightarrow> int \<Rightarrow> string list \<Rightarrow> 'w ast \<Rightarrow> goerr option \<times> 'w ast" where
  "apply_unresolved now v [] s = (None, s)"
| "apply_unresolved now v (i # is) s =
     (case commit_result \<lparr>R_Version = v, R_OpID = i, R_State = Failed,
             R_Err = ''unorderable (cycle or missing dependency)'', R_At = now (a_world s)\<rparr> s of
        (Some e, s') \<Rightarrow> (Some e, s')
      | (None, s') \<Rightarrow> apply_unresolved now v is s')"

fun apply_ordered :: "('p, 'w) Registry \<Rightarrow> ('w \<Rightarrow> timestamp) \<Rightarrow> int \<Rightarrow> 'p Op list \<Rightarrow> 'w ast \<Rightarrow> goerr option \<times> 'w ast" where
  "apply_ordered r now v [] s = (None, s)"
| "apply_ordered r now v (x # xs) s =
     (case apply_op r now v x s of
        (Some e, s') \<Rightarrow> (Some e, s')
      | (None, s') \<Rightarrow> apply_ordered r now v xs s')"

definition apply_start :: "'w \<Rightarrow> journal \<Rightarrow> 'w ast" where
  "apply_start w j =
     \<lparr>a_world = w, a_journal = j, a_results = Map.empty, a_failed = (\<lambda>_. False), a_ran = []\<rparr>"

definition Apply :: "('p, 'w) Registry \<Rightarrow> ('w \<Rightarrow> timestamp) \<Rightarrow> 'p Document \<Rightarrow> 'w \<Rightarrow> journal \<Rightarrow> goerr option \<times> 'w ast" where
  "Apply r now doc w j =
     (let (ordered, unresolved) = TopoOrder (Ops doc)
      in case apply_unresolved now (Version doc) unresolved (apply_start w j) of
           (Some e, s) \<Rightarrow> (Some e, s)
         | (None, s) \<Rightarrow>
             (case apply_ordered r now (Version doc) ordered s of
                (Some e, s') \<Rightarrow> (Some e, s')
              | (None, s') \<Rightarrow>
                  (case SetLastAppliedVersion (Version doc) (a_journal s') of
                     (Some e, j') \<Rightarrow> (Some e, s'\<lparr>a_journal := j'\<rparr>)
                   | (None, j') \<Rightarrow> (None, s'\<lparr>a_journal := j'\<rparr>))))"

section \<open>The invariant of the loop\<close>

text \<open>
  \<open>J s i\<close> is the journalled result of op \<open>i\<close> at the document's version. \<open>in_sync\<close>: the results of the
  processed ids are the journalled ones, and \<open>failed\<close> is exactly the processed ids without success.
\<close>

definition J :: "int \<Rightarrow> 'w ast \<Rightarrow> string \<Rightarrow> OpResult option" where
  "J v s i = jview (a_journal s) v i"

definition applied_in :: "(string \<Rightarrow> OpResult option) \<Rightarrow> string \<Rightarrow> bool" where
  "applied_in m i \<longleftrightarrow> (\<exists>r. m i = Some r \<and> R_State r = Applied)"

definition in_sync :: "int \<Rightarrow> string set \<Rightarrow> 'w ast \<Rightarrow> bool" where
  "in_sync v P s \<longleftrightarrow>
     dom (a_results s) = P \<and>
     (\<forall>i r. a_results s i = Some r \<longrightarrow> J v s i = Some r) \<and>
     (\<forall>i. a_failed s i \<longleftrightarrow> i \<in> P \<and> \<not> applied_in (a_results s) i) \<and>
     set (a_ran s) \<subseteq> P"

text \<open>
  \<open>ran_ok\<close>: every handler was invoked for a registered kind, with all dependencies journalled as
  applied, at most once, and never for an op the journal \<open>J0\<close> of the start already had as applied,
  whose entry is untouched; an op that became applied had its handler invoked.
\<close>

definition ran_ok :: "('p, 'w) Registry \<Rightarrow> 'p Op list \<Rightarrow> int \<Rightarrow> (string \<Rightarrow> OpResult option) \<Rightarrow> 'w ast \<Rightarrow> bool" where
  "ran_ok r ops v J0 s \<longleftrightarrow>
     distinct (a_ran s) \<and>
     (\<forall>i \<in> set (a_ran s). resolvable ops i \<and> \<not> applied_in J0 i) \<and>
     (\<forall>i \<in> set (a_ran s). \<forall>x. byID ops i = Some x \<longrightarrow>
        handlers r (Kind x) \<noteq> None \<and> (\<forall>d \<in> set (DependsOn x). applied_in (J v s) d)) \<and>
     (\<forall>i. resolvable ops i \<and> applied_in J0 i \<longrightarrow> J v s i = J0 i) \<and>
     (\<forall>i. resolvable ops i \<and> applied_in (J v s) i \<longrightarrow> applied_in J0 i \<or> i \<in> set (a_ran s))"

lemma commit_result_cases:
  assumes "commit_result q s = (e, s')"
  obtains (err) e' where "e = Some e'" "J v s' = J v s" "a_results s' = a_results s"
      "a_failed s' = a_failed s" "a_ran s' = a_ran s" "a_world s' = a_world s"
  | (ok) "e = None" "R_Version q = v \<longrightarrow> J v s' = (J v s)(R_OpID q \<mapsto> q)"
      "a_results s' = (a_results s)(R_OpID q \<mapsto> q)"
      "a_failed s' = (if R_State q = Applied then a_failed s else (a_failed s)(R_OpID q := True))"
      "a_ran s' = a_ran s" "a_world s' = a_world s"
proof -
  obtain e1 j where rec: "Record q (a_journal s) = (e1, j)" by fastforce
  show thesis
  proof (cases e1)
    case None
    with rec assms have "J v s' = (J v s)(R_OpID q \<mapsto> q)" if "R_Version q = v"
      using that jrn.rec_ok [of q "a_journal s" j] by (auto simp: commit_result_def J_def fun_eq_iff)
    with None rec assms show thesis by (intro ok) (auto simp: commit_result_def)
  next
    case (Some e')
    with rec assms have "J v s' = J v s"
      using jrn.rec_err [of q "a_journal s" e' j] by (auto simp: commit_result_def J_def fun_eq_iff)
    with Some rec assms show thesis by (intro err [of e']) (auto simp: commit_result_def)
  qed
qed

lemma commit_in_sync:
  assumes "commit_result q s = (None, s')" "R_Version q = v"
    and "in_sync v P s" "R_OpID q \<notin> P \<or> R_State q \<noteq> Applied \<and> \<not> applied_in (a_results s) (R_OpID q)"
  shows "in_sync v (insert (R_OpID q) P) s'"
  using assms(1)
proof (cases rule: commit_result_cases [where v = v])
  case ok
  with assms(2-4) show ?thesis
    unfolding in_sync_def applied_in_def by (auto simp: domIff split: if_splits)
qed simp

lemma commit_ran_ok:
  assumes "commit_result q s = (e, s')" "R_Version q = v" "ran_ok r ops v J0 s"
    and "\<not> applied_in (J v s) (R_OpID q)" "R_State q = Applied \<longrightarrow> R_OpID q \<in> set (a_ran s)"
  shows "ran_ok r ops v J0 s'"
  using assms(1)
proof (cases rule: commit_result_cases [where v = v])
  case (err e')
  with assms(3) show ?thesis by (simp add: ran_ok_def)
next
  case ok
  with assms(2,4) have J: "applied_in (J v s) d \<Longrightarrow> J v s' d = J v s d" for d
    by (auto simp: applied_in_def)
  then have keep: "applied_in (J v s) d \<Longrightarrow> applied_in (J v s') d" for d
    by (auto simp: applied_in_def)
  have "J v s' i = J0 i" if "resolvable ops i" "applied_in J0 i" for i
  proof -
    from that assms(3) have "J v s i = J0 i" by (simp add: ran_ok_def)
    with that(2) J [of i] show ?thesis by (simp add: applied_in_def)
  qed
  moreover have "applied_in J0 i \<or> i \<in> set (a_ran s')" if "resolvable ops i" "applied_in (J v s') i" for i
    using that assms(2,3,5) ok by (cases "i = R_OpID q") (auto simp: ran_ok_def applied_in_def)
  ultimately show ?thesis using assms(3) ok keep by (auto simp: ran_ok_def)
qed

lemma failed_prereq_None: "failed_prereq ds s = None \<longleftrightarrow> (\<forall>d \<in> set ds. \<not> a_failed s d)"
  by (induction ds) auto

lemma Result_J:
  assumes "Result v i (a_journal s) = (y, j)"
  shows "J v (s\<lparr>a_journal := j\<rparr>) = J v s" and "y = Inr prev \<Longrightarrow> prev = J v s i"
  using jrn.res_view [OF assms] jrn.res_ok [of v i "a_journal s" prev j] assms
  by (auto simp: J_def fun_eq_iff)

lemma ran_ok_journal: "J v (s\<lparr>a_journal := j\<rparr>) = J v s \<Longrightarrow>
    ran_ok r ops v J0 (s\<lparr>a_journal := j\<rparr>) = ran_ok r ops v J0 s"
  by (simp add: ran_ok_def)

lemma in_sync_journal: "J v (s\<lparr>a_journal := j\<rparr>) = J v s \<Longrightarrow>
    in_sync v P (s\<lparr>a_journal := j\<rparr>) = in_sync v P s"
  by (simp add: in_sync_def)

text \<open>Executing an op whose dependencies are all processed without failure.\<close>

lemma execute_op_inv:
  assumes exe: "execute_op r now v x s = (e, s')"
    and op: "byID ops (ID x) = Some x" "resolvable ops (ID x)" "ID x \<notin> P" "set (DependsOn x) \<subseteq> P"
    and ready: "\<forall>d \<in> set (DependsOn x). \<not> a_failed s d"
    and new: "\<not> applied_in (J v s) (ID x)"
    and inv: "in_sync v P s" "ran_ok r ops v J0 s"
  shows "ran_ok r ops v J0 s' \<and> (e = None \<longrightarrow> in_sync v (insert (ID x) P) s')"
proof (cases "handlers r (Kind x)")
  case None
  with exe obtain q where q: "commit_result q s = (e, s')" "R_Version q = v" "R_OpID q = ID x"
      "R_State q = Failed"
    by (force simp: execute_op_def Let_def)
  with inv new op(3) show ?thesis
    using commit_ran_ok [OF q(1,2)] commit_in_sync [of q s s' v P] by auto
next
  case (Some h)
  obtain w out where h: "h (timeoutFor r (Kind x)) x (a_world s) = (w, out)" by fastforce
  define s1 where "s1 = s\<lparr>a_world := w, a_ran := a_ran s @ [ID x]\<rparr>"
  from exe Some h obtain q where q: "commit_result q s1 = (e, s')" "R_Version q = v" "R_OpID q = ID x"
    by (force simp: execute_op_def Let_def s1_def split: prod.splits)
  have J1: "J v s1 = J v s" by (simp add: s1_def J_def fun_eq_iff)
  have dep: "applied_in (J v s) d" if "d \<in> set (DependsOn x)" for d
    using that op(4) ready inv(1) unfolding in_sync_def applied_in_def by blast
  have "\<not> applied_in J0 (ID x)"
    using inv(2) new op(2) unfolding ran_ok_def applied_in_def by metis
  moreover have "ID x \<notin> set (a_ran s)" using inv(1) op(3) by (auto simp: in_sync_def)
  ultimately have ran1: "ran_ok r ops v J0 s1"
    using inv(2) op(1,2) Some dep unfolding ran_ok_def J1 by (auto simp: s1_def)
  have "ran_ok r ops v J0 s'"
    using commit_ran_ok [OF q(1,2) ran1] new J1 q(3) by (simp add: s1_def)
  moreover have "in_sync v (insert (ID x) P) s'" if "e = None"
  proof -
    have "in_sync v P (s1\<lparr>a_ran := a_ran s\<rparr>)" using inv(1) by (simp add: in_sync_def s1_def J_def)
    moreover have "commit_result q (s1\<lparr>a_ran := a_ran s\<rparr>) = (None, s'\<lparr>a_ran := a_ran s\<rparr>)"
      using q(1) that by (auto simp: commit_result_def split: prod.splits option.splits)
    ultimately have "in_sync v (insert (ID x) P) (s'\<lparr>a_ran := a_ran s\<rparr>)"
      using commit_in_sync [of q _ _ v P] q(2,3) op(3) by auto
    moreover have "a_ran s' = a_ran s @ [ID x]"
      using q(1) that by (auto simp: commit_result_def s1_def split: prod.splits option.splits)
    ultimately show ?thesis by (auto simp: in_sync_def J_def)
  qed
  ultimately show ?thesis by blast
qed

lemma apply_op_inv:
  assumes app: "apply_op r now v x s = (e, s')"
    and op: "byID ops (ID x) = Some x" "resolvable ops (ID x)" "ID x \<notin> P" "set (DependsOn x) \<subseteq> P"
    and inv: "in_sync v P s" "ran_ok r ops v J0 s"
  shows "ran_ok r ops v J0 s' \<and> (e = None \<longrightarrow> in_sync v (insert (ID x) P) s')"
proof -
  obtain y j where res: "Result v (ID x) (a_journal s) = (y, j)" by fastforce
  define s1 where "s1 = s\<lparr>a_journal := j\<rparr>"
  have inv1: "in_sync v P s1" "ran_ok r ops v J0 s1"
    using inv Result_J(1) [OF res] by (simp_all add: s1_def in_sync_journal ran_ok_journal)
  have J1: "J v s1 = J v s" using Result_J(1) [OF res] by (simp add: s1_def)
  show ?thesis
  proof (cases y)
    case (Inl e1)
    with app res inv1(2) show ?thesis by (auto simp: apply_op_def s1_def)
  next
    case (Inr prev)
    with Result_J(2) [OF res] have prev: "prev = J v s (ID x)" by simp
    show ?thesis
    proof (cases "applied_in (J v s) (ID x)")
      case True
      then obtain p where p: "prev = Some p" "R_State p = Applied" by (auto simp: applied_in_def prev)
      with app res Inr have s': "e = None" "s' = s1\<lparr>a_results := (a_results s1)(ID x \<mapsto> p)\<rparr>"
        by (auto simp: apply_op_def s1_def)
      have J': "J v s' = J v s1" unfolding s'(2) by (simp add: J_def fun_eq_iff)
      from J1 prev p have "J v s1 (ID x) = Some p" by simp
      with inv1 op(3) p(2) have "in_sync v (insert (ID x) P) s'"
        unfolding in_sync_def J' by (auto simp: s'(2) applied_in_def)
      moreover have "ran_ok r ops v J0 s'" using inv1(2) unfolding ran_ok_def J' by (simp add: s'(2))
      ultimately show ?thesis by simp
    next
      case False
      then have split: "apply_op r now v x s =
          (case failed_prereq (DependsOn x) s1 of
             Some err \<Rightarrow> commit_result \<lparr>R_Version = v, R_OpID = ID x, R_State = Skipped,
               R_Err = err, R_At = now (a_world s1)\<rparr> s1
           | None \<Rightarrow> execute_op r now v x s1)"
        using res Inr prev by (auto simp: apply_op_def s1_def applied_in_def Let_def split: option.splits)
      show ?thesis
      proof (cases "failed_prereq (DependsOn x) s1")
        case None
        then have "\<forall>d \<in> set (DependsOn x). \<not> a_failed s1 d" by (simp add: failed_prereq_None)
        with None app split False J1 show ?thesis
          using execute_op_inv [OF _ op, of r now v s1 e s' J0] inv1 by auto
      next
        case (Some err)
        with app split obtain q where q: "commit_result q s1 = (e, s')" "R_Version q = v" "R_OpID q = ID x"
            "R_State q = Skipped"
          by force
        with inv1 False J1 op(3) show ?thesis
          using commit_ran_ok [OF q(1,2)] commit_in_sync [of q s1 s' v P] by auto
      qed
    qed
  qed
qed

lemma apply_ordered_inv:
  assumes "apply_ordered r now v xs s = (e, s')"
    and "in_sync v P s" "ran_ok r ops v J0 s"
    and "\<forall>x \<in> set xs. byID ops (ID x) = Some x \<and> resolvable ops (ID x)"
    and "distinct (map ID xs)" "P \<inter> ID ` set xs = {}"
    and "\<forall>pre x post. xs = pre @ x # post \<longrightarrow> set (DependsOn x) \<subseteq> P \<union> ID ` set pre"
  shows "ran_ok r ops v J0 s' \<and> (e = None \<longrightarrow> in_sync v (P \<union> ID ` set xs) s')"
  using assms
proof (induction xs arbitrary: s P)
  case Nil
  then show ?case by auto
next
  case (Cons x xs)
  obtain e1 s1 where one: "apply_op r now v x s = (e1, s1)" by fastforce
  have "set (DependsOn x) \<subseteq> P" using Cons.prems(7) [rule_format, of "[]" x xs] by simp
  with apply_op_inv [OF one, of ops P J0] Cons.prems
  have one_inv: "ran_ok r ops v J0 s1 \<and> (e1 = None \<longrightarrow> in_sync v (insert (ID x) P) s1)" by auto
  show ?case
  proof (cases e1)
    case (Some e')
    with one Cons.prems(1) one_inv show ?thesis by auto
  next
    case None
    with one Cons.prems(1) have rest: "apply_ordered r now v xs s1 = (e, s')" by simp
    have "set (DependsOn y) \<subseteq> insert (ID x) P \<union> ID ` set pre" if "xs = pre @ y # post" for pre y post
      using Cons.prems(7) [rule_format, of "x # pre" y post] that by auto
    then have "ran_ok r ops v J0 s' \<and> (e = None \<longrightarrow> in_sync v (insert (ID x) P \<union> ID ` set xs) s')"
      using Cons.IH [OF rest, of "insert (ID x) P"] one_inv None Cons.prems by auto
    then show ?thesis by simp
  qed
qed

lemma apply_unresolved_inv:
  assumes "apply_unresolved now v is s = (e, s')"
    and "in_sync v P s" "ran_ok r ops v J0 s" "\<forall>i. a_failed s i \<longleftrightarrow> i \<in> P"
    and "\<forall>i \<in> set is. \<not> resolvable ops i" "a_ran s = []"
  shows "ran_ok r ops v J0 s' \<and> a_ran s' = [] \<and> (e = None \<longrightarrow> in_sync v (P \<union> set is) s')"
  using assms
proof (induction "is" arbitrary: s P)
  case Nil
  then show ?case by auto
next
  case (Cons i "is")
  let ?q = "\<lparr>R_Version = v, R_OpID = i, R_State = Failed,
             R_Err = ''unorderable (cycle or missing dependency)'', R_At = now (a_world s)\<rparr>"
  obtain e1 s1 where one: "commit_result ?q s = (e1, s1)" by fastforce
  have ran1: "ran_ok r ops v J0 s1" "a_ran s1 = []"
  proof -
    show "a_ran s1 = []" using one Cons.prems(6) by (cases rule: commit_result_cases [where v = v]) auto
    moreover have "resolvable ops j \<Longrightarrow> J v s1 j = J v s j" for j
      using one Cons.prems(5) by (cases rule: commit_result_cases [where v = v]) auto
    ultimately show "ran_ok r ops v J0 s1" using Cons.prems(3,6) by (auto simp: ran_ok_def applied_in_def)
  qed
  show ?case
  proof (cases e1)
    case (Some e')
    with one Cons.prems(1) ran1 show ?thesis by auto
  next
    case None
    with one Cons.prems(1) have rest: "apply_unresolved now v is s1 = (e, s')" by simp
    have "i \<in> P \<longrightarrow> \<not> applied_in (a_results s) i"
      using Cons.prems(2,4) unfolding in_sync_def by blast
    with one None Cons.prems(2) have sync: "in_sync v (insert i P) s1"
      using commit_in_sync [of ?q s s1 v P] by auto
    have "\<forall>k. a_failed s1 k \<longleftrightarrow> k \<in> insert i P"
      using one None Cons.prems(4) by (cases rule: commit_result_cases [where v = v]) auto
    with Cons.IH [OF rest sync ran1(1)] Cons.prems(5) ran1(2) show ?thesis by auto
  qed
qed

lemma apply_start_inv:
  "in_sync v {} (apply_start w j)" "ran_ok r ops v (jview j v) (apply_start w j)"
  by (simp_all add: in_sync_def ran_ok_def apply_start_def J_def applied_in_def)

lemma Apply_inv:
  assumes "Apply r now doc w j = (e, s)"
  shows "ran_ok r (Ops doc) (Version doc) (jview j (Version doc)) s"
    and "e = None \<Longrightarrow> in_sync (Version doc) (ID ` set (Ops doc)) s"
    and "e = None \<Longrightarrow> applied_version (a_journal s) = Version doc"
proof -
  let ?v = "Version doc" and ?ops = "Ops doc" and ?J0 = "jview j (Version doc)"
  obtain ordered unresolved where topo: "TopoOrder ?ops = (ordered, unresolved)" by fastforce
  note tp = TopoOrder_props [OF topo]
  obtain e1 s1 where un: "apply_unresolved now ?v unresolved (apply_start w j) = (e1, s1)" by fastforce
  have inv1: "ran_ok r ?ops ?v ?J0 s1 \<and> (e1 = None \<longrightarrow> in_sync ?v (set unresolved) s1)"
    using apply_unresolved_inv [OF un apply_start_inv, where r = r and ops = ?ops] tp(5) by (auto simp: apply_start_def)
  have all: "set unresolved \<union> ID ` set ordered = ID ` set ?ops"
    using tp(1,5) resolvable_known [of ?ops] by auto
  show "ran_ok r ?ops ?v ?J0 s" and "e = None \<Longrightarrow> in_sync ?v (ID ` set ?ops) s"
    and "e = None \<Longrightarrow> applied_version (a_journal s) = ?v"
  proof (atomize (full), cases e1)
    case (Some e')
    with assms topo un inv1 show "ran_ok r ?ops ?v ?J0 s \<and> (e = None \<longrightarrow> in_sync ?v (ID ` set ?ops) s) \<and>
        (e = None \<longrightarrow> applied_version (a_journal s) = ?v)"
      by (auto simp: Apply_def)
  next
    case None
    obtain e2 s2 where ord: "apply_ordered r now ?v ordered s1 = (e2, s2)" by fastforce
    have "set unresolved \<inter> ID ` set ordered = {}" using tp(1,5) by auto
    moreover have "\<forall>x \<in> set ordered. byID ?ops (ID x) = Some x \<and> resolvable ?ops (ID x)"
      using tp(1,3) by auto
    moreover have "\<forall>pre x post. ordered = pre @ x # post \<longrightarrow> set (DependsOn x) \<subseteq> set unresolved \<union> ID ` set pre"
      using deps_before_split [OF tp(4)] by blast
    ultimately have inv2: "ran_ok r ?ops ?v ?J0 s2 \<and> (e2 = None \<longrightarrow> in_sync ?v (ID ` set ?ops) s2)"
      using apply_ordered_inv [OF ord, of "set unresolved" ?ops ?J0] inv1 None tp(2) all by auto
    obtain e3 j3 where set: "SetLastAppliedVersion ?v (a_journal s2) = (e3, j3)" by fastforce
    have J3: "J ?v (s2\<lparr>a_journal := j3\<rparr>) = J ?v s2"
      using meta_write_frame [OF set [unfolded SetLastAppliedVersion_def]] by (simp add: J_def jview_def fun_eq_iff)
    have "applied_version j3 = ?v" if "e3 = None" using SetLastAppliedVersion_ok set that by blast
    with assms topo un None ord set inv2 J3
    show "ran_ok r ?ops ?v ?J0 s \<and> (e = None \<longrightarrow> in_sync ?v (ID ` set ?ops) s) \<and>
        (e = None \<longrightarrow> applied_version (a_journal s) = ?v)"
      by (auto simp: Apply_def ran_ok_journal in_sync_journal split: option.splits)
  qed
qed

section \<open>Without disk failures the loop completes\<close>

lemma no_fault_tx [simp]: "faults j = [] \<Longrightarrow> tx j = (False, j)"
  by (simp add: tx_def)

lemma no_fault_commit:
  assumes "faults (a_journal s) = []"
  shows "fst (commit_result q s) = None \<and> faults (a_journal (snd (commit_result q s))) = []"
  using assms by (simp add: commit_result_def Record_def)

lemma no_fault_apply_op:
  assumes "faults (a_journal s) = []"
  shows "fst (apply_op r now v x s) = None \<and> faults (a_journal (snd (apply_op r now v x s))) = []"
proof -
  have "Result v (ID x) (a_journal s) = (Inr (J v s (ID x)), a_journal s)"
    using assms by (simp add: Result_def J_def jview_def)
  moreover have "fst (execute_op r now v x s) = None \<and> faults (a_journal (snd (execute_op r now v x s))) = []"
    using assms by (auto simp: execute_op_def Let_def no_fault_commit split: option.splits prod.splits)
  ultimately show ?thesis
    using assms by (auto simp: apply_op_def no_fault_commit split: option.splits)
qed

lemma no_fault_apply_ordered:
  "faults (a_journal s) = [] \<Longrightarrow>
     fst (apply_ordered r now v xs s) = None \<and> faults (a_journal (snd (apply_ordered r now v xs s))) = []"
proof (induction xs arbitrary: s)
  case (Cons x xs)
  from no_fault_apply_op [OF Cons.prems, of r now v x] Cons.IH show ?case
    by (cases "apply_op r now v x s") auto
qed simp

lemma no_fault_apply_unresolved:
  "faults (a_journal s) = [] \<Longrightarrow>
     fst (apply_unresolved now v is s) = None \<and> faults (a_journal (snd (apply_unresolved now v is s))) = []"
proof (induction "is" arbitrary: s)
  case (Cons i "is")
  let ?c = "commit_result \<lparr>R_Version = v, R_OpID = i, R_State = Failed,
             R_Err = ''unorderable (cycle or missing dependency)'', R_At = now (a_world s)\<rparr> s"
  obtain s' where "?c = (None, s')" "faults (a_journal s') = []"
    using no_fault_commit [OF Cons.prems] by (metis prod.collapse)
  with Cons.IH show ?case by simp
qed simp

lemma no_fault_Apply: "faults j = [] \<Longrightarrow> fst (Apply r now doc w j) = None"
proof -
  assume "faults j = []"
  then have start: "faults (a_journal (apply_start w j)) = []" by (simp add: apply_start_def)
  obtain ordered unresolved where topo: "TopoOrder (Ops doc) = (ordered, unresolved)" by fastforce
  obtain s1 where s1: "apply_unresolved now (Version doc) unresolved (apply_start w j) = (None, s1)"
    "faults (a_journal s1) = []" using no_fault_apply_unresolved [OF start] by (metis prod.collapse)
  obtain s2 where s2: "apply_ordered r now (Version doc) ordered s1 = (None, s2)"
    "faults (a_journal s2) = []" using no_fault_apply_ordered [OF s1(2)] by (metis prod.collapse)
  show ?thesis using topo s1 s2 by (simp add: Apply_def SetLastAppliedVersion_def meta_write_def)
qed

section \<open>Properties\<close>

text \<open>
  A three-op document for the witnesses: \<open>a\<close> succeeds, \<open>b\<close> needs \<open>a\<close> and fails, \<open>c\<close> needs \<open>b\<close>. The world
  is the log of handler calls and the clock is its length.
\<close>

definition demo_ops :: "unit Op list" where
  "demo_ops =
     [\<lparr>ID = ''c'', Kind = ''ok'', DependsOn = [''b''], Spec = ()\<rparr>,
      \<lparr>ID = ''b'', Kind = ''bad'', DependsOn = [''a''], Spec = ()\<rparr>,
      \<lparr>ID = ''a'', Kind = ''ok'', DependsOn = [], Spec = ()\<rparr>]"

definition demo_doc :: "unit Document" where
  "demo_doc = \<lparr>Version = 7, OrgID = ''o'', ServerID = ''s'', Ops = demo_ops\<rparr>"

definition demo_registry :: "(unit, string list) Registry" where
  "demo_registry =
     Register ''ok'' (\<lambda>b x w. (w @ [ID x], \<lparr>h_err = None, h_ctx = None, h_parent = None\<rparr>))
     (Register ''bad'' (\<lambda>b x w. (w @ [ID x], \<lparr>h_err = Some (ErrString ''denied''), h_ctx = None, h_parent = None\<rparr>))
       NewRegistry)"

definition demo_now :: "string list \<Rightarrow> timestamp" where
  "demo_now w = int (length w)"

definition demo_journal :: journal where
  "demo_journal = \<lparr>faults = [], meta = [], journal = []\<rparr>"

definition demo_run :: "goerr option \<times> string list ast" where
  "demo_run = Apply demo_registry demo_now demo_doc [] demo_journal"

lemma demo_run_ran: "a_ran (snd demo_run) = [''a'', ''b'']"
  by code_simp

text \<open>
  C4. Whatever the exit of Apply (success or a journal error), every handler it invoked was the
  registered handler of the op's kind, no handler was invoked twice or for an op the journal
  already held as applied at this version, and at the end every dependency of an executed op is
  journalled as applied: dependents of a failed, skipped or unorderable op never run.
\<close>

theorem apply_discipline:
  assumes "Apply r now doc w j = (e, s)" and "i \<in> set (a_ran s)"
  shows "distinct (a_ran s) \<and> \<not> applied_in (jview j (Version doc)) i \<and>
    (\<exists>x h. byID (Ops doc) i = Some x \<and> handlers r (Kind x) = Some h \<and>
       (\<forall>d \<in> set (DependsOn x). applied_in (jview (a_journal s) (Version doc)) d))"
proof -
  note inv = Apply_inv(1) [OF assms(1), unfolded ran_ok_def]
  from inv assms(2) have res: "resolvable (Ops doc) i" by blast
  then obtain x where "byID (Ops doc) i = Some x" by (auto elim: resolvable_E)
  with inv assms(2) show ?thesis by (fastforce simp: J_def [abs_def])
qed

theorem apply_discipline_witness:
  "distinct (a_ran (snd demo_run)) \<and> \<not> applied_in (jview demo_journal 7) ''b'' \<and>
    (\<exists>x h. byID demo_ops ''b'' = Some x \<and> handlers demo_registry (Kind x) = Some h \<and>
       (\<forall>d \<in> set (DependsOn x). applied_in (jview (a_journal (snd demo_run)) 7) d))"
  using apply_discipline [of demo_registry demo_now demo_doc "[]" demo_journal "fst demo_run" "snd demo_run" "''b''"]
  by (simp add: demo_run_ran demo_run_def [symmetric]) (simp add: demo_doc_def)

definition journal_closed :: "'p Op list \<Rightarrow> (string \<Rightarrow> OpResult option) \<Rightarrow> bool" where
  "journal_closed ops m \<longleftrightarrow>
     (\<forall>i x. resolvable ops i \<and> byID ops i = Some x \<and> applied_in m i \<longrightarrow>
        (\<forall>d \<in> set (DependsOn x). applied_in m d))"

text \<open>
  C19. Crash consistency: if in the journal every applied op of the document has all its
  dependencies applied, then that still holds when Apply stops, also when it stops half way on a
  journal failure; so a resumed run never finds an applied op above an unapplied dependency.
\<close>

theorem apply_crash_consistent:
  assumes "journal_closed (Ops doc) (jview j (Version doc))"
    and "Apply r now doc w j = (e, s)"
  shows "journal_closed (Ops doc) (jview (a_journal s) (Version doc))"
  unfolding journal_closed_def
proof (intro allI impI ballI)
  fix i x d
  assume i: "resolvable (Ops doc) i \<and> byID (Ops doc) i = Some x \<and> applied_in (jview (a_journal s) (Version doc)) i"
    and d: "d \<in> set (DependsOn x)"
  note inv = Apply_inv(1) [OF assms(2), unfolded ran_ok_def J_def [abs_def]]
  from i d have "resolvable (Ops doc) d" by (auto simp: deps_def intro: resolvable_dep)
  then show "applied_in (jview (a_journal s) (Version doc)) d"
    using inv i d assms(1) unfolding journal_closed_def applied_in_def by metis
qed

theorem apply_crash_consistent_witness:
  "journal_closed demo_ops (jview (a_journal (snd demo_run)) 7)"
proof -
  have "journal_closed (Ops demo_doc) (jview demo_journal (Version demo_doc))"
    by (simp add: journal_closed_def applied_in_def jview_def demo_journal_def bget_def)
  then have "journal_closed (Ops demo_doc) (jview (a_journal (snd demo_run)) (Version demo_doc))"
    by (rule apply_crash_consistent [where e = "fst demo_run"]) (simp add: demo_run_def)
  then show ?thesis by (simp add: demo_doc_def)
qed

text \<open>
  C39. When the disk accepts every transaction, Apply succeeds on every document, whatever its
  handlers do: it ends with one journalled result for every op id of the document and the
  document's version as the last applied version.
\<close>

theorem apply_completes:
  assumes "faults j = []"
  shows "\<exists>s. Apply r now doc w j = (None, s) \<and> applied_version (a_journal s) = Version doc \<and>
    dom (a_results s) = ID ` set (Ops doc) \<and>
    (\<forall>i q. a_results s i = Some q \<longrightarrow> jview (a_journal s) (Version doc) i = Some q)"
proof -
  obtain s where s: "Apply r now doc w j = (None, s)"
    using no_fault_Apply [OF assms, of r now doc w] by (metis prod.collapse)
  with Apply_inv(2,3) [OF s] show ?thesis by (auto simp: in_sync_def J_def)
qed

theorem apply_completes_witness:
  "\<exists>s. demo_run = (None, s) \<and> applied_version (a_journal s) = 7 \<and>
    dom (a_results s) = {''a'', ''b'', ''c''} \<and>
    (\<forall>i q. a_results s i = Some q \<longrightarrow> jview (a_journal s) 7 i = Some q)"
proof -
  have "faults demo_journal = []" by (simp add: demo_journal_def)
  from apply_completes [OF this, of demo_registry demo_now demo_doc "[]"]
  show ?thesis by (simp add: demo_run_def demo_doc_def demo_ops_def insert_commute)
qed

end
