(* ===== verification/Agent.thy ===== *)
theory Agent
  imports Apply
begin

text \<open>
  The agent's document loop (agent/cmd/sigmad/main.go, \<open>runDSDLoop\<close>): long-poll the control plane,
  verify, bind, order and apply, report. One round of the \<open>for\<close> loop is the function \<open>dsd_round\<close>; the loop itself
  is the relation \<open>rounds\<close>. What the loop calls is an argument: the control-plane client, the
  context and the clock in \<open>agent_env\<close>, the driver's garbage collection (absent when the driver is nil), and the
  registry with its handlers.
\<close>

section \<open>The loop\<close>

datatype client_err = APIError int string | Transport goerr

text \<open>Client.CredentialRevoked, on what \<open>errors.As\<close> finds.\<close>

definition CredentialRevoked :: "client_err \<Rightarrow> bool" where
  "CredentialRevoked e = (case e of APIError status body \<Rightarrow> status = 401 \<or> status = 403 | Transport x \<Rightarrow> False)"

record op_status =
  st_state :: op_state
  st_error :: string
  st_appliedAt :: timestamp
  st_version :: int

definition StatusPayload :: "(string \<Rightarrow> OpResult option) \<Rightarrow> string \<Rightarrow> op_status option" where
  "StatusPayload results i =
     map_option (\<lambda>r. \<lparr>st_state = R_State r, st_error = R_Err r, st_appliedAt = R_At r, st_version = R_Version r\<rparr>) (results i)"

record ('p, 'w) agent_env =
  GetDSD :: "int \<Rightarrow> 'w \<Rightarrow> (client_err + 'p Signed option) \<times> 'w"
  PostDSDStatus :: "int \<Rightarrow> (string \<Rightarrow> op_status option) \<Rightarrow> 'w \<Rightarrow> goerr option \<times> 'w"
  ctx_done :: "'w \<Rightarrow> bool"
  wait :: "duration \<Rightarrow> 'w \<Rightarrow> bool \<times> 'w" \<comment> \<open>True when the context ended first\<close>
  restartRequested :: "'w \<Rightarrow> bool"
  time_now :: "'w \<Rightarrow> timestamp"

record ('p, 'w) agent =
  ag_env :: "('p, 'w) agent_env"
  ag_crypto :: "'p crypto"
  ag_registry :: "('p, 'w) Registry"
  ag_gc :: "('p Document \<Rightarrow> 'w \<Rightarrow> 'w) option"
  DSDPublicKey :: string
  ag_ServerID :: string

record 'w loop =
  lp_world :: 'w
  lp_journal :: journal
  lp_backoff :: duration
  lp_applyBackoff :: duration

datatype verdict = Again | Stop | Exit

definition dsd_startup :: "journal \<Rightarrow> journal" where
  "dsd_startup j =
     (case LastReportedVersion j of
        (Inl e, j) \<Rightarrow> j
      | (Inr reported, j) \<Rightarrow>
          (case LastAppliedVersion j of
             (Inl e, j) \<Rightarrow> j
           | (Inr applied, j) \<Rightarrow> if reported < applied then snd (SetLastReportedVersion applied j) else j))"

text \<open>
  \<open>runDSDLoop\<close> up to its loop: None when no key is pinned and the loop is not entered.
\<close>

definition loop_start :: "('p, 'w) agent \<Rightarrow> 'w \<Rightarrow> journal \<Rightarrow> 'w loop option" where
  "loop_start ag w j =
     (if DSDPublicKey ag = '''' then None
      else Some \<lparr>lp_world = w, lp_journal = dsd_startup j, lp_backoff = seconds 1, lp_applyBackoff = seconds 1\<rparr>)"

definition double_backoff :: "duration \<Rightarrow> duration" where
  "double_backoff b = (if b < seconds 30 then b * 2 else b)"

definition re_report :: "('p, 'w) agent \<Rightarrow> int \<Rightarrow> 'w loop \<Rightarrow> 'w loop" where
  "re_report ag after lp =
     (case LastReportedVersion (lp_journal lp) of
        (Inl e, j) \<Rightarrow> lp\<lparr>lp_journal := j\<rparr>
      | (Inr reported, j) \<Rightarrow>
          if \<not> reported < after then lp\<lparr>lp_journal := j\<rparr>
          else (case ResultsForVersion after j of
                  (Inl e, j) \<Rightarrow> lp\<lparr>lp_journal := j\<rparr>
                | (Inr res, j) \<Rightarrow>
                    if res = Map.empty then lp\<lparr>lp_journal := j\<rparr>
                    else (case PostDSDStatus (ag_env ag) after (StatusPayload res) (lp_world lp) of
                            (Some e, w) \<Rightarrow> lp\<lparr>lp_journal := j, lp_world := w\<rparr>
                          | (None, w) \<Rightarrow>
                              lp\<lparr>lp_journal := snd (SetLastReportedVersion after j), lp_world := w\<rparr>)))"

text \<open>The three checks of a fetched document, in order; None accepts it.\<close>

definition reject :: "('p, 'w) agent \<Rightarrow> int \<Rightarrow> 'p Signed \<Rightarrow> goerr option" where
  "reject ag after signed =
     (case Verify (ag_crypto ag) (DSDPublicKey ag) signed of
        Inl e \<Rightarrow> Some (Wrapf ''dsd: rejected'' e)
      | Inr _ \<Rightarrow>
          if ServerID (Doc signed) \<noteq> ag_ServerID ag then Some (ErrString ''dsd: rejected foreign server'')
          else if Version (Doc signed) \<le> after then Some (ErrString ''dsd: rejected stale version'')
          else None)"

definition run_gc :: "('p, 'w) agent \<Rightarrow> 'p Document \<Rightarrow> 'w \<Rightarrow> 'w" where
  "run_gc ag doc w = (case ag_gc ag of None \<Rightarrow> w | Some gc \<Rightarrow> gc doc w)"

text \<open>From an accepted document to the end of the round.\<close>

definition apply_and_report :: "('p, 'w) agent \<Rightarrow> 'p Document \<Rightarrow> 'w loop \<Rightarrow> verdict \<times> 'w loop" where
  "apply_and_report ag doc lp =
     (case Apply (ag_registry ag) (time_now (ag_env ag)) doc (run_gc ag doc (lp_world lp)) (lp_journal lp) of
        (Some e, a) \<Rightarrow>
          (case wait (ag_env ag) (lp_applyBackoff lp) (a_world a) of
             (True, w) \<Rightarrow> (Stop, lp\<lparr>lp_world := w, lp_journal := a_journal a\<rparr>)
           | (False, w) \<Rightarrow>
               (Again, lp\<lparr>lp_world := w, lp_journal := a_journal a, lp_applyBackoff := double_backoff (lp_applyBackoff lp)\<rparr>))
      | (None, a) \<Rightarrow>
          (case PostDSDStatus (ag_env ag) (Version doc) (StatusPayload (a_results a)) (a_world a) of
             (perr, w) \<Rightarrow>
               let j = (if perr = None then snd (SetLastReportedVersion (Version doc) (a_journal a)) else a_journal a)
               in (if restartRequested (ag_env ag) w then Exit else Again,
                   lp\<lparr>lp_world := w, lp_journal := j, lp_applyBackoff := seconds 1\<rparr>)))"

definition dsd_round :: "('p, 'w) agent \<Rightarrow> 'w loop \<Rightarrow> verdict \<times> 'w loop" where
  "dsd_round ag lp =
     (if ctx_done (ag_env ag) (lp_world lp) then (Stop, lp)
      else case LastAppliedVersion (lp_journal lp) of
             (Inl e, j) \<Rightarrow> (Stop, lp\<lparr>lp_journal := j\<rparr>)
           | (Inr after, j) \<Rightarrow>
               let lp = re_report ag after (lp\<lparr>lp_journal := j\<rparr>)
               in case GetDSD (ag_env ag) after (lp_world lp) of
                    (Inl err, w) \<Rightarrow>
                      let lp = lp\<lparr>lp_world := w\<rparr>
                      in if ctx_done (ag_env ag) w then (Stop, lp)
                         else if CredentialRevoked err then (Stop, lp)
                         else (case wait (ag_env ag) (lp_backoff lp) w of
                                 (True, w) \<Rightarrow> (Stop, lp\<lparr>lp_world := w\<rparr>)
                               | (False, w) \<Rightarrow>
                                   (Again, lp\<lparr>lp_world := w, lp_backoff := double_backoff (lp_backoff lp)\<rparr>))
                  | (Inr got, w) \<Rightarrow>
                      let lp = lp\<lparr>lp_world := w, lp_backoff := seconds 1\<rparr>
                      in case got of
                           None \<Rightarrow> (Again, lp)
                         | Some signed \<Rightarrow>
                             (case reject ag after signed of
                                Some e \<Rightarrow> (Again, lp)
                              | None \<Rightarrow> apply_and_report ag (Doc signed) lp))"

text \<open>The rounds of the loop; only the verdict \<open>Again\<close> goes on.\<close>

inductive rounds :: "('p, 'w) agent \<Rightarrow> 'w loop \<Rightarrow> verdict \<Rightarrow> 'w loop \<Rightarrow> bool" for ag where
  start: "rounds ag lp Again lp"
| next_round: "rounds ag lp Again lp1 \<Longrightarrow> dsd_round ag lp1 = (v, lp2) \<Longrightarrow> rounds ag lp v lp2"

end
