(* ===== verification/Agent_Props.thy ===== *)
theory Agent_Props
  imports Agent
begin

text \<open>
  The document loop's guarantees: the trust anchor, the binding to one server and to growing versions,
  the durable reporting of results, and the bounds of its backoff.
\<close>

section \<open>What one round does to the journal\<close>

lemma reads_keep:
  "LastReportedVersion j = (x, j') \<Longrightarrow> meta j' = meta j \<and> journal j' = journal j"
  "LastAppliedVersion j = (y, j') \<Longrightarrow> meta j' = meta j \<and> journal j' = journal j"
  "ResultsForVersion v j = (z, j') \<Longrightarrow> meta j' = meta j \<and> journal j' = journal j"
  by (auto simp: LastReportedVersion_def LastAppliedVersion_def ResultsForVersion_def Let_def
      dest: meta_read_frame split: prod.splits if_splits)

lemma versions_meta: "meta j' = meta j \<Longrightarrow> applied_version j' = applied_version j \<and> reported_version j' = reported_version j"
  by (simp add: applied_version_def reported_version_def)

lemma SetLastReportedVersion_any: "SetLastReportedVersion v j = (e, j') \<Longrightarrow>
    applied_version j' = applied_version j \<and> reported_version j' \<in> {reported_version j, v}"
  using SetLastReportedVersion_ok [of v j j'] meta_write_frame [of "''lastReportedVersion''" v j e j'] versions_meta [of j' j]
  by (cases e) (auto simp: SetLastReportedVersion_def)

lemma re_report_versions:
  "applied_version (lp_journal (re_report ag after lp)) = applied_version (lp_journal lp) \<and>
   reported_version (lp_journal (re_report ag after lp)) \<in> {reported_version (lp_journal lp), after}"
proof -
  obtain r j1 where lr: "LastReportedVersion (lp_journal lp) = (r, j1)" by (metis surj_pair)
  obtain q j2 where rv: "ResultsForVersion after j1 = (q, j2)" by (metis surj_pair)
  have v: "applied_version j1 = applied_version (lp_journal lp)" "reported_version j1 = reported_version (lp_journal lp)"
    "applied_version j2 = applied_version (lp_journal lp)" "reported_version j2 = reported_version (lp_journal lp)"
    using reads_keep(1) [OF lr] reads_keep(3) [OF rv] versions_meta by metis+
  obtain e j3 where set: "SetLastReportedVersion after j2 = (e, j3)" by (metis surj_pair)
  from lr rv v SetLastReportedVersion_any [OF set] set show ?thesis
    by (auto simp: re_report_def split: sum.splits prod.splits option.splits)
qed

lemma Record_version: "Record r j = (e, j') \<Longrightarrow> meta j' = meta j"
  by (drule Record_frame) simp

lemma commit_meta: "commit_result r s = (e, s') \<Longrightarrow> meta (a_journal s') = meta (a_journal s)"
  by (auto simp: commit_result_def split: prod.splits option.splits dest: Record_version)

lemma execute_meta: "execute_op r now v x s = (e, s') \<Longrightarrow> meta (a_journal s') = meta (a_journal s)"
  by (auto simp: execute_op_def Let_def split: option.splits prod.splits dest!: commit_meta)

lemma apply_op_meta: "apply_op r now v x s = (e, s') \<Longrightarrow> meta (a_journal s') = meta (a_journal s)"
proof -
  assume run: "apply_op r now v x s = (e, s')"
  obtain y j where res: "Result v (ID x) (a_journal s) = (y, j)" by (metis surj_pair)
  then have "meta j = meta (a_journal s)" by (auto dest: Result_frame)
  with run res show ?thesis
    by (auto simp: apply_op_def Let_def split: sum.splits option.splits if_splits dest!: commit_meta execute_meta)
qed

lemma apply_unresolved_meta: "apply_unresolved now v ids s = (e, s') \<Longrightarrow> meta (a_journal s') = meta (a_journal s)"
proof (induction ids arbitrary: s)
  case (Cons i ids)
  from Cons.prems show ?case
    by (auto split: prod.splits option.splits dest!: commit_meta Cons.IH)
qed simp

lemma apply_ordered_meta: "apply_ordered r now v xs s = (e, s') \<Longrightarrow> meta (a_journal s') = meta (a_journal s)"
proof (induction xs arbitrary: s)
  case (Cons x xs)
  from Cons.prems show ?case
    by (auto split: prod.splits option.splits dest!: apply_op_meta Cons.IH)
qed simp

lemma Apply_versions:
  assumes "Apply r now doc w j = (e, a)"
  shows "applied_version (a_journal a) = (if e = None then Version doc else applied_version j)"
    "reported_version (a_journal a) = reported_version j"
proof -
  obtain ordered unresolved where topo: "TopoOrder (Ops doc) = (ordered, unresolved)" by (metis surj_pair)
  obtain e1 s1 where u: "apply_unresolved now (Version doc) unresolved (apply_start w j) = (e1, s1)" by (metis surj_pair)
  obtain e2 s2 where o: "apply_ordered r now (Version doc) ordered s1 = (e2, s2)" by (metis surj_pair)
  obtain e3 j3 where set: "SetLastAppliedVersion (Version doc) (a_journal s2) = (e3, j3)" by (metis surj_pair)
  have m: "meta (a_journal s1) = meta j" "meta (a_journal s2) = meta j"
    using apply_unresolved_meta [OF u] apply_ordered_meta [OF o] by (simp_all add: apply_start_def)
  have v: "applied_version (a_journal s1) = applied_version j" "reported_version (a_journal s1) = reported_version j"
    "applied_version (a_journal s2) = applied_version j" "reported_version (a_journal s2) = reported_version j"
    using m versions_meta by metis+
  have e3: "e3 \<noteq> None \<Longrightarrow> meta j3 = meta j"
    using meta_write_frame [of _ _ "a_journal s2" e3 j3] set m by (auto simp: SetLastAppliedVersion_def)
  have v3: "applied_version j3 = (if e3 = None then Version doc else applied_version j)"
    "reported_version j3 = reported_version j"
    using SetLastAppliedVersion_ok [of "Version doc" "a_journal s2" j3] set v versions_meta [OF e3] by (cases e3, auto)+
  show "applied_version (a_journal a) = (if e = None then Version doc else applied_version j)"
    "reported_version (a_journal a) = reported_version j"
    using assms topo u o set v v3 by (auto simp: Apply_def split: option.splits)
qed

section \<open>Properties\<close>

text \<open>Everything the loop does to the versions in one round.\<close>

lemma apply_and_report_versions:
  assumes run: "apply_and_report ag doc lp = (v, lp')" and newer: "applied_version (lp_journal lp) < Version doc"
  shows "applied_version (lp_journal lp) \<le> applied_version (lp_journal lp') \<and>
    (reported_version (lp_journal lp) \<le> applied_version (lp_journal lp) \<longrightarrow>
     reported_version (lp_journal lp') \<le> applied_version (lp_journal lp'))"
proof -
  obtain e a where ap: "Apply (ag_registry ag) (time_now (ag_env ag)) doc (run_gc ag doc (lp_world lp)) (lp_journal lp) = (e, a)"
    by (metis surj_pair)
  note ver = Apply_versions [OF ap]
  obtain x j where set: "SetLastReportedVersion (Version doc) (a_journal a) = (x, j)" by (metis surj_pair)
  show ?thesis
  proof (cases e)
    case (Some err)
    with run ap ver show ?thesis by (auto simp: apply_and_report_def split: prod.splits bool.splits)
  next
    case None
    with run ap have "lp_journal lp' = a_journal a \<or> lp_journal lp' = j"
      using set by (auto simp: apply_and_report_def Let_def split: prod.splits if_splits)
    with ver None newer SetLastReportedVersion_any [OF set] show ?thesis by auto
  qed
qed

text \<open>
  A round either accepts a document, and then applies it, or leaves the driver and the registry
  alone: \<open>idle_round\<close> is the round without them.
\<close>

definition accepts :: "('p, 'w) agent \<Rightarrow> int \<Rightarrow> 'p Signed \<Rightarrow> bool" where
  "accepts ag after signed \<longleftrightarrow>
     Verify (ag_crypto ag) (DSDPublicKey ag) signed = Inr () \<and>
     ServerID (Doc signed) = ag_ServerID ag \<and> after < Version (Doc signed)"

lemma reject_None: "reject ag after signed = None \<longleftrightarrow> accepts ag after signed"
  by (auto simp: reject_def accepts_def split: sum.splits if_splits)

lemma dsd_round_cases:
  assumes "dsd_round ag lp = (v, lp')"
  obtains
    (idle) "\<And>reg gc. dsd_round (ag\<lparr>ag_registry := reg, ag_gc := gc\<rparr>) lp = (v, lp')"
      "applied_version (lp_journal lp') = applied_version (lp_journal lp)"
      "reported_version (lp_journal lp') \<in> {reported_version (lp_journal lp), applied_version (lp_journal lp)}"
  | (applied) signed w' lp1 where
      "lp1 = re_report ag (applied_version (lp_journal lp)) (lp\<lparr>lp_journal := snd (LastAppliedVersion (lp_journal lp))\<rparr>)"
      "GetDSD (ag_env ag) (applied_version (lp_journal lp)) (lp_world lp1) = (Inr (Some signed), w')"
      "accepts ag (applied_version (lp_journal lp)) signed"
      "\<And>reg gc. dsd_round (ag\<lparr>ag_registry := reg, ag_gc := gc\<rparr>) lp =
         apply_and_report (ag\<lparr>ag_registry := reg, ag_gc := gc\<rparr>) (Doc signed) (lp1\<lparr>lp_world := w', lp_backoff := seconds 1\<rparr>)"
      "apply_and_report ag (Doc signed) (lp1\<lparr>lp_world := w', lp_backoff := seconds 1\<rparr>) = (v, lp')"
      "applied_version (lp_journal lp1) = applied_version (lp_journal lp)"
      "reported_version (lp_journal lp1) \<in> {reported_version (lp_journal lp), applied_version (lp_journal lp)}"
proof -
  have same: "re_report (ag\<lparr>ag_registry := reg, ag_gc := gc\<rparr>) after x = re_report ag after x" for reg gc after x
    by (simp add: re_report_def cong: sum.case_cong prod.case_cong if_cong)
  have same_reject: "reject (ag\<lparr>ag_registry := reg, ag_gc := gc\<rparr>) after x = reject ag after x" for reg gc after x
    by (simp add: reject_def)
  show ?thesis
  proof (cases "ctx_done (ag_env ag) (lp_world lp)")
    case True
    with assms show ?thesis by (intro idle) (auto simp: dsd_round_def)
  next
    case False
    obtain r j where la: "LastAppliedVersion (lp_journal lp) = (r, j)" by (metis surj_pair)
    have v: "applied_version j = applied_version (lp_journal lp)" "reported_version j = reported_version (lp_journal lp)"
      using reads_keep(2) [OF la] versions_meta by metis+
    show ?thesis
    proof (cases r)
      case (Inl e)
      with assms False la v show ?thesis by (intro idle) (auto simp: dsd_round_def)
    next
      case (Inr after)
      then have after: "after = applied_version (lp_journal lp)" using LastAppliedVersion_ok la by blast
      let ?lp = "re_report ag after (lp\<lparr>lp_journal := j\<rparr>)"
      have w: "applied_version (lp_journal ?lp) = applied_version (lp_journal lp)"
        "reported_version (lp_journal ?lp) \<in> {reported_version (lp_journal lp), applied_version (lp_journal lp)}"
        using re_report_versions [of ag after "lp\<lparr>lp_journal := j\<rparr>"] v after by auto
      obtain g d where get: "GetDSD (ag_env ag) after (lp_world ?lp) = (g, d)" by (metis surj_pair)
      show ?thesis
      proof (cases "\<exists>signed. g = Inr (Some signed) \<and> reject ag after signed = None")
        case True
        then obtain signed where sg: "g = Inr (Some signed)" "reject ag after signed = None" by blast
        from sg(2) have "accepts ag after signed" by (rule reject_None [THEN iffD1])
        with sg assms False la Inr get w after show ?thesis
          by (intro applied [of ?lp signed d]) (auto simp: dsd_round_def Let_def same same_reject)
      next
        case no: False
        with assms False la Inr get w show ?thesis
          by (intro idle) (auto simp: dsd_round_def Let_def same same_reject
              split: sum.splits option.splits prod.splits bool.splits if_splits)
      qed
    qed
  qed
qed

text \<open>The collection is called on the document of the round, in the world its fetch left, and nowhere else.\<close>

lemma apply_and_report_gc:
  "apply_and_report (ag\<lparr>ag_gc := Some gc\<rparr>) doc lp =
   apply_and_report (ag\<lparr>ag_gc := Some (\<lambda>x w. if x = doc \<and> w = lp_world lp then gc x w else other x w)\<rparr>) doc lp"
  by (simp add: apply_and_report_def run_gc_def cong: option.case_cong prod.case_cong)

text \<open>
  C3. The trust anchor of the agent (main.go, runDSDLoop). A round leaves the driver's garbage
  collection and the op handlers out of play (its outcome, for the host, the journal and the loop, is the same whatever they
  would do), or the document that this round's own fetch returned, after the re-report and for the last applied version, verifies
  under the pinned key, is addressed to this server and is newer than that version, and it is this document that the
  round hands on: for every registry and collection the round is \<open>apply_and_report\<close> of this document in the world
  the fetch left, and what the collection would do with any other document or in any other world makes no difference.
\<close>

theorem agent_trust_anchor:
  "(\<forall>reg gc. dsd_round (ag\<lparr>ag_registry := reg, ag_gc := gc\<rparr>) lp = dsd_round ag lp) \<or>
   (let after = applied_version (lp_journal lp);
        lp1 = re_report ag after (lp\<lparr>lp_journal := snd (LastAppliedVersion (lp_journal lp))\<rparr>)
    in \<exists>signed w'. GetDSD (ag_env ag) after (lp_world lp1) = (Inr (Some signed), w') \<and>
      Verify (ag_crypto ag) (DSDPublicKey ag) signed = Inr () \<and> ServerID (Doc signed) = ag_ServerID ag \<and> after < Version (Doc signed) \<and>
      (\<forall>reg gc. dsd_round (ag\<lparr>ag_registry := reg, ag_gc := gc\<rparr>) lp =
         apply_and_report (ag\<lparr>ag_registry := reg, ag_gc := gc\<rparr>) (Doc signed) (lp1\<lparr>lp_world := w', lp_backoff := seconds 1\<rparr>)) \<and>
      (\<forall>reg gc other. dsd_round (ag\<lparr>ag_registry := reg, ag_gc := Some gc\<rparr>) lp =
         dsd_round (ag\<lparr>ag_registry := reg, ag_gc := Some (\<lambda>doc w. if doc = Doc signed \<and> w = w' then gc doc w else other doc w)\<rparr>) lp))"
proof -
  obtain v lp' where run: "dsd_round ag lp = (v, lp')" by (metis surj_pair)
  then show ?thesis
  proof (cases rule: dsd_round_cases)
    case idle
    with run show ?thesis by simp
  next
    case (applied signed w' lp1)
    have "dsd_round (ag\<lparr>ag_registry := reg, ag_gc := Some gc\<rparr>) lp =
         dsd_round (ag\<lparr>ag_registry := reg, ag_gc := Some (\<lambda>doc w. if doc = Doc signed \<and> w = w' then gc doc w else other doc w)\<rparr>) lp"
      for reg gc other
      unfolding applied(4)
      using apply_and_report_gc [where ag = "ag\<lparr>ag_registry := reg\<rparr>" and doc = "Doc signed" and lp = "lp1\<lparr>lp_world := w', lp_backoff := seconds 1\<rparr>"]
      by simp
    with applied(2-4) show ?thesis unfolding Let_def accepts_def applied(1) by blast
  qed
qed

lemma dsd_round_versions:
  assumes "dsd_round ag lp = (v, lp')"
  shows "applied_version (lp_journal lp) \<le> applied_version (lp_journal lp') \<and>
    (reported_version (lp_journal lp) \<le> applied_version (lp_journal lp) \<longrightarrow>
     reported_version (lp_journal lp') \<le> applied_version (lp_journal lp'))"
  using assms
proof (cases rule: dsd_round_cases)
  case idle
  then show ?thesis by auto
next
  case (applied signed w' lp1)
  from apply_and_report_versions [OF applied(5)] applied(3,6,7) show ?thesis by (auto simp: accepts_def)
qed


text \<open>
  Versions only grow (main.go, runDSDLoop; journal.go). Over any number of rounds, with any
  documents offered, any failures of the journal and of the control plane, the last applied version
  never decreases, and the reported version never gets ahead of the applied one. A replayed
  or downgraded document is therefore rejected for good.
\<close>

theorem agent_versions_grow:
  assumes "rounds ag lp v lp'" and "reported_version (lp_journal lp) \<le> applied_version (lp_journal lp)"
  shows "applied_version (lp_journal lp) \<le> applied_version (lp_journal lp') \<and>
    reported_version (lp_journal lp') \<le> applied_version (lp_journal lp')"
  using assms
proof induction
  case (start lp)
  then show ?case by simp
next
  case (next_round lp lp1 v lp2)
  then show ?case using dsd_round_versions [OF next_round.hyps(2)] by auto
qed

definition demo_env :: "(unit, string list) agent_env" where
  "demo_env =
     \<lparr>GetDSD = (\<lambda>after w. (Inr (Some \<lparr>Doc = demo_doc, Signature = ''sig:'' @ itoa 7 @ ''s''\<rparr>), w)),
      PostDSDStatus = (\<lambda>v p w. (None, w @ [''post''])),
      ctx_done = (\<lambda>w. False), wait = (\<lambda>d w. (False, w)), restartRequested = (\<lambda>w. False), time_now = demo_now\<rparr>"

definition demo_agent :: "(unit, string list) agent" where
  "demo_agent =
     \<lparr>ag_env = demo_env, ag_crypto = demo_crypto, ag_registry = demo_registry, ag_gc = Some (\<lambda>doc w. w @ [''gc'']),
      DSDPublicKey = ''pinned'', ag_ServerID = ''s''\<rparr>"

definition demo_loop :: "string list loop" where
  "demo_loop = \<lparr>lp_world = [], lp_journal = demo_journal, lp_backoff = seconds 1, lp_applyBackoff = seconds 1\<rparr>"

theorem agent_trust_anchor_witness:
  "lp_world (snd (dsd_round (demo_agent\<lparr>ag_registry := demo_registry, ag_gc := None\<rparr>) demo_loop)) \<noteq>
     lp_world (snd (dsd_round demo_agent demo_loop)) \<and>
   (\<exists>lp1 w'. dsd_round (demo_agent\<lparr>ag_registry := demo_registry, ag_gc := None\<rparr>) demo_loop =
      apply_and_report (demo_agent\<lparr>ag_registry := demo_registry, ag_gc := None\<rparr>) demo_doc (lp1\<lparr>lp_world := w', lp_backoff := seconds 1\<rparr>))"
proof (rule conjI)
  have reads: "LastAppliedVersion (lp_journal demo_loop) = (Inr 0, lp_journal demo_loop)"
    "LastReportedVersion (lp_journal demo_loop) = (Inr 0, lp_journal demo_loop)"
    by code_simp+
  let ?lp = "demo_loop\<lparr>lp_backoff := seconds 1\<rparr>"
  have accepted: "reject (demo_agent\<lparr>ag_registry := r, ag_gc := g\<rparr>) 0 \<lparr>Doc = demo_doc, Signature = ''sig:'' @ itoa 7 @ ''s''\<rparr> = None" for r g
  proof -
    have "reject demo_agent 0 \<lparr>Doc = demo_doc, Signature = ''sig:'' @ itoa 7 @ ''s''\<rparr> = None" by code_simp
    then show ?thesis unfolding reject_None accepts_def by simp
  qed
  have env: "ag_env demo_agent = demo_env" "ctx_done demo_env w = False" "lp_world demo_loop = []"
    "GetDSD demo_env a w = (Inr (Some \<lparr>Doc = demo_doc, Signature = ''sig:'' @ itoa 7 @ ''s''\<rparr>), w)" for a w
    by (simp_all add: demo_agent_def demo_env_def demo_loop_def)
  have round: "dsd_round (demo_agent\<lparr>ag_registry := r, ag_gc := g\<rparr>) demo_loop =
      apply_and_report (demo_agent\<lparr>ag_registry := r, ag_gc := g\<rparr>) demo_doc ?lp" for r g
    using accepted by (simp add: dsd_round_def re_report_def reads env Let_def)
  have same: "demo_agent = demo_agent\<lparr>ag_registry := demo_registry, ag_gc := ag_gc demo_agent\<rparr>" by (simp add: demo_agent_def)
  show differ: "lp_world (snd (dsd_round (demo_agent\<lparr>ag_registry := demo_registry, ag_gc := None\<rparr>) demo_loop)) \<noteq>
     lp_world (snd (dsd_round demo_agent demo_loop))"
    by (subst same, unfold round) code_simp
  have fetched: "Doc signed = demo_doc" if "GetDSD (ag_env demo_agent) a w = (Inr (Some signed), w')" for a w signed w'
    using that by (auto simp: demo_agent_def demo_env_def)
  have "\<not> (\<forall>reg gc. dsd_round (demo_agent\<lparr>ag_registry := reg, ag_gc := gc\<rparr>) demo_loop = dsd_round demo_agent demo_loop)"
  proof
    assume "\<forall>reg gc. dsd_round (demo_agent\<lparr>ag_registry := reg, ag_gc := gc\<rparr>) demo_loop = dsd_round demo_agent demo_loop"
    from this [rule_format, of None demo_registry] differ show False by simp
  qed
  with agent_trust_anchor [of demo_agent demo_loop] obtain lp1 a signed w'
    where get: "GetDSD (ag_env demo_agent) a (lp_world lp1) = (Inr (Some signed), w')"
      and run: "\<forall>reg gc. dsd_round (demo_agent\<lparr>ag_registry := reg, ag_gc := gc\<rparr>) demo_loop =
         apply_and_report (demo_agent\<lparr>ag_registry := reg, ag_gc := gc\<rparr>) (Doc signed) (lp1\<lparr>lp_world := w', lp_backoff := seconds 1\<rparr>)"
    unfolding Let_def by blast
  from run [rule_format, of None demo_registry] show "\<exists>lp1 w'. dsd_round (demo_agent\<lparr>ag_registry := demo_registry, ag_gc := None\<rparr>) demo_loop =
      apply_and_report (demo_agent\<lparr>ag_registry := demo_registry, ag_gc := None\<rparr>) demo_doc (lp1\<lparr>lp_world := w', lp_backoff := seconds 1\<rparr>)"
    unfolding fetched [OF get] by blast
qed

theorem agent_versions_grow_witness:
  "\<exists>v lp'. dsd_round demo_agent demo_loop = (v, lp') \<and>
     0 \<le> applied_version (lp_journal lp') \<and> reported_version (lp_journal lp') \<le> applied_version (lp_journal lp')"
proof -
  obtain v lp' where run: "dsd_round demo_agent demo_loop = (v, lp')" by (metis surj_pair)
  have "rounds demo_agent demo_loop v lp'" by (rule rounds.next_round [OF rounds.start run])
  moreover have "reported_version (lp_journal demo_loop) \<le> applied_version (lp_journal demo_loop)"
    "applied_version (lp_journal demo_loop) = 0"
    by (simp_all add: demo_loop_def demo_journal_def reported_version_def applied_version_def bget_def)
  ultimately show ?thesis using agent_versions_grow [of demo_agent demo_loop v lp'] run by auto
qed

section \<open>Reporting\<close>

text \<open>
  No result is lost (main.go, runDSDLoop, the re-report). When a version has been
  applied but not reported and its journal entries are there, the next round posts, before it
  fetches anything, exactly the journalled results of that version: one status per journalled op
  with its state, error, time and version. When the post succeeds the version counts as reported,
  when it fails the journal is unchanged and the round after tries again.
\<close>

theorem dropped_report_is_resent:
  assumes quiet: "faults (lp_journal lp) = []" "keyed (lp_journal lp)"
    and pending: "reported_version (lp_journal lp) < after" "jview (lp_journal lp) after i \<noteq> None"
    and post: "PostDSDStatus (ag_env ag) after
      (\<lambda>i. map_option (\<lambda>r. \<lparr>st_state = R_State r, st_error = R_Err r, st_appliedAt = R_At r, st_version = R_Version r\<rparr>)
         (jview (lp_journal lp) after i)) (lp_world lp) = (e, w)"
  shows "lp_world (re_report ag after lp) = w \<and>
    (e = None \<longrightarrow> reported_version (lp_journal (re_report ag after lp)) = after) \<and>
    (e \<noteq> None \<longrightarrow> lp_journal (re_report ag after lp) = lp_journal lp) \<and>
    jview (lp_journal (re_report ag after lp)) = jview (lp_journal lp)"
proof -
  let ?j = "lp_journal lp"
  have reads: "LastReportedVersion ?j = (Inr (reported_version ?j), ?j)"
    using quiet(1) by (simp add: LastReportedVersion_def meta_read_def reported_version_def)
  obtain m where res: "ResultsForVersion after ?j = (Inr m, ?j)"
    using quiet(1) by (simp add: ResultsForVersion_def)
  have m: "m = jview ?j after" using ResultsForVersion_view [OF quiet(2) res] by auto
  have "m \<noteq> Map.empty" using pending(2) m by (metis)
  obtain x j where set: "SetLastReportedVersion after ?j = (x, j)" by (metis surj_pair)
  have x: "x = None" "jview j = jview ?j"
    using set quiet(1) by (auto simp: SetLastReportedVersion_def meta_write_def jview_def fun_eq_iff)
  have "PostDSDStatus (ag_env ag) after (StatusPayload m) (lp_world lp) = (e, w)"
    using post m by (simp add: StatusPayload_def [abs_def])
  then show ?thesis
    using reads res pending(1) \<open>m \<noteq> Map.empty\<close> set x SetLastReportedVersion_ok [of after ?j j]
    by (cases e) (auto simp: re_report_def)
qed

definition pending_loop :: "string list loop" where
  "pending_loop = \<lparr>lp_world = [], lp_journal = record_all
       [\<lparr>R_Version = 7, R_OpID = ''a'', R_State = Failed, R_Err = ''boom'', R_At = 3\<rparr>] demo_journal,
     lp_backoff = seconds 1, lp_applyBackoff = seconds 1\<rparr>"

theorem dropped_report_is_resent_witness:
  "lp_world (re_report demo_agent 7 pending_loop) = [''post''] \<and>
   reported_version (lp_journal (re_report demo_agent 7 pending_loop)) = 7"
proof -
  have open_j: "Open [] = Inr demo_journal" by (simp add: Open_def demo_journal_def)
  then have "keyed (lp_journal pending_loop)"
    unfolding pending_loop_def by (simp del: record_all.simps add: keyed_record_all keyed_Open [OF open_j])
  moreover have "faults (lp_journal pending_loop) = []"
    "reported_version (lp_journal pending_loop) < 7" "jview (lp_journal pending_loop) 7 ''a'' \<noteq> None"
    by (simp_all add: pending_loop_def demo_journal_def Record_def reported_version_def jview_def bget_def)
  ultimately show ?thesis
    using dropped_report_is_resent [of pending_loop 7 "''a''" demo_agent None "[''post'']"]
    by (simp add: demo_agent_def demo_env_def) (simp add: pending_loop_def)
qed

section \<open>Backoff\<close>

definition backoff_steps :: "int set" where
  "backoff_steps = {seconds 1, seconds 2, seconds 4, seconds 8, seconds 16, seconds 32}"

lemma double_backoff_steps: "b \<in> backoff_steps \<Longrightarrow> double_backoff b \<in> backoff_steps"
  by (auto simp: backoff_steps_def double_backoff_def seconds_def nano_per_second_def)

lemma re_report_backoff: "lp_backoff (re_report ag after lp) = lp_backoff lp \<and>
    lp_applyBackoff (re_report ag after lp) = lp_applyBackoff lp"
  by (auto simp: re_report_def split: sum.splits prod.splits option.splits)

lemma one_step: "seconds 1 \<in> backoff_steps"
  by (simp add: backoff_steps_def)

lemma dsd_round_backoff:
  assumes "dsd_round ag lp = (v, lp')" "lp_backoff lp \<in> backoff_steps" "lp_applyBackoff lp \<in> backoff_steps"
  shows "lp_backoff lp' \<in> backoff_steps \<and> lp_applyBackoff lp' \<in> backoff_steps"
  using assms
  by (auto simp: dsd_round_def apply_and_report_def Let_def re_report_backoff double_backoff_steps one_step
      split: if_splits sum.splits prod.splits option.splits bool.splits)

text \<open>
  Backoff (main.go, runDSDLoop). However many fetches and applies fail in a row, and in
  whatever mix, both waits of the loop are a power of two between 1 and 32 seconds: they neither vanish, which would
  hammer the control plane, nor grow past 32 seconds.
\<close>

theorem backoff_bounded:
  assumes "loop_start ag w j = Some lp" "rounds ag lp v lp'"
  shows "{lp_backoff lp', lp_applyBackoff lp'} \<subseteq> {seconds 1, seconds 2, seconds 4, seconds 8, seconds 16, seconds 32}"
proof -
  have "lp_backoff lp \<in> backoff_steps" "lp_applyBackoff lp \<in> backoff_steps"
    using assms(1) by (auto simp: loop_start_def one_step split: if_splits)
  with assms(2) have "lp_backoff lp' \<in> backoff_steps \<and> lp_applyBackoff lp' \<in> backoff_steps"
  proof induction
    case (next_round lp lp1 v lp2)
    then show ?case using dsd_round_backoff [OF next_round.hyps(2)] by blast
  qed simp
  then show ?thesis by (simp add: backoff_steps_def)
qed

theorem backoff_bounded_witness:
  "\<exists>lp v lp'. loop_start demo_agent [] demo_journal = Some lp \<and> dsd_round demo_agent lp = (v, lp') \<and>
    {lp_backoff lp', lp_applyBackoff lp'} \<subseteq> {seconds 1, seconds 2, seconds 4, seconds 8, seconds 16, seconds 32}"
proof -
  obtain lp where lp: "loop_start demo_agent [] demo_journal = Some lp"
    by (auto simp: loop_start_def demo_agent_def)
  obtain v lp' where run: "dsd_round demo_agent lp = (v, lp')" by (metis surj_pair)
  have "rounds demo_agent lp v lp'" by (rule rounds.next_round [OF rounds.start run])
  from backoff_bounded [OF lp this] lp run show ?thesis by blast
qed


end
