(* ===== verification/Naming.thy ===== *)
theory Naming
  imports Policy Rollout
begin

text \<open>
  The names the control plane renders into documents (cp/internal/dsd/naming.go): Docker objects, image
  tags and Kubernetes objects. The agent uses them verbatim, so the theorems also run them through the
  agent's own checks. Kubernetes names are built rune by rune; a rune is its code point, and the case
  mapping of the Unicode tables and the SHA-256 digest are arguments.
\<close>

section \<open>Image tags\<close>

definition DeployImageTag :: "string \<Rightarrow> string \<Rightarrow> string" where
  "DeployImageTag resourceID sha = ''sigmahub/'' @ resourceID @ '':'' @ sha"

definition DeployServiceImageTag :: "string \<Rightarrow> string \<Rightarrow> string \<Rightarrow> string" where
  "DeployServiceImageTag resourceID service sha = ''sigmahub/'' @ resourceID @ ''-'' @ service @ '':'' @ sha"

definition DeployPin :: "string \<Rightarrow> string" where
  "DeployPin deploymentID =
     (let pin = (case cut_last (CHR ''_'') deploymentID of Some (a, b) \<Rightarrow> b | None \<Rightarrow> deploymentID)
      in if length pin > 6 then drop (length pin - 6) pin else pin)"

definition PinnedImageTag :: "string \<Rightarrow> string \<Rightarrow> string \<Rightarrow> string" where
  "PinnedImageTag resourceID sha pin =
     (if pin = '''' then DeployImageTag resourceID sha else DeployImageTag resourceID sha @ ''-'' @ pin)"

definition PinnedServiceImageTag :: "string \<Rightarrow> string \<Rightarrow> string \<Rightarrow> string \<Rightarrow> string" where
  "PinnedServiceImageTag resourceID service sha pin =
     (if pin = '''' then DeployServiceImageTag resourceID service sha
      else DeployServiceImageTag resourceID service sha @ ''-'' @ pin)"

definition QualifyImage :: "string \<Rightarrow> string \<Rightarrow> string" where
  "QualifyImage repository tag =
     (let repository = trim [CHR ''/''] (trim_space repository)
      in if repository = '''' then tag else repository @ ''/'' @ trim_prefix ''sigmahub/'' tag)"

section \<open>Docker objects\<close>

definition ServiceContainerName :: "string \<Rightarrow> string \<Rightarrow> string" where
  "ServiceContainerName resourceID service = ''sigmahub-'' @ resourceID @ ''-'' @ service"

definition TraefikRouterName :: "string \<Rightarrow> string" where
  "TraefikRouterName resourceID = ''sigmahub-'' @ resourceID"

definition TraefikGenerationRouterName :: "string \<Rightarrow> string \<Rightarrow> string" where
  "TraefikGenerationRouterName resourceID generation =
     (if generation = '''' then TraefikRouterName resourceID else ''sigmahub-'' @ resourceID @ ''-'' @ generation)"

definition NetworkName :: "string \<Rightarrow> string" where
  "NetworkName projectID = ''sigmahub-'' @ projectID"

definition ResourceNetworkName :: "string \<Rightarrow> string" where
  "ResourceNetworkName resourceID = ''sigmahub-app-'' @ resourceID"

definition ContainerName :: "string \<Rightarrow> string" where
  "ContainerName resourceID = ''sigmahub-'' @ resourceID"

definition VolumeName :: "string \<Rightarrow> string \<Rightarrow> string" where
  "VolumeName resourceID vol = ''sigmahub-'' @ resourceID @ ''-'' @ vol"

section \<open>Kubernetes objects\<close>

type_synonym rune = nat

definition runes :: "string \<Rightarrow> rune list" where
  "runes s = map of_char s"

definition k8sNameMax :: nat where
  "k8sNameMax = 63"

definition k8s_rune :: "rune \<Rightarrow> char" where
  "k8s_rune r = (if (97 \<le> r \<and> r \<le> 122) \<or> (48 \<le> r \<and> r \<le> 57) then char_of r else CHR ''-'')"

text \<open>\<open>lower\<close> is \<open>unicode.ToLower\<close>; \<open>digest\<close> is the hex text of the first four bytes of the SHA-256.\<close>

definition K8sName :: "(rune \<Rightarrow> rune) \<Rightarrow> (rune list \<Rightarrow> string) \<Rightarrow> rune list \<Rightarrow> string" where
  "K8sName lower digest raw =
     (let s = trim [CHR ''-''] (map (\<lambda>r. k8s_rune (lower r)) raw)
      in if s = '''' then ''''
         else if length s \<le> k8sNameMax then s
         else let suffix = ''-'' @ digest raw
              in trim [CHR ''-''] (take (k8sNameMax - length suffix) s) @ suffix)"

definition K8sWorkloadName :: "(rune \<Rightarrow> rune) \<Rightarrow> (rune list \<Rightarrow> string) \<Rightarrow> string \<Rightarrow> string \<Rightarrow> string" where
  "K8sWorkloadName lower digest resourceID service =
     (if service = '''' then K8sName lower digest (runes (ContainerName resourceID))
      else K8sName lower digest (runes (ServiceContainerName resourceID service)))"

definition K8sNamespace :: "(rune \<Rightarrow> rune) \<Rightarrow> (rune list \<Rightarrow> string) \<Rightarrow> string \<Rightarrow> string" where
  "K8sNamespace lower digest projectID = K8sName lower digest (runes (NetworkName projectID))"

section \<open>Kubernetes names are labels\<close>

definition label_char :: "char \<Rightarrow> bool" where
  "label_char c \<longleftrightarrow> is_lower c \<or> is_digit c"

text \<open>An RFC 1123 label.\<close>

definition rfc1123_label :: "string \<Rightarrow> bool" where
  "rfc1123_label s \<longleftrightarrow> s \<noteq> '''' \<and> length s \<le> 63 \<and> (\<forall>c \<in> set s. label_char c \<or> c = CHR ''-'') \<and>
     label_char (hd s) \<and> label_char (last s)"

lemma k8s_rune_cases: "label_char (k8s_rune r) \<or> k8s_rune r = CHR ''-''"
  by (auto simp: k8s_rune_def label_char_def is_lower_def is_digit_def)

lemma trim_left_hd: "trim_left cutset s \<noteq> [] \<Longrightarrow> hd (trim_left cutset s) \<notin> set cutset"
  unfolding trim_left_def by (metis hd_dropWhile)

lemma trim_ends:
  assumes "trim cutset s \<noteq> []"
  shows "hd (trim cutset s) \<notin> set cutset" "last (trim cutset s) \<notin> set cutset"
proof -
  let ?a = "trim_left cutset s"
  have eq: "trim cutset s = rev (trim_left cutset (rev ?a))" by (simp add: trim_def)
  show "last (trim cutset s) \<notin> set cutset"
    using trim_left_hd [of cutset "rev ?a"] assms by (simp add: eq last_rev)
  obtain pre where pre: "rev ?a = pre @ trim_left cutset (rev ?a)" unfolding trim_left_def
    by (metis takeWhile_dropWhile_id)
  then have a: "?a = trim cutset s @ rev pre" by (metis eq rev_append rev_rev_ident)
  with assms have "hd ?a = hd (trim cutset s)" "?a \<noteq> []" by auto
  then show "hd (trim cutset s) \<notin> set cutset" using trim_left_hd [of cutset s] by simp
qed

lemma trim_prefix_of: "hd s \<notin> set cutset \<Longrightarrow> \<exists>post. s = trim cutset s @ post"
proof -
  assume "hd s \<notin> set cutset"
  then have "trim_left cutset s = s" unfolding trim_left_def by (cases s) auto
  then have "trim cutset s = rev (trim_left cutset (rev s))" by (simp add: trim_def)
  moreover obtain pre where "rev s = pre @ trim_left cutset (rev s)" unfolding trim_left_def
    by (metis takeWhile_dropWhile_id)
  ultimately have "s = trim cutset s @ rev pre" by (metis rev_append rev_rev_ident)
  then show ?thesis ..
qed

lemma trim_nonempty: "s \<noteq> [] \<Longrightarrow> hd s \<notin> set cutset \<Longrightarrow> trim cutset s \<noteq> []"
  unfolding trim_def trim_left_def
  by (cases s) (auto simp: dropWhile_eq_Nil_conv)

lemma trim_left_eq_Nil: "trim_left cutset s = [] \<longleftrightarrow> set s \<subseteq> set cutset"
  unfolding trim_left_def dropWhile_eq_Nil_conv by blast

lemma trim_eq_Nil: "trim cutset s = [] \<longleftrightarrow> set s \<subseteq> set cutset"
proof -
  have "trim cutset s = [] \<longleftrightarrow> set (trim_left cutset s) \<subseteq> set cutset"
    unfolding trim_def rev_is_Nil_conv trim_left_eq_Nil [of cutset "rev _"] set_rev ..
  also have "\<dots> \<longleftrightarrow> set s \<subseteq> set cutset"
  proof
    assume "set (trim_left cutset s) \<subseteq> set cutset"
    then have "trim_left cutset s = []" using trim_left_hd [of cutset s] hd_in_set by blast
    then show "set s \<subseteq> set cutset" by (rule trim_left_eq_Nil [THEN iffD1])
  next
    assume "set s \<subseteq> set cutset"
    then show "set (trim_left cutset s) \<subseteq> set cutset" using trim_left_eq_Nil [of cutset s] by simp
  qed
  finally show ?thesis .
qed

text \<open>
  Kubernetes names (naming.go, K8sName). For every identifier, whatever runes it holds and
  however long it is, the rendered name is empty or a label of RFC 1123: at most 63 characters, lower
  case letters, digits and hyphens, beginning and ending alphanumeric. It is empty exactly when no rune of
  the identifier is alphanumeric. Two identifiers that are both too long and still share a
  name share their digest.
\<close>

theorem k8s_name_valid:
  assumes digest: "\<forall>x. length (digest x) = 8 \<and> (\<forall>c \<in> set (digest x). label_char c)"
  shows "(K8sName lower digest raw = '''' \<or> rfc1123_label (K8sName lower digest raw)) \<and>
    (K8sName lower digest raw = '''' \<longleftrightarrow> (\<forall>r \<in> set raw. \<not> label_char (k8s_rune (lower r)))) \<and>
    (63 < length (trim [CHR ''-''] (map (\<lambda>r. k8s_rune (lower r)) raw)) \<and>
     63 < length (trim [CHR ''-''] (map (\<lambda>r. k8s_rune (lower r)) raw')) \<and>
     K8sName lower digest raw = K8sName lower digest raw' \<longrightarrow> digest raw = digest raw')"
proof (intro conjI impI)
  let ?f = "\<lambda>r. k8s_rune (lower r)"
  let ?s = "trim [CHR ''-''] (map ?f raw)"
  have dash: "\<not> label_char (CHR ''-'')" by (simp add: label_char_def is_lower_def is_digit_def)
  have chars: "\<forall>c \<in> set ?s. label_char c \<or> c = CHR ''-''"
    using set_trim [of "[CHR ''-'']" "map ?f raw"] k8s_rune_cases by fastforce
  show "K8sName lower digest raw = '''' \<or> rfc1123_label (K8sName lower digest raw)"
  proof (cases "?s = '''' \<or> length ?s \<le> k8sNameMax")
    case True
    then show ?thesis using chars trim_ends [of "[CHR ''-'']" "map ?f raw"]
      by (auto simp: K8sName_def Let_def rfc1123_label_def k8sNameMax_def)
  next
    case False
    let ?t = "take 54 ?s"
    have t: "?t \<noteq> []" "hd ?t \<notin> set [CHR ''-'']" "set ?t \<subseteq> set ?s"
      using False trim_ends(1) [of "[CHR ''-'']" "map ?f raw"] by (auto simp: hd_take dest: in_set_takeD)
    have d: "length (digest raw) = 8" "digest raw \<noteq> []" "\<forall>c \<in> set (digest raw). label_char c"
      using digest by (auto, metis length_greater_0_conv zero_less_numeral)
    have name: "K8sName lower digest raw = trim [CHR ''-''] ?t @ CHR ''-'' # digest raw"
      using False d by (simp add: K8sName_def Let_def k8sNameMax_def)
    have ne: "trim [CHR ''-''] ?t \<noteq> []" by (rule trim_nonempty [OF t(1,2)])
    have "hd (trim [CHR ''-''] ?t) \<in> set ?s"
      using hd_in_set [OF ne] set_trim [of "[CHR ''-'']" ?t] t(3) by blast
    then have "label_char (hd (trim [CHR ''-''] ?t))" using chars trim_ends(1) [OF ne] by auto
    moreover have "length (trim [CHR ''-''] ?t) \<le> 54"
      using length_trim [of "[CHR ''-'']" ?t] by simp
    moreover have "\<forall>c \<in> set (trim [CHR ''-''] ?t). label_char c \<or> c = CHR ''-''"
      using set_trim [of "[CHR ''-'']" ?t] t(3) chars by blast
    ultimately have "rfc1123_label (K8sName lower digest raw)"
      using d ne by (auto simp: rfc1123_label_def name)
    then show ?thesis ..
  qed
  have "?s = '''' \<longleftrightarrow> set (map ?f raw) \<subseteq> {CHR ''-''}" by (simp add: trim_eq_Nil)
  also have "\<dots> \<longleftrightarrow> (\<forall>r \<in> set raw. \<not> label_char (?f r))" using k8s_rune_cases dash by fastforce
  finally show "K8sName lower digest raw = '''' \<longleftrightarrow> (\<forall>r \<in> set raw. \<not> label_char (?f r))"
    by (auto simp: K8sName_def Let_def)
  assume long: "63 < length ?s \<and> 63 < length (trim [CHR ''-''] (map ?f raw')) \<and>
     K8sName lower digest raw = K8sName lower digest raw'"
  then have "trim [CHR ''-''] (take 54 ?s) @ CHR ''-'' # digest raw =
      trim [CHR ''-''] (take 54 (trim [CHR ''-''] (map ?f raw'))) @ CHR ''-'' # digest raw'"
    using digest by (auto simp: K8sName_def Let_def k8sNameMax_def split: if_splits)
  moreover have "length (CHR ''-'' # digest raw) = length (CHR ''-'' # digest raw')" using digest by simp
  ultimately show "digest raw = digest raw'" by (simp add: append_eq_append_conv)
qed


theorem k8s_name_valid_witness:
  "rfc1123_label (K8sName (\<lambda>r. r) (\<lambda>x. ''0123abcd'') (runes ''sigmahub-res_1F'')) \<and>
   rfc1123_label (K8sName (\<lambda>r. r) (\<lambda>x. ''0123abcd'') (replicate 70 97))"
proof -
  have "\<forall>x :: rune list. length ((\<lambda>x. ''0123abcd'') x) = 8 \<and> (\<forall>c \<in> set ((\<lambda>x. ''0123abcd'') x). label_char c)"
    by (auto simp: label_char_def is_lower_def is_digit_def)
  note valid = k8s_name_valid [OF this, of "\<lambda>r. r" _ "[]"]
  have "K8sName (\<lambda>r. r) (\<lambda>x. ''0123abcd'') (runes ''sigmahub-res_1F'') \<noteq> ''''" by code_simp
  moreover have "K8sName (\<lambda>r. r) (\<lambda>x. ''0123abcd'') (replicate 70 97) \<noteq> ''''" by code_simp
  ultimately show ?thesis using valid by blast
qed

section \<open>The agent accepts what the control plane renders\<close>

text \<open>The alphabet of identifiers, commit hashes, pins and service names.\<close>

definition ident_char :: "char \<Rightarrow> bool" where
  "ident_char c \<longleftrightarrow> is_lower c \<or> is_upper c \<or> is_digit c \<or> c = CHR ''_'' \<or> c = CHR ''-''"

definition ident :: "string \<Rightarrow> bool" where
  "ident s \<longleftrightarrow> list_all ident_char s"

lemma ident_append [simp]: "ident (a @ b) \<longleftrightarrow> ident a \<and> ident b"
  by (simp add: ident_def)

lemma ident_Cons [simp]: "ident (c # s) \<longleftrightarrow> ident_char c \<and> ident s" and ident_Nil [simp]: "ident []"
  by (simp_all add: ident_def)

lemma ident_literals [simp]: "ident_char (CHR ''-'')" "ident_char (CHR ''a'')" "ident_char (CHR ''p'')"
  by (simp_all add: ident_char_def is_lower_def)

lemma ident_chars: "ident s \<Longrightarrow> CHR ''/'' \<notin> set s \<and> CHR '':'' \<notin> set s \<and> CHR 0x5C \<notin> set s \<and> CHR ''.'' \<notin> set s"
  by (auto simp: ident_def list_all_iff ident_char_def is_lower_def is_upper_def is_digit_def)

lemma contains_dots: "contains s ''..'' \<Longrightarrow> CHR ''.'' \<in> set s"
  by (auto simp: contains_iff)

lemma managed_ident: "ident s \<Longrightarrow> isManagedName (''sigmahub-'' @ s)"
  using ident_chars [of s] contains_dots [of "''sigmahub-'' @ s"] by (auto simp: isManagedName_iff has_prefix_iff)

lemma pinned_tag:
  assumes "ident repo" "ident tag" "tag \<noteq> ''''" "tag \<noteq> ''latest''"
  shows "checkImagePinned (''sigmahub/'' @ repo @ '':'' @ tag) = None"
    "imageRepoPrefix (''sigmahub/'' @ repo @ '':'' @ tag) = ''sigmahub/'' @ repo @ '':''"
proof -
  have cut: "cut_last (CHR '':'') ((''sigmahub/'' @ repo) @ CHR '':'' # tag) = Some (''sigmahub/'' @ repo, tag)"
    using ident_chars [OF assms(2)] by (intro cut_last_append) simp
  have "\<not> contains tag ''/''" using ident_chars [OF assms(2)] by (auto simp: contains_iff)
  with cut assms(3,4) show "checkImagePinned (''sigmahub/'' @ repo @ '':'' @ tag) = None"
    by (auto simp: checkImagePinned_None image_tag_def)
  from cut show "imageRepoPrefix (''sigmahub/'' @ repo @ '':'' @ tag) = ''sigmahub/'' @ repo @ '':''"
    by (auto simp: imageRepoPrefix_def has_prefix_iff)
qed

text \<open>
  The two sides agree on names (naming.go against the agent's policy.go and rollout.go). For
  identifiers, service names, commit hashes and pins over letters, digits, hyphen and underscore, every network and volume
  name the control plane renders is a managed name that the agent's policy accepts, with or without a generation suffix on
  the container name; every image tag of a build is accepted as pinned; and the scope of the agent's image
  retention for such a tag is exactly the repository of that resource, or of that service.
\<close>

theorem rendered_names_accepted:
  assumes "ident prj" "ident res" "ident svc" "ident vol" "ident sha" "ident pin" "ident gen"
    and "sha \<noteq> ''''" "sha \<noteq> ''latest''"
  shows "checkNetwork (NetworkName prj) = None \<and> checkNetwork (ResourceNetworkName res) = None \<and>
    isManagedName (VolumeName res vol) \<and>
    isManagedName (rolloutName (ContainerName res) gen) \<and> isManagedName (rolloutName (ServiceContainerName res svc) gen) \<and>
    checkImagePinned (PinnedImageTag res sha pin) = None \<and>
    checkImagePinned (PinnedServiceImageTag res svc sha pin) = None \<and>
    imageRepoPrefix (PinnedImageTag res sha pin) = ''sigmahub/'' @ res @ '':'' \<and>
    imageRepoPrefix (PinnedServiceImageTag res svc sha pin) = ''sigmahub/'' @ res @ ''-'' @ svc @ '':''"
proof -
  let ?tag = "if pin = '''' then sha else sha @ ''-'' @ pin"
  have tag: "ident ?tag" "?tag \<noteq> ''''" "?tag \<noteq> ''latest''"
    using assms split_list [of "CHR ''-''" "''latest''"] by (auto simp: append_eq_Cons_conv)
  have one: "PinnedImageTag res sha pin = ''sigmahub/'' @ res @ '':'' @ ?tag"
    by (simp add: PinnedImageTag_def DeployImageTag_def)
  have two: "PinnedServiceImageTag res svc sha pin = ''sigmahub/'' @ (res @ ''-'' @ svc) @ '':'' @ ?tag"
    by (simp add: PinnedServiceImageTag_def DeployServiceImageTag_def)
  have "ident (res @ ''-'' @ svc)" using assms by simp
  then have "checkImagePinned (PinnedServiceImageTag res svc sha pin) = None"
    "imageRepoPrefix (PinnedServiceImageTag res svc sha pin) = ''sigmahub/'' @ res @ ''-'' @ svc @ '':''"
    using pinned_tag [of "res @ ''-'' @ svc" ?tag] tag unfolding two by simp_all
  moreover have "checkImagePinned (PinnedImageTag res sha pin) = None"
    "imageRepoPrefix (PinnedImageTag res sha pin) = ''sigmahub/'' @ res @ '':''"
    using pinned_tag [of res ?tag] assms(2) tag unfolding one by simp_all
  moreover have "isManagedName (''sigmahub-'' @ prj)" "isManagedName (''sigmahub-'' @ ''app-'' @ res)"
    "isManagedName (''sigmahub-'' @ res @ ''-'' @ vol)" "isManagedName (''sigmahub-'' @ res)"
    "isManagedName (''sigmahub-'' @ res @ ''-'' @ gen)" "isManagedName (''sigmahub-'' @ res @ ''-'' @ svc)"
    "isManagedName (''sigmahub-'' @ res @ ''-'' @ svc @ ''-'' @ gen)"
    using assms by (intro managed_ident; simp)+
  ultimately show ?thesis
    by (simp add: checkNetwork_None NetworkName_def ResourceNetworkName_def VolumeName_def rolloutName_def
        ContainerName_def ServiceContainerName_def)
qed

theorem rendered_names_accepted_witness:
  "checkNetwork (NetworkName ''prj_1a'') = None \<and>
   checkImagePinned (PinnedServiceImageTag ''res_2b'' ''web'' ''deadbeef'' (DeployPin ''dep_0123456789'')) = None \<and>
   imageRepoPrefix (PinnedServiceImageTag ''res_2b'' ''web'' ''deadbeef'' (DeployPin ''dep_0123456789'')) = ''sigmahub/res_2b-web:''"
proof -
  have "ident ''prj_1a''" "ident ''res_2b''" "ident ''web''" "ident ''data''" "ident ''deadbeef''" "ident ''g1''"
    "ident (DeployPin ''dep_0123456789'')" by code_simp+
  with rendered_names_accepted [of "''prj_1a''" "''res_2b''" "''web''" "''data''" "''deadbeef''"
      "DeployPin ''dep_0123456789''" "''g1''"] show ?thesis by simp
qed


end
