(* ===== verification/HostPorts.thy ===== *)
theory HostPorts
  imports Prelude "HOL-Library.Sublist"
begin

text \<open>
  Host ports of a server in the control plane: the resolver of an app's explicit ports
  (cp/internal/store/host_ports.go) and the allocator of mesh ports (databases.go,
  \<open>allocateMeshPort\<close>). The rows both read are the record \<open>port_db\<close>; a statement that fails is an entry of
  \<open>db_fail\<close>. Both run inside one transaction under the per-server advisory lock, so a call is
  one step. The JSON envelope of an app's spec is an argument; decoding an element of its \<open>ports\<close> is data of the row.
\<close>

section \<open>Rows\<close>

record hostPortMapping =
  hp_Container :: int
  hp_Host :: int
  hp_Protocol :: string
  hp_RequestedHost :: int

text \<open>
  The array under the key \<open>ports\<close> of an app's spec, as its two readers see each element: what \<open>json.Unmarshal\<close> makes of it (None when
  it does not decode; field names are matched without regard to case) and what the SQL of the allocator makes of
  it (\<open>p->>'host'\<close>: the value under exactly that key, when its text is all digits).
\<close>

record port_elem =
  pe_map :: "hostPortMapping option"
  pe_sql :: "int option"

type_synonym ports_json = "port_elem list"

definition decode_ports :: "ports_json \<Rightarrow> hostPortMapping list option" where
  "decode_ports j = those (map pe_map j)"

text \<open>\<open>json.Marshal\<close> of a mapping writes the keys as the struct's tags spell them and omits zeroes.\<close>

definition encode_port :: "hostPortMapping \<Rightarrow> port_elem" where
  "encode_port p = \<lparr>pe_map = Some p, pe_sql = (if hp_Host p > 0 then Some (hp_Host p) else None)\<rparr>"

record app_row =
  app_id :: string
  app_server :: string
  app_ports :: "ports_json option" \<comment> \<open>None: no array under \<open>ports\<close>\<close>

record port_db =
  db_credentials :: "(string \<times> int) list" \<comment> \<open>server, port\<close>
  s3_credentials :: "(string \<times> int) list"
  llm_endpoints :: "(string \<times> int) list"
  app_resources :: "app_row list"
  db_fail :: "string \<Rightarrow> goerr option"

definition mesh_ports :: "port_db \<Rightarrow> string \<Rightarrow> int list" where
  "mesh_ports db sid = map snd (filter (\<lambda>r. fst r = sid) (db_credentials db @ s3_credentials db @ llm_endpoints db))"

section \<open>The resolver\<close>

definition hostPortCeiling :: int where
  "hostPortCeiling = 65535"

definition ErrNoFreePort :: goerr where
  "ErrNoFreePort = ErrString ''no free mesh port on this server''"

text \<open>\<open>fmt.Errorf("%w: ...")\<close>: the wrapped error, then the text.\<close>

definition no_free_port :: "string \<Rightarrow> goerr" where
  "no_free_port detail = ErrString (error_text ErrNoFreePort @ '': '' @ detail)"

fun scan_apps :: "string \<Rightarrow> ports_json list \<Rightarrow> (int \<Rightarrow> bool) \<Rightarrow> (int \<Rightarrow> bool) res" where
  "scan_apps sid [] used = Inr used"
| "scan_apps sid (j # js) used =
     (case decode_ports j of
        None \<Rightarrow>
          Inl (Wrapf (''unreadable port spec on a resource of server '' @ sid) (ErrString ''json: cannot unmarshal''))
      | Some ps \<Rightarrow>
          scan_apps sid js (fold (\<lambda>p u. if hp_Host p > 0 then u(hp_Host p := True) else u) ps used))"

definition boundHostPortsTx :: "port_db \<Rightarrow> string \<Rightarrow> string \<Rightarrow> (int \<Rightarrow> bool) res" where
  "boundHostPortsTx db sid exclude =
     (case db_fail db ''mesh'' of
        Some e \<Rightarrow> Inl (Wrapf ''scan mesh ports'' e)
      | None \<Rightarrow>
          let used = (\<lambda>p. p \<in> set (mesh_ports db sid))
          in case db_fail db ''app'' of
               Some e \<Rightarrow> Inl (Wrapf ''scan app ports'' e)
             | None \<Rightarrow>
                 scan_apps sid
                   (List.map_filter app_ports (filter (\<lambda>a. app_server a = sid \<and> app_id a \<noteq> exclude) (app_resources db))) used)"

text \<open>The search from the requested port: None when it leaves the range.\<close>

function next_free :: "(int \<Rightarrow> bool) \<Rightarrow> int \<Rightarrow> int option" where
  "next_free used port =
     (if \<not> used port then Some port
      else if port + 1 > hostPortCeiling then None
      else next_free used (port + 1))"
  by pat_completeness auto
termination
  by (relation "measure (\<lambda>(used, port). nat (hostPortCeiling - port))") (auto simp: hostPortCeiling_def)

declare next_free.simps [simp del]

fun resolve_ports :: "string \<Rightarrow> hostPortMapping list \<Rightarrow> (int \<Rightarrow> bool) \<Rightarrow> hostPortMapping list res" where
  "resolve_ports sid [] used = Inr []"
| "resolve_ports sid (p # ps) used =
     (let req = hp_Host p
      in if req \<le> 0 then (case resolve_ports sid ps used of Inl e \<Rightarrow> Inl e | Inr qs \<Rightarrow> Inr (p # qs))
         else case next_free used req of
                None \<Rightarrow> Inl (no_free_port (sid @ '' (no free host port at or above '' @ itoa req @ '')''))
              | Some port \<Rightarrow>
                  (case resolve_ports sid ps (used(port := True)) of
                     Inl e \<Rightarrow> Inl e
                   | Inr qs \<Rightarrow>
                       Inr ((if port \<noteq> req then p\<lparr>hp_Host := port, hp_RequestedHost := req\<rparr> else p) # qs)))"

text \<open>The envelope: decoding a spec, its \<open>ports\<close> field, and writing the field back.\<close>

record ('j, 'o, 'r) envelope =
  env_obj :: "'j \<Rightarrow> 'o option"
  env_ports :: "'o \<Rightarrow> 'r option"
  env_dec :: "'r \<Rightarrow> hostPortMapping list option"
  env_enc :: "hostPortMapping list \<Rightarrow> 'r res"
  env_put :: "'r \<Rightarrow> 'o \<Rightarrow> 'j res"

definition resolveAppHostPortsTx :: "('j, 'o, 'r) envelope \<Rightarrow> port_db \<Rightarrow> string \<Rightarrow> string \<Rightarrow> 'j \<Rightarrow> 'j res" where
  "resolveAppHostPortsTx ev db sid exclude spec =
     (case env_obj ev spec of
        None \<Rightarrow> Inr spec
      | Some obj \<Rightarrow>
          (case env_ports ev obj of
             None \<Rightarrow> Inr spec
           | Some raw \<Rightarrow>
               (case env_dec ev raw of
                  None \<Rightarrow> Inr spec
                | Some ports \<Rightarrow>
                    if ports = [] \<or> \<not> list_ex (\<lambda>p. hp_Host p > 0) ports then Inr spec
                    else (case db_fail db ''lock'' of
                            Some e \<Rightarrow> Inl (Wrapf ''host port lock'' e)
                          | None \<Rightarrow>
                              (case boundHostPortsTx db sid exclude of
                                 Inl e \<Rightarrow> Inl e
                               | Inr used \<Rightarrow>
                                   (case resolve_ports sid ports used of
                                      Inl e \<Rightarrow> Inl e
                                    | Inr qs \<Rightarrow>
                                        if map hp_Host qs = map hp_Host ports then Inr spec
                                        else (case env_enc ev qs of
                                                Inl e \<Rightarrow> Inl (Wrapf ''marshal resolved ports'' e)
                                              | Inr r \<Rightarrow>
                                                  (case env_put ev r obj of
                                                     Inl e \<Rightarrow> Inl (Wrapf ''marshal resolved spec'' e)
                                                   | Inr out \<Rightarrow> Inr out))))))))"

section \<open>The mesh allocator\<close>

definition MeshPortBase :: int where
  "MeshPortBase = 15000"

definition MeshPortCeiling :: int where
  "MeshPortCeiling = 65535"

definition sql_hosts :: "ports_json \<Rightarrow> int list" where
  "sql_hosts j = List.map_filter pe_sql j"

definition sql_used :: "port_db \<Rightarrow> string \<Rightarrow> int list" where
  "sql_used db sid =
     mesh_ports db sid @
     concat (map sql_hosts (List.map_filter app_ports (filter (\<lambda>a. app_server a = sid) (app_resources db))))"

definition allocateMeshPort :: "port_db \<Rightarrow> string \<Rightarrow> string \<Rightarrow> int res" where
  "allocateMeshPort db sid what =
     (case db_fail db ''lock'' of
        Some e \<Rightarrow> Inl (Wrapf (what @ '' port lock'') e)
      | None \<Rightarrow>
          (case db_fail db ''allocate'' of
             Some e \<Rightarrow> Inl (Wrapf (what @ '' port allocate'') e)
           | None \<Rightarrow>
               (case find (\<lambda>p. p \<notin> set (sql_used db sid)) [MeshPortBase..MeshPortCeiling] of
                  None \<Rightarrow> Inl (no_free_port (sid @ '' (ports '' @ itoa MeshPortBase @ ''-'' @ itoa MeshPortCeiling @ '' are all allocated)''))
                | Some p \<Rightarrow> Inr p)))"


section \<open>The search\<close>

lemma next_free_Some:
  "next_free used port = Some q \<longleftrightarrow> port \<le> q \<and> \<not> used q \<and> (\<forall>r. port \<le> r \<and> r < q \<longrightarrow> used r) \<and> (q = port \<or> q \<le> hostPortCeiling)"
proof (induction used port rule: next_free.induct)
  case (1 used port)
  show ?case
  proof (cases "used port")
    case False
    then show ?thesis by (subst next_free.simps) (auto simp: not_le [symmetric])
  next
    case True
    show ?thesis
    proof (cases "port + 1 > hostPortCeiling")
      case True
      moreover have "\<not> used q \<Longrightarrow> port \<le> q \<Longrightarrow> q \<le> hostPortCeiling \<Longrightarrow> False"
        using True \<open>used port\<close> by (metis add1_zle_eq order_antisym not_le order_trans)
      ultimately show ?thesis using \<open>used port\<close> by (subst next_free.simps) auto
    next
      case False
      have split: "(\<forall>r. port \<le> r \<and> r < q \<longrightarrow> used r) \<longleftrightarrow> (\<forall>r. port + 1 \<le> r \<and> r < q \<longrightarrow> used r)"
        using True by (auto simp: add1_zle_eq) (metis order_le_imp_less_or_eq)
      have "next_free used port = next_free used (port + 1)"
        using True False by (subst next_free.simps) simp
      moreover have "port \<le> q \<and> \<not> used q \<longleftrightarrow> port + 1 \<le> q \<and> \<not> used q"
        using True by (metis add1_zle_eq order_le_less)
      moreover have "q \<noteq> port" if "\<not> used q" using True that by auto
      ultimately show ?thesis using 1 [of] True False split by auto
    qed
  qed
qed

lemma next_free_None: "next_free used port = None \<Longrightarrow> port \<le> r \<Longrightarrow> r = port \<or> r \<le> hostPortCeiling \<Longrightarrow> used r"
proof (induction used port rule: next_free.induct)
  case (1 used port)
  then show ?case
    by (cases "r = port") (auto simp: next_free.simps [of used port] split: if_splits)
qed

definition published :: "hostPortMapping list \<Rightarrow> int list" where
  "published ps = filter (\<lambda>h. h > 0) (map hp_Host ps)"

lemma published_simps [simp]:
  "published [] = []"
  "published (p # ps) = (if hp_Host p > 0 then hp_Host p # published ps else published ps)"
  by (simp_all add: published_def)

text \<open>
  The contract of the resolver, mapping by mapping: what is not published stays; a published
  mapping gets the least port at or above the requested one that neither the server nor an
  earlier mapping of the same spec holds, and remembers the request exactly when it moved.
\<close>

fun resolved_to :: "(int \<Rightarrow> bool) \<Rightarrow> hostPortMapping list \<Rightarrow> hostPortMapping list \<Rightarrow> bool" where
  "resolved_to used [] qs \<longleftrightarrow> qs = []"
| "resolved_to used (p # ps) qs \<longleftrightarrow>
     (case qs of
        [] \<Rightarrow> False
      | q # qs' \<Rightarrow>
          if hp_Host p \<le> 0 then q = p \<and> resolved_to used ps qs'
          else hp_Host p \<le> hp_Host q \<and> \<not> used (hp_Host q)
               \<and> (\<forall>r\<in>{hp_Host p..<hp_Host q}. used r)
               \<and> (hp_Host q = hp_Host p \<or> hp_Host q \<le> hostPortCeiling)
               \<and> q = (if hp_Host q = hp_Host p then p
                      else p\<lparr>hp_Host := hp_Host q, hp_RequestedHost := hp_Host p\<rparr>)
               \<and> resolved_to (used(hp_Host q := True)) ps qs')"

lemma resolve_ports_resolved: "resolve_ports sid ps used = Inr qs \<Longrightarrow> resolved_to used ps qs"
  by (induction sid ps used arbitrary: qs rule: resolve_ports.induct)
     (auto simp: Let_def next_free_Some split: if_splits option.splits sum.splits)

lemma resolved_to_free:
  assumes "resolved_to used ps qs"
  shows "distinct (published qs) \<and> (\<forall>h\<in>set (published qs). \<not> used h)"
  using assms
proof (induction ps arbitrary: used qs)
  case (Cons p ps)
  then obtain q qs' where qs: "qs = q # qs'" by (cases qs) auto
  show ?case
  proof (cases "hp_Host p \<le> 0")
    case True
    with Cons.prems qs Cons.IH [of used qs'] show ?thesis by simp
  next
    case False
    with Cons.prems qs have q: "\<not> used (hp_Host q)" "resolved_to (used(hp_Host q := True)) ps qs'"
      by (simp_all del: fun_upd_apply)
    from Cons.IH [OF q(2)] q(1) qs show ?thesis by (auto split: if_splits)
  qed
qed simp

text \<open>The resolver cannot fail while enough ports are free above every request.\<close>

definition free_above :: "(int \<Rightarrow> bool) \<Rightarrow> int \<Rightarrow> int set" where
  "free_above used req = {r \<in> {req..hostPortCeiling}. \<not> used r}"

lemma finite_free_above [simp]: "finite (free_above used req)"
  unfolding free_above_def by (rule finite_subset [of _ "{req..hostPortCeiling}"]) auto

lemma free_above_upd: "free_above (used(q := True)) req = free_above used req - {q}"
  by (auto simp: free_above_def)

lemma resolve_ports_succeeds:
  assumes "\<And>p. p \<in> set ps \<Longrightarrow> hp_Host p > 0 \<Longrightarrow> length ps \<le> card (free_above used (hp_Host p))"
  shows "\<exists>qs. resolve_ports sid ps used = Inr qs"
  using assms
proof (induction ps arbitrary: used)
  case (Cons p ps)
  have rest: "length ps \<le> card (free_above used (hp_Host r))" if "r \<in> set ps" "hp_Host r > 0" for r
    using Cons.prems [of r] that by simp
  show ?case
  proof (cases "hp_Host p \<le> 0")
    case True
    with Cons.IH [of used] rest show ?thesis by auto
  next
    case False
    then have "free_above used (hp_Host p) \<noteq> {}"
      using Cons.prems [of p] by auto
    then obtain r where "hp_Host p \<le> r" "r \<le> hostPortCeiling" "\<not> used r"
      by (auto simp: free_above_def)
    then obtain port where port: "next_free used (hp_Host p) = Some port"
      using next_free_None [of used "hp_Host p" r] by (cases "next_free used (hp_Host p)") auto
    have "length ps \<le> card (free_above (used(port := True)) (hp_Host r))" if "r \<in> set ps" "hp_Host r > 0" for r
      using Cons.prems [of r] that by (auto simp: free_above_upd card_Diff_singleton_if)
    then obtain qs where "resolve_ports sid ps (used(port := True)) = Inr qs"
      using Cons.IH [of "used(port := True)"] by blast
    with False port show ?thesis by (simp add: Let_def)
  qed
qed simp

section \<open>What the allocators read\<close>

text \<open>
  A readable array: every element decodes, and SQL finds the host of every element that publishes one. Those are the arrays the
  control plane's own clients write. An array with an element that does not decode, or with \<open>Host\<close> for \<open>host\<close>, is not
  readable; what such an app binds is not among \<open>bound_ports\<close>.
\<close>

definition readable :: "ports_json \<Rightarrow> bool" where
  "readable j \<longleftrightarrow> list_all (\<lambda>e. case pe_map e of None \<Rightarrow> False | Some p \<Rightarrow> hp_Host p > 0 \<longrightarrow> pe_sql e = Some (hp_Host p)) j"

definition published_json :: "ports_json option \<Rightarrow> int list" where
  "published_json j =
     (case j of
        None \<Rightarrow> []
      | Some es \<Rightarrow> if readable es then (case decode_ports es of None \<Rightarrow> [] | Some ps \<Rightarrow> published ps) else [])"

lemma those_map_Some: "those (map f xs) = Some ys \<longleftrightarrow> map f xs = map Some ys"
  by (induction xs arbitrary: ys) (auto split: option.splits simp: Cons_eq_map_conv)

lemma decode_encode [simp]: "decode_ports (map encode_port ps) = Some ps"
  by (simp add: decode_ports_def those_map_Some encode_port_def comp_def)

lemma readable_encode [simp]: "readable (map encode_port ps)"
  by (simp add: readable_def encode_port_def list_all_iff)

lemma published_sql:
  assumes "readable j" "decode_ports j = Some ps" "h \<in> set (published ps)"
  shows "h \<in> set (sql_hosts j)"
proof -
  obtain p where p: "p \<in> set ps" "h = hp_Host p" "hp_Host p > 0" using assms(3) by (auto simp: published_def)
  have "Some p \<in> set (map Some ps)" using p(1) by simp
  then obtain e where "e \<in> set j" "pe_map e = Some p"
    using assms(2) unfolding decode_ports_def those_map_Some by (metis (no_types) image_iff image_set)
  with assms(1) p show ?thesis by (force simp: readable_def list_all_iff sql_hosts_def map_filter_def)
qed

definition app_bound :: "port_db \<Rightarrow> string \<Rightarrow> int list" where
  "app_bound db sid = concat (map (published_json \<circ> app_ports) (filter (\<lambda>a. app_server a = sid) (app_resources db)))"

definition bound_ports :: "port_db \<Rightarrow> string \<Rightarrow> int list" where
  "bound_ports db sid = mesh_ports db sid @ app_bound db sid"

lemma published_json_None: "published_json None = []"
  by (simp only: published_json_def option.case)

lemma set_app_bound:
  "h \<in> set (app_bound db sid) \<longleftrightarrow>
     (\<exists>a\<in>set (app_resources db). app_server a = sid \<and> (\<exists>j. app_ports a = Some j \<and> h \<in> set (published_json (Some j))))"
proof -
  have some: "h \<in> set (published_json (app_ports a)) \<longleftrightarrow> (\<exists>j. app_ports a = Some j \<and> h \<in> set (published_json (Some j)))" for a
  proof (cases "app_ports a")
    case None
    then show ?thesis by (simp only: published_json_None list.set empty_iff option.distinct simp_thms)
  next
    case (Some j)
    then show ?thesis by (metis option.inject)
  qed
  show ?thesis unfolding some [symmetric] by (simp add: app_bound_def) blast
qed

lemma set_published_json:
  "h \<in> set (published_json (Some j)) \<longleftrightarrow> readable j \<and> (\<exists>ps. decode_ports j = Some ps \<and> h \<in> set (published ps))"
proof (cases "decode_ports j")
  case (Some ps)
  then show ?thesis unfolding published_json_def option.case by (cases "readable j") simp_all
qed (simp only: published_json_def option.case option.distinct if_cancel list.set empty_iff simp_thms)

lemma set_map_filter_app:
  "j \<in> set (List.map_filter app_ports (filter P as)) \<longleftrightarrow> (\<exists>a\<in>set as. P a \<and> app_ports a = Some j)"
  by (auto simp: map_filter_def) force




lemma sql_hosts_used:
  assumes "a \<in> set (app_resources db)" "app_server a = sid" "app_ports a = Some j" "h \<in> set (sql_hosts j)"
  shows "h \<in> set (sql_used db sid)"
proof -
  have "j \<in> set (List.map_filter app_ports (filter (\<lambda>a. app_server a = sid) (app_resources db)))"
    using assms(1,2,3) by (subst set_map_filter_app) blast
  with assms(4) show ?thesis by (simp add: sql_used_def) blast
qed

lemma bound_sub_sql_used:
  assumes "h \<in> set (bound_ports db sid)"
  shows "h \<in> set (sql_used db sid)"
proof (cases "h \<in> set (mesh_ports db sid)")
  case True
  then show ?thesis by (simp add: sql_used_def)
next
  case False
  with assms have "h \<in> set (app_bound db sid)" by (simp add: bound_ports_def)
  then obtain a j where a: "a \<in> set (app_resources db)" "app_server a = sid" "app_ports a = Some j"
    and h: "h \<in> set (published_json (Some j))" unfolding set_app_bound by blast
  from h have "h \<in> set (sql_hosts j)" unfolding set_published_json by (blast intro: published_sql)
  with a show ?thesis by (rule sql_hosts_used)
qed

lemma allocateMeshPort_free:
  assumes "allocateMeshPort db sid what = Inr p"
  shows "p \<notin> set (sql_used db sid) \<and> MeshPortBase \<le> p \<and> p \<le> MeshPortCeiling
    \<and> (\<forall>r. MeshPortBase \<le> r \<and> r < p \<longrightarrow> r \<in> set (sql_used db sid))"
proof -
  have "find (\<lambda>p. p \<notin> set (sql_used db sid)) [MeshPortBase..MeshPortCeiling] = Some p"
    using assms by (auto simp: allocateMeshPort_def split: option.splits)
  then obtain i where i: "i < length [MeshPortBase..MeshPortCeiling]" "p = [MeshPortBase..MeshPortCeiling] ! i" "p \<notin> set (sql_used db sid)"
    and below: "\<And>j. j < i \<Longrightarrow> [MeshPortBase..MeshPortCeiling] ! j \<in> set (sql_used db sid)"
    by (auto simp: find_Some_iff)
  have "r \<in> set (sql_used db sid)" if "MeshPortBase \<le> r" "r < p" for r
    using below [of "nat (r - MeshPortBase)"] i that by (simp add: nth_upto)
  with i show ?thesis by (simp add: nth_upto)
qed

section \<open>The ports of a fleet\<close>

text \<open>
  The stored spec at the granularity the code sees: its \<open>ports\<close> field and the rest, which the
  resolver copies.
\<close>

type_synonym 'r app_spec = "ports_json option \<times> 'r"

definition spec_envelope :: "('r app_spec, 'r app_spec, ports_json) envelope" where
  "spec_envelope = \<lparr>
     env_obj = Some,
     env_ports = fst,
     env_dec = decode_ports,
     env_enc = (\<lambda>ps. Inr (map encode_port ps)),
     env_put = (\<lambda>j s. Inr (Some j, snd s))\<rparr>"

definition insert_app :: "port_db \<Rightarrow> string \<Rightarrow> string \<Rightarrow> 'r app_spec \<Rightarrow> port_db res" where
  "insert_app db sid rid spec =
     (case resolveAppHostPortsTx spec_envelope db sid rid spec of
        Inl e \<Rightarrow> Inl e
      | Inr out \<Rightarrow>
          Inr (db\<lparr>app_resources := \<lparr>app_id = rid, app_server = sid, app_ports = fst out\<rparr> # app_resources db\<rparr>))"

datatype engine_table = DbTable | S3Table | LlmTable

definition insert_engine :: "engine_table \<Rightarrow> string \<Rightarrow> int \<Rightarrow> port_db \<Rightarrow> port_db" where
  "insert_engine t sid p db =
     (case t of
        DbTable \<Rightarrow> db\<lparr>db_credentials := (sid, p) # db_credentials db\<rparr>
      | S3Table \<Rightarrow> db\<lparr>s3_credentials := (sid, p) # s3_credentials db\<rparr>
      | LlmTable \<Rightarrow> db\<lparr>llm_endpoints := (sid, p) # llm_endpoints db\<rparr>)"






text \<open>
  An app whose array does not decode blocks the server: as long as it is there, no other app that publishes a port is
  placed (SIGMA-365).
\<close>

lemma scan_apps_blocked: "j \<in> set js \<Longrightarrow> decode_ports j = None \<Longrightarrow> \<exists>e. scan_apps sid js used = Inl e"
  by (induction sid js used rule: scan_apps.induct) (auto split: option.splits)

theorem opaque_neighbour_blocks:
  assumes "a \<in> set (app_resources db)" "app_server a = sid" "app_id a \<noteq> rid" "app_ports a = Some j" "decode_ports j = None"
    and "fst spec = Some j'" "decode_ports j' = Some ps" "list_ex (\<lambda>p. hp_Host p > 0) ps"
  shows "\<exists>e. insert_app db sid rid spec = Inl e"
proof -
  have "j \<in> set (List.map_filter app_ports (filter (\<lambda>a. app_server a = sid \<and> app_id a \<noteq> rid) (app_resources db)))"
    using assms(1-4) by (subst set_map_filter_app) blast
  then have "\<exists>e. boundHostPortsTx db sid rid = Inl e"
    using scan_apps_blocked [OF _ assms(5)] by (auto simp: boundHostPortsTx_def Let_def split: option.splits)
  then show ?thesis
    using assms(6-8) by (auto simp: insert_app_def resolveAppHostPortsTx_def spec_envelope_def split: option.splits)
qed







lemma app_bound_insert_engine [simp]: "app_bound (insert_engine t sid p db) sid' = app_bound db sid'"
  by (cases t) (simp_all add: insert_engine_def app_bound_def)



section \<open>Properties\<close>

definition placed :: "(int \<Rightarrow> bool) \<Rightarrow> hostPortMapping \<Rightarrow> hostPortMapping \<Rightarrow> bool" where
  "placed used p q \<longleftrightarrow>
     (if hp_Host p \<le> 0 then q = p
      else q = (if hp_Host q = hp_Host p then p else p\<lparr>hp_Host := hp_Host q, hp_RequestedHost := hp_Host p\<rparr>)
        \<and> hp_Host p \<le> hp_Host q \<and> (hp_Host q = hp_Host p \<or> hp_Host q \<le> hostPortCeiling)
        \<and> (\<forall>r\<in>{hp_Host p..<hp_Host q}. used r))"

lemma resolved_to_ConsD:
  assumes "resolved_to used (p # ps) qs"
  shows "\<exists>q qs'. qs = q # qs' \<and> placed used p q
    \<and> resolved_to (\<lambda>h. used h \<or> h \<in> set (published [q])) ps qs'"
proof -
  obtain q qs' where qs: "qs = q # qs'" using assms by (cases qs) auto
  show ?thesis
  proof (cases "hp_Host p \<le> 0")
    case True
    then show ?thesis using assms qs by (simp add: placed_def)
  next
    case False
    then have body: "hp_Host p \<le> hp_Host q \<and> \<not> used (hp_Host q) \<and> (\<forall>r\<in>{hp_Host p..<hp_Host q}. used r)
        \<and> (hp_Host q = hp_Host p \<or> hp_Host q \<le> hostPortCeiling)
        \<and> q = (if hp_Host q = hp_Host p then p else p\<lparr>hp_Host := hp_Host q, hp_RequestedHost := hp_Host p\<rparr>)
        \<and> resolved_to (used(hp_Host q := True)) ps qs'"
      using assms unfolding qs resolved_to.simps list.case if_not_P [OF False] by blast
    have "used(hp_Host q := True) = (\<lambda>h. used h \<or> h \<in> set (published [q]))"
      using body False by (auto simp: fun_eq_iff)
    then have "resolved_to (\<lambda>h. used h \<or> h \<in> set (published [q])) ps qs'"
      using body by (metis (no_types))
    moreover have "placed used p q"
      using body False unfolding placed_def by presburger
    ultimately show ?thesis using qs by blast
  qed
qed

lemma resolved_to_length: "resolved_to used ps qs \<Longrightarrow> length qs = length ps"
  proof (induction ps arbitrary: used qs)
  case (Cons p ps)
  from resolved_to_ConsD [OF Cons.prems] Cons.IH show ?case by auto
qed simp

lemma set_published_Cons: "set (published (q # qs)) = set (published [q]) \<union> set (published qs)"
  by simp

lemma resolved_to_nth:
  "resolved_to used ps qs \<Longrightarrow> i < length ps \<Longrightarrow>
     placed (\<lambda>h. used h \<or> h \<in> set (published (take i qs))) (ps ! i) (qs ! i)"
proof (induction ps arbitrary: used qs i)
  case (Cons p ps)
  from resolved_to_ConsD [OF Cons.prems(1)] obtain q qs' where qs: "qs = q # qs'" and "placed used p q"
    and rest: "resolved_to (\<lambda>h. used h \<or> h \<in> set (published [q])) ps qs'" by blast
  show ?case
  proof (cases i)
    case 0
    with qs \<open>placed used p q\<close> show ?thesis by simp
  next
    case (Suc j)
    then have "j < length ps" using Cons.prems(2) by simp
    from Cons.IH [OF rest this] show ?thesis
      unfolding Suc qs nth_Cons_Suc take_Suc_Cons set_published_Cons [of q "take j qs'"] Un_iff disj_assoc .
  qed
qed simp

text \<open>
  Host-port resolution. Every mapping that publishes no port is left as it is; a mapping
  that publishes one gets the least port at or above its request that neither the server nor an
  earlier mapping of the same spec holds, and records the request exactly when it was moved; the
  published ports are pairwise different and none was in use; a moved port never exceeds 65535.
  The resolver succeeds whenever above each requested port at least as many ports are free as
  the spec has mappings.
\<close>
theorem host_ports_resolved:
  "(resolve_ports sid ps used = Inr qs \<longrightarrow>
      length qs = length ps \<and> distinct (published qs) \<and> (\<forall>h\<in>set (published qs). \<not> used h)
      \<and> (\<forall>i<length ps.
           let p = ps ! i; q = qs ! i
           in if hp_Host p \<le> 0 then q = p
              else q = (if hp_Host q = hp_Host p then p else p\<lparr>hp_Host := hp_Host q, hp_RequestedHost := hp_Host p\<rparr>)
                \<and> hp_Host p \<le> hp_Host q \<and> (hp_Host q = hp_Host p \<or> hp_Host q \<le> hostPortCeiling)
                \<and> (\<forall>r\<in>{hp_Host p..<hp_Host q}. used r \<or> r \<in> set (published (take i qs)))))
   \<and> ((\<forall>p\<in>set ps. hp_Host p > 0 \<longrightarrow> length ps \<le> card (free_above used (hp_Host p)))
      \<longrightarrow> (\<exists>qs'. resolve_ports sid ps used = Inr qs'))"
proof (intro conjI impI)
  assume "resolve_ports sid ps used = Inr qs"
  then have res: "resolved_to used ps qs" by (rule resolve_ports_resolved)
  show "length qs = length ps" by (rule resolved_to_length [OF res])
  show "distinct (published qs)" "\<forall>h\<in>set (published qs). \<not> used h"
    using resolved_to_free [OF res] by blast+
  show "\<forall>i<length ps.
           let p = ps ! i; q = qs ! i
           in if hp_Host p \<le> 0 then q = p
              else q = (if hp_Host q = hp_Host p then p else p\<lparr>hp_Host := hp_Host q, hp_RequestedHost := hp_Host p\<rparr>)
                \<and> hp_Host p \<le> hp_Host q \<and> (hp_Host q = hp_Host p \<or> hp_Host q \<le> hostPortCeiling)
                \<and> (\<forall>r\<in>{hp_Host p..<hp_Host q}. used r \<or> r \<in> set (published (take i qs)))"
    using resolved_to_nth [OF res] unfolding placed_def Let_def by blast
next
  assume "\<forall>p\<in>set ps. hp_Host p > 0 \<longrightarrow> length ps \<le> card (free_above used (hp_Host p))"
  then show "\<exists>qs'. resolve_ports sid ps used = Inr qs'" by (intro resolve_ports_succeeds) blast
qed

definition demo_ports :: "hostPortMapping list" where
  "demo_ports =
     [\<lparr>hp_Container = 5432, hp_Host = 5432, hp_Protocol = ''tcp'', hp_RequestedHost = 0\<rparr>,
      \<lparr>hp_Container = 80, hp_Host = 0, hp_Protocol = ''tcp'', hp_RequestedHost = 0\<rparr>,
      \<lparr>hp_Container = 5433, hp_Host = 5433, hp_Protocol = ''tcp'', hp_RequestedHost = 0\<rparr>]"

definition demo_moved :: "hostPortMapping list" where
  "demo_moved =
     [\<lparr>hp_Container = 5432, hp_Host = 5433, hp_Protocol = ''tcp'', hp_RequestedHost = 5432\<rparr>,
      \<lparr>hp_Container = 80, hp_Host = 0, hp_Protocol = ''tcp'', hp_RequestedHost = 0\<rparr>,
      \<lparr>hp_Container = 5433, hp_Host = 5434, hp_Protocol = ''tcp'', hp_RequestedHost = 5433\<rparr>]"

lemma demo_resolve: "resolve_ports ''srv'' demo_ports (\<lambda>h. h = 5432) = Inr demo_moved"
  by (simp add: demo_ports_def demo_moved_def next_free.simps hostPortCeiling_def)

theorem host_ports_resolved_witness:
  "resolve_ports ''srv'' demo_ports (\<lambda>h. h = 5432) = Inr demo_moved
   \<and> distinct (published demo_moved) \<and> 5432 \<notin> set (published demo_moved)"
  using host_ports_resolved [of "''srv''" demo_ports "\<lambda>h. h = 5432" demo_moved] demo_resolve by blast

lemma find_upto: "a \<le> b \<Longrightarrow> find P [a..b] = (if P a then Some a else find P [a + 1..b])"
  by (simp add: upto.simps [of a b])

text \<open>
  The mesh allocator. The port it returns is the lowest one of the range 15000 to 65535 that no
  database, object store, inference endpoint or app with a readable array holds on the server; it returns one whenever
  the statements succeed and such a port exists.
\<close>
theorem mesh_port_lowest_free:
  "(allocateMeshPort db sid what = Inr p \<longrightarrow>
      p \<in> {MeshPortBase..MeshPortCeiling} \<and> p \<notin> set (bound_ports db sid)
      \<and> (\<forall>r\<in>{MeshPortBase..<p}. r \<in> set (sql_used db sid)))
   \<and> (db_fail db = (\<lambda>_. None) \<and> (\<exists>r\<in>{MeshPortBase..MeshPortCeiling}. r \<notin> set (sql_used db sid))
      \<longrightarrow> (\<exists>p'. allocateMeshPort db sid what = Inr p'))"
proof (intro conjI impI)
  assume "allocateMeshPort db sid what = Inr p"
  from allocateMeshPort_free [OF this]
  show "p \<in> {MeshPortBase..MeshPortCeiling}" "p \<notin> set (bound_ports db sid)"
    "\<forall>r\<in>{MeshPortBase..<p}. r \<in> set (sql_used db sid)"
    using bound_sub_sql_used [of p db sid] by auto
next
  assume "db_fail db = (\<lambda>_. None) \<and> (\<exists>r\<in>{MeshPortBase..MeshPortCeiling}. r \<notin> set (sql_used db sid))"
  then show "\<exists>p'. allocateMeshPort db sid what = Inr p'"
    by (auto simp: allocateMeshPort_def find_None_iff split: option.splits)
qed

definition empty_ports :: port_db where
  "empty_ports = \<lparr>db_credentials = [], s3_credentials = [], llm_endpoints = [], app_resources = [], db_fail = (\<lambda>_. None)\<rparr>"

definition demo_app :: "string app_spec" where
  "demo_app = (Some [encode_port \<lparr>hp_Container = 80, hp_Host = 15000, hp_Protocol = '''', hp_RequestedHost = 0\<rparr>], '''')"

definition demo_fleet :: port_db where
  "demo_fleet = empty_ports\<lparr>app_resources := [\<lparr>app_id = ''res1'', app_server = ''srv'', app_ports = fst demo_app\<rparr>]\<rparr>"


lemma demo_allocate: "allocateMeshPort demo_fleet ''srv'' ''db'' = Inr 15001"
  by (simp add: allocateMeshPort_def demo_fleet_def empty_ports_def demo_app_def sql_used_def mesh_ports_def sql_hosts_def
    map_filter_simps encode_port_def MeshPortBase_def MeshPortCeiling_def find_upto del: upto_rec_numeral)

theorem mesh_port_lowest_free_witness:
  "allocateMeshPort demo_fleet ''srv'' ''db'' = Inr 15001 \<and> 15001 \<notin> set (bound_ports demo_fleet ''srv'')"
  using mesh_port_lowest_free [of demo_fleet "''srv''" "''db''" 15001] demo_allocate by simp




end
