(* ===== verification/Sql.thy ===== *)
theory Sql
  imports Prelude
begin

text \<open>
  The database as the control plane's store uses it. A statement or transaction takes effect and is
  acknowledged, fails before it takes effect, or takes effect with the acknowledgement lost. A transaction body
  is a function from the state to a value and a new state, or an error; on an error the state is rolled
  back. The errors of the store package are named here too.
\<close>

datatype db_verdict = Applied | Lost goerr | Unacked goerr

definition statement :: "db_verdict \<Rightarrow> ('s \<Rightarrow> 's) \<Rightarrow> 's \<Rightarrow> goerr option \<times> 's" where
  "statement v f t =
     (case v of
        Applied \<Rightarrow> (None, f t)
      | Lost e \<Rightarrow> (Some e, t)
      | Unacked e \<Rightarrow> (Some e, f t))"

definition in_tx :: "db_verdict \<Rightarrow> ('s \<Rightarrow> ('a \<times> 's) res) \<Rightarrow> 's \<Rightarrow> 'a res \<times> 's" where
  "in_tx v body s =
     (case body s of
        Inl e \<Rightarrow> (Inl e, s)
      | Inr (x, s') \<Rightarrow>
          (case v of
             Applied \<Rightarrow> (Inr x, s')
           | Lost e \<Rightarrow> (Inl e, s)
           | Unacked e \<Rightarrow> (Inl e, s')))"

definition ErrNotFound :: goerr where
  "ErrNotFound = ErrString ''not found''"

definition ErrConflict :: goerr where
  "ErrConflict = ErrString ''conflict''"

definition ErrInvalid :: "string \<Rightarrow> goerr" where
  "ErrInvalid msg = ErrString msg"

definition ErrNoRows :: goerr where
  "ErrNoRows = ErrString ''no rows in result set''"

text \<open>After a transaction the state is the old one or the one its body computed.\<close>

lemma in_tx_cases:
  assumes "in_tx v body s = (r, s')"
  obtains "s' = s" | x where "body s = Inr (x, s')"
  using assms by (auto simp: in_tx_def split: sum.splits db_verdict.splits)

lemma in_tx_ok: "in_tx v body s = (Inr x, s') \<Longrightarrow> body s = Inr (x, s')"
  by (auto simp: in_tx_def split: sum.splits db_verdict.splits)

end
