(* ===== verification/Idempotency.thy ===== *)
theory Idempotency
  imports Sql
begin

text \<open>
  Idempotency keys of the control plane's mutating requests (cp/internal/api/idempotency.go and
  cp/internal/store/idempotency.go). The table is a map from (organisation, key); a statement runs, is lost
  before it runs, or runs with its acknowledgement lost. One request is the definition
  \<open>idempotent\<close>; concurrent requests interleave statement by statement in \<open>idem_step\<close>. The hash and
  the database's normal form of a JSON text are parameters. Rows expire by retention after a day
  or more, which is not part of this model.
\<close>

section \<open>The table\<close>

record IdempotentResponse =
  RequestHash :: string
  StatusCode :: int
  Response :: string
  Done :: bool

record idem_row =
  row_hash :: string
  row_status :: "int option"
  row_response :: "string option"

type_synonym idem_table = "string \<times> string \<Rightarrow> idem_row option"

definition zero_response :: IdempotentResponse where
  "zero_response = \<lparr>RequestHash = '''', StatusCode = 0, Response = '''', Done = False\<rparr>"

definition IdempotencyLookup :: "goerr option \<Rightarrow> idem_table \<Rightarrow> string \<Rightarrow> string \<Rightarrow> IdempotentResponse res" where
  "IdempotencyLookup fault t orgID k =
     (case fault of
        Some e \<Rightarrow> Inl e
      | None \<Rightarrow>
          (case t (orgID, k) of
             None \<Rightarrow> Inl ErrNotFound
           | Some row \<Rightarrow>
               let r = zero_response\<lparr>RequestHash := row_hash row,
                         Response := (case row_response row of None \<Rightarrow> '''' | Some b \<Rightarrow> b)\<rparr>
               in Inr (case row_status row of
                         None \<Rightarrow> r
                       | Some st \<Rightarrow> r\<lparr>StatusCode := st, Done := True\<rparr>)))"

text \<open>\<open>INSERT ... ON CONFLICT DO NOTHING\<close> and the count of its rows.\<close>

definition claim_insert :: "db_verdict \<Rightarrow> idem_table \<Rightarrow> string \<Rightarrow> string \<Rightarrow> string \<Rightarrow> bool res \<times> idem_table" where
  "claim_insert v t orgID k reqHash =
     (let new = (t (orgID, k) = None);
          (e, t') = statement v (\<lambda>t. if new then t((orgID, k) \<mapsto> \<lparr>row_hash = reqHash, row_status = None, row_response = None\<rparr>) else t) t
      in (case e of Some err \<Rightarrow> Inl err | None \<Rightarrow> Inr new, t'))"

definition IdempotencyClaim ::
  "db_verdict \<Rightarrow> goerr option \<Rightarrow> idem_table \<Rightarrow> string \<Rightarrow> string \<Rightarrow> string \<Rightarrow> (bool \<times> IdempotentResponse) res \<times> idem_table" where
  "IdempotencyClaim v fault t orgID k reqHash =
     (case claim_insert v t orgID k reqHash of
        (Inl e, t') \<Rightarrow> (Inl e, t')
      | (Inr True, t') \<Rightarrow> (Inr (True, zero_response), t')
      | (Inr False, t') \<Rightarrow>
          (case IdempotencyLookup fault t' orgID k of
             Inl e \<Rightarrow> (Inl e, t')
           | Inr existing \<Rightarrow> (Inr (False, existing), t')))"

text \<open>
  The column is JSONB: an untouched buffer is stored as NULL, a text that is no JSON makes the
  statement fail, any other text is stored in the database's normal form.
\<close>

definition stored_body :: "(string \<Rightarrow> string option) \<Rightarrow> string \<Rightarrow> string option option" where
  "stored_body jsonb body = (if body = '''' then Some None else map_option Some (jsonb body))"

definition IdempotencyFinalize ::
  "(string \<Rightarrow> string option) \<Rightarrow> db_verdict \<Rightarrow> idem_table \<Rightarrow> string \<Rightarrow> string \<Rightarrow> int \<Rightarrow> string \<Rightarrow> goerr option \<times> idem_table" where
  "IdempotencyFinalize jsonb v t orgID k statusCode response =
     (case stored_body jsonb response of
        None \<Rightarrow> (Some (ErrString ''invalid input syntax for type json''), t)
      | Some b \<Rightarrow>
          statement v (\<lambda>t. t((orgID, k) := map_option (\<lambda>row. row\<lparr>row_status := Some statusCode, row_response := b\<rparr>) (t (orgID, k)))) t)"

definition IdempotencyRelease :: "db_verdict \<Rightarrow> idem_table \<Rightarrow> string \<Rightarrow> string \<Rightarrow> goerr option \<times> idem_table" where
  "IdempotencyRelease v t orgID k =
     statement v (\<lambda>t. case t (orgID, k) of
                        None \<Rightarrow> t
                      | Some row \<Rightarrow> if row_response row = None then t((orgID, k) := None) else t) t"

section \<open>The recorder\<close>

text \<open>What a handler does with its response writer.\<close>

datatype wr = WriteHeader int | Write string

record responseRecorder =
  rec_status :: int
  rec_buf :: string

definition rec_start :: responseRecorder where
  "rec_start = \<lparr>rec_status = 200, rec_buf = ''''\<rparr>"

fun rec_write :: "wr \<Rightarrow> responseRecorder \<Rightarrow> responseRecorder" where
  "rec_write (WriteHeader code) r = r\<lparr>rec_status := code\<rparr>"
| "rec_write (Write b) r = r\<lparr>rec_buf := rec_buf r @ b\<rparr>"

definition recorded :: "wr list \<Rightarrow> responseRecorder" where
  "recorded ws = fold rec_write ws rec_start"

section \<open>One request\<close>

record request =
  rq_method :: string
  rq_path :: string
  rq_org :: string
  rq_key :: string
  rq_body :: "string option" \<comment> \<open>None: unreadable or over the limit\<close>

datatype handler_run = Ran "wr list" | Panicked "wr list"

text \<open>What the client gets: the handler's own writes, a reply of the wrapper, or a broken connection.\<close>

datatype reply = Passed "wr list" | Reply int "(string \<times> string) list" string | Broken "wr list"

definition json_error :: "string \<Rightarrow> string" where
  "json_error msg = ''{'' @ [CHR 0x22] @ ''error'' @ [CHR 0x22] @ '':'' @ [CHR 0x22] @ msg @ [CHR 0x22] @ ''}'' @ [CHR 0x0A]"

definition writeJSON :: "int \<Rightarrow> (string \<times> string) list \<Rightarrow> string \<Rightarrow> reply" where
  "writeJSON st hs msg = Reply st (hs @ [(''Content-Type'', ''application/json'')]) (json_error msg)"

definition reused :: reply where
  "reused = writeJSON 409 [] ''Idempotency-Key was already used with a different request''"

definition replayStored :: "IdempotentResponse \<Rightarrow> string \<Rightarrow> reply" where
  "replayStored stored reqHash =
     (if RequestHash stored \<noteq> reqHash then reused
      else Reply (StatusCode stored) [(''Content-Type'', ''application/json''), (''Idempotency-Replayed'', ''true'')]
             (Response stored))"

definition answer_existing :: "IdempotentResponse \<Rightarrow> string \<Rightarrow> reply" where
  "answer_existing existing reqHash =
     (if RequestHash existing \<noteq> reqHash then reused
      else if Done existing then replayStored existing reqHash
      else writeJSON 409 [(''Retry-After'', ''1'')]
             ''a request with this Idempotency-Key is already in progress; retry shortly'')"

definition request_hash :: "(string \<Rightarrow> string) \<Rightarrow> request \<Rightarrow> string \<Rightarrow> string" where
  "request_hash sha256 rq body = sha256 (rq_method rq @ '' '' @ rq_path rq @ [CHR 0x0A] @ body)"

definition keyed_request :: "request \<Rightarrow> bool" where
  "keyed_request rq \<longleftrightarrow> \<not> (rq_key rq = '''' \<or> length (rq_key rq) > 200)"

definition pass_through :: "handler_run \<Rightarrow> reply" where
  "pass_through run = (case run of Ran ws \<Rightarrow> Passed ws | Panicked ws \<Rightarrow> Broken ws)"

text \<open>What the environment decides in one request: the fate of each statement and the handler's run.\<close>

record choice =
  ch_claim :: db_verdict
  ch_lookup :: "goerr option"
  ch_run :: handler_run
  ch_finalize :: db_verdict
  ch_release :: db_verdict

definition idempotent ::
  "(string \<Rightarrow> string option) \<Rightarrow> (string \<Rightarrow> string) \<Rightarrow> choice \<Rightarrow> request \<Rightarrow> idem_table \<Rightarrow> reply \<times> idem_table" where
  "idempotent jsonb sha256 ch rq t =
     (if \<not> keyed_request rq then (pass_through (ch_run ch), t)
      else case rq_body rq of
        None \<Rightarrow> (writeJSON 400 [] ''unreadable body'', t)
      | Some body \<Rightarrow>
          let reqHash = request_hash sha256 rq body
          in case IdempotencyClaim (ch_claim ch) (ch_lookup ch) t (rq_org rq) (rq_key rq) reqHash of
               (Inl e, t1) \<Rightarrow> (writeJSON 500 [] ''internal error'', t1)
             | (Inr (False, existing), t1) \<Rightarrow> (answer_existing existing reqHash, t1)
             | (Inr (True, existing), t1) \<Rightarrow>
                 let release = (\<lambda>t. snd (IdempotencyRelease (ch_release ch) t (rq_org rq) (rq_key rq)))
                 in case ch_run ch of
                      Panicked ws \<Rightarrow> (Broken ws, release t1)
                    | Ran ws \<Rightarrow>
                        let r = recorded ws
                        in if rec_status r < 500
                           then (case IdempotencyFinalize jsonb (ch_finalize ch) t1 (rq_org rq) (rq_key rq) (rec_status r) (rec_buf r) of
                                   (Some e, t2) \<Rightarrow> (Passed ws, release t2)
                                 | (None, t2) \<Rightarrow> (Passed ws, t2))
                           else (Passed ws, release t1))"

section \<open>Interleaved requests\<close>

text \<open>
  Where a request stands: before the claim, after a lost claim, in the handler, about to persist,
  about to release (with the reply already decided), finished.
\<close>

datatype phase = Begin | Looking | Execute | Persist "wr list" | Release reply | Finished reply

definition req_hash :: "(string \<Rightarrow> string) \<Rightarrow> request \<Rightarrow> string" where
  "req_hash sha256 rq = request_hash sha256 rq (case rq_body rq of None \<Rightarrow> '''' | Some b \<Rightarrow> b)"

fun thread_step ::
  "(string \<Rightarrow> string option) \<Rightarrow> (string \<Rightarrow> string) \<Rightarrow> choice \<Rightarrow> request \<Rightarrow> phase \<Rightarrow> idem_table \<Rightarrow> phase \<times> idem_table" where
  "thread_step jsonb sha256 ch rq Begin t =
     (if \<not> keyed_request rq then (Finished (pass_through (ch_run ch)), t)
      else if rq_body rq = None then (Finished (writeJSON 400 [] ''unreadable body''), t)
      else case claim_insert (ch_claim ch) t (rq_org rq) (rq_key rq) (req_hash sha256 rq) of
             (Inl e, t1) \<Rightarrow> (Finished (writeJSON 500 [] ''internal error''), t1)
           | (Inr won, t1) \<Rightarrow> (if won then Execute else Looking, t1))"
| "thread_step jsonb sha256 ch rq Looking t =
     (Finished (case IdempotencyLookup (ch_lookup ch) t (rq_org rq) (rq_key rq) of
                  Inl e \<Rightarrow> writeJSON 500 [] ''internal error''
                | Inr existing \<Rightarrow> answer_existing existing (req_hash sha256 rq)), t)"
| "thread_step jsonb sha256 ch rq Execute t =
     (case ch_run ch of
        Panicked ws \<Rightarrow> Release (Broken ws)
      | Ran ws \<Rightarrow> if rec_status (recorded ws) < 500 then Persist ws else Release (Passed ws), t)"
| "thread_step jsonb sha256 ch rq (Persist ws) t =
     (case IdempotencyFinalize jsonb (ch_finalize ch) t (rq_org rq) (rq_key rq) (rec_status (recorded ws)) (rec_buf (recorded ws)) of
        (Some e, t1) \<Rightarrow> (Release (Passed ws), t1)
      | (None, t1) \<Rightarrow> (Finished (Passed ws), t1))"
| "thread_step jsonb sha256 ch rq (Release r) t =
     (Finished r, snd (IdempotencyRelease (ch_release ch) t (rq_org rq) (rq_key rq)))"
| "thread_step jsonb sha256 ch rq (Finished r) t = (Finished r, t)"

text \<open>The requests in flight, and a log of what became of each run of a handler.\<close>

datatype fate = Succeeded request "wr list" | Kept request "wr list" | Unkept request "wr list"

record idem_sys =
  sy_table :: idem_table
  sy_threads :: "nat \<Rightarrow> (request \<times> phase) option"
  sy_log :: "fate list"

definition note_fate :: "request \<Rightarrow> phase \<Rightarrow> phase \<Rightarrow> fate list" where
  "note_fate rq ph ph' =
     (case (ph, ph') of
        (Execute, Persist ws) \<Rightarrow> [Succeeded rq ws]
      | (Persist ws, Finished _) \<Rightarrow> [Kept rq ws]
      | (Persist ws, Release _) \<Rightarrow> [Unkept rq ws]
      | _ \<Rightarrow> [])"

definition run_thread :: "(string \<Rightarrow> string option) \<Rightarrow> (string \<Rightarrow> string) \<Rightarrow> choice \<Rightarrow> nat \<Rightarrow> request \<Rightarrow> phase \<Rightarrow> idem_sys \<Rightarrow> idem_sys" where
  "run_thread jsonb sha256 ch n rq ph s =
     (let (ph', t') = thread_step jsonb sha256 ch rq ph (sy_table s)
      in \<lparr>sy_table = t', sy_threads = (sy_threads s)(n \<mapsto> (rq, ph')), sy_log = note_fate rq ph ph' @ sy_log s\<rparr>)"

inductive idem_step :: "(string \<Rightarrow> string option) \<Rightarrow> (string \<Rightarrow> string) \<Rightarrow> idem_sys \<Rightarrow> idem_sys \<Rightarrow> bool"
  for jsonb sha256 where
  arrive: "sy_threads s n = None \<Longrightarrow> idem_step jsonb sha256 s (s\<lparr>sy_threads := (sy_threads s)(n \<mapsto> (rq, Begin))\<rparr>)"
| run: "sy_threads s n = Some (rq, ph) \<Longrightarrow> idem_step jsonb sha256 s (run_thread jsonb sha256 ch n rq ph s)"
| crash: "idem_step jsonb sha256 s (s\<lparr>sy_threads := Map.empty\<rparr>)"

definition idem_init :: idem_sys where
  "idem_init = \<lparr>sy_table = (\<lambda>_. None), sy_threads = (\<lambda>_. None), sy_log = []\<rparr>"

definition reachable :: "(string \<Rightarrow> string option) \<Rightarrow> (string \<Rightarrow> string) \<Rightarrow> idem_sys \<Rightarrow> bool" where
  "reachable jsonb sha256 s \<longleftrightarrow> (idem_step jsonb sha256)\<^sup>*\<^sup>* idem_init s"

text \<open>A request run without interruption takes the steps of its thread.\<close>

lemma idempotent_steps:
  "\<exists>k. ((\<lambda>(ph, t). thread_step jsonb sha256 ch rq ph t) ^^ k) (Begin, t)
     = (Finished (fst (idempotent jsonb sha256 ch rq t)), snd (idempotent jsonb sha256 ch rq t))"
proof -
  let ?f = "\<lambda>(ph, t). thread_step jsonb sha256 ch rq ph t"
  have "(?f ^^ 4) (Begin, t) = (Finished (fst (idempotent jsonb sha256 ch rq t)), snd (idempotent jsonb sha256 ch rq t))"
    by (auto simp: numeral_eq_Suc idempotent_def IdempotencyClaim_def req_hash_def Let_def
        split: option.splits sum.splits bool.splits prod.splits handler_run.splits)
  then show ?thesis by blast
qed

section \<open>The invariant\<close>

definition req_key :: "request \<Rightarrow> string \<times> string" where
  "req_key rq = (rq_org rq, rq_key rq)"

fun owning :: "phase \<Rightarrow> bool" where
  "owning Execute = True"
| "owning (Persist ws) = True"
| "owning (Release r) = True"
| "owning _ = False"

definition owner :: "idem_sys \<Rightarrow> string \<times> string \<Rightarrow> nat \<Rightarrow> bool" where
  "owner s k n \<longleftrightarrow> (\<exists>rq ph. sy_threads s n = Some (rq, ph) \<and> owning ph \<and> req_key rq = k)"

definition pending_row :: "string \<Rightarrow> idem_row" where
  "pending_row h = \<lparr>row_hash = h, row_status = None, row_response = None\<rparr>"

definition successes :: "idem_sys \<Rightarrow> string \<times> string \<Rightarrow> nat" where
  "successes s k = length (filter (\<lambda>f. case f of Succeeded rq ws \<Rightarrow> req_key rq = k | _ \<Rightarrow> False) (sy_log s))"

definition unkept :: "idem_sys \<Rightarrow> string \<times> string \<Rightarrow> nat" where
  "unkept s k = length (filter (\<lambda>f. case f of Unkept rq ws \<Rightarrow> req_key rq = k | _ \<Rightarrow> False) (sy_log s))"

definition kept :: "idem_sys \<Rightarrow> string \<times> string \<Rightarrow> nat" where
  "kept s k = length (filter (\<lambda>f. case f of Kept rq ws \<Rightarrow> req_key rq = k | _ \<Rightarrow> False) (sy_log s))"

fun phase_row :: "string \<Rightarrow> phase \<Rightarrow> idem_row option \<Rightarrow> nat \<Rightarrow> nat \<Rightarrow> bool" where
  "phase_row h Execute row ok lost \<longleftrightarrow> row = Some (pending_row h) \<and> ok = lost"
| "phase_row h (Persist ws) row ok lost \<longleftrightarrow> row = Some (pending_row h) \<and> ok = Suc lost"
| "phase_row h (Release r) row ok lost \<longleftrightarrow> (\<exists>x. row = Some x \<and> row_hash x = h) \<and> ok = lost"
| "phase_row h ph row ok lost \<longleftrightarrow> True"

definition kept_row :: "(string \<Rightarrow> string option) \<Rightarrow> (string \<Rightarrow> string) \<Rightarrow> request \<Rightarrow> wr list \<Rightarrow> idem_row option \<Rightarrow> bool" where
  "kept_row jsonb sha256 rq ws row \<longleftrightarrow>
     (\<exists>b. stored_body jsonb (rec_buf (recorded ws)) = Some b \<and>
        row = Some \<lparr>row_hash = req_hash sha256 rq, row_status = Some (rec_status (recorded ws)), row_response = b\<rparr>)"

definition key_inv :: "(string \<Rightarrow> string option) \<Rightarrow> (string \<Rightarrow> string) \<Rightarrow> idem_sys \<Rightarrow> string \<times> string \<Rightarrow> bool" where
  "key_inv jsonb sha256 s k \<longleftrightarrow>
     (\<forall>n m. owner s k n \<and> owner s k m \<longrightarrow> n = m) \<and>
     (\<forall>n rq ph. sy_threads s n = Some (rq, ph) \<and> req_key rq = k \<longrightarrow>
        phase_row (req_hash sha256 rq) ph (sy_table s k) (successes s k) (unkept s k)) \<and>
     (sy_table s k = None \<longrightarrow> successes s k = unkept s k) \<and>
     successes s k \<le> Suc (unkept s k) \<and>
     kept s k \<le> 1 \<and>
     (\<forall>rq ws. Kept rq ws \<in> set (sy_log s) \<and> req_key rq = k \<longrightarrow>
        kept_row jsonb sha256 rq ws (sy_table s k) \<and> (\<nexists>n. owner s k n))"


lemma owner_update [simp]:
  "owner \<lparr>sy_table = t, sy_threads = (sy_threads s)(n \<mapsto> (rq, ph)), sy_log = l\<rparr> k m \<longleftrightarrow>
     (if m = n then owning ph \<and> req_key rq = k else owner s k m)"
  by (auto simp: owner_def)

lemma count_update [simp]:
  "successes \<lparr>sy_table = t, sy_threads = th, sy_log = fs @ l\<rparr> k =
     length (filter (\<lambda>f. case f of Succeeded rq ws \<Rightarrow> req_key rq = k | _ \<Rightarrow> False) fs)
     + successes \<lparr>sy_table = t, sy_threads = th, sy_log = l\<rparr> k"
  "unkept \<lparr>sy_table = t, sy_threads = th, sy_log = fs @ l\<rparr> k =
     length (filter (\<lambda>f. case f of Unkept rq ws \<Rightarrow> req_key rq = k | _ \<Rightarrow> False) fs)
     + unkept \<lparr>sy_table = t, sy_threads = th, sy_log = l\<rparr> k"
  "kept \<lparr>sy_table = t, sy_threads = th, sy_log = fs @ l\<rparr> k =
     length (filter (\<lambda>f. case f of Kept rq ws \<Rightarrow> req_key rq = k | _ \<Rightarrow> False) fs)
     + kept \<lparr>sy_table = t, sy_threads = th, sy_log = l\<rparr> k"
  by (simp_all add: successes_def unkept_def kept_def)

lemma count_log [simp]:
  "successes \<lparr>sy_table = t, sy_threads = th, sy_log = sy_log s\<rparr> k = successes s k"
  "unkept \<lparr>sy_table = t, sy_threads = th, sy_log = sy_log s\<rparr> k = unkept s k"
  "kept \<lparr>sy_table = t, sy_threads = th, sy_log = sy_log s\<rparr> k = kept s k"
  by (simp_all add: successes_def unkept_def kept_def)

lemma kept_0: "(\<And>rq ws. Kept rq ws \<in> set (sy_log s) \<Longrightarrow> req_key rq \<noteq> k) \<Longrightarrow> kept s k = 0"
  by (force simp: kept_def filter_empty_conv split: fate.splits)

text \<open>A thread touches the row and the counts of its own key only.\<close>

lemma statement_frame: "(\<And>t. f t k = t k) \<Longrightarrow> statement v f t = (e, t') \<Longrightarrow> t' k = t k"
  by (cases v) (auto simp: statement_def)

lemma thread_step_frame: "thread_step jsonb sha256 ch rq ph t = (ph', t') \<Longrightarrow> req_key rq \<noteq> k \<Longrightarrow> t' k = t k"
  by (cases ph)
     (auto simp: req_key_def claim_insert_def IdempotencyFinalize_def IdempotencyRelease_def statement_def Let_def
       split: if_splits option.splits prod.splits sum.splits db_verdict.splits)

lemma note_fate_key: "f \<in> set (note_fate rq ph ph') \<Longrightarrow> \<exists>ws. f \<in> {Succeeded rq ws, Kept rq ws, Unkept rq ws}"
  by (auto simp: note_fate_def split: phase.splits)

lemma run_thread_frame:
  assumes "key_inv jsonb sha256 s k" "sy_threads s n = Some (rq, ph)" "req_key rq \<noteq> k"
  shows "key_inv jsonb sha256 (run_thread jsonb sha256 ch n rq ph s) k"
proof -
  obtain ph' t' where step: "thread_step jsonb sha256 ch rq ph (sy_table s) = (ph', t')" by (metis surj_pair)
  have row: "t' k = sy_table s k" by (rule thread_step_frame [OF step assms(3)])
  have own: "owner s k m \<longleftrightarrow> m \<noteq> n \<and> owner s k m" for m
    using assms(2,3) by (auto simp: owner_def)
  have none: "filter (\<lambda>f. case f of Succeeded rq ws \<Rightarrow> req_key rq = k | _ \<Rightarrow> False) (note_fate rq ph ph') = []"
    "filter (\<lambda>f. case f of Unkept rq ws \<Rightarrow> req_key rq = k | _ \<Rightarrow> False) (note_fate rq ph ph') = []"
    "filter (\<lambda>f. case f of Kept rq ws \<Rightarrow> req_key rq = k | _ \<Rightarrow> False) (note_fate rq ph ph') = []"
    using assms(3) by (auto simp: filter_empty_conv dest!: note_fate_key)
  show ?thesis
    using assms own unfolding key_inv_def run_thread_def step Let_def prod.case
    by (simp add: none row) (metis note_fate_key fate.distinct fate.inject(2) insertE singletonD)
qed


text \<open>On its own key, a thread keeps the invariant phase by phase.\<close>

lemma key_inv_parts:
  assumes "key_inv jsonb sha256 s k"
  shows "\<And>n m. owner s k n \<Longrightarrow> owner s k m \<Longrightarrow> n = m"
    and "\<And>n rq ph. sy_threads s n = Some (rq, ph) \<Longrightarrow> req_key rq = k \<Longrightarrow>
      phase_row (req_hash sha256 rq) ph (sy_table s k) (successes s k) (unkept s k)"
    and "sy_table s k = None \<Longrightarrow> successes s k = unkept s k"
    and "successes s k \<le> Suc (unkept s k)"
    and "kept s k \<le> 1"
    and "\<And>rq ws. Kept rq ws \<in> set (sy_log s) \<Longrightarrow> req_key rq = k \<Longrightarrow> kept_row jsonb sha256 rq ws (sy_table s k)"
    and "\<And>rq ws n. Kept rq ws \<in> set (sy_log s) \<Longrightarrow> req_key rq = k \<Longrightarrow> \<not> owner s k n"
  using assms unfolding key_inv_def by blast+

text \<open>Threads that do not own the key put no condition on the row.\<close>

lemma phase_row_idle: "\<not> owning ph \<Longrightarrow> phase_row h ph row ok lost"
  by (cases ph) simp_all

lemma no_owner_no_row:
  assumes "key_inv jsonb sha256 s k" "sy_table s k = None"
  shows "\<not> owner s k n"
proof
  assume "owner s k n"
  then obtain rq ph where "sy_threads s n = Some (rq, ph)" "owning ph" "req_key rq = k" by (auto simp: owner_def)
  from key_inv_parts(2) [OF assms(1) this(1,3)] this(2) assms(2) show False by (cases ph) auto
qed

lemma key_inv_idle:
  assumes inv: "key_inv jsonb sha256 s k" and "sy_threads s n = Some (rq, ph)" "\<not> owning ph" "\<not> owning ph'"
  shows "key_inv jsonb sha256 \<lparr>sy_table = sy_table s, sy_threads = (sy_threads s)(n \<mapsto> (rq, ph')), sy_log = sy_log s\<rparr> k"
proof -
  have "\<not> owner s k n" using assms(2,3) by (auto simp: owner_def)
  then show ?thesis
    using inv assms(4) unfolding key_inv_def by (simp add: phase_row_idle) metis
qed

text \<open>A fresh claim: the row was absent, so the key had no owner and nothing was kept.\<close>

lemma key_inv_claim:
  assumes inv: "key_inv jsonb sha256 s k" and "sy_threads s n = Some (rq, Begin)" "req_key rq = k" "sy_table s k = None"
    and ph': "ph' = Execute \<or> (\<not> owning ph')"
  shows "key_inv jsonb sha256 \<lparr>sy_table = (sy_table s)(k \<mapsto> pending_row (req_hash sha256 rq)),
    sy_threads = (sy_threads s)(n \<mapsto> (rq, ph')), sy_log = sy_log s\<rparr> k"
proof -
  have idle: "\<not> owner s k m" for m by (rule no_owner_no_row [OF inv assms(4)])
  have others: "\<not> owning ph" if "sy_threads s m = Some (rq', ph)" "req_key rq' = k" for m rq' ph
    using idle [of m] that by (auto simp: owner_def)
  have fresh: "Kept rq' ws \<notin> set (sy_log s)" if "req_key rq' = k" for rq' ws
    using key_inv_parts(6) [OF inv, of rq' ws] that assms(4) by (auto simp: kept_row_def)
  show ?thesis
    using key_inv_parts(3) [OF inv assms(4)] key_inv_parts(5) [OF inv] ph' idle fresh others assms(3)
    unfolding key_inv_def by (auto simp: phase_row_idle split: if_splits)
qed

text \<open>A step of the owner: no other thread owns the key, and nothing was kept yet.\<close>

lemma key_inv_owner:
  assumes inv: "key_inv jsonb sha256 s k" and th: "sy_threads s n = Some (rq, ph)" "req_key rq = k" "owning ph"
    and row: "phase_row (req_hash sha256 rq) ph' row (ok + successes s k) (lost + unkept s k)"
    and counts: "ok + successes s k \<le> Suc (lost + unkept s k)" "row = None \<longrightarrow> ok + successes s k = lost + unkept s k"
    and fs: "length (filter (\<lambda>f. case f of Succeeded rq ws \<Rightarrow> req_key rq = k | _ \<Rightarrow> False) fs) = ok"
      "length (filter (\<lambda>f. case f of Unkept rq ws \<Rightarrow> req_key rq = k | _ \<Rightarrow> False) fs) = lost"
      "length (filter (\<lambda>f. case f of Kept rq ws \<Rightarrow> req_key rq = k | _ \<Rightarrow> False) fs) \<le> 1"
    and keep: "\<And>rq' ws. Kept rq' ws \<in> set fs \<Longrightarrow> kept_row jsonb sha256 rq' ws row \<and> \<not> owning ph'"
  shows "key_inv jsonb sha256 \<lparr>sy_table = (sy_table s)(k := row), sy_threads = (sy_threads s)(n \<mapsto> (rq, ph')), sy_log = fs @ sy_log s\<rparr> k"
proof -
  have own: "owner s k n" using th by (auto simp: owner_def)
  have idle: "\<not> owner s k m" if "m \<noteq> n" for m
    using key_inv_parts(1) [OF inv own, of m] that by blast
  have others: "phase_row h ph'' row x y" if "sy_threads s m = Some (rq', ph'')" "req_key rq' = k" "m \<noteq> n" for m rq' ph'' h x y
    using idle [of m] that by (intro phase_row_idle) (auto simp: owner_def)
  have fresh: "Kept rq' ws \<notin> set (sy_log s)" if "req_key rq' = k" for rq' ws
    using key_inv_parts(7) [OF inv, of rq' ws n] own that by blast
  have "kept s k = 0" using fresh by (intro kept_0) blast
  then show ?thesis
    using row counts fs idle others fresh keep th(2) unfolding key_inv_def by (auto split: if_splits)
qed


lemma run_thread_begin:
  assumes inv: "key_inv jsonb sha256 s k" and th: "sy_threads s n = Some (rq, Begin)" "req_key rq = k"
  shows "key_inv jsonb sha256 (run_thread jsonb sha256 ch n rq Begin s) k"
proof -
  obtain ph' t' where step: "thread_step jsonb sha256 ch rq Begin (sy_table s) = (ph', t')" by (metis surj_pair)
  have "(t' = sy_table s \<and> \<not> owning ph') \<or>
      (t' = (sy_table s)(k \<mapsto> pending_row (req_hash sha256 rq)) \<and> sy_table s k = None \<and> (ph' = Execute \<or> \<not> owning ph'))"
    using step th(2)
    by (auto simp: claim_insert_def statement_def pending_row_def req_key_def Let_def
        split: if_splits db_verdict.splits)
  moreover have "note_fate rq Begin ph' = []" by (simp add: note_fate_def)
  ultimately show ?thesis
    using key_inv_idle [OF inv th(1), of ph'] key_inv_claim [OF inv th, of ph']
    unfolding run_thread_def step Let_def prod.case by auto
qed

lemma run_thread_persist:
  assumes inv: "key_inv jsonb sha256 s k" and th: "sy_threads s n = Some (rq, Persist ws)" "req_key rq = k"
  shows "key_inv jsonb sha256 (run_thread jsonb sha256 ch n rq (Persist ws) s) k"
proof -
  let ?row = "\<lparr>row_hash = req_hash sha256 rq, row_status = Some (rec_status (recorded ws)),
    row_response = the (stored_body jsonb (rec_buf (recorded ws)))\<rparr>"
  obtain ph' t' where step: "thread_step jsonb sha256 ch rq (Persist ws) (sy_table s) = (ph', t')" by (metis surj_pair)
  from key_inv_parts(2) [OF inv th]
  have row: "sy_table s k = Some (pending_row (req_hash sha256 rq))" and ok: "successes s k = Suc (unkept s k)" by simp_all
  have "(ph' = Finished (Passed ws) \<and> t' = (sy_table s)(k \<mapsto> ?row) \<and> stored_body jsonb (rec_buf (recorded ws)) \<noteq> None) \<or>
      (ph' = Release (Passed ws) \<and> (t' = sy_table s \<or> t' = (sy_table s)(k \<mapsto> ?row)))"
    using step row th(2)
    by (auto simp: IdempotencyFinalize_def statement_def req_key_def pending_row_def
        split: option.splits db_verdict.splits)
  moreover have "sy_table s = (sy_table s)(k \<mapsto> pending_row (req_hash sha256 rq))"
    using row by (simp add: fun_upd_idem)
  moreover have "row_hash (pending_row (req_hash sha256 rq)) = req_hash sha256 rq" "row_hash ?row = req_hash sha256 rq"
    by (simp_all add: pending_row_def)
  ultimately have "(ph' = Finished (Passed ws) \<and> t' = (sy_table s)(k \<mapsto> ?row) \<and> stored_body jsonb (rec_buf (recorded ws)) \<noteq> None) \<or>
      (ph' = Release (Passed ws) \<and> (\<exists>x. t' = (sy_table s)(k \<mapsto> x) \<and> row_hash x = req_hash sha256 rq))"
    by blast
  then show ?thesis
  proof (elim disjE exE conjE)
    assume case1: "ph' = Finished (Passed ws)" "t' = (sy_table s)(k \<mapsto> ?row)" "stored_body jsonb (rec_buf (recorded ws)) \<noteq> None"
    show ?thesis
      unfolding run_thread_def step Let_def prod.case case1(1,2)
      by (rule key_inv_owner [OF inv th, where ok = 0 and lost = 0])
         (use ok th(2) case1(3) in \<open>auto simp: note_fate_def kept_row_def\<close>)
  next
    fix x
    assume case2: "ph' = Release (Passed ws)" "t' = (sy_table s)(k \<mapsto> x)" "row_hash x = req_hash sha256 rq"
    show ?thesis
      unfolding run_thread_def step Let_def prod.case case2(1,2)
      by (rule key_inv_owner [OF inv th, where ok = 0 and lost = 1])
         (use ok th(2) case2(3) in \<open>auto simp: note_fate_def\<close>)
  qed
qed

lemma run_thread_release:
  assumes inv: "key_inv jsonb sha256 s k" and th: "sy_threads s n = Some (rq, Release r)" "req_key rq = k"
  shows "key_inv jsonb sha256 (run_thread jsonb sha256 ch n rq (Release r) s) k"
proof -
  from key_inv_parts(2) [OF inv th] have ok: "successes s k = unkept s k" by simp
  obtain x where x: "snd (IdempotencyRelease (ch_release ch) (sy_table s) (rq_org rq) (rq_key rq)) = (sy_table s)(k := x)"
    using th(2) by (fastforce simp: IdempotencyRelease_def statement_def req_key_def intro: fun_upd_triv [symmetric]
      split: db_verdict.splits option.splits if_splits)
  show ?thesis
    unfolding run_thread_def thread_step.simps Let_def prod.case x
    by (rule key_inv_owner [OF inv th, where ok = 0 and lost = 0]) (use ok in \<open>auto simp: note_fate_def\<close>)
qed

lemma run_thread_execute:
  assumes inv: "key_inv jsonb sha256 s k" and th: "sy_threads s n = Some (rq, Execute)" "req_key rq = k"
  shows "key_inv jsonb sha256 (run_thread jsonb sha256 ch n rq Execute s) k"
proof -
  obtain ph' where step: "thread_step jsonb sha256 ch rq Execute (sy_table s) = (ph', (sy_table s)(k := sy_table s k))"
    and ph': "(\<exists>ws. ph' = Persist ws) \<or> (\<exists>r. ph' = Release r)"
    by (cases "ch_run ch") auto
  from key_inv_parts(2) [OF inv th]
  have row: "sy_table s k = Some (pending_row (req_hash sha256 rq))" and ok: "successes s k = unkept s k" by simp_all
  from ph' show ?thesis
  proof (elim disjE exE)
    fix ws assume [simp]: "ph' = Persist ws"
    show ?thesis
      unfolding run_thread_def step Let_def prod.case
      by (rule key_inv_owner [OF inv th, where ok = 1 and lost = 0]) (use ok row th(2) in \<open>auto simp: note_fate_def\<close>)
  next
    fix r assume [simp]: "ph' = Release r"
    show ?thesis
      unfolding run_thread_def step Let_def prod.case
      by (rule key_inv_owner [OF inv th, where ok = 0 and lost = 0]) (use ok row th(2) in \<open>auto simp: note_fate_def pending_row_def\<close>)
  qed
qed

lemma run_thread_inv:
  assumes inv: "key_inv jsonb sha256 s k" and th: "sy_threads s n = Some (rq, ph)"
  shows "key_inv jsonb sha256 (run_thread jsonb sha256 ch n rq ph s) k"
proof (cases "req_key rq = k")
  case True
  show ?thesis
  proof (cases ph)
    case Looking
    then show ?thesis using key_inv_idle [OF inv th] by (simp add: run_thread_def note_fate_def)
  next
    case (Finished r)
    then show ?thesis using key_inv_idle [OF inv th] by (simp add: run_thread_def note_fate_def)
  qed (use inv th True run_thread_begin run_thread_execute run_thread_persist run_thread_release in \<open>metis+\<close>)
next
  case False
  then show ?thesis by (rule run_thread_frame [OF inv th])
qed

lemma idem_step_inv: "idem_step jsonb sha256 s s' \<Longrightarrow> key_inv jsonb sha256 s k \<Longrightarrow> key_inv jsonb sha256 s' k"
proof (induction rule: idem_step.induct)
  case (arrive s n rq)
  have own: "owner (s\<lparr>sy_threads := (sy_threads s)(n \<mapsto> (rq, Begin))\<rparr>) k m \<longleftrightarrow> owner s k m" for m
    using arrive.hyps by (auto simp: owner_def)
  show ?case
    using arrive.prems unfolding key_inv_def own
    by (auto simp: successes_def unkept_def kept_def)
next
  case (run s n rq ph ch)
  then show ?case by (intro run_thread_inv)
next
  case (crash s)
  then show ?case
    unfolding key_inv_def by (simp add: owner_def successes_def unkept_def kept_def)
qed

lemma reachable_inv: "reachable jsonb sha256 s \<Longrightarrow> key_inv jsonb sha256 s k"
  unfolding reachable_def
proof (induction rule: rtranclp_induct)
  case base
  show ?case by (simp add: key_inv_def idem_init_def owner_def successes_def unkept_def kept_def)
qed (rule idem_step_inv)


section \<open>Properties\<close>

text \<open>
  C36. One execution per key. In every state that concurrent requests reach, interleaved
  statement by statement, with statements lost or unacknowledged and the process crashing at any
  point: at most one request per (organisation, key) is between its claim and its release or
  completion; at most one response is kept; and the handler succeeded at most once more often than a
  successful response could not be persisted.
\<close>

theorem idempotent_single_execution:
  assumes "reachable jsonb sha256 s"
  shows "(owner s k n \<and> owner s k m \<longrightarrow> n = m) \<and> kept s k \<le> 1 \<and> successes s k \<le> Suc (unkept s k)"
  using reachable_inv [OF assms, of k] unfolding key_inv_def by blast

definition demo_request :: request where
  "demo_request = \<lparr>rq_method = ''POST'', rq_path = ''/v1/orgs/o/projects'', rq_org = ''o'', rq_key = ''k1'', rq_body = Some ''{}''\<rparr>"

definition demo_choice :: choice where
  "demo_choice = \<lparr>ch_claim = Applied, ch_lookup = None, ch_run = Ran [WriteHeader 201, Write ''7''],
     ch_finalize = Applied, ch_release = Applied\<rparr>"

definition demo_arrived :: idem_sys where
  "demo_arrived = idem_init\<lparr>sy_threads := [0 \<mapsto> (demo_request, Begin)]\<rparr>"

definition demo_served :: idem_sys where
  "demo_served =
     run_thread Some id demo_choice 0 demo_request (Persist [WriteHeader 201, Write ''7''])
       (run_thread Some id demo_choice 0 demo_request Execute
         (run_thread Some id demo_choice 0 demo_request Begin demo_arrived))"

lemma run_threadI: "reachable jsonb sha256 s \<Longrightarrow> sy_threads s n = Some (rq, ph) \<Longrightarrow> reachable jsonb sha256 (run_thread jsonb sha256 ch n rq ph s)"
  unfolding reachable_def by (meson idem_step.run rtranclp.rtrancl_into_rtrancl)

lemma demo_threads:
  "sy_threads demo_arrived 0 = Some (demo_request, Begin)"
  "sy_threads (run_thread Some id demo_choice 0 demo_request Begin demo_arrived) 0 = Some (demo_request, Execute)"
  "sy_threads (run_thread Some id demo_choice 0 demo_request Execute
     (run_thread Some id demo_choice 0 demo_request Begin demo_arrived)) 0
   = Some (demo_request, Persist [WriteHeader 201, Write ''7''])"
  by code_simp+

lemma reachable_demo: "reachable Some id demo_served"
proof -
  have "idem_step Some id idem_init demo_arrived"
    unfolding demo_arrived_def using arrive [of idem_init 0 Some id demo_request] by (simp add: idem_init_def)
  then have "reachable Some id demo_arrived" unfolding reachable_def by (rule r_into_rtranclp)
  then show ?thesis
    unfolding demo_served_def by (intro run_threadI demo_threads)
qed

lemma demo_kept: "sy_log demo_served = [Kept demo_request [WriteHeader 201, Write ''7''], Succeeded demo_request [WriteHeader 201, Write ''7'']]"
  by code_simp

theorem idempotent_single_execution_witness:
  "kept demo_served (''o'', ''k1'') = 1 \<and> successes demo_served (''o'', ''k1'') \<le> Suc (unkept demo_served (''o'', ''k1''))"
  using idempotent_single_execution [OF reachable_demo, of "(''o'', ''k1'')" 0 0]
  by (simp add: kept_def demo_kept req_key_def demo_request_def)

text \<open>
  Replay. Once a response was kept, in every state reached afterwards, every request with the same
  (organisation, key) whose claim and lookup statements succeed gets, without the handler
  being run and without a change of the table, the kept status and the kept body in the
  database's normal form when method, path and body hash to the same value, and the conflict reply otherwise.
\<close>

theorem idempotent_replays:
  assumes "reachable jsonb sha256 s" "Kept rq ws \<in> set (sy_log s)" "req_key rq' = req_key rq"
    and "keyed_request rq'" "rq_body rq' \<noteq> None" "ch_claim ch = Applied" "ch_lookup ch = None"
  shows "\<exists>b. stored_body jsonb (rec_buf (recorded ws)) = Some b \<and>
    idempotent jsonb sha256 ch rq' (sy_table s) =
      (if req_hash sha256 rq' = req_hash sha256 rq
       then Reply (rec_status (recorded ws)) [(''Content-Type'', ''application/json''), (''Idempotency-Replayed'', ''true'')]
              (case b of None \<Rightarrow> '''' | Some x \<Rightarrow> x)
       else reused, sy_table s)"
proof -
  from key_inv_parts(6) [OF reachable_inv [OF assms(1)] assms(2), OF refl]
  obtain b where b: "stored_body jsonb (rec_buf (recorded ws)) = Some b"
    and row: "sy_table s (rq_org rq', rq_key rq') =
      Some \<lparr>row_hash = req_hash sha256 rq, row_status = Some (rec_status (recorded ws)), row_response = b\<rparr>"
    using assms(3) by (auto simp: kept_row_def req_key_def)
  from assms(5) obtain body where "rq_body rq' = Some body" by auto
  with b row assms(4,6,7) show ?thesis
    by (auto simp: idempotent_def IdempotencyClaim_def claim_insert_def statement_def IdempotencyLookup_def
        answer_existing_def replayStored_def req_hash_def zero_response_def)
qed

theorem idempotent_replays_witness:
  "fst (idempotent Some id (demo_choice\<lparr>ch_run := Panicked []\<rparr>) demo_request (sy_table demo_served))
     = Reply 201 [(''Content-Type'', ''application/json''), (''Idempotency-Replayed'', ''true'')] ''7''"
proof -
  have "keyed_request demo_request" "rq_body demo_request \<noteq> None"
    by (simp_all add: keyed_request_def demo_request_def)
  moreover have "ch_claim (demo_choice\<lparr>ch_run := Panicked []\<rparr>) = Applied" "ch_lookup (demo_choice\<lparr>ch_run := Panicked []\<rparr>) = None"
    by (simp_all add: demo_choice_def)
  ultimately obtain b where "stored_body Some (rec_buf (recorded [WriteHeader 201, Write ''7''])) = Some b"
    "fst (idempotent Some id (demo_choice\<lparr>ch_run := Panicked []\<rparr>) demo_request (sy_table demo_served)) =
       Reply (rec_status (recorded [WriteHeader 201, Write ''7''])) [(''Content-Type'', ''application/json''), (''Idempotency-Replayed'', ''true'')]
         (case b of None \<Rightarrow> '''' | Some x \<Rightarrow> x)"
    using idempotent_replays [OF reachable_demo, of demo_request "[WriteHeader 201, Write ''7'']" demo_request "demo_choice\<lparr>ch_run := Panicked []\<rparr>"]
    by (auto simp: demo_kept)
  then show ?thesis by (auto simp: recorded_def rec_start_def stored_body_def)
qed

text \<open>
  The owner of a key. A request with a fresh key whose claim and release statements work hands the
  handler's own response to the client, and leaves the table either with exactly the kept
  response under its key, when the handler returned below 500 and persisting it succeeded, or as it found it: after a
  5xx, after a panic, and also after a success whose response could not be persisted, so that
  the next request with that key runs the handler again.
\<close>

theorem idempotent_owner_outcome:
  assumes "keyed_request rq" "rq_body rq \<noteq> None" "t (req_key rq) = None"
    and "ch_claim ch = Applied" "ch_release ch = Applied" "\<And>e. ch_finalize ch \<noteq> Unacked e"
  shows "idempotent jsonb sha256 ch rq t =
    (pass_through (ch_run ch),
     case ch_run ch of
       Panicked ws \<Rightarrow> t
     | Ran ws \<Rightarrow>
         (case stored_body jsonb (rec_buf (recorded ws)) of
            None \<Rightarrow> t
          | Some b \<Rightarrow>
              if rec_status (recorded ws) < 500 \<and> ch_finalize ch = Applied
              then t(req_key rq \<mapsto> \<lparr>row_hash = req_hash sha256 rq, row_status = Some (rec_status (recorded ws)), row_response = b\<rparr>)
              else t))"
proof -
  from assms(2) obtain body where body: "rq_body rq = Some body" by auto
  have undo: "t(req_key rq := None) = t" using assms(3) by (auto simp: fun_eq_iff)
  show ?thesis
    using assms(1,3,4,5,6) body undo
    by (cases "ch_run ch"; cases "ch_finalize ch")
       (auto simp: idempotent_def IdempotencyClaim_def claim_insert_def statement_def IdempotencyFinalize_def
         IdempotencyRelease_def pass_through_def req_hash_def req_key_def Let_def split: option.splits)
qed

theorem idempotent_owner_outcome_witness:
  "idempotent Some id (demo_choice\<lparr>ch_finalize := Lost ErrNotFound\<rparr>) demo_request (\<lambda>_. None)
     = (Passed [WriteHeader 201, Write ''7''], \<lambda>_. None)"
proof -
  have "keyed_request demo_request" "rq_body demo_request \<noteq> None"
    by (simp_all add: keyed_request_def demo_request_def)
  from idempotent_owner_outcome [OF this, of "\<lambda>_. None" "demo_choice\<lparr>ch_finalize := Lost ErrNotFound\<rparr>" Some id]
  show ?thesis by (simp add: demo_choice_def pass_through_def split: option.splits)
qed


end
