(* ===== verification/Traefik.thy ===== *)
theory Traefik
  imports Gc Rollout_Trace Demo_Daemon
begin

text \<open>
  The ingress proxy of a server (agent/internal/container/traefik.go): the static configuration, the
  create body, the \<open>proxy.traefik\<close> handler with the attachment to the managed networks, and the report of
  the issued certificates. The daemon and the digests are the parameters of the other
  handlers; base64, PEM, X.509 and the JSON of the certificate store are parameters here.
\<close>

section \<open>The proxy container\<close>

definition traefikImage :: string where "traefikImage = ''traefik:v3.6.1''"
definition traefikACMEVolume :: string where "traefikACMEVolume = ''sigmahub-traefik-acme''"
definition traefikSpecHashLabel :: string where "traefikSpecHashLabel = ''sigmahub.traefikSpecHash''"

definition proxyDriftHash :: "'p codec \<Rightarrow> TraefikSpec \<Rightarrow> string" where
  "proxyDriftHash cd spec = sha256_hex8 cd (traefik_hash cd spec @ ''|'' @ traefikImage)"

definition traefikArgs :: "TraefikSpec \<Rightarrow> string list" where
  "traefikArgs spec =
     (let resolver = (if T_CertResolver spec = '''' then ''le'' else T_CertResolver spec);
          acme = ''--certificatesresolvers.'' @ resolver @ ''.acme.''
      in [''--entrypoints.web.address=:80'',
          ''--entrypoints.websecure.address=:443'',
          ''--entrypoints.web.http.redirections.entrypoint.to=websecure'',
          ''--entrypoints.web.http.redirections.entrypoint.scheme=https'',
          ''--providers.docker=true'',
          ''--providers.docker.exposedbydefault=false'',
          acme @ ''storage=/acme/acme.json'']
         @ (if T_ACMEEmail spec \<noteq> '''' then [acme @ ''email='' @ T_ACMEEmail spec] else [])
         @ (if T_ChallengeType spec = ''tls-alpn'' then [acme @ ''tlschallenge=true'']
            else [acme @ ''httpchallenge=true'', acme @ ''httpchallenge.entrypoint=web''])
         @ (if T_ACMECADirURL spec \<noteq> '''' then [acme @ ''caserver='' @ T_ACMECADirURL spec] else []))"

definition buildTraefikCreateBody :: "'p codec \<Rightarrow> TraefikSpec \<Rightarrow> CreateBody" where
  "buildTraefikCreateBody cd spec =
     \<lparr>B_Image = traefikImage,
      B_Labels = [LabelManaged \<mapsto> ''true'', LabelResourceID \<mapsto> ''sigmahub-traefik'',
                  traefikSpecHashLabel \<mapsto> proxyDriftHash cd spec, ''traefik.enable'' \<mapsto> ''false''],
      B_Env = [],
      B_Exposed = (\<lambda>p. p = ''80/tcp'' \<or> p = ''443/tcp''),
      B_HostConfig =
        \<lparr>NetworkMode = None,
         SecurityOpt = [''no-new-privileges:true'', ''apparmor=docker-default''],
         HC_Privileged = False,
         ReadonlyRootfs = None,
         Binds = [''/var/run/docker.sock:/var/run/docker.sock:ro'', traefikACMEVolume @ '':/acme:rw''],
         PortBindings = [''80/tcp'' \<mapsto> (''80'', None), ''443/tcp'' \<mapsto> (''443'', None)],
         HC_Tmpfs = None, NanoCpus = None, Memory = None, ShmSize = None, DeviceCount = None,
         RestartPolicy = ''always''\<rparr>,
      B_Aliases = None,
      B_Cmd = traefikArgs spec,
      B_User = None\<rparr>"

fun connect_each :: "'d docker \<Rightarrow> string list \<Rightarrow> 'd \<Rightarrow> goerr option \<times> 'd" where
  "connect_each dk [] d = (None, d)"
| "connect_each dk (n # ns) d =
     (case NetworkConnect dk n traefikContainerName d of
        (Some e, d) \<Rightarrow> (Some (Wrapf (''connect traefik to '' @ n) e), d)
      | (None, d) \<Rightarrow> connect_each dk ns d)"

definition attachProxyNetworks :: "'d docker \<Rightarrow> 'd \<Rightarrow> goerr option \<times> 'd" where
  "attachProxyNetworks dk d =
     (case ManagedNetworks dk d of
        (Inl e, d) \<Rightarrow> (Some e, d)
      | (Inr nets, d) \<Rightarrow> connect_each dk nets d)"

definition ensure_acme_volume :: "'d docker \<Rightarrow> 'd \<Rightarrow> goerr option \<times> 'd" where
  "ensure_acme_volume dk d =
     (case VolumeExists dk traefikACMEVolume d of
        (Inl e, d) \<Rightarrow> (Some e, d)
      | (Inr True, d) \<Rightarrow> (None, d)
      | (Inr False, d) \<Rightarrow>
          (case VolumeCreate dk traefikACMEVolume [LabelManaged \<mapsto> ''true''] d of
             (Some e, d) \<Rightarrow> (Some (Wrapf ''create acme volume'' e), d)
           | (None, d) \<Rightarrow> (None, d)))"

definition create_proxy :: "'d docker \<Rightarrow> CreateBody \<Rightarrow> 'd \<Rightarrow> goerr option \<times> 'd" where
  "create_proxy dk body d =
     (case ContainerCreate dk traefikContainerName body d of
        (Inl e, d) \<Rightarrow> (Some (Wrapf ''create traefik'' e), d)
      | (Inr cid, d) \<Rightarrow>
          (case ContainerStart dk cid d of
             (Some e, d) \<Rightarrow> (Some e, d)
           | (None, d) \<Rightarrow> attachProxyNetworks dk d))"

definition opProxyTraefik :: "'d docker \<Rightarrow> 'p codec \<Rightarrow> 'p Op \<Rightarrow> 'd \<Rightarrow> goerr option \<times> 'd" where
  "opProxyTraefik dk cd op d =
     (case dec_traefik cd (Spec op) of
        Inl e \<Rightarrow> (Some (Wrapf ''decode traefik spec'' e), d)
      | Inr spec \<Rightarrow>
          (case ensure_acme_volume dk d of
             (Some e, d) \<Rightarrow> (Some e, d)
           | (None, d) \<Rightarrow>
               (case ImagePullAuth dk traefikImage no_auth d of
                  (Some e, d) \<Rightarrow> (Some (Wrapf ''pull traefik'' e), d)
                | (None, d) \<Rightarrow>
                    (case ContainerInspect dk traefikContainerName d of
                       (Inl e, d) \<Rightarrow> (Some e, d)
                     | (Inr None, d) \<Rightarrow> create_proxy dk (buildTraefikCreateBody cd spec) d
                     | (Inr (Some cur), d) \<Rightarrow>
                         if mget (C_Labels cur) traefikSpecHashLabel = proxyDriftHash cd spec then
                           (if \<not> C_Running cur then
                              (case ContainerStart dk (C_ID cur) d of
                                 (Some e, d) \<Rightarrow> (Some e, d)
                               | (None, d) \<Rightarrow> attachProxyNetworks dk d)
                            else attachProxyNetworks dk d)
                         else (case ContainerStop dk (C_ID cur) (seconds 10) d of
                                 (Some e, d) \<Rightarrow> (Some e, d)
                               | (None, d) \<Rightarrow>
                                   (case ContainerRemove dk (C_ID cur) d of
                                      (Some e, d) \<Rightarrow> (Some e, d)
                                    | (None, d) \<Rightarrow> create_proxy dk (buildTraefikCreateBody cd spec) d))))))"

section \<open>Certificates\<close>

record DomainCertReport =
  DC_Domain :: string
  DC_Status :: string
  DC_Serial :: string
  DC_ExpiresAt :: "timestamp option"
  DC_Error :: string

record acme_cert =
  AC_Main :: string
  AC_SANs :: "string list"
  AC_Certificate :: string

text \<open>The resolvers of the store in the order in which the loop over the Go map meets them.\<close>

type_synonym acmeStore = "acme_cert list list"

record pki =
  b64_bytes :: "string \<Rightarrow> string option"
  pem_block :: "string \<Rightarrow> string option"
  x509_leaf :: "string \<Rightarrow> (nat \<times> timestamp) option" \<comment> \<open>serial number, not after\<close>

definition to_upper_char :: "char \<Rightarrow> char" where
  "to_upper_char c = (if is_lower c then char_of ((of_char c :: nat) - 32) else c)"

definition parseLeaf :: "pki \<Rightarrow> string \<Rightarrow> string \<times> timestamp option" where
  "parseLeaf pk b64 =
     (case b64_bytes pk b64 of
        None \<Rightarrow> ('''', None)
      | Some der \<Rightarrow>
          (case pem_block pk der of
             None \<Rightarrow> ('''', None)
           | Some block \<Rightarrow>
               (case x509_leaf pk block of
                  None \<Rightarrow> ('''', None)
                | Some (serial, notAfter) \<Rightarrow> (map to_upper_char (hex_text serial), Some notAfter))))"

definition norm_domain :: "string \<Rightarrow> string" where
  "norm_domain dmn = to_lower (trim_space dmn)"

fun report_domains :: "string \<Rightarrow> timestamp option \<Rightarrow> string list \<Rightarrow> string list \<Rightarrow> DomainCertReport list \<Rightarrow> string list \<times> DomainCertReport list" where
  "report_domains serial expiry [] seen out = (seen, out)"
| "report_domains serial expiry (dmn # dmns) seen out =
     (let dmn = norm_domain dmn
      in if dmn = '''' \<or> dmn \<in> set seen then report_domains serial expiry dmns seen out
         else report_domains serial expiry dmns (dmn # seen)
                (out @ [\<lparr>DC_Domain = dmn, DC_Status = ''issued'', DC_Serial = serial, DC_ExpiresAt = expiry, DC_Error = ''''\<rparr>]))"

fun report_certs :: "pki \<Rightarrow> acme_cert list \<Rightarrow> string list \<Rightarrow> DomainCertReport list \<Rightarrow> string list \<times> DomainCertReport list" where
  "report_certs pk [] seen out = (seen, out)"
| "report_certs pk (c # cs) seen out =
     (case parseLeaf pk (AC_Certificate c) of
        (serial, expiry) \<Rightarrow>
          (case report_domains serial expiry (AC_Main c # AC_SANs c) seen out of
             (seen, out) \<Rightarrow> report_certs pk cs seen out))"

text \<open>
  The mount point of the volume, the file under it (None: it does not exist) and the decoded store
  are arguments.
\<close>

definition TraefikCertStatus ::
  "pki \<Rightarrow> string res \<Rightarrow> (string \<Rightarrow> string option res) \<Rightarrow> (string \<Rightarrow> acmeStore res) \<Rightarrow> DomainCertReport list res" where
  "TraefikCertStatus pk mountpoint read_file decode =
     (case mountpoint of
        Inl e \<Rightarrow> Inr []
      | Inr mount \<Rightarrow>
          (case read_file (filepath_join mount ''acme.json'') of
             Inl e \<Rightarrow> Inl e
           | Inr None \<Rightarrow> Inr []
           | Inr (Some raw) \<Rightarrow>
               (case decode raw of
                  Inl e \<Rightarrow> Inl (Wrapf ''parse acme.json'' e)
                | Inr store \<Rightarrow> Inr (sort_key DC_Domain (snd (report_certs pk (concat store) [] []))))))"

section \<open>The proxy is recreated on drift only\<close>

lemma quiet_traced:
  "VolumeInspect (traced dk) n = quiet (VolumeInspect dk n)" "VolumeCreate (traced dk) n l = quiet (VolumeCreate dk n l)"
  "ImagePullAuth (traced dk) i a = quiet (ImagePullAuth dk i a)" "ManagedNetworks (traced dk) = quiet (ManagedNetworks dk)"
  "NetworkConnect (traced dk) n c = quiet (NetworkConnect dk n c)"
  by (simp_all add: traced_def)

lemma quiet_log: "quiet f s = (r, s') \<Longrightarrow> snd s' = snd s"
  by (auto simp: rec_call_eq)

lemma connect_each_log: "connect_each (traced dk) ns s = (e, s') \<Longrightarrow> snd s' = snd s"
  by (induction ns arbitrary: s) (auto simp: quiet_traced dest!: quiet_log split: prod.splits option.splits)

lemma attach_log: "attachProxyNetworks (traced dk) s = (e, s') \<Longrightarrow> snd s' = snd s"
  by (auto simp: attachProxyNetworks_def quiet_traced dest!: quiet_log connect_each_log split: prod.splits sum.splits)

lemma ensure_acme_log: "ensure_acme_volume (traced dk) s = (e, s') \<Longrightarrow> snd s' = snd s"
  by (auto simp: ensure_acme_volume_def VolumeExists_def quiet_traced dest!: quiet_log
      split: prod.splits sum.splits bool.splits option.splits)

lemma create_proxy_log:
  assumes "create_proxy (traced dk) b s = (e, s')"
  shows "(snd s' = snd s @ [ECreate traefikContainerName None] \<and> e \<noteq> None) \<or>
    (\<exists>i. snd s' = snd s @ [ECreate traefikContainerName (Some i), EStart i])"
  using assms
  by (auto simp: create_proxy_def rec_call_eq dest!: attach_log split: prod.splits sum.splits option.splits)

definition proxy_calls :: "string \<Rightarrow> ContainerState option option \<Rightarrow> call list \<Rightarrow> bool \<Rightarrow> bool" where
  "proxy_calls want r rest ok \<longleftrightarrow>
     (let created = (\<lambda>cs. (cs = [ECreate traefikContainerName None] \<and> \<not> ok) \<or>
                          (\<exists>i. cs = [ECreate traefikContainerName (Some i), EStart i]))
      in case r of
           None \<Rightarrow> rest = [] \<and> \<not> ok
         | Some None \<Rightarrow> created rest
         | Some (Some cur) \<Rightarrow>
             if mget (C_Labels cur) traefikSpecHashLabel = want
             then rest = (if C_Running cur then [] else [EStart (C_ID cur)])
             else (rest = [EStop (C_ID cur)] \<and> \<not> ok) \<or> (rest = [EStop (C_ID cur), ERemove (C_ID cur)] \<and> \<not> ok) \<or>
                  (\<exists>cs. rest = [EStop (C_ID cur), ERemove (C_ID cur)] @ cs \<and> created cs))"

text \<open>
  The proxy is recreated on drift only (traefik.go, opProxyTraefik). Whatever the daemon answers, the
  container calls of an apply are none at all, with an error, or an inspection of the proxy followed by: nothing
  but a start, and that only if it is stopped, when its label carries the digest of the wanted
  spec and image; otherwise a stop and a removal of that very container, if there is one, and then
  the creation and start of a new one. Calls are missing at the end only when an error is returned. So an
  unchanged spec never interrupts the ingress.
\<close>

theorem proxy_recreated_on_drift_only:
  assumes "opProxyTraefik (traced dk) cd op (d, []) = (e, (d', trc))"
  shows "(trc = [] \<and> e \<noteq> None) \<or>
    (\<exists>spec r rest. dec_traefik cd (Spec op) = Inr spec \<and> trc = EInspect traefikContainerName r # rest \<and>
       proxy_calls (proxyDriftHash cd spec) r rest (e = None))"
proof (cases "dec_traefik cd (Spec op)")
  case (Inl err)
  then show ?thesis using assms by (auto simp: opProxyTraefik_def)
next
  case (Inr spec)
  obtain e1 s1 where vol: "ensure_acme_volume (traced dk) (d, []) = (e1, s1)" by (metis surj_pair)
  obtain e2 s2 where pull: "ImagePullAuth (traced dk) traefikImage no_auth s1 = (e2, s2)" by (metis surj_pair)
  obtain r3 d3 where ins: "ContainerInspect dk traefikContainerName (fst s2) = (r3, d3)" by (metis surj_pair)
  have log: "snd s1 = []" "snd s2 = []"
    using ensure_acme_log [OF vol] pull by (auto simp: quiet_traced dest: quiet_log)
  have ins': "ContainerInspect (traced dk) traefikContainerName s2 = (r3, (d3, [EInspect traefikContainerName (ok_of r3)]))"
    using ins log by (simp add: rec_call_def)
  show ?thesis
  proof (cases "e1 = None \<and> e2 = None")
    case False
    then show ?thesis using assms vol pull log Inr
      by (auto simp: opProxyTraefik_def split: option.splits)
  next
    case True
    let ?want = "proxyDriftHash cd spec"
    have "\<exists>rest. trc = EInspect traefikContainerName (ok_of r3) # rest \<and> proxy_calls ?want (ok_of r3) rest (e = None)"
    proof (cases r3)
      case (Inl err)
      then show ?thesis using assms vol pull True ins' Inr by (auto simp: opProxyTraefik_def proxy_calls_def)
    next
      case (Inr cur)
      show ?thesis
      proof (cases cur)
        case None
        then show ?thesis using assms vol pull True ins' Inr \<open>dec_traefik cd (Spec op) = Inr spec\<close>
          by (auto simp: opProxyTraefik_def proxy_calls_def dest!: create_proxy_log)
      next
        case (Some c)
        then show ?thesis using assms vol pull True ins' Inr \<open>dec_traefik cd (Spec op) = Inr spec\<close>
          by (auto simp: opProxyTraefik_def proxy_calls_def rec_call_eq dest!: create_proxy_log attach_log
              split: if_splits prod.splits option.splits)
      qed
    qed
    then show ?thesis using Inr by blast
  qed
qed


definition demo_traefik_spec :: TraefikSpec where
  "demo_traefik_spec = \<lparr>T_ServerID = ''srv'', T_CertResolver = '''', T_ChallengeType = ''http'', T_ACMEEmail = '''', T_ACMECADirURL = ''''\<rparr>"

definition demo_traefik_op :: "payload Op" where
  "demo_traefik_op = \<lparr>ID = ''proxy'', Kind = KindProxyTraefik,
     DependsOn = [], Spec = PTraefik demo_traefik_spec\<rparr>"

definition proxy_run :: "goerr option \<times> daemon tr" where
  "proxy_run = opProxyTraefik (traced memory_docker) demo_codec demo_traefik_op (demo_daemon, [])"

lemma proxy_run_ok: "fst proxy_run = None \<and> length (snd (snd proxy_run)) = 3"
  by code_simp

theorem proxy_recreated_on_drift_only_witness:
  "\<exists>r rest. snd (snd proxy_run) = EInspect traefikContainerName r # rest \<and> length rest = 2"
proof -
  obtain e d' trc where run: "proxy_run = (e, (d', trc))" by (metis surj_pair)
  have "e = None" "length trc = 3" using proxy_run_ok unfolding run by auto
  with proxy_recreated_on_drift_only [OF run [unfolded proxy_run_def]] show ?thesis unfolding run by auto
qed

section \<open>Peers on one daemon\<close>

text \<open>
  C37. Two agents on one daemon (reconcile.go gcReap and ownedByAnotherServer, driver.go buildCreateBody, traefik.go
  buildTraefikCreateBody). A container that an agent with a server id created from a spec carries that id, and the
  collection of an agent with any other id spares it, whatever its document says. The
  proxy carries no server id: the collection of every agent whose document neither names nor
  protects it removes it, whoever created it.
\<close>

theorem peers_spare_workloads_not_proxies:
  "(sid \<noteq> '''' \<and> sid' \<noteq> '''' \<and> sid' \<noteq> sid \<and> C_Labels c = B_Labels (buildCreateBody sid spec h)
      \<longrightarrow> \<not> gcReap c want protected sid') \<and>
   (C_Labels c = B_Labels (buildTraefikCreateBody cd tspec)
      \<longrightarrow> (gcReap c want protected sid' \<longleftrightarrow>
            \<not> want (C_Name c) \<and> \<not> protected (rolloutGroupKey ''sigmahub-traefik'' '''')))"
proof (intro conjI impI)
  assume a: "sid \<noteq> '''' \<and> sid' \<noteq> '''' \<and> sid' \<noteq> sid \<and> C_Labels c = B_Labels (buildCreateBody sid spec h)"
  have "mget (C_Labels c) LabelServerID = sid"
    using a by (simp add: buildCreateBody_def body_labels_def managedLabels_def Let_def mget_def
      LabelServerID_def LabelSpecHash_def LabelService_def)
  with a show "\<not> gcReap c want protected sid'" unfolding gcReap_def ownedByAnotherServer_def Let_def by presburger
next
  assume "C_Labels c = B_Labels (buildTraefikCreateBody cd tspec)"
  then show "gcReap c want protected sid' \<longleftrightarrow> \<not> want (C_Name c) \<and> \<not> protected (rolloutGroupKey ''sigmahub-traefik'' '''')"
    by (simp add: gcReap_def ownedByAnotherServer_def buildTraefikCreateBody_def Let_def mget_def
      LabelServerID_def LabelManaged_def LabelResourceID_def LabelService_def traefikSpecHashLabel_def)
qed


definition demo_proxy :: ContainerState where
  "demo_proxy = (demo_container ''c1'' traefikContainerName ''h'')\<lparr>C_Labels := B_Labels (buildTraefikCreateBody demo_codec demo_traefik_spec)\<rparr>"

definition demo_workload :: ContainerState where
  "demo_workload = (demo_container ''c2'' ''sigmahub-res'' ''h'')\<lparr>C_Labels := B_Labels (buildCreateBody ''srv'' demo_spec ''h'')\<rparr>"

theorem peers_spare_workloads_not_proxies_witness:
  "gcReap demo_proxy (\<lambda>_. False) (\<lambda>_. False) ''peer'' \<and> \<not> gcReap demo_workload (\<lambda>_. False) (\<lambda>_. False) ''peer''"
  using peers_spare_workloads_not_proxies [of "''srv''" "''peer''" demo_workload demo_spec "''h''" "\<lambda>_. False" "\<lambda>_. False" demo_codec demo_traefik_spec]
    peers_spare_workloads_not_proxies [of "''srv''" "''peer''" demo_proxy demo_spec "''h''" "\<lambda>_. False" "\<lambda>_. False" demo_codec demo_traefik_spec]
  by (simp add: demo_proxy_def demo_workload_def)

section \<open>Certificate reports\<close>

definition cert_domains :: "acme_cert \<Rightarrow> string set" where
  "cert_domains c = norm_domain ` set (AC_Main c # AC_SANs c) - {''''}"

definition reports_ok :: "pki \<Rightarrow> acme_cert list \<Rightarrow> string list \<times> DomainCertReport list \<Rightarrow> bool" where
  "reports_ok pk cs so \<longleftrightarrow>
     set (fst so) = DC_Domain ` set (snd so) \<and> distinct (map DC_Domain (snd so)) \<and>
     DC_Domain ` set (snd so) = (\<Union>c\<in>set cs. cert_domains c) \<and>
     (\<forall>r\<in>set (snd so). \<exists>c\<in>set cs. DC_Domain r \<in> cert_domains c \<and> parseLeaf pk (AC_Certificate c) = (DC_Serial r, DC_ExpiresAt r))"

lemma report_domains_ok:
  assumes "set seen = DC_Domain ` set out" "distinct (map DC_Domain out)"
    and "report_domains serial expiry ds seen out = (seen', out')"
  shows "set seen' = DC_Domain ` set out' \<and> distinct (map DC_Domain out') \<and>
    set seen' = set seen \<union> (norm_domain ` set ds - {''''}) \<and>
    (\<forall>r\<in>set out'. r \<in> set out \<or> (DC_Domain r \<in> norm_domain ` set ds - {''''} \<and> DC_Serial r = serial \<and> DC_ExpiresAt r = expiry))"
  using assms
proof (induction serial expiry ds seen out rule: report_domains.induct)
  case (2 serial expiry x ds seen out)
  show ?case
  proof (cases "norm_domain x = [] \<or> norm_domain x \<in> set seen")
    case True
    then have "report_domains serial expiry ds seen out = (seen', out')" using 2(5) by (auto simp: Let_def)
    from 2(1) [OF refl True 2(3,4) this] True show ?thesis by auto
  next
    case False
    let ?r = "\<lparr>DC_Domain = norm_domain x, DC_Status = ''issued'', DC_Serial = serial, DC_ExpiresAt = expiry, DC_Error = []\<rparr>"
    have step: "report_domains serial expiry ds (norm_domain x # seen) (out @ [?r]) = (seen', out')"
      using 2(5) False by (auto simp: Let_def)
    have "set (norm_domain x # seen) = DC_Domain ` set (out @ [?r])" "distinct (map DC_Domain (out @ [?r]))"
      using 2(3,4) False by auto
    note ih = 2(2) [OF refl False this step]
    have cover: "set (norm_domain x # seen) \<union> (norm_domain ` set ds - {[]}) = set seen \<union> (norm_domain ` set (x # ds) - {[]})"
      using False by auto
    show ?thesis
    proof (intro conjI ballI)
      show "set seen' = DC_Domain ` set out'" "distinct (map DC_Domain out')" by (rule conjunct1 [OF ih], rule conjunct1 [OF conjunct2 [OF ih]])
      show "set seen' = set seen \<union> (norm_domain ` set (x # ds) - {[]})" using conjunct1 [OF conjunct2 [OF conjunct2 [OF ih]]] unfolding cover .
      fix r assume "r \<in> set out'"
      with conjunct2 [OF conjunct2 [OF conjunct2 [OF ih]]] have "r \<in> set (out @ [?r]) \<or> (DC_Domain r \<in> norm_domain ` set ds - {[]} \<and> DC_Serial r = serial \<and> DC_ExpiresAt r = expiry)"
        by (rule bspec)
      then show "r \<in> set out \<or> (DC_Domain r \<in> norm_domain ` set (x # ds) - {[]} \<and> DC_Serial r = serial \<and> DC_ExpiresAt r = expiry)"
        using False by auto
    qed
  qed
qed auto

lemma report_certs_ok:
  "reports_ok pk cs0 (seen, out) \<Longrightarrow> report_certs pk cs seen out = so \<Longrightarrow> reports_ok pk (cs0 @ cs) so"
proof (induction cs arbitrary: cs0 seen out)
  case (Cons c cs)
  obtain serial expiry where leaf: "parseLeaf pk (AC_Certificate c) = (serial, expiry)" by (metis surj_pair)
  obtain seen1 out1 where one: "report_domains serial expiry (AC_Main c # AC_SANs c) seen out = (seen1, out1)" by (metis surj_pair)
  from Cons.prems(1) have old: "set seen = DC_Domain ` set out" "distinct (map DC_Domain out)"
    "DC_Domain ` set out = (\<Union>c\<in>set cs0. cert_domains c)"
    "\<forall>r\<in>set out. \<exists>c\<in>set cs0. DC_Domain r \<in> cert_domains c \<and> parseLeaf pk (AC_Certificate c) = (DC_Serial r, DC_ExpiresAt r)"
    by (simp_all add: reports_ok_def)
  note new = report_domains_ok [OF old(1,2) one, folded cert_domains_def]
  have "reports_ok pk (cs0 @ [c]) (seen1, out1)"
    unfolding reports_ok_def fst_conv snd_conv
  proof (intro conjI ballI)
    show "set seen1 = DC_Domain ` set out1" "distinct (map DC_Domain out1)" using new by blast+
    show "DC_Domain ` set out1 = (\<Union>c\<in>set (cs0 @ [c]). cert_domains c)" using new old(1,3) by auto
    fix r assume "r \<in> set out1"
    with new old(4) leaf show "\<exists>c\<in>set (cs0 @ [c]). DC_Domain r \<in> cert_domains c \<and> parseLeaf pk (AC_Certificate c) = (DC_Serial r, DC_ExpiresAt r)"
      by auto
  qed
  from Cons.IH [OF this] Cons.prems(2) leaf one show ?case by simp
qed simp

text \<open>
  Certificate reports (traefik.go, TraefikCertStatus). The reports are sorted by domain and name each domain
  once. They name exactly the main and alternative domains of the stored certificates, trimmed
  and in lower case, the empty one left out, whatever the order of the resolvers; and serial and
  expiry of a report are those of the leaf of a certificate that lists the domain. Without a volume or a
  file there are no reports, and no error.
\<close>

theorem cert_reports_exact:
  "(TraefikCertStatus pk (Inr mount) rd dec = Inr out \<and> rd (filepath_join mount ''acme.json'') = Inr (Some raw) \<and> dec raw = Inr st \<longrightarrow>
      sorted (map DC_Domain out) \<and> distinct (map DC_Domain out) \<and>
      set (map DC_Domain out) = (\<Union>cs\<in>set st. \<Union>c\<in>set cs. cert_domains c) \<and>
      (\<forall>r\<in>set out. \<exists>cs\<in>set st. \<exists>c\<in>set cs. DC_Domain r \<in> cert_domains c \<and>
         parseLeaf pk (AC_Certificate c) = (DC_Serial r, DC_ExpiresAt r))) \<and>
   TraefikCertStatus pk (Inl err) rd dec = Inr [] \<and>
   (rd (filepath_join mount ''acme.json'') = Inr None \<longrightarrow> TraefikCertStatus pk (Inr mount) rd dec = Inr [])"
proof (intro conjI impI)
  assume a: "TraefikCertStatus pk (Inr mount) rd dec = Inr out \<and> rd (filepath_join mount ''acme.json'') = Inr (Some raw) \<and> dec raw = Inr st"
  obtain seen reps where rep: "report_certs pk (concat st) [] [] = (seen, reps)" by (metis surj_pair)
  have out: "out = sort_key DC_Domain reps" using a rep by (auto simp: TraefikCertStatus_def)
  have "reports_ok pk ([] @ concat st) (seen, reps)"
    by (rule report_certs_ok [OF _ rep]) (simp add: reports_ok_def)
  then have ok: "distinct (map DC_Domain reps)" "DC_Domain ` set reps = (\<Union>c\<in>set (concat st). cert_domains c)"
    "\<forall>r\<in>set reps. \<exists>c\<in>set (concat st). DC_Domain r \<in> cert_domains c \<and> parseLeaf pk (AC_Certificate c) = (DC_Serial r, DC_ExpiresAt r)"
    by (simp_all add: reports_ok_def)
  show "sorted (map DC_Domain out)" by (simp add: out)
  show "distinct (map DC_Domain out)"
    using ok(1) unfolding out by (simp add: distinct_map)
  show "set (map DC_Domain out) = (\<Union>cs\<in>set st. \<Union>c\<in>set cs. cert_domains c)" using ok(2) by (simp add: out)
  show "\<forall>r\<in>set out. \<exists>cs\<in>set st. \<exists>c\<in>set cs. DC_Domain r \<in> cert_domains c \<and> parseLeaf pk (AC_Certificate c) = (DC_Serial r, DC_ExpiresAt r)"
    using ok(3) by (simp add: out)
next
  show "TraefikCertStatus pk (Inl err) rd dec = Inr []" by (simp add: TraefikCertStatus_def)
next
  assume "rd (filepath_join mount ''acme.json'') = Inr None"
  then show "TraefikCertStatus pk (Inr mount) rd dec = Inr []" by (simp add: TraefikCertStatus_def)
qed

definition demo_pki :: pki where
  "demo_pki = \<lparr>b64_bytes = Some, pem_block = Some, x509_leaf = (\<lambda>s. Some (length s, 0))\<rparr>"

definition demo_acme :: acmeStore where
  "demo_acme = [[\<lparr>AC_Main = ''B.example'', AC_SANs = ['' a.example'', ''b.example''], AC_Certificate = ''xyz''\<rparr>]]"

theorem cert_reports_exact_witness:
  "\<exists>out. TraefikCertStatus demo_pki (Inr ''/v'') (\<lambda>_. Inr (Some '''')) (\<lambda>_. Inr demo_acme) = Inr out \<and>
     map DC_Domain out = [''a.example'', ''b.example''] \<and> distinct (map DC_Domain out)"
proof -
  have "\<exists>out. TraefikCertStatus demo_pki (Inr ''/v'') (\<lambda>_. Inr (Some '''')) (\<lambda>_. Inr demo_acme) = Inr out"
    by (simp add: TraefikCertStatus_def)
  then obtain out where out: "TraefikCertStatus demo_pki (Inr ''/v'') (\<lambda>_. Inr (Some '''')) (\<lambda>_. Inr demo_acme) = Inr out" by blast
  have "(case TraefikCertStatus demo_pki (Inr ''/v'') (\<lambda>_. Inr (Some '''')) (\<lambda>_. Inr demo_acme) of
      Inl _ \<Rightarrow> [] | Inr out \<Rightarrow> map DC_Domain out) = [''a.example'', ''b.example'']"
    by code_simp
  with out cert_reports_exact [of demo_pki "''/v''" "\<lambda>_. Inr (Some '''')" "\<lambda>_. Inr demo_acme" out "''''" demo_acme]
  show ?thesis by simp
qed


end
