(* ===== verification/Deploy.thy ===== *)
theory Deploy
  imports Sql Naming "HOL-Library.AList"
begin

text \<open>
  The release history of the control plane (cp/internal/store/deployments.go, and
  \<open>CreateHeadDeployment\<close> of git.go). The tables the code reads and writes are the record \<open>deploy_db\<close>; every
  transaction is a definition, run by \<open>in_tx\<close>. A nullable text column holds the empty string for NULL, which is
  how the code writes (NULLIF) and reads (COALESCE, deref) it. A creator's value is the row it
  inserted, of which the code returns a few columns. An \<open>ORDER BY created_at DESC LIMIT 1\<close> is \<open>latest\<close>: its
  first argument picks among rows with the same stamp, which is the database's choice. The hash of a spec and
  the random part of an identifier are parameters of the state.
\<close>

section \<open>Rows\<close>

record Deployment =
  d_ID :: string
  d_OrgID :: string
  d_ResourceID :: string
  d_EnvironmentID :: string
  d_ServerID :: string
  d_ConnectionID :: string
  d_Trigger :: string
  d_GitRef :: string
  d_GitSHA :: string
  d_ImageDigest :: string
  d_ImagePin :: string
  d_ConfigHash :: string
  d_Status :: string
  d_Detail :: string
  d_RollbackOf :: string
  d_BuildSeconds :: "int option"
  d_DurationSeconds :: "int option"
  d_CreatedBy :: string
  d_CreatedAt :: timestamp
  d_StartedAt :: "timestamp option"
  d_FinishedAt :: "timestamp option"
  d_ServiceCount :: int
  d_ServiceStatus :: "(string \<times> string) list" \<comment> \<open>a JSON object: service to status\<close>
  d_DsdVersion :: int
  d_BuildServerID :: string

record compose_service =
  cs_Name :: string
  cs_Build :: string
  cs_Image :: string

record resource =
  rs_OrgID :: string
  rs_ProjectID :: string
  rs_EnvironmentID :: string
  rs_ServerID :: string
  rs_ClusterID :: string
  rs_Name :: string
  rs_Kind :: string
  rs_Spec :: string
  rs_Compose :: "compose_service list option" \<comment> \<open>what the spec decodes to\<close>

record deploy_request =
  q_ID :: string
  q_OrgID :: string
  q_ConnectionID :: string
  q_EnvironmentID :: string
  q_Ref :: string
  q_SHA :: string
  q_Kind :: string
  q_Status :: string
  q_Created :: int
  q_Detail :: string

record branch_map =
  m_ID :: string
  m_ConnectionID :: string
  m_EnvironmentID :: string
  m_BuildServerID :: string
  m_LastRef :: string
  m_LastSHA :: string

record alert_row =
  al_OrgID :: string
  al_Channel :: string
  al_Event :: string
  al_Key :: string
  al_Title :: string
  al_Body :: string

record deploy_db =
  deployments :: "Deployment list" \<comment> \<open>the last inserted first\<close>
  resources :: "(string \<times> resource) list"
  cluster_nodes :: "(string \<times> string) list" \<comment> \<open>cluster, server\<close>
  placements :: "(string \<times> string) list" \<comment> \<open>resource, server\<close>
  git_connections :: "(string \<times> string) list" \<comment> \<open>connection, project\<close>
  git_branch_map :: "branch_map list"
  deploy_requests :: "deploy_request list" \<comment> \<open>the oldest first\<close>
  alert_rules :: "(string \<times> string \<times> string) list" \<comment> \<open>organisation, event, enabled channel subscribed to it\<close>
  alert_outbox :: "alert_row list"
  deploy_logs :: "(string \<times> string \<times> string) list" \<comment> \<open>deployment, stream, line\<close>
  cp_audit_log :: "(string \<times> string \<times> string \<times> string) list"
  now :: timestamp
  id_hex :: "nat \<Rightarrow> string"
  id_seq :: nat
  spec_hash :: "string \<Rightarrow> string"

type_synonym 'a tx = "deploy_db \<Rightarrow> ('a \<times> deploy_db) res"

definition newID :: "string \<Rightarrow> deploy_db \<Rightarrow> string \<times> deploy_db" where
  "newID prefix db = (prefix @ ''_'' @ id_hex db (id_seq db), db\<lparr>id_seq := Suc (id_seq db)\<rparr>)"

definition auditTx :: "string \<Rightarrow> string \<Rightarrow> string \<Rightarrow> string \<Rightarrow> deploy_db \<Rightarrow> deploy_db" where
  "auditTx orgID actor action target db = db\<lparr>cp_audit_log := (orgID, actor, action, target) # cp_audit_log db\<rparr>"

section \<open>Statuses\<close>

definition terminalDeployStatus :: "string \<Rightarrow> bool" where
  "terminalDeployStatus s \<longleftrightarrow> s = ''success'' \<or> s = ''failed'' \<or> s = ''superseded'' \<or> s = ''rolled_back''"

definition deployStatusRank :: "string \<Rightarrow> int" where
  "deployStatusRank s =
     (if s = ''queued'' then 0 else if s = ''building'' then 1 else if s = ''deploying'' then 2
      else if s = ''success'' then 3 else -1)"

definition deployInFlight :: "string \<Rightarrow> bool" where
  "deployInFlight s \<longleftrightarrow> s = ''queued'' \<or> s = ''building'' \<or> s = ''deploying''"

definition secs_between :: "timestamp \<Rightarrow> timestamp \<Rightarrow> int" where
  "secs_between t t0 = max 0 ((t - t0 + 500000000) div nano_per_second)"

definition last_sign :: "Deployment \<Rightarrow> timestamp" where
  "last_sign d = (case d_StartedAt d of None \<Rightarrow> d_CreatedAt d | Some t \<Rightarrow> t)"

definition latest :: "nat \<Rightarrow> Deployment list \<Rightarrow> Deployment option" where
  "latest tie ds =
     (if ds = [] then None
      else let m = Max (set (map d_CreatedAt ds)); cs = filter (\<lambda>d. d_CreatedAt d = m) ds
           in Some (cs ! (tie mod length cs)))"

section \<open>Status transitions\<close>

record DeploymentStatusUpdate =
  up_Status :: string
  up_Detail :: string
  up_ImageDigest :: string
  up_BuildSeconds :: "int option"
  up_MarkStarted :: bool
  up_MarkFinished :: bool

definition no_update :: DeploymentStatusUpdate where
  "no_update = \<lparr>up_Status = '''', up_Detail = '''', up_ImageDigest = '''', up_BuildSeconds = None,
     up_MarkStarted = False, up_MarkFinished = False\<rparr>"

definition supersede_row :: "timestamp \<Rightarrow> string \<Rightarrow> string \<Rightarrow> string \<Rightarrow> Deployment \<Rightarrow> Deployment" where
  "supersede_row t orgID serverID resourceID d =
     (if d_OrgID d = orgID \<and> d_ResourceID d = resourceID \<and> d_ServerID d = serverID \<and> deployInFlight (d_Status d)
      then d\<lparr>d_Status := ''superseded'', d_FinishedAt := Some t, d_DurationSeconds := Some (secs_between t (last_sign d))\<rparr>
      else d)"

definition supersedeInFlightTx :: "string \<Rightarrow> string \<Rightarrow> string \<Rightarrow> deploy_db \<Rightarrow> deploy_db" where
  "supersedeInFlightTx orgID serverID resourceID db =
     (if resourceID = '''' then db
      else db\<lparr>deployments := map (supersede_row (now db) orgID serverID resourceID) (deployments db)\<rparr>)"

text \<open>Alerts with a window of zero, which fire at most once per channel and key.\<close>

definition AlertDeployFailed :: string where
  "AlertDeployFailed = ''deploy_failed''"

definition enqueueAlertTx :: "string \<Rightarrow> string \<Rightarrow> string \<Rightarrow> string \<Rightarrow> string \<Rightarrow> deploy_db \<Rightarrow> deploy_db" where
  "enqueueAlertTx orgID event dedupKey title body db =
     db\<lparr>alert_outbox :=
        map (\<lambda>(org, ev, ch). \<lparr>al_OrgID = org, al_Channel = ch, al_Event = event, al_Key = dedupKey, al_Title = title, al_Body = take 4000 body\<rparr>)
          (filter (\<lambda>(org, ev, ch). org = orgID \<and> ev = event \<and> \<not> list_ex (\<lambda>o'. al_Channel o' = ch \<and> al_Key o' = dedupKey) (alert_outbox db))
             (alert_rules db))
        @ alert_outbox db\<rparr>"

definition apply_update :: "timestamp \<Rightarrow> DeploymentStatusUpdate \<Rightarrow> Deployment \<Rightarrow> Deployment" where
  "apply_update t up d =
     d\<lparr>d_Status := up_Status up,
       d_Detail := (if up_Detail up = '''' then d_Detail d else up_Detail up),
       d_ImageDigest := (if up_ImageDigest up = '''' then d_ImageDigest d else up_ImageDigest up),
       d_BuildSeconds := (case up_BuildSeconds up of None \<Rightarrow> d_BuildSeconds d | Some n \<Rightarrow> Some n),
       d_StartedAt := (if up_MarkStarted up \<and> d_StartedAt d = None then Some t else d_StartedAt d),
       d_FinishedAt := (if up_MarkFinished up then Some t else d_FinishedAt d),
       d_DurationSeconds := (if up_MarkFinished up then Some (secs_between t (last_sign d)) else d_DurationSeconds d)\<rparr>"

definition update_row :: "string \<Rightarrow> (Deployment \<Rightarrow> Deployment) \<Rightarrow> deploy_db \<Rightarrow> deploy_db" where
  "update_row i f db = db\<lparr>deployments := map (\<lambda>d. if d_ID d = i then f d else d) (deployments db)\<rparr>"

definition row :: "string \<Rightarrow> deploy_db \<Rightarrow> Deployment option" where
  "row i db = find (\<lambda>d. d_ID d = i) (deployments db)"

definition setDeploymentStatusTx :: "string \<Rightarrow> DeploymentStatusUpdate \<Rightarrow> unit tx" where
  "setDeploymentStatusTx deploymentID up db =
     (case row deploymentID db of
        None \<Rightarrow> Inl ErrNotFound
      | Some d \<Rightarrow>
          if terminalDeployStatus (d_Status d) then Inl ErrConflict
          else let db1 = update_row deploymentID (apply_update (now db) up) db
               in if up_Status up = ''failed'' then
                    (case map_of (resources db) (d_ResourceID d) of
                       None \<Rightarrow> Inl ErrNoRows
                     | Some r \<Rightarrow>
                         let detail = (if up_Detail up = '''' then ''no failure detail reported'' else up_Detail up);
                             sha = take 7 (d_GitSHA d);
                             title = ''Deploy of '' @ rs_Name r @ '' failed'' @ (if sha \<noteq> '''' then '' ('' @ sha @ '')'' else '''')
                         in Inr ((), enqueueAlertTx (d_OrgID d) AlertDeployFailed (''dep:'' @ deploymentID) title detail db1))
                  else Inr ((), db1))"

definition SetDeploymentStatus :: "db_verdict \<Rightarrow> string \<Rightarrow> DeploymentStatusUpdate \<Rightarrow> deploy_db \<Rightarrow> unit res \<times> deploy_db" where
  "SetDeploymentStatus v deploymentID up = in_tx v (setDeploymentStatusTx deploymentID up)"

fun fail_each :: "string list \<Rightarrow> int \<Rightarrow> int tx" where
  "fail_each [] n db = Inr (n, db)"
| "fail_each (i # is') n db =
     (case setDeploymentStatusTx i
             (no_update\<lparr>up_Status := ''failed'', up_Detail := ''timed out'' @ [CHR '' '', CHR 0xE2, CHR 0x80, CHR 0x94] @
                '' the agent stopped reporting progress'', up_MarkFinished := True\<rparr>) db of
        Inl e \<Rightarrow> if e = ErrConflict then fail_each is' n db else Inl e
      | Inr (_, db1) \<Rightarrow> fail_each is' (n + 1) db1)"

definition stale_ids :: "duration \<Rightarrow> deploy_db \<Rightarrow> string list" where
  "stale_ids timeout db =
     map d_ID (sort_key d_CreatedAt
       (filter (\<lambda>d. deployInFlight (d_Status d) \<and> last_sign d < now db - timeout) (deployments db)))"

definition TimeoutStaleDeployments :: "db_verdict \<Rightarrow> duration \<Rightarrow> deploy_db \<Rightarrow> int res \<times> deploy_db" where
  "TimeoutStaleDeployments v timeout db =
     (if timeout \<le> 0 then (Inr 0, db) else in_tx v (\<lambda>db. fail_each (stale_ids timeout db) 0 db) db)"

definition StampDeploymentDSDVersion :: "db_verdict \<Rightarrow> string list \<Rightarrow> int \<Rightarrow> deploy_db \<Rightarrow> goerr option \<times> deploy_db" where
  "StampDeploymentDSDVersion v ids version db =
     (if ids = [] \<or> version \<le> 0 then (None, db)
      else statement v (\<lambda>db. db\<lparr>deployments := map (\<lambda>d.
             if d_ID d \<in> set ids \<and> d_DsdVersion d = 0 \<and> deployInFlight (d_Status d) then d\<lparr>d_DsdVersion := version\<rparr> else d)
             (deployments db)\<rparr>) db)"

section \<open>Image references\<close>

text \<open>The store's own copies of the naming functions.\<close>

definition deployImageTag :: "string \<Rightarrow> string \<Rightarrow> string" where
  "deployImageTag resourceID sha = ''sigmahub/'' @ resourceID @ '':'' @ sha"

definition deployPin :: "string \<Rightarrow> string" where
  "deployPin deploymentID =
     (let pin = (case cut_last (CHR ''_'') deploymentID of None \<Rightarrow> deploymentID | Some (a, b) \<Rightarrow> b)
      in if length pin > 6 then drop (length pin - 6) pin else pin)"

definition pinnedImageTag :: "string \<Rightarrow> string \<Rightarrow> string \<Rightarrow> string" where
  "pinnedImageTag resourceID sha pin =
     (if pin = '''' then deployImageTag resourceID sha else deployImageTag resourceID sha @ ''-'' @ pin)"

section \<open>Creating deployments\<close>

definition composeServiceCount :: "compose_service list option \<Rightarrow> int" where
  "composeServiceCount services =
     (case services of
        None \<Rightarrow> 0
      | Some ss \<Rightarrow> int (length (filter (\<lambda>s. cs_Name s \<noteq> '''' \<and> (cs_Build s \<noteq> '''' \<or> cs_Image s \<noteq> '''')) ss)))"

definition org_resource :: "string \<Rightarrow> string \<Rightarrow> deploy_db \<Rightarrow> resource option" where
  "org_resource orgID resourceID db =
     (case map_of (resources db) resourceID of
        None \<Rightarrow> None | Some r \<Rightarrow> if rs_OrgID r = orgID then Some r else None)"

definition resourceServiceCountTx :: "string \<Rightarrow> string \<Rightarrow> deploy_db \<Rightarrow> int res" where
  "resourceServiceCountTx orgID resourceID db =
     (case org_resource orgID resourceID db of
        None \<Rightarrow> Inl ErrNotFound | Some r \<Rightarrow> Inr (composeServiceCount (rs_Compose r)))"

text \<open>The row of a connection and environment in the branch map: the database's choice when there are several.\<close>

definition branch_build_server :: "nat \<Rightarrow> string \<Rightarrow> string \<Rightarrow> deploy_db \<Rightarrow> string" where
  "branch_build_server tie connID envID db =
     (let ms = filter (\<lambda>m. m_ConnectionID m = connID \<and> m_EnvironmentID m = envID) (git_branch_map db)
      in if ms = [] then '''' else m_BuildServerID (ms ! (tie mod length ms)))"

definition resolveBuildServerTx :: "nat \<Rightarrow> string \<Rightarrow> string \<Rightarrow> string \<Rightarrow> deploy_db \<Rightarrow> string" where
  "resolveBuildServerTx tie srcBuildServer connID envID db =
     (if srcBuildServer \<noteq> '''' then srcBuildServer
      else if connID = '''' \<or> envID = '''' then ''''
      else branch_build_server tie connID envID db)"

text \<open>
  \<open>INSERT\<close> into a table whose identifier is the primary key; \<open>created_at\<close> is the transaction's clock, the time
  it began. Since a transaction may wait for a lock before it inserts, the clock of the state is not assumed to move forward from one
  transaction to the next.
\<close>

definition insert_row :: "Deployment \<Rightarrow> Deployment tx" where
  "insert_row d db =
     (if list_ex (\<lambda>x. d_ID x = d_ID d) (deployments db) then Inl (ErrString ''duplicate key value violates unique constraint'')
      else let d' = d\<lparr>d_CreatedAt := now db\<rparr> in Inr (d', db\<lparr>deployments := d' # deployments db\<rparr>))"

definition queued :: "string \<Rightarrow> string \<Rightarrow> string \<Rightarrow> string \<Rightarrow> string \<Rightarrow> Deployment" where
  "queued i orgID resourceID trigger actor =
     \<lparr>d_ID = i, d_OrgID = orgID, d_ResourceID = resourceID, d_EnvironmentID = '''', d_ServerID = '''', d_ConnectionID = '''',
      d_Trigger = trigger, d_GitRef = '''', d_GitSHA = '''', d_ImageDigest = '''', d_ImagePin = '''', d_ConfigHash = '''',
      d_Status = ''queued'', d_Detail = '''', d_RollbackOf = '''', d_BuildSeconds = None, d_DurationSeconds = None,
      d_CreatedBy = actor, d_CreatedAt = 0, d_StartedAt = None, d_FinishedAt = None, d_ServiceCount = 0, d_ServiceStatus = [],
      d_DsdVersion = 0, d_BuildServerID = ''''\<rparr>"

record CreateDeploymentInput =
  in_ResourceID :: string
  in_EnvironmentID :: string
  in_ServerID :: string
  in_ConnectionID :: string
  in_Trigger :: string
  in_GitRef :: string
  in_GitSHA :: string
  in_ConfigHash :: string
  in_RollbackOf :: string
  in_ImageDigest :: string

definition create_deployment_tx :: "string \<Rightarrow> CreateDeploymentInput \<Rightarrow> string \<Rightarrow> Deployment tx" where
  "create_deployment_tx orgID inp actor db =
     (let trigger = (if in_Trigger inp = '''' then ''manual'' else in_Trigger inp)
      in case org_resource orgID (in_ResourceID inp) db of
           None \<Rightarrow> Inl ErrNotFound
         | Some r \<Rightarrow>
             (case newID ''dep'' db of
                (i, db) \<Rightarrow>
                  (case insert_row ((queued i orgID (in_ResourceID inp) trigger actor)
                            \<lparr>d_EnvironmentID := in_EnvironmentID inp,
                             d_ServerID := (if in_ServerID inp \<noteq> '''' then in_ServerID inp else rs_ServerID r),
                             d_ConnectionID := in_ConnectionID inp, d_GitRef := in_GitRef inp, d_GitSHA := in_GitSHA inp,
                             d_ImageDigest := in_ImageDigest inp,
                             d_ImagePin := (if trigger = ''rollback'' then '''' else deployPin i),
                             d_ConfigHash := in_ConfigHash inp, d_RollbackOf := in_RollbackOf inp,
                             d_ServiceCount := composeServiceCount (rs_Compose r)\<rparr>) db of
                     Inl e \<Rightarrow> Inl e
                   | Inr (d, db) \<Rightarrow> Inr (d, auditTx orgID actor (''Deploy queued ('' @ trigger @ '')'') (in_ResourceID inp) db))))"

definition CreateDeployment ::
  "db_verdict \<Rightarrow> string \<Rightarrow> CreateDeploymentInput \<Rightarrow> string \<Rightarrow> deploy_db \<Rightarrow> Deployment res \<times> deploy_db" where
  "CreateDeployment v orgID inp actor = in_tx v (create_deployment_tx orgID inp actor)"

text \<open>Supersede what is in flight for the row's (organisation, resource, server), then insert the row and audit it.\<close>

definition supersede_and_insert :: "Deployment \<Rightarrow> string \<Rightarrow> string \<Rightarrow> Deployment tx" where
  "supersede_and_insert d actor action db =
     (case insert_row d (supersedeInFlightTx (d_OrgID d) (d_ServerID d) (d_ResourceID d) db) of
        Inl e \<Rightarrow> Inl e
      | Inr (d', db) \<Rightarrow> Inr (d', auditTx (d_OrgID d) actor action (d_ResourceID d) db))"

definition create_rollback_tx :: "nat \<Rightarrow> string \<Rightarrow> string \<Rightarrow> string \<Rightarrow> string \<Rightarrow> (Deployment \<times> string) tx" where
  "create_rollback_tx tie orgID resourceID target actor db =
     (case find (\<lambda>d. d_OrgID d = orgID \<and> d_ResourceID d = resourceID \<and> d_ID d = target) (deployments db) of
        None \<Rightarrow> Inl ErrNotFound
      | Some t \<Rightarrow>
          let pinned = (d_ImagePin t \<noteq> '''');
              legacySingle = (d_ImageDigest t \<noteq> '''' \<and> d_ServiceCount t = 0)
          in if d_Status t \<noteq> ''success'' \<or> (\<not> pinned \<and> \<not> legacySingle)
             then Inl (ErrInvalid ''rollback target must be a successful release with a retained image'')
             else case resourceServiceCountTx orgID resourceID db of
                    Inl e \<Rightarrow> Inl e
                  | Inr svcCount \<Rightarrow>
                      (case newID ''dep'' db of
                         (i, db) \<Rightarrow>
                           (case supersede_and_insert ((queued i orgID resourceID ''rollback'' actor)
                                   \<lparr>d_EnvironmentID := d_EnvironmentID t, d_ServerID := d_ServerID t,
                                    d_ConnectionID := d_ConnectionID t, d_GitRef := d_GitRef t, d_GitSHA := d_GitSHA t,
                                    d_ImageDigest := d_ImageDigest t, d_ImagePin := d_ImagePin t,
                                    d_ConfigHash := d_ConfigHash t, d_RollbackOf := target, d_ServiceCount := svcCount,
                                    d_BuildServerID := resolveBuildServerTx tie (d_BuildServerID t) (d_ConnectionID t) (d_EnvironmentID t) db\<rparr>)
                                  actor (''Rollback queued to '' @ target) db of
                              Inl e \<Rightarrow> Inl e
                            | Inr (d, db) \<Rightarrow> Inr ((d, d_ServerID d), db))))"

definition CreateRollback ::
  "db_verdict \<Rightarrow> nat \<Rightarrow> string \<Rightarrow> string \<Rightarrow> string \<Rightarrow> string \<Rightarrow> deploy_db \<Rightarrow> (Deployment \<times> string) res \<times> deploy_db" where
  "CreateRollback v tie orgID resourceID target actor = in_tx v (create_rollback_tx tie orgID resourceID target actor)"

definition history :: "string \<Rightarrow> string \<Rightarrow> deploy_db \<Rightarrow> Deployment list" where
  "history orgID resourceID db = filter (\<lambda>d. d_OrgID d = orgID \<and> d_ResourceID d = resourceID) (deployments db)"

definition create_redeploy_tx :: "nat \<Rightarrow> string \<Rightarrow> string \<Rightarrow> string \<Rightarrow> (Deployment \<times> string) tx" where
  "create_redeploy_tx tie orgID resourceID actor db =
     (case latest tie (history orgID resourceID db) of
        None \<Rightarrow> Inl (ErrInvalid (''nothing to redeploy'' @ [CHR '' '', CHR 0xE2, CHR 0x80, CHR 0x94] @ '' connect a repo and push first''))
      | Some src \<Rightarrow>
          (case resourceServiceCountTx orgID resourceID db of
             Inl e \<Rightarrow> Inl e
           | Inr svcCount \<Rightarrow>
               (case newID ''dep'' db of
                  (i, db) \<Rightarrow>
                    (case supersede_and_insert ((queued i orgID resourceID ''manual'' actor)
                            \<lparr>d_EnvironmentID := d_EnvironmentID src, d_ServerID := d_ServerID src,
                             d_ConnectionID := d_ConnectionID src, d_GitRef := d_GitRef src, d_GitSHA := d_GitSHA src,
                             d_ImagePin := deployPin i, d_ConfigHash := d_ConfigHash src, d_ServiceCount := svcCount,
                             d_BuildServerID := resolveBuildServerTx tie (d_BuildServerID src) (d_ConnectionID src) (d_EnvironmentID src) db\<rparr>)
                           actor ''Manual redeploy queued'' db of
                       Inl e \<Rightarrow> Inl e
                     | Inr (d, db) \<Rightarrow> Inr ((d, d_ServerID d), db)))))"

definition CreateManualRedeploy ::
  "db_verdict \<Rightarrow> nat \<Rightarrow> string \<Rightarrow> string \<Rightarrow> string \<Rightarrow> deploy_db \<Rightarrow> (Deployment \<times> string) res \<times> deploy_db" where
  "CreateManualRedeploy v tie orgID resourceID actor = in_tx v (create_redeploy_tx tie orgID resourceID actor)"


text \<open>
  The servers to render again are collected in a Go map, whose order is arbitrary; here they are listed once each, in
  the order they were first met.
\<close>

type_synonym ServerRef = "string \<times> string" \<comment> \<open>server, organisation\<close>

definition see :: "string \<Rightarrow> string \<Rightarrow> ServerRef list \<Rightarrow> ServerRef list" where
  "see sid orgID seen = (if sid = '''' \<or> sid \<in> set (map fst seen) then seen else seen @ [(sid, orgID)])"

text \<open>What a config deployment ships: commit, image digest and pin, from the latest or the last successful release.\<close>

definition config_source :: "nat \<Rightarrow> string \<Rightarrow> string \<Rightarrow> string \<Rightarrow> Deployment \<Rightarrow> deploy_db \<Rightarrow> Deployment" where
  "config_source tie orgID resID depID src db =
     (if d_Status src = ''success'' then src
      else case latest tie (filter (\<lambda>d. d_Status d = ''success'') (history orgID resID db)) of
             Some ok \<Rightarrow> src\<lparr>d_GitRef := d_GitRef ok, d_GitSHA := d_GitSHA ok, d_ImageDigest := d_ImageDigest ok, d_ImagePin := d_ImagePin ok\<rparr>
           | None \<Rightarrow> src\<lparr>d_ImageDigest := '''', d_ImagePin := deployPin depID\<rparr>)"

text \<open>
  A config deployment takes no lock and supersedes nothing: the reads that decide on the row (\<open>config_row\<close>, \<open>None\<close> when the resource
  is skipped) and the statement that inserts it (\<open>config_insert\<close>) may have other transactions between them. \<open>config_one\<close> is
  the two with nothing between.
\<close>

definition config_row :: "nat \<Rightarrow> string \<Rightarrow> string \<Rightarrow> string \<Rightarrow> string \<Rightarrow> deploy_db \<Rightarrow> Deployment option res" where
  "config_row tie orgID actor resID depID db =
     (case latest tie (history orgID resID db) of
        None \<Rightarrow> Inr None
      | Some src \<Rightarrow>
          if deployInFlight (d_Status src) then Inr None
          else case resourceServiceCountTx orgID resID db of
                 Inl e \<Rightarrow> Inl e
               | Inr svcCount \<Rightarrow>
                   let c = config_source tie orgID resID depID src db
                   in Inr (Some ((queued depID orgID resID ''config'' actor)
                        \<lparr>d_EnvironmentID := d_EnvironmentID src, d_ServerID := d_ServerID src,
                         d_ConnectionID := d_ConnectionID src, d_GitRef := d_GitRef c, d_GitSHA := d_GitSHA c,
                         d_ImageDigest := d_ImageDigest c, d_ImagePin := d_ImagePin c,
                         d_ConfigHash := d_ConfigHash src, d_ServiceCount := svcCount,
                         d_BuildServerID := resolveBuildServerTx tie (d_BuildServerID src) (d_ConnectionID src) (d_EnvironmentID src) db\<rparr>)))"

definition config_insert :: "string \<Rightarrow> Deployment \<Rightarrow> ServerRef list \<Rightarrow> ServerRef list tx" where
  "config_insert reason d seen db =
     (case insert_row d db of
        Inl e \<Rightarrow> Inl e
      | Inr (d', db) \<Rightarrow>
          Inr (see (d_ServerID d) (d_OrgID d) seen,
               auditTx (d_OrgID d) (d_CreatedBy d) (''Config deploy queued ('' @ reason @ '')'') (d_ResourceID d) db))"

definition config_one :: "nat \<Rightarrow> string \<Rightarrow> string \<Rightarrow> string \<Rightarrow> string \<Rightarrow> ServerRef list \<Rightarrow> ServerRef list tx" where
  "config_one tie orgID actor reason resID seen db =
     (case newID ''dep'' db of
        (i, db1) \<Rightarrow>
          (case config_row tie orgID actor resID i db of
             Inl e \<Rightarrow> Inl e
           | Inr None \<Rightarrow> Inr (seen, db)
           | Inr (Some d) \<Rightarrow> config_insert reason d seen db1))"

fun config_each :: "nat \<Rightarrow> string \<Rightarrow> string \<Rightarrow> string \<Rightarrow> string list \<Rightarrow> ServerRef list \<Rightarrow> ServerRef list tx" where
  "config_each tie orgID actor reason [] seen db = Inr (seen, db)"
| "config_each tie orgID actor reason (r # rs) seen db =
     (case config_one tie orgID actor reason r seen db of
        Inl e \<Rightarrow> Inl e
      | Inr (seen, db) \<Rightarrow> config_each tie orgID actor reason rs seen db)"

definition CreateConfigDeployments ::
  "db_verdict \<Rightarrow> nat \<Rightarrow> string \<Rightarrow> string list \<Rightarrow> string \<Rightarrow> string \<Rightarrow> deploy_db \<Rightarrow> ServerRef list res \<times> deploy_db" where
  "CreateConfigDeployments v tie orgID resourceIDs actor reason db =
     (if resourceIDs = [] then (Inr [], db)
      else in_tx v (config_each tie orgID actor reason resourceIDs []) db)"

section \<open>Pushes\<close>

definition drainBatchLimit :: nat where
  "drainBatchLimit = 200"

fun drain_apps :: "deploy_request \<Rightarrow> string \<Rightarrow> (string \<times> resource) list \<Rightarrow> ServerRef list \<Rightarrow> ServerRef list tx" where
  "drain_apps q buildServer [] seen db = Inr (seen, db)"
| "drain_apps q buildServer ((aid, a) # as) seen db =
     (case newID ''dep'' (supersedeInFlightTx (q_OrgID q) (rs_ServerID a) aid db) of
        (i, db) \<Rightarrow>
          (case insert_row ((queued i (q_OrgID q) aid ''git'' ''github-webhook'')
                  \<lparr>d_EnvironmentID := q_EnvironmentID q, d_ServerID := rs_ServerID a, d_ConnectionID := q_ConnectionID q,
                   d_GitRef := q_Ref q, d_GitSHA := q_SHA q, d_ImagePin := deployPin i, d_ConfigHash := spec_hash db (rs_Spec a),
                   d_ServiceCount := composeServiceCount (rs_Compose a), d_BuildServerID := buildServer\<rparr>) db of
             Inl e \<Rightarrow> Inl e
           | Inr (d, db) \<Rightarrow>
               drain_apps q buildServer as
                 (let seen = see (rs_ServerID a) (q_OrgID q) seen
                  in if buildServer \<noteq> rs_ServerID a then see buildServer (q_OrgID q) seen else seen) db))"

definition drain_one :: "nat \<Rightarrow> deploy_request \<Rightarrow> ServerRef list \<Rightarrow> ServerRef list tx" where
  "drain_one tie q seen db =
     (case map_of (git_connections db) (q_ConnectionID q) of
        None \<Rightarrow> Inr (seen, db)
      | Some project \<Rightarrow>
          let apps = filter (\<lambda>(i, r). rs_OrgID r = q_OrgID q \<and> rs_ProjectID r = project \<and>
                       rs_EnvironmentID r = q_EnvironmentID q \<and> rs_Kind r = ''app'') (resources db)
          in case drain_apps q (branch_build_server tie (q_ConnectionID q) (q_EnvironmentID q) db) apps seen db of
               Inl e \<Rightarrow> Inl e
             | Inr (seen, db) \<Rightarrow>
                 let (st, detail) = (if apps = [] then (''no_targets'', ''no app resources in this environment yet'' @
                         [CHR '' '', CHR 0xE2, CHR 0x80, CHR 0x94] @ '' create one and push again, or use Redeploy'') else (''drained'', ''''));
                     db = (if apps = [] then auditTx (q_OrgID q) ''webhook'' ''Push matched no deployable resources'' (q_Ref q) db else db)
                 in Inr (seen, db\<lparr>deploy_requests := map (\<lambda>x. if q_ID x = q_ID q
                       then x\<lparr>q_Status := st, q_Created := int (length apps), q_Detail := detail\<rparr> else x) (deploy_requests db)\<rparr>))"

fun drain_each :: "nat \<Rightarrow> deploy_request list \<Rightarrow> ServerRef list \<Rightarrow> ServerRef list tx" where
  "drain_each tie [] seen db = Inr (seen, db)"
| "drain_each tie (q # qs) seen db =
     (case drain_one tie q seen db of
        Inl e \<Rightarrow> Inl e
      | Inr (seen, db) \<Rightarrow> drain_each tie qs seen db)"

text \<open>
  The requests of one pass, oldest first: those joined to a connection, less those whose rows another pass holds
  locked (\<open>skip\<close>).
\<close>

definition drain_batch :: "(string \<Rightarrow> bool) \<Rightarrow> deploy_db \<Rightarrow> deploy_request list" where
  "drain_batch skip db =
     take drainBatchLimit (filter (\<lambda>q. q_Kind q = ''deploy'' \<and> q_Status q = ''queued'' \<and>
       q_ConnectionID q \<in> set (map fst (git_connections db)) \<and> \<not> skip (q_ID q)) (deploy_requests db))"

definition DrainDeployRequests :: "db_verdict \<Rightarrow> nat \<Rightarrow> (string \<Rightarrow> bool) \<Rightarrow> deploy_db \<Rightarrow> ServerRef list res \<times> deploy_db" where
  "DrainDeployRequests v tie skip = in_tx v (\<lambda>db. drain_each tie (drain_batch skip db) [] db)"

record HeadDeployOrigin =
  h_MapID :: string
  h_ConnectionID :: string
  h_Branch :: string
  h_Ref :: string
  h_EnvironmentID :: string
  h_ServerID :: string
  h_BuildServerID :: string

definition create_head_tx :: "string \<Rightarrow> string \<Rightarrow> string \<Rightarrow> HeadDeployOrigin \<Rightarrow> string \<Rightarrow> (Deployment \<times> string) tx" where
  "create_head_tx orgID resourceID actor o' sha db =
     (case org_resource orgID resourceID db of
        None \<Rightarrow> Inl ErrNotFound
      | Some r \<Rightarrow>
          (case newID ''dep'' db of
             (i, db) \<Rightarrow>
               (case insert_row ((queued i orgID resourceID ''manual'' actor)
                       \<lparr>d_EnvironmentID := h_EnvironmentID o', d_ServerID := h_ServerID o', d_ConnectionID := h_ConnectionID o',
                        d_GitRef := h_Ref o', d_GitSHA := sha, d_ImagePin := deployPin i, d_ConfigHash := spec_hash db (rs_Spec r),
                        d_ServiceCount := composeServiceCount (rs_Compose r), d_BuildServerID := h_BuildServerID o'\<rparr>)
                      (supersedeInFlightTx orgID (h_ServerID o') resourceID db) of
                  Inl e \<Rightarrow> Inl e
                | Inr (d, db) \<Rightarrow>
                    let db = (if h_MapID o' \<noteq> '''' then db\<lparr>git_branch_map := map (\<lambda>m.
                                if m_ID m = h_MapID o' \<and> m_LastSHA m = '''' then m\<lparr>m_LastRef := h_Ref o', m_LastSHA := sha\<rparr> else m)
                                (git_branch_map db)\<rparr> else db)
                    in Inr ((d, d_ServerID d),
                            auditTx orgID actor (''Deploy queued from '' @ h_Branch o' @ '' head ('' @ take 7 sha @ '')'') resourceID db))))"

definition CreateHeadDeployment ::
  "db_verdict \<Rightarrow> string \<Rightarrow> string \<Rightarrow> string \<Rightarrow> HeadDeployOrigin \<Rightarrow> string \<Rightarrow> deploy_db \<Rightarrow> (Deployment \<times> string) res \<times> deploy_db" where
  "CreateHeadDeployment v orgID resourceID actor o' sha db =
     (if trim_space sha = '''' then (Inl (ErrInvalid ''commit sha is required''), db)
      else in_tx v (create_head_tx orgID resourceID actor o' sha) db)"


section \<open>Reports of the agents\<close>

definition deploymentReporterClause :: "deploy_db \<Rightarrow> string \<Rightarrow> Deployment \<Rightarrow> bool" where
  "deploymentReporterClause db serverID d =
     (case map_of (resources db) (d_ResourceID d) of
        None \<Rightarrow> False
      | Some r \<Rightarrow>
          (d_ServerID d \<noteq> '''' \<and> d_ServerID d = serverID) \<or>
          (d_BuildServerID d \<noteq> '''' \<and> d_BuildServerID d = serverID) \<or>
          (rs_ClusterID r \<noteq> '''' \<and> (rs_ClusterID r, serverID) \<in> set (cluster_nodes db)) \<or>
          (d_ResourceID d, serverID) \<in> set (placements db))"

definition in_flight_for :: "nat \<Rightarrow> string \<Rightarrow> string \<Rightarrow> deploy_db \<Rightarrow> Deployment option" where
  "in_flight_for tie serverID resourceID db =
     latest tie (filter (\<lambda>d. d_ResourceID d = resourceID \<and> deployInFlight (d_Status d) \<and> deploymentReporterClause db serverID d)
       (deployments db))"

definition stale_report :: "int \<Rightarrow> Deployment \<Rightarrow> bool" where
  "stale_report reportVersion d \<longleftrightarrow> reportVersion > 0 \<and> d_DsdVersion d > 0 \<and> reportVersion < d_DsdVersion d"

definition phase_target :: "string \<Rightarrow> string option" where
  "phase_target phase =
     (if phase = ''clone'' then Some ''building''
      else if phase = ''build'' then Some ''deploying''
      else if phase = ''rollout'' then Some ''success''
      else None)"

text \<open>
  The report of a phase reads the deployment first, outside any transaction (\<open>advance_plan\<close>), and
  writes the transition it decided on in a transaction of its own.
\<close>

definition advance_plan ::
  "nat \<Rightarrow> string \<Rightarrow> string \<Rightarrow> string \<Rightarrow> bool \<Rightarrow> string \<Rightarrow> int \<Rightarrow> deploy_db \<Rightarrow> (string \<times> DeploymentStatusUpdate) option" where
  "advance_plan tie serverID resourceID phase ok detail reportVersion db =
     (case in_flight_for tie serverID resourceID db of
        None \<Rightarrow> None
      | Some d \<Rightarrow>
          if stale_report reportVersion d then None
          else if \<not> ok then Some (d_ID d, no_update\<lparr>up_Status := ''failed'', up_Detail := detail, up_MarkFinished := True\<rparr>)
          else case phase_target phase of
                 None \<Rightarrow> None
               | Some target \<Rightarrow>
                   if deployStatusRank target \<le> deployStatusRank (d_Status d) then None
                   else Some (d_ID d, no_update\<lparr>up_Status := target, up_MarkStarted := True,
                          up_MarkFinished := (target = ''success''),
                          up_ImageDigest := (if target = ''success'' \<and> d_GitSHA d \<noteq> ''''
                             then pinnedImageTag resourceID (d_GitSHA d) (d_ImagePin d) else '''')\<rparr>))"

definition advance_write :: "db_verdict \<Rightarrow> (string \<times> DeploymentStatusUpdate) option \<Rightarrow> deploy_db \<Rightarrow> goerr option \<times> deploy_db" where
  "advance_write v plan db =
     (case plan of
        None \<Rightarrow> (None, db)
      | Some (depID, up) \<Rightarrow>
          (case SetDeploymentStatus v depID up db of
             (Inl e, db) \<Rightarrow> (if e = ErrConflict then None else Some e, db)
           | (Inr _, db) \<Rightarrow> (None, db)))"

definition AdvanceDeploymentForResource ::
  "goerr option \<Rightarrow> db_verdict \<Rightarrow> nat \<Rightarrow> string \<Rightarrow> string \<Rightarrow> string \<Rightarrow> bool \<Rightarrow> string \<Rightarrow> int \<Rightarrow> deploy_db \<Rightarrow> goerr option \<times> deploy_db" where
  "AdvanceDeploymentForResource fault v tie serverID resourceID phase ok detail reportVersion db =
     (case fault of
        Some e \<Rightarrow> (Some e, db)
      | None \<Rightarrow> advance_write v (advance_plan tie serverID resourceID phase ok detail reportVersion db) db)"

definition AppendDeployLogs :: "db_verdict \<Rightarrow> string \<Rightarrow> string \<Rightarrow> string \<Rightarrow> string list \<Rightarrow> deploy_db \<Rightarrow> goerr option \<times> deploy_db" where
  "AppendDeployLogs v serverID deploymentID stream ls db =
     (if ls = [] then (None, db)
      else let stream = (if stream = '''' then ''build'' else stream)
           in statement v (\<lambda>db. if list_ex (\<lambda>d. d_ID d = deploymentID \<and> deploymentReporterClause db serverID d) (deployments db)
                then db\<lparr>deploy_logs := deploy_logs db @ map (\<lambda>l. (deploymentID, stream, l)) ls\<rparr> else db) db)"

definition AppendDeployLog :: "db_verdict \<Rightarrow> string \<Rightarrow> string \<Rightarrow> string \<Rightarrow> string \<Rightarrow> deploy_db \<Rightarrow> goerr option \<times> deploy_db" where
  "AppendDeployLog v serverID deploymentID stream line = AppendDeployLogs v serverID deploymentID stream [line]"

text \<open>The failure of a prerequisite operation: what it decides on (deployment and detail), then its log line and its transition.\<close>

definition prereq_plan :: "nat \<Rightarrow> string \<Rightarrow> string \<Rightarrow> string \<Rightarrow> string \<Rightarrow> int \<Rightarrow> deploy_db \<Rightarrow> (string \<times> string) option" where
  "prereq_plan tie serverID resourceID opID errText reportVersion db =
     (case in_flight_for tie serverID resourceID db of
        None \<Rightarrow> None
      | Some d \<Rightarrow>
          if stale_report reportVersion d then None
          else Some (d_ID d, if errText \<noteq> '''' then opID @ '' failed: '' @ errText else opID @ '' failed''))"

definition prereq_write ::
  "db_verdict \<Rightarrow> db_verdict \<Rightarrow> string \<Rightarrow> (string \<times> string) option \<Rightarrow> deploy_db \<Rightarrow> goerr option \<times> deploy_db" where
  "prereq_write vlog v serverID plan db =
     (case plan of
        None \<Rightarrow> (None, db)
      | Some (depID, detail) \<Rightarrow>
          (case AppendDeployLog vlog serverID depID ''deploy'' detail db of
             (Some e, db) \<Rightarrow> (Some e, db)
           | (None, db) \<Rightarrow>
               advance_write v (Some (depID, no_update\<lparr>up_Status := ''failed'', up_Detail := detail, up_MarkFinished := True\<rparr>)) db))"

definition FailDeploymentFromPrereqOp ::
  "goerr option \<Rightarrow> db_verdict \<Rightarrow> db_verdict \<Rightarrow> nat \<Rightarrow> string \<Rightarrow> string \<Rightarrow> string \<Rightarrow> string \<Rightarrow> int \<Rightarrow> deploy_db \<Rightarrow> goerr option \<times> deploy_db" where
  "FailDeploymentFromPrereqOp fault vlog v tie serverID resourceID opID errText reportVersion db =
     (case fault of
        Some e \<Rightarrow> (Some e, db)
      | None \<Rightarrow> prereq_write vlog v serverID (prereq_plan tie serverID resourceID opID errText reportVersion db) db)"

definition service_state :: "bool \<Rightarrow> string \<Rightarrow> string option" where
  "service_state ok phase =
     (if \<not> ok then Some ''failed''
      else if phase = ''build'' then Some ''deploying''
      else if phase = ''rollout'' then Some ''success''
      else None)"

definition roll_up :: "(string \<times> string) list \<Rightarrow> int \<Rightarrow> string \<Rightarrow> DeploymentStatusUpdate" where
  "roll_up statuses serviceCount detail =
     (if list_ex (\<lambda>(s, st). st = ''failed'') statuses
      then no_update\<lparr>up_Status := ''failed'', up_Detail := detail, up_MarkFinished := True\<rparr>
      else if serviceCount > 0 \<and> int (length (filter (\<lambda>(s, st). st = ''success'') statuses)) \<ge> serviceCount
      then no_update\<lparr>up_Status := ''success'', up_MarkStarted := True, up_MarkFinished := True\<rparr>
      else no_update\<lparr>up_Status := ''deploying'', up_MarkStarted := True\<rparr>)"

text \<open>
  A service's report selects its deployment without a lock (\<open>service_plan\<close>: the identifier and the service count). Its \<open>UPDATE\<close> then
  goes by the identifier alone, whatever became of the row in between (\<open>service_write\<close>): on a row that finished meanwhile the
  transition is refused and the service's status is committed all the same. The \<open>UPDATE\<close> locks the row, so the
  transition sees the row it wrote. \<open>advance_service_tx\<close> is the two with nothing between.
\<close>

definition service_plan :: "nat \<Rightarrow> string \<Rightarrow> string \<Rightarrow> int \<Rightarrow> deploy_db \<Rightarrow> (string \<times> int) option" where
  "service_plan tie serverID resourceID reportVersion db =
     (case in_flight_for tie serverID resourceID db of
        None \<Rightarrow> None
      | Some d \<Rightarrow> if stale_report reportVersion d then None else Some (d_ID d, d_ServiceCount d))"

definition service_write :: "string \<Rightarrow> int \<Rightarrow> string \<Rightarrow> string \<Rightarrow> string \<Rightarrow> unit tx" where
  "service_write depID serviceCount service svcStatus detail db =
     (case row depID db of
        None \<Rightarrow> Inl ErrNoRows
      | Some d \<Rightarrow>
          let statuses = (if map_of (d_ServiceStatus d) service = Some ''success'' then d_ServiceStatus d
                          else AList.update service svcStatus (d_ServiceStatus d));
              db1 = update_row depID (\<lambda>d. d\<lparr>d_ServiceStatus := statuses\<rparr>) db
          in case setDeploymentStatusTx depID (roll_up statuses serviceCount detail) db1 of
               Inl e \<Rightarrow> if e = ErrConflict then Inr ((), db1) else Inl e
             | Inr (_, db2) \<Rightarrow> Inr ((), db2))"

definition advance_service_tx :: "nat \<Rightarrow> string \<Rightarrow> string \<Rightarrow> string \<Rightarrow> string \<Rightarrow> string \<Rightarrow> int \<Rightarrow> unit tx" where
  "advance_service_tx tie serverID resourceID service svcStatus detail reportVersion db =
     (case service_plan tie serverID resourceID reportVersion db of
        None \<Rightarrow> Inr ((), db)
      | Some (depID, serviceCount) \<Rightarrow> service_write depID serviceCount service svcStatus detail db)"

definition AdvanceDeploymentService ::
  "db_verdict \<Rightarrow> nat \<Rightarrow> string \<Rightarrow> string \<Rightarrow> string \<Rightarrow> string \<Rightarrow> bool \<Rightarrow> string \<Rightarrow> int \<Rightarrow> deploy_db \<Rightarrow> goerr option \<times> deploy_db" where
  "AdvanceDeploymentService v tie serverID resourceID service phase ok detail reportVersion db =
     (case service_state ok phase of
        None \<Rightarrow> (None, db)
      | Some svcStatus \<Rightarrow>
          (case in_tx v (advance_service_tx tie serverID resourceID service svcStatus detail reportVersion) db of
             (Inl e, db) \<Rightarrow> (Some e, db)
           | (Inr _, db) \<Rightarrow> (None, db)))"

section \<open>Queries\<close>

definition RollbackWindow :: int where
  "RollbackWindow = 10"

definition rollback_eligible :: "Deployment \<Rightarrow> bool" where
  "rollback_eligible d \<longleftrightarrow> d_Status d = ''success'' \<and> (d_ImagePin d \<noteq> '''' \<or> (d_ImageDigest d \<noteq> '''' \<and> d_ServiceCount d = 0))"

text \<open>Among equal stamps the rows are listed in the order of their insertion, the last first.\<close>

definition RollbackTargets :: "string \<Rightarrow> string \<Rightarrow> int \<Rightarrow> deploy_db \<Rightarrow> Deployment list" where
  "RollbackTargets orgID resourceID limit db =
     (let limit = (if limit \<le> 0 \<or> limit > RollbackWindow then RollbackWindow else limit)
      in take (nat limit) (sort_key (\<lambda>d. - d_CreatedAt d) (filter rollback_eligible (history orgID resourceID db))))"

definition DeployTargetsForServer :: "nat \<Rightarrow> string \<Rightarrow> string \<Rightarrow> deploy_db \<Rightarrow> Deployment option" where
  "DeployTargetsForServer tie serverID resourceID db =
     (if map_of (resources db) resourceID = None then None
      else latest tie (filter (\<lambda>d. d_ResourceID d = resourceID \<and>
             (deployInFlight (d_Status d) \<or> d_Status d = ''success'') \<and>
             d_ConnectionID d \<in> set (map fst (git_connections db)) \<and>
             ((d_ServerID d \<noteq> '''' \<and> d_ServerID d = serverID) \<or> (d_BuildServerID d \<noteq> '''' \<and> d_BuildServerID d = serverID) \<or>
              (resourceID, serverID) \<in> set (placements db))) (deployments db)))"


end
