(* ===== verification/Deploy_Props.thy ===== *)
theory Deploy_Props
  imports Deploy
begin

text \<open>
  The runs of the control plane on the release history. Every transaction is shown to act on the table by two kinds of
  change only: a change of rows that alters nothing of a finished one but its map of services, and the entry of a queued row, which
  is either a config deployment or finds no other deployment than config deployments in flight under its key. The
  invariants of the history are proved for these two.
\<close>

section \<open>Changes of the table\<close>

definition row_key :: "Deployment \<Rightarrow> string \<times> string \<times> string" where
  "row_key d = (d_OrgID d, d_ResourceID d, d_ServerID d)"

abbreviation in_flight :: "Deployment \<Rightarrow> bool" where
  "in_flight d \<equiv> deployInFlight (d_Status d)"

abbreviation finished :: "Deployment \<Rightarrow> bool" where
  "finished d \<equiv> terminalDeployStatus (d_Status d)"

lemma in_flight_not_finished: "in_flight d \<Longrightarrow> \<not> finished d"
  by (auto simp: deployInFlight_def terminalDeployStatus_def)

text \<open>The map of a finished row's services may still grow; a service that succeeded stays recorded so.\<close>

definition service_grown :: "Deployment \<Rightarrow> Deployment \<Rightarrow> bool" where
  "service_grown d d' \<longleftrightarrow> d'\<lparr>d_ServiceStatus := d_ServiceStatus d\<rparr> = d \<and>
     (\<forall>s. map_of (d_ServiceStatus d) s = Some ''success'' \<longrightarrow> map_of (d_ServiceStatus d') s = Some ''success'')"

lemma service_grown_refl [simp]: "service_grown d d"
  by (simp add: service_grown_def)

lemma service_grown_iff:
  "service_grown d d' \<longleftrightarrow> (\<exists>ss. d' = d\<lparr>d_ServiceStatus := ss\<rparr> \<and>
     (\<forall>s. map_of (d_ServiceStatus d) s = Some ''success'' \<longrightarrow> map_of ss s = Some ''success''))"
proof
  assume grown: "service_grown d d'"
  then have "d' = d\<lparr>d_ServiceStatus := d_ServiceStatus d'\<rparr>"
    by (metis (no_types) service_grown_def Deployment.surjective Deployment.update_convs(23))
  with grown show "\<exists>ss. d' = d\<lparr>d_ServiceStatus := ss\<rparr> \<and>
     (\<forall>s. map_of (d_ServiceStatus d) s = Some ''success'' \<longrightarrow> map_of ss s = Some ''success'')"
    by (auto simp: service_grown_def)
qed (auto simp: service_grown_def)

lemma service_grown_trans: "service_grown a b \<Longrightarrow> service_grown b c \<Longrightarrow> service_grown a c"
  by (auto simp: service_grown_iff)

lemma service_grown_frame:
  "service_grown d d' \<Longrightarrow> d_ID d' = d_ID d \<and> d_Status d' = d_Status d \<and> row_key d' = row_key d \<and> d_Trigger d' = d_Trigger d"
  by (auto simp: service_grown_iff row_key_def)

definition lawful :: "(Deployment \<Rightarrow> Deployment) \<Rightarrow> Deployment \<Rightarrow> bool" where
  "lawful f d \<longleftrightarrow> d_ID (f d) = d_ID d \<and> row_key (f d) = row_key d \<and> d_Trigger (f d) = d_Trigger d \<and>
     (finished d \<longrightarrow> service_grown d (f d)) \<and> (in_flight d \<longrightarrow> in_flight (f d) \<or> finished (f d))"

text \<open>The deployments the advisory lock guards: in flight and not created by a change of configuration.\<close>

definition contends :: "Deployment \<Rightarrow> bool" where
  "contends d \<longleftrightarrow> in_flight d \<and> d_Trigger d \<noteq> ''config''"

inductive rows_step :: "Deployment list \<Rightarrow> Deployment list \<Rightarrow> bool" where
  change: "(\<And>d. d \<in> set ds \<Longrightarrow> lawful f d) \<Longrightarrow> rows_step ds (map f ds)"
| enter: "d_ID d \<notin> d_ID ` set ds \<Longrightarrow> d_Status d = ''queued'' \<Longrightarrow>
    (\<And>x. x \<in> set ds \<Longrightarrow> contends x \<Longrightarrow> d_Trigger d \<noteq> ''config'' \<Longrightarrow> row_key x \<noteq> row_key d) \<Longrightarrow> rows_step ds (d # ds)"

fun newest_contends :: "Deployment list \<Rightarrow> bool" where
  "newest_contends [] \<longleftrightarrow> True"
| "newest_contends (d # ds) \<longleftrightarrow>
     (d_Trigger d \<noteq> ''config'' \<longrightarrow> (\<forall>x\<in>set ds. contends x \<longrightarrow> row_key x \<noteq> row_key d)) \<and> newest_contends ds"

definition rows_inv :: "Deployment list \<Rightarrow> bool" where
  "rows_inv ds \<longleftrightarrow> distinct (map d_ID ds) \<and> (\<forall>d\<in>set ds. in_flight d \<or> finished d) \<and> newest_contends ds"

lemma lawful_contends: "lawful f d \<Longrightarrow> in_flight d \<or> finished d \<Longrightarrow> contends (f d) \<Longrightarrow> contends d"
  using service_grown_frame [of d "f d"] in_flight_not_finished [of d] in_flight_not_finished [of "f d"]
  by (auto simp: lawful_def contends_def)

lemma newest_map:
  assumes "\<And>d. d \<in> set ds \<Longrightarrow> lawful f d" "\<And>d. d \<in> set ds \<Longrightarrow> in_flight d \<or> finished d" "newest_contends ds"
  shows "newest_contends (map f ds)"
  using assms
proof (induction ds)
  case (Cons d ds)
  have "row_key (f x) \<noteq> row_key (f d)" if "x \<in> set ds" "contends (f x)" "d_Trigger (f d) \<noteq> ''config''" for x
  proof -
    have "contends x" using Cons.prems(1,2) [of x] that by (intro lawful_contends [of f x]) auto
    then show ?thesis using Cons.prems that(1,3) by (auto simp: lawful_def)
  qed
  with Cons show ?case by auto
qed simp

lemma rows_step_inv: "rows_step ds ds' \<Longrightarrow> rows_inv ds \<Longrightarrow> rows_inv ds'"
proof (induction rule: rows_step.induct)
  case (change ds f)
  have ids: "map d_ID (map f ds) = map d_ID ds" using change.hyps by (auto simp: lawful_def)
  show ?case
    unfolding rows_inv_def ids
  proof (intro conjI ballI)
    show "distinct (map d_ID ds)" using change.prems by (simp add: rows_inv_def)
    show "newest_contends (map f ds)" using change by (intro newest_map) (auto simp: rows_inv_def)
    fix d assume "d \<in> set (map f ds)"
    then obtain x where x: "x \<in> set ds" "d = f x" by auto
    then show "in_flight d \<or> finished d"
      using change.hyps [OF x(1)] change.prems service_grown_frame [of x "f x"] by (auto simp: lawful_def rows_inv_def)
  qed
next
  case (enter d ds)
  then show ?case by (auto simp: rows_inv_def deployInFlight_def)
qed

lemma rows_steps_inv: "rows_step\<^sup>*\<^sup>* ds ds' \<Longrightarrow> rows_inv ds \<Longrightarrow> rows_inv ds'"
  by (induction rule: rtranclp_induct) (auto intro: rows_step_inv)

lemma rows_step_frozen: "rows_step ds ds' \<Longrightarrow> d \<in> set ds \<Longrightarrow> finished d \<Longrightarrow> \<exists>d'\<in>set ds'. service_grown d d'"
proof (induction rule: rows_step.induct)
  case (enter e ds)
  then show ?case by (intro bexI [of _ d]) auto
qed (auto simp: lawful_def)

lemma rows_steps_frozen: "rows_step\<^sup>*\<^sup>* ds ds' \<Longrightarrow> d \<in> set ds \<Longrightarrow> finished d \<Longrightarrow> \<exists>d'\<in>set ds'. service_grown d d'"
proof (induction rule: rtranclp_induct)
  case (step ds1 ds2)
  then obtain d1 where d1: "d1 \<in> set ds1" "service_grown d d1" by blast
  moreover have "finished d1" using step.prems service_grown_frame [OF d1(2)] by simp
  ultimately show ?case using rows_step_frozen [OF step.hyps(2)] service_grown_trans by blast
qed (auto intro: bexI [of _ d])

lemma newest_unique:
  "newest_contends ds \<Longrightarrow> d \<in> set ds \<Longrightarrow> e \<in> set ds \<Longrightarrow> contends d \<Longrightarrow> contends e \<Longrightarrow> row_key d = row_key e \<Longrightarrow> d = e"
  by (induction ds) (auto simp: contends_def)

text \<open>A transaction keeps the resources and changes the table by such steps.\<close>

definition table_run :: "deploy_db \<Rightarrow> deploy_db \<Rightarrow> bool" where
  "table_run db db' \<longleftrightarrow> resources db' = resources db \<and> rows_step\<^sup>*\<^sup>* (deployments db) (deployments db')"

lemma table_run_refl [simp]: "deployments db' = deployments db \<Longrightarrow> resources db' = resources db \<Longrightarrow> table_run db db'"
  by (simp add: table_run_def)

lemma table_run_trans: "table_run a b \<Longrightarrow> table_run b c \<Longrightarrow> table_run a c"
  by (auto simp: table_run_def)

lemma table_run_change:
  "(\<And>d. d \<in> set (deployments db) \<Longrightarrow> lawful f d) \<Longrightarrow> deployments db' = map f (deployments db) \<Longrightarrow>
   resources db' = resources db \<Longrightarrow> table_run db db'"
  by (simp add: table_run_def rows_step.change r_into_rtranclp)

lemma table_run_enter:
  "d_ID d \<notin> d_ID ` set (deployments db) \<Longrightarrow> d_Status d = ''queued'' \<Longrightarrow>
   (\<And>x. x \<in> set (deployments db) \<Longrightarrow> contends x \<Longrightarrow> d_Trigger d \<noteq> ''config'' \<Longrightarrow> row_key x \<noteq> row_key d) \<Longrightarrow>
   deployments db' = d # deployments db \<Longrightarrow> resources db' = resources db \<Longrightarrow> table_run db db'"
  by (simp add: table_run_def rows_step.enter r_into_rtranclp)

definition db_inv :: "deploy_db \<Rightarrow> bool" where
  "db_inv db \<longleftrightarrow> rows_inv (deployments db) \<and> [] \<notin> fst ` set (resources db)"

lemma table_run_inv: "table_run db db' \<Longrightarrow> db_inv db \<Longrightarrow> db_inv db'"
  by (auto simp: table_run_def db_inv_def intro: rows_steps_inv)

section \<open>Transactions as changes of the table\<close>

definition valid_status :: "string \<Rightarrow> bool" where
  "valid_status s \<longleftrightarrow> deployInFlight s \<or> terminalDeployStatus s"

lemma distinct_idD: "distinct (map d_ID ds) \<Longrightarrow> d \<in> set ds \<Longrightarrow> e \<in> set ds \<Longrightarrow> d_ID d = d_ID e \<Longrightarrow> d = e"
  by (auto simp: distinct_map dest: inj_onD)

lemma row_SomeD: "row i db = Some d \<Longrightarrow> d \<in> set (deployments db) \<and> d_ID d = i"
  by (auto simp: row_def find_Some_iff)

lemma enqueue_frame [simp]:
  "deployments (enqueueAlertTx a v b c e db) = deployments db" "now (enqueueAlertTx a v b c e db) = now db"
  "resources (enqueueAlertTx a v b c e db) = resources db"
  by (simp_all add: enqueueAlertTx_def)

lemma audit_frame [simp]:
  "deployments (auditTx a b c e db) = deployments db" "now (auditTx a b c e db) = now db" "resources (auditTx a b c e db) = resources db"
  by (simp_all add: auditTx_def)

lemma update_row_frame [simp]:
  "now (update_row i f db) = now db" "resources (update_row i f db) = resources db"
  "deployments (update_row i f db) = map (\<lambda>d. if d_ID d = i then f d else d) (deployments db)"
  by (simp_all add: update_row_def)

lemma newID_frame: "newID p db = (i, db') \<Longrightarrow> deployments db' = deployments db \<and> now db' = now db \<and> resources db' = resources db"
  by (auto simp: newID_def)

lemma apply_update_frame [simp]:
  "d_ID (apply_update t up d) = d_ID d" "row_key (apply_update t up d) = row_key d"
  "d_Trigger (apply_update t up d) = d_Trigger d" "d_Status (apply_update t up d) = up_Status up"
  by (simp_all add: apply_update_def row_key_def)

lemma update_row_run:
  assumes inv: "db_inv db" and r: "row i db = Some r" and f: "lawful f r"
  shows "table_run db (update_row i f db)"
proof (rule table_run_change)
  fix d assume d: "d \<in> set (deployments db)"
  show "lawful (\<lambda>d. if d_ID d = i then f d else d) d"
  proof (cases "d_ID d = i")
    case True
    have "d = r" using inv row_SomeD [OF r] d True by (intro distinct_idD) (auto simp: db_inv_def rows_inv_def)
    with f True show ?thesis by (simp add: lawful_def)
  qed (simp add: lawful_def)
qed simp_all

lemma set_status_run:
  assumes "db_inv db" "valid_status (up_Status up)" "setDeploymentStatusTx i up db = Inr (u, db')"
  shows "table_run db db'"
proof -
  obtain r where r: "row i db = Some r" "\<not> finished r"
    using assms(3) by (auto simp: setDeploymentStatusTx_def split: option.splits if_splits)
  have "table_run db (update_row i (apply_update (now db) up) db)"
    using r assms(2) by (intro update_row_run [OF assms(1) r(1)]) (auto simp: lawful_def valid_status_def)
  moreover have "deployments db' = deployments (update_row i (apply_update (now db) up) db)" "now db' = now db" "resources db' = resources db"
    using assms(3) r by (auto simp: setDeploymentStatusTx_def Let_def split: if_splits option.splits)
  ultimately show ?thesis by (simp add: table_run_def)
qed

lemma no_update_simps [simp]: "up_Status (no_update\<lparr>up_Status := s, up_Detail := d, up_MarkFinished := b\<rparr>) = s"
  by (simp add: no_update_def)

lemma valid_failed [simp]: "valid_status ''failed''" "valid_status ''queued''" "valid_status ''building''" "valid_status ''deploying''"
  "valid_status ''success''"
  by (simp_all add: valid_status_def terminalDeployStatus_def deployInFlight_def)

lemma fail_each_run: "fail_each is' n db = Inr (k, db') \<Longrightarrow> db_inv db \<Longrightarrow> table_run db db'"
proof (induction is' arbitrary: n db)
  case (Cons i is')
  show ?case
  proof (cases "setDeploymentStatusTx i
             (no_update\<lparr>up_Status := ''failed'', up_Detail := ''timed out'' @ [CHR '' '', CHR 0xE2, CHR 0x80, CHR 0x94] @
                '' the agent stopped reporting progress'', up_MarkFinished := True\<rparr>) db")
    case (Inl e)
    with Cons.prems have "fail_each is' n db = Inr (k, db')" by (simp split: if_splits)
    from Cons.IH [OF this Cons.prems(2)] show ?thesis .
  next
    case (Inr x)
    obtain u db1 where x: "x = (u, db1)" by (metis surj_pair)
    have run: "table_run db db1" by (rule set_status_run [OF Cons.prems(2) _ Inr [unfolded x]]) simp
    have "fail_each is' (n + 1) db1 = Inr (k, db')" using Cons.prems(1) Inr x by simp
    from Cons.IH [OF this table_run_inv [OF run Cons.prems(2)]] run show ?thesis by (blast intro: table_run_trans)
  qed
qed simp

lemma supersede_frame [simp]:
  "now (supersedeInFlightTx a b c db) = now db" "resources (supersedeInFlightTx a b c db) = resources db"
  by (simp_all add: supersedeInFlightTx_def)

lemma supersede_row_kept: "\<not> (in_flight d \<and> row_key d = (orgID, rid, sid)) \<Longrightarrow> supersede_row t orgID sid rid d = d"
  unfolding supersede_row_def row_key_def by (rule if_not_P) auto

lemma supersede_row_closed:
  "in_flight d \<Longrightarrow> row_key d = (orgID, rid, sid) \<Longrightarrow> d_Status (supersede_row t orgID sid rid d) = ''superseded''"
  by (simp add: supersede_row_def row_key_def)

lemma supersede_row_frame [simp]:
  "d_ID (supersede_row t orgID sid rid d) = d_ID d" "row_key (supersede_row t orgID sid rid d) = row_key d"
  "d_Trigger (supersede_row t orgID sid rid d) = d_Trigger d"
  by (simp_all add: supersede_row_def row_key_def)

lemma superseded_finished: "terminalDeployStatus ''superseded''" "\<not> deployInFlight ''superseded''"
  by (simp_all add: terminalDeployStatus_def deployInFlight_def)

lemma supersede_lawful: "lawful (supersede_row t orgID sid rid) d"
proof (cases "in_flight d \<and> row_key d = (orgID, rid, sid)")
  case True
  then have "d_Status (supersede_row t orgID sid rid d) = ''superseded''" by (simp add: supersede_row_closed)
  with True in_flight_not_finished show ?thesis by (simp add: lawful_def superseded_finished)
qed (simp add: lawful_def supersede_row_kept)

lemma supersede_run: "table_run db (supersedeInFlightTx orgID sid rid db)"
proof (cases "rid = ''''")
  case False
  show ?thesis
    by (rule table_run_change [where f = "supersede_row (now db) orgID sid rid", OF supersede_lawful])
       (use False in \<open>simp_all add: supersedeInFlightTx_def\<close>)
qed (simp add: supersedeInFlightTx_def)

lemma supersede_clears:
  assumes "rid \<noteq> ''''" "x \<in> set (deployments (supersedeInFlightTx orgID sid rid db))" "in_flight x"
  shows "row_key x \<noteq> (orgID, rid, sid)"
proof
  assume key: "row_key x = (orgID, rid, sid)"
  from assms(1,2) obtain d where d: "x = supersede_row (now db) orgID sid rid d"
    by (auto simp: supersedeInFlightTx_def)
  show False
  proof (cases "in_flight d")
    case True
    with key d have "d_Status x = ''superseded''" by (simp add: supersede_row_closed)
    with assms(3) show False by (simp add: superseded_finished)
  next
    case False
    with d assms(3) show False by (simp add: supersede_row_kept)
  qed
qed

lemma insert_row_run:
  assumes "insert_row d db = Inr (d', db')" "d_Status d = ''queued''"
    and "\<And>x. x \<in> set (deployments db) \<Longrightarrow> contends x \<Longrightarrow> d_Trigger d \<noteq> ''config'' \<Longrightarrow> row_key x \<noteq> row_key d"
  shows "table_run db db' \<and> d' = d\<lparr>d_CreatedAt := now db\<rparr> \<and> deployments db' = d' # deployments db"
proof -
  have new: "d_ID d \<notin> d_ID ` set (deployments db)" and d': "d' = d\<lparr>d_CreatedAt := now db\<rparr>"
    and db': "db' = db\<lparr>deployments := d' # deployments db\<rparr>"
    using assms(1) by (force simp: insert_row_def list_ex_iff Let_def split: if_splits)+
  have "table_run db db'"
    by (rule table_run_enter [of d'])
       (use new assms(2,3) in \<open>simp_all add: d' db' row_key_def\<close>)
  with d' db' show ?thesis by simp
qed

lemma supersede_insert_run:
  assumes "insert_row d (supersedeInFlightTx (d_OrgID d) (d_ServerID d) (d_ResourceID d) db) = Inr (d', db')"
    and "d_Status d = ''queued''" "d_ResourceID d \<noteq> ''''"
  shows "table_run db db'"
proof -
  have "table_run (supersedeInFlightTx (d_OrgID d) (d_ServerID d) (d_ResourceID d) db) db'"
    using insert_row_run [OF assms(1,2)] supersede_clears [OF assms(3)] by (fastforce simp: row_key_def contends_def)
  then show ?thesis by (rule table_run_trans [OF supersede_run])
qed


lemma resource_named: "db_inv db \<Longrightarrow> org_resource orgID rid db = Some r \<Longrightarrow> rid \<noteq> ''''"
  by (auto simp: org_resource_def db_inv_def image_iff dest!: map_of_SomeD split: option.splits if_splits)

lemma service_count_resource: "resourceServiceCountTx orgID rid db = Inr n \<Longrightarrow> \<exists>r. org_resource orgID rid db = Some r"
  by (simp add: resourceServiceCountTx_def split: option.splits)

lemma created_run:
  assumes "newID p db = (i, db1)" "supersede_and_insert d actor action db1 = Inr (d', db')"
    and "d_Status d = ''queued''" "d_ResourceID d \<noteq> ''''"
  shows "table_run db db'"
proof -
  obtain db2 where ins: "insert_row d (supersedeInFlightTx (d_OrgID d) (d_ServerID d) (d_ResourceID d) db1) = Inr (d', db2)"
    and db': "db' = auditTx (d_OrgID d) actor action (d_ResourceID d) db2"
    using assms(2) by (auto simp: supersede_and_insert_def split: sum.splits)
  have "table_run db db1" using newID_frame [OF assms(1)] by simp
  moreover have "table_run db1 db2" by (rule supersede_insert_run [OF ins assms(3,4)])
  moreover have "table_run db2 db'" by (simp add: db')
  ultimately show ?thesis by (blast intro: table_run_trans)
qed

lemma queued_simps [simp]:
  "d_Status (queued i orgID rid tr actor) = ''queued''" "d_ResourceID (queued i orgID rid tr actor) = rid"
  "d_OrgID (queued i orgID rid tr actor) = orgID" "d_ID (queued i orgID rid tr actor) = i"
  by (simp_all add: queued_def)

lemma rollback_run:
  assumes "create_rollback_tx tie orgID rid target actor db = Inr (x, db')" "db_inv db"
  shows "table_run db db'"
proof -
  obtain n where n: "resourceServiceCountTx orgID rid db = Inr n"
    using assms(1) by (auto simp: create_rollback_tx_def Let_def split: option.splits if_splits sum.splits)
  then have "rid \<noteq> ''''" using service_count_resource resource_named [OF assms(2)] by blast
  with assms(1) n show ?thesis
    by (auto simp: create_rollback_tx_def Let_def split: option.splits if_splits sum.splits prod.splits
        intro: created_run)
qed

lemma redeploy_run:
  assumes "create_redeploy_tx tie orgID rid actor db = Inr (x, db')" "db_inv db"
  shows "table_run db db'"
proof -
  obtain n where n: "resourceServiceCountTx orgID rid db = Inr n"
    using assms(1) by (auto simp: create_redeploy_tx_def split: option.splits sum.splits)
  then have "rid \<noteq> ''''" using service_count_resource resource_named [OF assms(2)] by blast
  with assms(1) n show ?thesis
    by (auto simp: create_redeploy_tx_def split: option.splits sum.splits prod.splits intro: created_run)
qed

lemma head_run:
  assumes "create_head_tx orgID rid actor h sha db = Inr (x, db')" "db_inv db"
  shows "table_run db db'"
proof -
  obtain r i db1 where r: "org_resource orgID rid db = Some r" and i: "newID ''dep'' db = (i, db1)"
    using assms(1) by (auto simp: create_head_tx_def split: option.splits prod.splits)
  have rid: "rid \<noteq> ''''" by (rule resource_named [OF assms(2) r])
  obtain d d' db2 where ins0: "insert_row d (supersedeInFlightTx orgID (h_ServerID h) rid db1) = Inr (d', db2)"
    and d: "d_Status d = ''queued''" "row_key d = (orgID, rid, h_ServerID h)"
    and db': "deployments db' = deployments db2" "now db' = now db2" "resources db' = resources db2"
    using assms(1) r i by (fastforce simp: create_head_tx_def Let_def row_key_def split: sum.splits)
  have ins: "insert_row d (supersedeInFlightTx (d_OrgID d) (d_ServerID d) (d_ResourceID d) db1) = Inr (d', db2)"
    using ins0 d(2) by (simp add: row_key_def)
  have "table_run db db1" using newID_frame [OF i] by simp
  moreover have "table_run db1 db2" by (rule supersede_insert_run [OF ins d(1)]) (use d rid in \<open>simp add: row_key_def\<close>)
  moreover have "table_run db2 db'" using db' by simp
  ultimately show ?thesis by (blast intro: table_run_trans)
qed

lemma drain_apps_run:
  "drain_apps q b apps seen db = Inr (x, db') \<Longrightarrow> [] \<notin> fst ` set apps \<Longrightarrow> table_run db db'"
proof (induction apps arbitrary: seen db)
  case (Cons app apps)
  obtain aid a where app: "app = (aid, a)" by force
  define dbs where "dbs = supersedeInFlightTx (q_OrgID q) (rs_ServerID a) aid db"
  obtain i db1 where i: "newID ''dep'' dbs = (i, db1)" by force
  have aid: "aid \<noteq> ''''" using Cons.prems(2) app by auto
  obtain d d' db2 seen' where ins: "insert_row d db1 = Inr (d', db2)" and rest: "drain_apps q b apps seen' db2 = Inr (x, db')"
    and d: "d_Status d = ''queued''" "row_key d = (q_OrgID q, aid, rs_ServerID a)"
    using Cons.prems(1) i by (fastforce simp: app dbs_def row_key_def split: sum.splits)
  have frame: "deployments db1 = deployments dbs" using newID_frame [OF i] by simp
  have "row_key y \<noteq> row_key d" if "y \<in> set (deployments db1)" "contends y" for y
    using supersede_clears [OF aid, of y "q_OrgID q" "rs_ServerID a" db] that by (simp add: d frame dbs_def contends_def)
  then have "table_run db1 db2" using insert_row_run [OF ins d(1)] by blast
  moreover have "table_run dbs db1" using newID_frame [OF i] by simp
  moreover have "table_run db dbs" unfolding dbs_def by (rule supersede_run)
  moreover have "table_run db2 db'" using Cons.IH [OF rest] Cons.prems(2) by simp
  ultimately show ?case by (blast intro: table_run_trans)
qed simp

lemma drain_one_run:
  assumes "drain_one tie q seen db = Inr (x, db')" "db_inv db"
  shows "table_run db db'"
proof (cases "map_of (git_connections db) (q_ConnectionID q)")
  case (Some project)
  define apps where "apps = filter (\<lambda>(i, r). rs_OrgID r = q_OrgID q \<and> rs_ProjectID r = project \<and>
    rs_EnvironmentID r = q_EnvironmentID q \<and> rs_Kind r = ''app'') (resources db)"
  obtain seen1 db1 where d: "drain_apps q (branch_build_server tie (q_ConnectionID q) (q_EnvironmentID q) db) apps seen db = Inr (seen1, db1)"
    and db': "deployments db' = deployments db1" "now db' = now db1" "resources db' = resources db1"
    using assms(1) Some by (force simp: drain_one_def apps_def [symmetric] Let_def split: sum.splits prod.splits if_splits)
  have "[] \<notin> fst ` set apps" using assms(2) by (auto simp: apps_def db_inv_def image_iff)
  from drain_apps_run [OF d this] show ?thesis using db' by (auto intro: table_run_trans)
qed (use assms(1) in \<open>simp add: drain_one_def\<close>)

lemma drain_each_run: "drain_each tie qs seen db = Inr (x, db') \<Longrightarrow> db_inv db \<Longrightarrow> table_run db db'"
proof (induction qs arbitrary: seen db)
  case (Cons q qs)
  obtain seen1 db1 where q: "drain_one tie q seen db = Inr (seen1, db1)" and rest: "drain_each tie qs seen1 db1 = Inr (x, db')"
    using Cons.prems(1) by (auto split: sum.splits)
  note run = drain_one_run [OF q Cons.prems(2)]
  from run Cons.IH [OF rest table_run_inv [OF run Cons.prems(2)]] show ?case by (rule table_run_trans)
qed simp


lemma config_row_queued:
  "config_row tie orgID actor rid i db = Inr (Some d) \<Longrightarrow>
   d_ID d = i \<and> d_Status d = ''queued'' \<and> d_Trigger d = ''config'' \<and> d_OrgID d = orgID \<and> d_ResourceID d = rid"
  by (auto simp: config_row_def queued_def Let_def split: option.splits if_splits sum.splits)

lemma config_insert_run:
  assumes "config_insert reason d seen db = Inr (x, db')" "d_Status d = ''queued''" "d_Trigger d = ''config''"
  shows "table_run db db'"
proof -
  obtain d' db1 where ins: "insert_row d db = Inr (d', db1)" and db': "deployments db' = deployments db1" "resources db' = resources db1"
    using assms(1) by (auto simp: config_insert_def split: sum.splits)
  have "table_run db db1" using insert_row_run [OF ins assms(2)] assms(3) by blast
  moreover have "table_run db1 db'" using db' by simp
  ultimately show ?thesis by (rule table_run_trans)
qed

lemma config_one_run:
  assumes "config_one tie orgID actor reason rid seen db = Inr (x, db')"
  shows "table_run db db'"
proof -
  obtain i db1 where i: "newID ''dep'' db = (i, db1)" by force
  consider "db' = db" | d where "config_row tie orgID actor rid i db = Inr (Some d)" "config_insert reason d seen db1 = Inr (x, db')"
    using assms i by (auto simp: config_one_def split: sum.splits option.splits)
  then show ?thesis
  proof cases
    case 2
    have "table_run db db1" using newID_frame [OF i] by simp
    moreover have "table_run db1 db'" by (rule config_insert_run [OF 2(2)]) (use config_row_queued [OF 2(1)] in simp_all)
    ultimately show ?thesis by (rule table_run_trans)
  qed simp
qed

lemma config_each_run: "config_each tie orgID actor reason rs seen db = Inr (x, db') \<Longrightarrow> table_run db db'"
proof (induction rs arbitrary: seen db)
  case (Cons r rs)
  obtain seen1 db1 where r: "config_one tie orgID actor reason r seen db = Inr (seen1, db1)"
    and rest: "config_each tie orgID actor reason rs seen1 db1 = Inr (x, db')"
    using Cons.prems by (auto split: sum.splits)
  from config_one_run [OF r] Cons.IH [OF rest] show ?case by (rule table_run_trans)
qed simp

lemma latest_of:
  assumes "latest tie ds = Some d"
  shows "d \<in> set ds \<and> (\<forall>x\<in>set ds. d_CreatedAt x \<le> d_CreatedAt d)"
proof -
  let ?m = "Max (set (map d_CreatedAt ds))"
  let ?cs = "filter (\<lambda>d. d_CreatedAt d = ?m) ds"
  have ne: "ds \<noteq> []" using assms by (auto simp: latest_def)
  then have "?m \<in> set (map d_CreatedAt ds)" by (intro Max_in) auto
  then have "?cs \<noteq> []" by (auto simp: filter_empty_conv)
  then have "?cs ! (tie mod length ?cs) \<in> set ?cs" by (intro nth_mem) simp
  then have "d \<in> set ?cs" using assms ne by (auto simp: latest_def Let_def)
  then show ?thesis by simp
qed

lemmas latest_mem = conjunct1 [OF latest_of] and latest_max = bspec [OF conjunct2 [OF latest_of]]

lemma in_flight_forD:
  "in_flight_for tie sid rid db = Some d \<Longrightarrow>
   d \<in> set (deployments db) \<and> d_ResourceID d = rid \<and> in_flight d \<and> deploymentReporterClause db sid d"
  by (auto simp: in_flight_for_def dest: latest_mem)

lemma row_of_mem: "db_inv db \<Longrightarrow> d \<in> set (deployments db) \<Longrightarrow> row (d_ID d) db = Some d"
proof -
  assume inv: "db_inv db" and d: "d \<in> set (deployments db)"
  have "row (d_ID d) db \<noteq> None" using d by (auto simp: row_def find_None_iff)
  then obtain e where e: "row (d_ID d) db = Some e" by blast
  have "e = d" using inv row_SomeD [OF e] d by (intro distinct_idD) (auto simp: db_inv_def rows_inv_def)
  with e show ?thesis by simp
qed

lemma advance_write_run:
  assumes "advance_write v plan db = (r, db')" "\<And>i up. plan = Some (i, up) \<Longrightarrow> valid_status (up_Status up)" "db_inv db"
  shows "table_run db db'"
proof (cases plan)
  case (Some p)
  obtain i up where p: "p = (i, up)" by force
  obtain r' where r': "in_tx v (setDeploymentStatusTx i up) db = (r', db')"
    using assms(1) by (auto simp: advance_write_def Some p SetDeploymentStatus_def split: prod.splits sum.splits if_splits)
  then show ?thesis
    by (rule in_tx_cases) (use assms(2,3) Some p set_status_run in auto)
qed (use assms(1) in \<open>simp add: advance_write_def\<close>)

lemma advance_plan_valid: "advance_plan tie sid rid phase ok detail ver db = Some (i, up) \<Longrightarrow> valid_status (up_Status up)"
  by (auto simp: advance_plan_def no_update_def phase_target_def split: option.splits if_splits)

lemma append_logs_frame:
  "AppendDeployLogs v sid i stream ls db = (r, db') \<Longrightarrow> deployments db' = deployments db \<and> now db' = now db \<and> resources db' = resources db"
  by (auto simp: AppendDeployLogs_def statement_def Let_def split: db_verdict.splits if_splits)

lemma prereq_run:
  assumes "prereq_write vlog v sid plan db = (r, db')" "db_inv db"
  shows "table_run db db'"
proof (cases plan)
  case (Some p)
  obtain i detail e db1 where log: "AppendDeployLogs vlog sid i ''deploy'' [detail] db = (e, db1)"
    and db': "db' = db1 \<or> (\<exists>up r. up_Status up = ''failed'' \<and> advance_write v (Some (i, up)) db1 = (r, db'))"
    using assms(1) Some
    by (fastforce simp: prereq_write_def AppendDeployLog_def no_update_def split: option.splits prod.splits)
  have run: "table_run db db1" using append_logs_frame [OF log] by simp
  from db' show ?thesis
  proof (elim disjE exE conjE)
    fix up r assume "up_Status up = ''failed''" "advance_write v (Some (i, up)) db1 = (r, db')"
    then have "table_run db1 db'" using table_run_inv [OF run assms(2)] by (intro advance_write_run) auto
    with run show ?thesis by (rule table_run_trans)
  qed (use run in simp)
qed (use assms(1) in \<open>simp add: prereq_write_def\<close>)

lemma service_row_lawful:
  "(\<And>s. map_of (d_ServiceStatus d) s = Some ''success'' \<Longrightarrow> map_of ss s = Some ''success'') \<Longrightarrow> lawful (\<lambda>d. d\<lparr>d_ServiceStatus := ss\<rparr>) d"
  by (auto simp: lawful_def row_key_def service_grown_def)

lemma roll_up_valid: "valid_status (up_Status (roll_up statuses n detail))"
  by (simp add: roll_up_def no_update_def)

lemma service_run:
  assumes "service_write i n service st detail db = Inr (x, db')" "db_inv db"
  shows "table_run db db'"
proof (cases "row i db")
  case (Some d)
  define statuses where "statuses = (if map_of (d_ServiceStatus d) service = Some ''success'' then d_ServiceStatus d
     else AList.update service st (d_ServiceStatus d))"
  define db1 where "db1 = update_row i (\<lambda>d. d\<lparr>d_ServiceStatus := statuses\<rparr>) db"
  have run: "table_run db db1" unfolding db1_def
    by (rule update_row_run [OF assms(2) Some service_row_lawful]) (auto simp: statuses_def update_conv)
  have "db' = db1 \<or> (\<exists>u. setDeploymentStatusTx i (roll_up statuses n detail) db1 = Inr (u, db'))"
    using assms(1) Some
    by (auto simp: service_write_def Let_def statuses_def [symmetric] db1_def [symmetric] split: sum.splits if_splits)
  then show ?thesis
    using run set_status_run [OF table_run_inv [OF run assms(2)] roll_up_valid] by (auto intro: table_run_trans)
qed (use assms(1) in \<open>simp add: service_write_def\<close>)

lemma stamp_run:
  assumes "StampDeploymentDSDVersion v ids version db = (r, db')"
  shows "table_run db db'"
proof -
  let ?f = "\<lambda>d. if d_ID d \<in> set ids \<and> d_DsdVersion d = 0 \<and> in_flight d then d\<lparr>d_DsdVersion := version\<rparr> else d"
  have "lawful ?f d" for d using in_flight_not_finished [of d] by (simp add: lawful_def row_key_def)
  then have "table_run db (db\<lparr>deployments := map ?f (deployments db)\<rparr>)" by (intro table_run_change) auto
  moreover have "db' = db \<or> db' = db\<lparr>deployments := map ?f (deployments db)\<rparr>"
    using assms by (auto simp: StampDeploymentDSDVersion_def statement_def split: if_splits db_verdict.splits)
  ultimately show ?thesis by auto
qed


section \<open>Runs of the control plane\<close>

text \<open>
  The calls of the control plane, in any order, interleaved with each other as the database interleaves them (READ
  COMMITTED, where every statement reads its own snapshot) and with changes of other tables.
  \<^item> What a call reads before it writes, without holding a lock on it, was read in an arbitrary state \<open>db0\<close>: the reports of phases, of
    services and of failed prerequisites, the config deployments and the time-out (\<open>ids\<close>).
  \<^item> A call that supersedes takes the advisory lock of its key first and inserts before it commits, so that superseding and
    inserting is one step (\<open>create\<close>: the row it inserts was decided on earlier reads, and is any row not of a config
    deployment). \<open>rollback\<close>, \<open>redeploy\<close>, \<open>head\<close> and \<open>drain\<close> are the calls whole.
  \<^item> A transition locks its row and tests the status on the locked row (\<open>status\<close>): that is a step of its own, whatever the call
    it belongs to read or wrote before.
  \<^item> The clock is arbitrary in every step: it is the time the transaction began.

  The foreign keys of the table (a deleted resource takes its rows with it, a deleted server, environment or
  connection leaves NULL in its column) are not steps, and neither is \<open>CreateDeployment\<close>, which no code but tests calls.
\<close>

inductive deploy_step :: "deploy_db \<Rightarrow> deploy_db \<Rightarrow> bool" where
  rollback: "CreateRollback v tie orgID rid target actor db = (r, db') \<Longrightarrow> deploy_step db db'"
| redeploy: "CreateManualRedeploy v tie orgID rid actor db = (r, db') \<Longrightarrow> deploy_step db db'"
| head: "CreateHeadDeployment v orgID rid actor h sha db = (r, db') \<Longrightarrow> deploy_step db db'"
| drain: "DrainDeployRequests v tie skip db = (r, db') \<Longrightarrow> deploy_step db db'"
| create: "in_tx v (supersede_and_insert d actor action) db = (r, db') \<Longrightarrow> d_Status d = ''queued'' \<Longrightarrow> d_ResourceID d \<noteq> '''' \<Longrightarrow>
    d_Trigger d \<noteq> ''config'' \<Longrightarrow> deploy_step db db'"
| config: "config_row tie orgID actor rid i db0 = Inr (Some d) \<Longrightarrow> in_tx v (config_insert reason d seen) db = (r, db') \<Longrightarrow> deploy_step db db'"
| configs: "CreateConfigDeployments v tie orgID rids actor reason db = (r, db') \<Longrightarrow> deploy_step db db'"
| timeout: "in_tx v (fail_each ids 0) db = (r, db') \<Longrightarrow> deploy_step db db'"
| report: "advance_write v (advance_plan tie sid rid phase ok detail ver db0) db = (r, db') \<Longrightarrow> deploy_step db db'"
| prereq: "prereq_write vlog v sid (prereq_plan tie sid rid op errText ver db0) db = (r, db') \<Longrightarrow> deploy_step db db'"
| service: "service_plan tie sid rid ver db0 = Some (i, n) \<Longrightarrow> service_state ok phase = Some st \<Longrightarrow>
    in_tx v (service_write i n service st detail) db = (r, db') \<Longrightarrow> deploy_step db db'"
| status: "SetDeploymentStatus v i up db = (r, db') \<Longrightarrow> valid_status (up_Status up) \<Longrightarrow> deploy_step db db'"
| stamp: "StampDeploymentDSDVersion v ids version db = (r, db') \<Longrightarrow> deploy_step db db'"
| logs: "AppendDeployLogs v sid i stream ls db = (r, db') \<Longrightarrow> deploy_step db db'"
| others: "deployments db' = deployments db \<Longrightarrow> [] \<notin> fst ` set (resources db') \<Longrightarrow> deploy_step db db'"

lemma in_tx_run:
  "in_tx v body db = (r, db') \<Longrightarrow> (\<And>x db'. body db = Inr (x, db') \<Longrightarrow> table_run db db') \<Longrightarrow> table_run db db'"
  by (auto elim: in_tx_cases)

lemma create_run:
  assumes "supersede_and_insert d actor action db = Inr (x, db')" "d_Status d = ''queued''" "d_ResourceID d \<noteq> ''''"
  shows "table_run db db'"
proof -
  obtain db2 where ins: "insert_row d (supersedeInFlightTx (d_OrgID d) (d_ServerID d) (d_ResourceID d) db) = Inr (x, db2)"
    and db': "db' = auditTx (d_OrgID d) actor action (d_ResourceID d) db2"
    using assms(1) by (auto simp: supersede_and_insert_def split: sum.splits)
  from supersede_insert_run [OF ins assms(2,3)] show ?thesis by (rule table_run_trans) (simp add: db')
qed

lemma deploy_step_run:
  assumes "deploy_step db db'" "db_inv db"
  shows "table_run db db' \<or> (deployments db' = deployments db \<and> [] \<notin> fst ` set (resources db'))"
  using assms(1)
proof cases
  case (rollback v tie orgID rid target actor r)
  then show ?thesis using assms(2) by (auto simp: CreateRollback_def intro: in_tx_run rollback_run)
next
  case (redeploy v tie orgID rid actor r)
  then show ?thesis using assms(2) by (auto simp: CreateManualRedeploy_def intro: in_tx_run redeploy_run)
next
  case (head v orgID rid actor h sha r)
  then show ?thesis using assms(2) by (auto simp: CreateHeadDeployment_def split: if_splits intro: in_tx_run head_run)
next
  case (drain v tie skip r)
  then show ?thesis using assms(2) by (auto simp: DrainDeployRequests_def intro: in_tx_run drain_each_run)
next
  case (create v d actor action r)
  then show ?thesis by (auto intro: in_tx_run create_run)
next
  case (config tie orgID actor rid i db0 d v reason seen r)
  then show ?thesis using config_row_queued [OF config(1)] by (auto intro: in_tx_run config_insert_run)
next
  case (configs v tie orgID rids actor reason r)
  then show ?thesis by (auto simp: CreateConfigDeployments_def split: if_splits intro: in_tx_run config_each_run)
next
  case (timeout v ids r)
  then show ?thesis using assms(2) by (auto intro: in_tx_run fail_each_run)
next
  case (report v tie sid rid phase ok detail ver db0 r)
  then show ?thesis using assms(2) by (auto intro!: advance_write_run dest: advance_plan_valid)
next
  case (prereq vlog v sid tie rid op errText ver db0 r)
  then show ?thesis using assms(2) by (auto intro: prereq_run)
next
  case (service tie sid rid ver db0 i n ok phase st v service detail r)
  then show ?thesis using assms(2) by (auto intro: in_tx_run service_run)
next
  case (status v i up r)
  then show ?thesis using assms(2) by (auto simp: SetDeploymentStatus_def intro: in_tx_run set_status_run)
next
  case (stamp v ids version r)
  then show ?thesis by (auto intro: stamp_run)
next
  case (logs v sid i stream ls r)
  then show ?thesis using append_logs_frame by fastforce
next
  case others
  then show ?thesis by simp
qed

lemma deploy_step_inv: "deploy_step db db' \<Longrightarrow> db_inv db \<Longrightarrow> db_inv db'"
  using deploy_step_run [of db db'] table_run_inv by (auto simp: db_inv_def)

lemma deploy_step_frozen:
  "deploy_step db db' \<Longrightarrow> db_inv db \<Longrightarrow> d \<in> set (deployments db) \<Longrightarrow> finished d \<Longrightarrow> \<exists>d'\<in>set (deployments db'). service_grown d d'"
  using deploy_step_run [of db db'] rows_steps_frozen [of "deployments db" "deployments db'" d] by (auto simp: table_run_def)

lemma deploy_steps:
  "deploy_step\<^sup>*\<^sup>* db db' \<Longrightarrow> db_inv db \<Longrightarrow>
   db_inv db' \<and> (\<forall>d\<in>set (deployments db). finished d \<longrightarrow> (\<exists>d'\<in>set (deployments db'). service_grown d d'))"
proof (induction rule: rtranclp_induct)
  case (step db1 db2)
  note inv = conjunct1 [OF step.IH [OF step.prems]]
  have "\<exists>d2\<in>set (deployments db2). service_grown d d2" if d: "d \<in> set (deployments db)" "finished d" for d
  proof -
    obtain d1 where d1: "d1 \<in> set (deployments db1)" "service_grown d d1" using step.IH [OF step.prems] d by blast
    then have "finished d1" using d(2) service_grown_frame by simp
    from deploy_step_frozen [OF step.hyps(2) inv d1(1) this] d1(2) service_grown_trans show ?thesis by blast
  qed
  with deploy_step_inv [OF step.hyps(2) inv] show ?case by blast
next
  case base
  then show ?case using service_grown_refl by blast
qed

text \<open>The calls of the reports with nothing between their reads and writes are such steps too.\<close>

lemma service_call_step:
  assumes "AdvanceDeploymentService v tie sid rid service phase ok detail ver db = (r, db')"
  shows "db' = db \<or> deploy_step db db'"
proof (cases "service_state ok phase")
  case (Some st)
  obtain x where x: "in_tx v (advance_service_tx tie sid rid service st detail ver) db = (x, db')"
    using assms Some by (auto simp: AdvanceDeploymentService_def split: prod.splits sum.splits)
  show ?thesis
  proof (cases "service_plan tie sid rid ver db")
    case None
    with x show ?thesis by (auto simp: advance_service_tx_def in_tx_def split: db_verdict.splits)
  next
    case (Some p)
    obtain i n where p: "p = (i, n)" by force
    with x Some have "in_tx v (service_write i n service st detail) db = (x, db')"
      by (simp add: advance_service_tx_def in_tx_def)
    with Some p \<open>service_state ok phase = Some st\<close> deploy_step.service show ?thesis by blast
  qed
qed (use assms in \<open>simp add: AdvanceDeploymentService_def\<close>)

end
