(* ===== verification/Release_Props.thy ===== *)
theory Release_Props
  imports Deploy_Props
begin

text \<open>
  What the release history promises, over the runs of \<open>deploy_step\<close>, with a small installation to evaluate it on: one
  application on one server, two pushes waiting.
\<close>

section \<open>An installation\<close>

definition demo_app :: resource where
  "demo_app = \<lparr>rs_OrgID = ''org'', rs_ProjectID = ''prj'', rs_EnvironmentID = ''env'', rs_ServerID = ''srv'', rs_ClusterID = '''',
     rs_Name = ''shop'', rs_Kind = ''app'', rs_Spec = ''{}'', rs_Compose = None\<rparr>"

definition demo_push :: "string \<Rightarrow> deploy_request" where
  "demo_push sha = \<lparr>q_ID = ''dr'' @ sha, q_OrgID = ''org'', q_ConnectionID = ''con'', q_EnvironmentID = ''env'', q_Ref = ''main'', q_SHA = sha,
     q_Kind = ''deploy'', q_Status = ''queued'', q_Created = 0, q_Detail = ''''\<rparr>"

definition demo_db :: deploy_db where
  "demo_db = \<lparr>deployments = [], resources = [(''app'', demo_app)], cluster_nodes = [], placements = [(''app'', ''srv'')],
     git_connections = [(''con'', ''prj'')], git_branch_map = [], deploy_requests = [demo_push ''aa''], alert_rules = [(''org'', AlertDeployFailed, ''ch'')],
     alert_outbox = [], deploy_logs = [], cp_audit_log = [], now = 1000, id_hex = (\<lambda>n. replicate (Suc n) CHR ''0''), id_seq = 0,
     spec_hash = (\<lambda>s. s)\<rparr>"

definition demo_drained :: deploy_db where
  "demo_drained = snd (DrainDeployRequests Applied 0 (\<lambda>_. False) demo_db)"

definition demo_built :: deploy_db where
  "demo_built = snd (AdvanceDeploymentForResource None Applied 0 ''srv'' ''app'' ''rollout'' True '''' 0 demo_drained)"

definition reachable_history :: "deploy_db \<Rightarrow> bool" where
  "reachable_history db \<longleftrightarrow> (\<exists>db0. deployments db0 = [] \<and> [] \<notin> fst ` set (resources db0) \<and> deploy_step\<^sup>*\<^sup>* db0 db)"

lemma reachable_history_inv: "reachable_history db \<Longrightarrow> db_inv db"
proof -
  assume "reachable_history db"
  then obtain db0 where "deployments db0 = []" "[] \<notin> fst ` set (resources db0)" and run: "deploy_step\<^sup>*\<^sup>* db0 db"
    by (auto simp: reachable_history_def)
  then have "db_inv db0" by (simp add: db_inv_def rows_inv_def)
  from deploy_steps [OF run this] show ?thesis by blast
qed

lemma reachable_start: "deployments db = [] \<Longrightarrow> [] \<notin> fst ` set (resources db) \<Longrightarrow> reachable_history db"
  unfolding reachable_history_def by blast

lemma reachable_next: "reachable_history db \<Longrightarrow> deploy_step db db' \<Longrightarrow> reachable_history db'"
  unfolding reachable_history_def by (meson rtranclp.rtrancl_into_rtrancl)

lemma demo_steps: "reachable_history demo_db" "deploy_step demo_db demo_drained" "deploy_step demo_drained demo_built"
proof -
  show "reachable_history demo_db" by (rule reachable_start) (simp_all add: demo_db_def)
  show "deploy_step demo_db demo_drained" unfolding demo_drained_def
    by (rule deploy_step.drain) (rule surjective_pairing)
  show "deploy_step demo_drained demo_built" unfolding demo_built_def AdvanceDeploymentForResource_def option.case
    by (rule deploy_step.report) (rule surjective_pairing)
qed

lemma demo_reachable: "reachable_history demo_drained" "reachable_history demo_built"
  using demo_steps reachable_next by blast+

section \<open>The history\<close>

text \<open>
  C20. A finished release is never rewritten. Whatever the calls of \<open>deploy_step\<close> do after a deployment reached success,
  failed, superseded or rolled_back (new pushes, rollbacks, redeploys, config deployments, late or repeated reports of any agent
  decided on any earlier state, time-outs, lost acknowledgements), the row with its identifier is the same row, its map of
  services excepted: a service's report that was on its way when the row finished is still recorded there, as
  \<open>AdvanceDeploymentService\<close> means it to be, and then a service recorded as succeeded stays recorded so.
\<close>

theorem release_history_immutable:
  assumes "reachable_history db" "deploy_step\<^sup>*\<^sup>* db db'" "d \<in> set (deployments db)" "terminalDeployStatus (d_Status d)"
  shows "\<exists>d'. row (d_ID d) db' = Some d' \<and> d'\<lparr>d_ServiceStatus := d_ServiceStatus d\<rparr> = d \<and>
    (\<forall>s. map_of (d_ServiceStatus d) s = Some ''success'' \<longrightarrow> map_of (d_ServiceStatus d') s = Some ''success'')"
proof -
  note steps = deploy_steps [OF assms(2) reachable_history_inv [OF assms(1)]]
  then obtain d' where d': "d' \<in> set (deployments db')" "service_grown d d'" using assms(3,4) by blast
  have "row (d_ID d) db' = Some d'" using row_of_mem [OF conjunct1 [OF steps] d'(1)] service_grown_frame [OF d'(2)] by simp
  with d'(2) show ?thesis by (auto simp: service_grown_def)
qed

text \<open>
  The witness: the report of a service selects the deployment in flight, the deployment is failed by another report, and the first
  report then commits. The row keeps everything but the map.
\<close>

definition demo_stack :: deploy_db where
  "demo_stack = snd (DrainDeployRequests Applied 0 (\<lambda>_. False) (demo_db\<lparr>resources := [(''app'', demo_app\<lparr>rs_Compose :=
     Some [\<lparr>cs_Name = ''web'', cs_Build = ''.'', cs_Image = ''''\<rparr>, \<lparr>cs_Name = ''db'', cs_Build = '''', cs_Image = ''pg''\<rparr>]\<rparr>)]\<rparr>))"

definition demo_stack_failed :: deploy_db where
  "demo_stack_failed = snd (SetDeploymentStatus Applied ''dep_0'' (no_update\<lparr>up_Status := ''failed'', up_MarkFinished := True\<rparr>) demo_stack)"

definition demo_stack_late :: deploy_db where
  "demo_stack_late = snd (in_tx Applied (service_write ''dep_0'' 2 ''web'' ''success'' '''') demo_stack_failed)"

lemma demo_stack_reachable: "reachable_history demo_stack" "reachable_history demo_stack_failed"
proof -
  show stack: "reachable_history demo_stack" unfolding demo_stack_def
    by (rule reachable_next [OF reachable_start deploy_step.drain [OF surjective_pairing]]) (simp_all add: demo_db_def)
  show "reachable_history demo_stack_failed" unfolding demo_stack_failed_def
    by (rule reachable_next [OF stack deploy_step.status [OF surjective_pairing]]) (simp add: no_update_def)
qed

lemma demo_stack_late_step: "deploy_step demo_stack_failed demo_stack_late"
proof -
  have "service_plan 0 ''srv'' ''app'' 0 demo_stack = Some (''dep_0'', 2)" "service_state True ''rollout'' = Some ''success''" by code_simp+
  then show ?thesis unfolding demo_stack_late_def by (rule deploy_step.service) (rule surjective_pairing)
qed

theorem release_history_immutable_witness:
  "\<exists>d d'. row ''dep_0'' demo_stack_failed = Some d \<and> d_Status d = ''failed'' \<and> d_ServiceStatus d = [] \<and>
     row ''dep_0'' demo_stack_late = Some d' \<and> d_ServiceStatus d' = [(''web'', ''success'')] \<and> d'\<lparr>d_ServiceStatus := []\<rparr> = d"
proof -
  let ?d = "hd (deployments demo_stack_failed)"
  have d: "?d \<in> set (deployments demo_stack_failed)" "terminalDeployStatus (d_Status ?d)" by code_simp+
  have facts: "row ''dep_0'' demo_stack_failed = Some ?d" "d_ID ?d = ''dep_0''" "d_Status ?d = ''failed''" "d_ServiceStatus ?d = []"
    "map_option d_ServiceStatus (row ''dep_0'' demo_stack_late) = Some [(''web'', ''success'')]" by code_simp+
  have "deploy_step\<^sup>*\<^sup>* demo_stack_failed demo_stack_late" using demo_stack_late_step by blast
  from release_history_immutable [OF demo_stack_reachable(2) this d] facts show ?thesis by auto
qed

text \<open>
  C21. At most one deployment per (organisation, resource, server) is in flight that a push, a rollback, a
  redeploy or a deploy of the branch head created, in every state the control plane reaches, however the calls are interleaved,
  whatever stale state a call decided on and whatever clock stamped its row. Config deployments are left out of the
  count: they neither take the lock nor supersede.
\<close>

theorem one_release_in_flight:
  assumes "reachable_history db" "d \<in> set (deployments db)" "e \<in> set (deployments db)"
    and "deployInFlight (d_Status d)" "deployInFlight (d_Status e)" "d_Trigger d \<noteq> ''config''" "d_Trigger e \<noteq> ''config''"
    and "(d_OrgID d, d_ResourceID d, d_ServerID d) = (d_OrgID e, d_ResourceID e, d_ServerID e)"
  shows "d = e"
  using reachable_history_inv [OF assms(1)] assms(2-)
  by (intro newest_unique [of "deployments db"]) (auto simp: db_inv_def rows_inv_def row_key_def contends_def)

definition demo_two_pushes :: deploy_db where
  "demo_two_pushes = snd (DrainDeployRequests Applied 0 (\<lambda>_. False) (demo_db\<lparr>deploy_requests := [demo_push ''aa'', demo_push ''bb'']\<rparr>))"

lemma demo_two_pushes_reachable: "reachable_history demo_two_pushes"
  unfolding demo_two_pushes_def
  by (rule reachable_next [OF reachable_start deploy_step.drain [OF surjective_pairing]]) (simp_all add: demo_db_def)

theorem one_release_in_flight_witness:
  "\<exists>d. d \<in> set (deployments demo_two_pushes) \<and> deployInFlight (d_Status d) \<and> length (deployments demo_two_pushes) = 2 \<and>
     {e \<in> set (deployments demo_two_pushes). deployInFlight (d_Status e) \<and> d_Trigger e \<noteq> ''config'' \<and> row_key e = row_key d} \<subseteq> {d}"
proof (intro exI conjI)
  let ?d = "hd (deployments demo_two_pushes)"
  show d: "?d \<in> set (deployments demo_two_pushes)" by code_simp
  show f: "deployInFlight (d_Status ?d)" by code_simp
  have t: "d_Trigger ?d \<noteq> ''config''" by code_simp
  show "length (deployments demo_two_pushes) = 2" by code_simp
  show "{e \<in> set (deployments demo_two_pushes). deployInFlight (d_Status e) \<and> d_Trigger e \<noteq> ''config'' \<and> row_key e = row_key ?d} \<subseteq> {?d}"
    using one_release_in_flight [OF demo_two_pushes_reachable _ d _ f _ t] by (auto simp: row_key_def)
qed

lemma list_ex_id: "list_ex (\<lambda>x. d_ID x = k) ds \<longleftrightarrow> k \<in> d_ID ` set ds"
  by (auto simp: list_ex_iff)

text \<open>
  C22. A config deployment can come to stand beside a deployment in flight. Whenever the reads of
  \<open>CreateConfigDeployments\<close>, in some state \<open>db0\<close>, found the latest release of the resource settled, and by the
  time of its insert a deployment \<open>e\<close> of that resource on that server is in flight, the insert goes through and
  both are in flight. (With \<open>db0 = db\<close> this is the case of equal stamps: the superseded row is listed before the one that
  superseded it.) In the witness a push is drained between the reads and the insert, a second later.
\<close>

theorem config_deploy_duplicates:
  assumes "config_row tie orgID actor rid i db0 = Inr (Some d)"
    and "e \<in> set (deployments db)" "deployInFlight (d_Status e)"
    and "(d_OrgID e, d_ResourceID e, d_ServerID e) = (d_OrgID d, d_ResourceID d, d_ServerID d)"
    and "i \<notin> d_ID ` set (deployments db)"
  shows "\<exists>d' db'. in_tx Applied (config_insert reason d seen) db = (Inr (see (d_ServerID d) orgID seen), db') \<and>
    d' \<in> set (deployments db') \<and> e \<in> set (deployments db') \<and> d_ID d' = i \<and> d_ID e \<noteq> i \<and> d_Trigger d' = ''config'' \<and>
    deployInFlight (d_Status d') \<and> deployInFlight (d_Status e) \<and>
    (d_OrgID d', d_ResourceID d', d_ServerID d') = (d_OrgID e, d_ResourceID e, d_ServerID e)"
proof -
  note q = config_row_queued [OF assms(1)]
  let ?d = "d\<lparr>d_CreatedAt := now db\<rparr>"
  let ?db' = "auditTx (d_OrgID d) (d_CreatedBy d) (''Config deploy queued ('' @ reason @ '')'') (d_ResourceID d)
    (db\<lparr>deployments := ?d # deployments db\<rparr>)"
  have "\<not> list_ex (\<lambda>x. d_ID x = d_ID d) (deployments db)" using q assms(5) by (simp add: list_ex_id)
  then have "insert_row d db = Inr (?d, db\<lparr>deployments := ?d # deployments db\<rparr>)" by (simp add: insert_row_def Let_def)
  then have run: "in_tx Applied (config_insert reason d seen) db = (Inr (see (d_ServerID d) orgID seen), ?db')"
    using q by (simp add: in_tx_def config_insert_def)
  have "d_ID e \<noteq> i" using assms(2,5) by auto
  then show ?thesis using assms(2-4) q
    by (intro exI [of _ ?d] exI [of _ ?db'] conjI run) (auto simp: deployInFlight_def)
qed

definition demo_raced :: deploy_db where
  "demo_raced = snd (DrainDeployRequests Applied 0 (\<lambda>_. False) (demo_built\<lparr>deploy_requests := [demo_push ''bb''], now := 1000001000\<rparr>))"

theorem config_deploy_duplicates_witness:
  "\<exists>d d' e db'. reachable_history demo_built \<and> config_row 0 ''org'' ''ops'' ''app'' ''dep_x'' demo_built = Inr (Some d) \<and>
     deploy_step\<^sup>*\<^sup>* demo_built demo_raced \<and>
     in_tx Applied (config_insert ''env edit'' d []) demo_raced = (Inr [(''srv'', ''org'')], db') \<and>
     d' \<in> set (deployments db') \<and> e \<in> set (deployments db') \<and> d_ID d' = ''dep_x'' \<and> d_ID e \<noteq> ''dep_x'' \<and> d_Trigger e = ''git'' \<and>
     deployInFlight (d_Status d') \<and> deployInFlight (d_Status e) \<and> row_key d' = row_key e"
proof -
  let ?d = "the (projr (config_row 0 ''org'' ''ops'' ''app'' ''dep_x'' demo_built))"
  let ?e = "hd (deployments demo_raced)"
  have d: "config_row 0 ''org'' ''ops'' ''app'' ''dep_x'' demo_built = Inr (Some ?d)" by code_simp
  have e: "?e \<in> set (deployments demo_raced)" "deployInFlight (d_Status ?e)"
    "(d_OrgID ?e, d_ResourceID ?e, d_ServerID ?e) = (d_OrgID ?d, d_ResourceID ?d, d_ServerID ?d)" by code_simp+
  have "''dep_x'' \<notin> set (map d_ID (deployments demo_raced))" by code_simp
  then have fresh: "''dep_x'' \<notin> d_ID ` set (deployments demo_raced)" by simp
  have facts: "see (d_ServerID ?d) ''org'' [] = [(''srv'', ''org'')]" "d_Trigger ?e = ''git''" by code_simp+
  have "list_all (\<lambda>(i, r). i \<noteq> []) (resources demo_built)" by code_simp
  then have "deploy_step demo_built (demo_built\<lparr>deploy_requests := [demo_push ''bb''], now := 1000001000\<rparr>)"
    by (intro deploy_step.others) (auto simp: list_all_iff)
  then have run: "deploy_step\<^sup>*\<^sup>* demo_built demo_raced" unfolding demo_raced_def
    by (meson deploy_step.drain [OF surjective_pairing] converse_rtranclp_into_rtranclp r_into_rtranclp)
  from config_deploy_duplicates [OF d e fresh, of "''env edit''" "[]"] facts(2) obtain d' db'
    where "in_tx Applied (config_insert ''env edit'' ?d []) demo_raced = (Inr [(''srv'', ''org'')], db')"
      "d' \<in> set (deployments db')" "?e \<in> set (deployments db')" "d_ID d' = ''dep_x''" "d_ID ?e \<noteq> ''dep_x''"
      "deployInFlight (d_Status d')" "row_key d' = row_key ?e"
    unfolding facts(1) row_key_def by blast
  with demo_reachable(2) d run e(2) facts(2) show ?thesis by blast
qed

section \<open>Reports\<close>

lemma row_update:
  assumes "\<And>d. d_ID (f d) = d_ID d"
  shows "row j (update_row i f db) = (if j = i then map_option f (row i db) else row j db)"
proof -
  have "find (\<lambda>d. d_ID d = j) (map (\<lambda>d. if d_ID d = i then f d else d) ds) =
      (if j = i then map_option f (find (\<lambda>d. d_ID d = i) ds) else find (\<lambda>d. d_ID d = j) ds)" for ds
    by (induction ds) (auto simp: assms)
  then show ?thesis by (simp add: row_def)
qed

lemma set_status_rows:
  assumes "setDeploymentStatusTx i up db = Inr (u, db')"
  obtains r where "row i db = Some r" "\<not> finished r"
    "\<And>j. row j db' = (if j = i then Some (apply_update (now db) up r) else row j db)"
proof -
  obtain r where r: "row i db = Some r" "\<not> finished r"
    using assms by (auto simp: setDeploymentStatusTx_def split: option.splits if_splits)
  have "deployments db' = deployments (update_row i (apply_update (now db) up) db)"
    using assms r by (auto simp: setDeploymentStatusTx_def Let_def split: if_splits option.splits)
  then have "row j db' = row j (update_row i (apply_update (now db) up) db)" for j by (simp add: row_def)
  with r that show ?thesis by (simp add: row_update)
qed

lemma advance_write_rows:
  assumes "advance_write v (Some (i, up)) db = (e, db')" "row i db = Some d"
  shows "(\<forall>j. row j db' = row j db) \<or>
    \<not> finished d \<and> (\<forall>j. row j db' = (if j = i then Some (apply_update (now db) up d) else row j db))"
proof -
  obtain r' where "in_tx v (setDeploymentStatusTx i up) db = (r', db')"
    using assms(1) by (auto simp: advance_write_def SetDeploymentStatus_def split: prod.splits sum.splits if_splits)
  then show ?thesis
    by (rule in_tx_cases) (use assms(2) in \<open>auto elim!: set_status_rows\<close>)
qed

lemma advance_plan_forward:
  assumes "advance_plan tie sid rid phase ok detail ver db = Some (i, up)"
  obtains d where "in_flight_for tie sid rid db = Some d" "i = d_ID d" "\<not> stale_report ver d"
    "if ok then deployStatusRank (d_Status d) < deployStatusRank (up_Status up) else up_Status up = ''failed''"
  using assms
  by (auto simp: advance_plan_def no_update_def split: option.splits if_splits)

text \<open>
  C23. A report of a phase, when nothing happens between its read and its write, moves at most one deployment, and only forward: there
  is one identifier \<open>i\<close> such that every other row is the row it was, and the row of \<open>i\<close> is the one before, or it was in flight for
  the reported resource, the reporting server may speak for it, the report was not produced from an older document, no other
  deployment of which the same holds is newer, and it advanced in rank (queued, building, deploying, success) or, on
  a failure report, failed.
\<close>

theorem report_moves_forward:
  assumes "reachable_history db" "AdvanceDeploymentForResource fault v tie sid rid phase ok detail ver db = (e, db')"
  shows "\<exists>i. (\<forall>j. j \<noteq> i \<longrightarrow> row j db' = row j db) \<and>
    (row i db' = row i db \<or>
     (\<exists>d d'. row i db = Some d \<and> row i db' = Some d' \<and> deployInFlight (d_Status d) \<and> d_ResourceID d = rid \<and>
        deploymentReporterClause db sid d \<and> \<not> stale_report ver d \<and>
        (\<forall>x\<in>set (deployments db). deployInFlight (d_Status x) \<longrightarrow> d_ResourceID x = rid \<longrightarrow> deploymentReporterClause db sid x \<longrightarrow>
           d_CreatedAt x \<le> d_CreatedAt d) \<and>
        (if ok then deployStatusRank (d_Status d) < deployStatusRank (d_Status d') else d_Status d' = ''failed'')))"
proof (cases "fault \<noteq> None \<or> advance_plan tie sid rid phase ok detail ver db = None")
  case True
  with assms(2) have "db' = db" by (auto simp: AdvanceDeploymentForResource_def advance_write_def split: option.splits)
  then show ?thesis by blast
next
  case False
  then obtain i up where plan: "advance_plan tie sid rid phase ok detail ver db = Some (i, up)" by (auto split: prod.splits)
  with False assms(2) have w: "advance_write v (Some (i, up)) db = (e, db')" by (auto simp: AdvanceDeploymentForResource_def)
  from plan obtain f where f: "in_flight_for tie sid rid db = Some f" "i = d_ID f" "\<not> stale_report ver f"
    "if ok then deployStatusRank (d_Status f) < deployStatusRank (up_Status up) else up_Status up = ''failed''"
    by (rule advance_plan_forward)
  note ff = in_flight_forD [OF f(1)]
  have newest: "\<forall>x\<in>set (deployments db). in_flight x \<longrightarrow> d_ResourceID x = rid \<longrightarrow> deploymentReporterClause db sid x \<longrightarrow>
      d_CreatedAt x \<le> d_CreatedAt f"
    using latest_max [OF f(1) [unfolded in_flight_for_def]] by simp
  have row_f: "row i db = Some f" using row_of_mem [OF reachable_history_inv [OF assms(1)]] ff f(2) by simp
  from advance_write_rows [OF w row_f] show ?thesis
  proof (elim disjE conjE)
    assume "\<forall>j. row j db' = (if j = i then Some (apply_update (now db) up f) else row j db)"
    with row_f ff f(3,4) newest show ?thesis by (intro exI [of _ i]) auto
  qed blast
qed

theorem report_moves_forward_witness:
  "\<exists>d d'. row ''dep_0'' demo_drained = Some d \<and> row ''dep_0'' demo_built = Some d' \<and> d_Status d' = ''success'' \<and>
     deployStatusRank (d_Status d) < deployStatusRank (d_Status d')"
proof -
  have run: "AdvanceDeploymentForResource None Applied 0 ''srv'' ''app'' ''rollout'' True '''' 0 demo_drained =
      (fst (AdvanceDeploymentForResource None Applied 0 ''srv'' ''app'' ''rollout'' True '''' 0 demo_drained), demo_built)"
    by (simp add: demo_built_def)
  have st: "map_option d_Status (row ''dep_0'' demo_built) = Some ''success''" "map_option d_Status (row ''dep_0'' demo_drained) = Some ''queued''"
    by code_simp+
  from report_moves_forward [OF demo_reachable(1) run] obtain i where others: "\<And>j. j \<noteq> i \<Longrightarrow> row j demo_built = row j demo_drained"
    and moved: "row i demo_built = row i demo_drained \<or>
      (\<exists>d d'. row i demo_drained = Some d \<and> row i demo_built = Some d' \<and> deployStatusRank (d_Status d) < deployStatusRank (d_Status d'))"
    by auto
  have "i = ''dep_0''" using others [of "''dep_0''"] st by (cases "i = ''dep_0''") auto
  with moved st show ?thesis by auto
qed

text \<open>
  C24. Reports handled at the same time can move a deployment back. Take any report of success that, in the state it read,
  decided to move deployment \<open>i\<close> to the status of its phase. If by the time it writes that deployment has come to a later
  status and is still in flight, the write puts it back to the status of the report: the transaction
  only tests that the row is not finished. (In the witness the report of the clone is overtaken by that of the build.)
\<close>

theorem concurrent_reports_regress:
  assumes "advance_plan tie sid rid phase True detail ver db0 = Some (i, up)"
    and "row i db = Some d" "deployInFlight (d_Status d)" "deployStatusRank (up_Status up) < deployStatusRank (d_Status d)"
  shows "\<exists>db' d'. advance_write Applied (advance_plan tie sid rid phase True detail ver db0) db = (None, db') \<and>
    row i db' = Some d' \<and> phase_target phase = Some (d_Status d') \<and> deployStatusRank (d_Status d') < deployStatusRank (d_Status d)"
proof -
  have up: "phase_target phase = Some (up_Status up)" and ok: "up_Status up \<noteq> ''failed''"
    using assms(1) by (auto simp: advance_plan_def no_update_def phase_target_def split: option.splits if_splits)
  let ?db' = "update_row i (apply_update (now db) up) db"
  have "setDeploymentStatusTx i up db = Inr ((), ?db')"
    using assms(2,3) ok in_flight_not_finished [of d] by (simp add: setDeploymentStatusTx_def Let_def)
  then have run: "advance_write Applied (Some (i, up)) db = (None, ?db')"
    by (simp add: advance_write_def SetDeploymentStatus_def in_tx_def)
  have "row i ?db' = Some (apply_update (now db) up d)" using assms(2) by (simp add: row_update)
  with run up assms(1,4) show ?thesis by (intro exI conjI) auto
qed

definition demo_overtaken :: deploy_db where
  "demo_overtaken = snd (AdvanceDeploymentForResource None Applied 0 ''srv'' ''app'' ''build'' True '''' 0 demo_drained)"

theorem concurrent_reports_regress_witness:
  "\<exists>db' d'. reachable_history demo_drained \<and> deploy_step demo_drained demo_overtaken \<and>
     map_option d_Status (row ''dep_0'' demo_overtaken) = Some ''deploying'' \<and>
     advance_write Applied (advance_plan 0 ''srv'' ''app'' ''clone'' True '''' 0 demo_drained) demo_overtaken = (None, db') \<and>
     row ''dep_0'' db' = Some d' \<and> d_Status d' = ''building''"
proof -
  let ?plan = "advance_plan 0 ''srv'' ''app'' ''clone'' True '''' 0 demo_drained" and ?d = "hd (deployments demo_overtaken)"
  have plan: "?plan = Some (''dep_0'', snd (the ?plan))" by code_simp
  have d: "row ''dep_0'' demo_overtaken = Some ?d" "deployInFlight (d_Status ?d)"
    "deployStatusRank (up_Status (snd (the ?plan))) < deployStatusRank (d_Status ?d)" by code_simp+
  have facts: "phase_target ''clone'' = Some ''building''" "map_option d_Status (row ''dep_0'' demo_overtaken) = Some ''deploying''" by code_simp+
  have step: "deploy_step demo_drained demo_overtaken"
    unfolding demo_overtaken_def AdvanceDeploymentForResource_def option.case by (rule deploy_step.report) (rule surjective_pairing)
  from concurrent_reports_regress [OF plan d] facts(1) obtain db' d'
    where "advance_write Applied ?plan demo_overtaken = (None, db')" "row ''dep_0'' db' = Some d'" "d_Status d' = ''building''" by auto
  with demo_reachable(1) step facts(2) show ?thesis by blast
qed

lemma reporter_resource: "deploymentReporterClause db sid d \<Longrightarrow> \<exists>r. map_of (resources db) (d_ResourceID d) = Some r"
  by (auto simp: deploymentReporterClause_def split: option.splits)

lemma set_status_total:
  assumes "row i db = Some d" "\<not> finished d" "map_of (resources db) (d_ResourceID d) = Some r"
  shows "\<exists>db'. setDeploymentStatusTx i up db = Inr ((), db')"
  using assms by (auto simp: setDeploymentStatusTx_def Let_def)

text \<open>
  C25. The roll-up of a compose deployment. A report for one of its services, from a server that may speak for it and
  not out of date, is recorded (a service that succeeded stays so), and the deployment becomes failed exactly when
  some service failed, success exactly when none failed and as many services as it counts succeeded, and
  deploying otherwise; no other deployment changes.
\<close>

theorem service_reports_roll_up:
  fixes d service statuses svcStatus
  defines "statuses \<equiv> if map_of (d_ServiceStatus d) service = Some ''success'' then d_ServiceStatus d
     else AList.update service svcStatus (d_ServiceStatus d)"
  assumes "reachable_history db" "in_flight_for tie sid rid db = Some d" "\<not> stale_report ver d"
    and "service_state ok phase = Some svcStatus"
  shows "\<exists>db' d'. AdvanceDeploymentService Applied tie sid rid service phase ok detail ver db = (None, db') \<and>
    row (d_ID d) db' = Some d' \<and> d_ServiceStatus d' = statuses \<and>
    d_Status d' = (if ''failed'' \<in> snd ` set statuses then ''failed''
       else if 0 < d_ServiceCount d \<and> d_ServiceCount d \<le> int (length (filter (\<lambda>(s, st). st = ''success'') statuses)) then ''success''
       else ''deploying'') \<and>
    (\<forall>i. i \<noteq> d_ID d \<longrightarrow> row i db' = row i db)"
proof -
  note inv = reachable_history_inv [OF assms(2)] and f = in_flight_forD [OF assms(3)]
  define db1 where "db1 = update_row (d_ID d) (\<lambda>d. d\<lparr>d_ServiceStatus := statuses\<rparr>) db"
  define up where "up = roll_up statuses (d_ServiceCount d) detail"
  have rows1: "row i db1 = (if i = d_ID d then Some (d\<lparr>d_ServiceStatus := statuses\<rparr>) else row i db)" for i
    using row_of_mem [OF inv] f by (simp add: db1_def row_update)
  obtain r where r: "map_of (resources db1) (d_ResourceID d) = Some r"
    using reporter_resource [of db sid d] f by (auto simp: db1_def)
  have "\<exists>db2. setDeploymentStatusTx (d_ID d) up db1 = Inr ((), db2)"
    using r f in_flight_not_finished [of d] by (intro set_status_total [OF rows1 [of "d_ID d", simplified]]) auto
  then obtain db2 where db2: "setDeploymentStatusTx (d_ID d) up db1 = Inr ((), db2)" by blast
  have rows2: "row j db2 = (if j = d_ID d then Some (apply_update (now db1) up (d\<lparr>d_ServiceStatus := statuses\<rparr>)) else row j db)" for j
    using db2 by (rule set_status_rows) (simp add: rows1 split: if_splits)
  have "advance_service_tx tie sid rid service svcStatus detail ver db = Inr ((), db2)"
    using assms(3,4) db2 row_of_mem [OF inv] f
    by (simp add: advance_service_tx_def service_plan_def service_write_def Let_def statuses_def [symmetric] db1_def [symmetric] up_def [symmetric])
  then have "AdvanceDeploymentService Applied tie sid rid service phase ok detail ver db = (None, db2)"
    using assms(5) by (simp add: AdvanceDeploymentService_def in_tx_def)
  moreover have "d_ServiceStatus (apply_update t up (d\<lparr>d_ServiceStatus := statuses\<rparr>)) = statuses" for t
    by (simp add: apply_update_def)
  moreover have "up_Status up = (if ''failed'' \<in> snd ` set statuses then ''failed''
       else if 0 < d_ServiceCount d \<and> d_ServiceCount d \<le> int (length (filter (\<lambda>(s, st). st = ''success'') statuses)) then ''success''
       else ''deploying'')"
    by (auto simp: up_def roll_up_def no_update_def list_ex_iff split: prod.splits) force+
  ultimately show ?thesis using rows2 by simp
qed

theorem service_reports_roll_up_witness:
  "\<exists>db' d'. AdvanceDeploymentService Applied 0 ''srv'' ''app'' ''web'' ''rollout'' True '''' 0 demo_stack = (None, db') \<and>
     row ''dep_0'' db' = Some d' \<and> d_ServiceStatus d' = [(''web'', ''success'')] \<and> d_ServiceCount (hd (deployments demo_stack)) = 2 \<and>
     d_Status d' = ''deploying''"
proof -
  let ?d = "hd (deployments demo_stack)"
  have f: "in_flight_for 0 ''srv'' ''app'' demo_stack = Some ?d" by code_simp
  have facts: "\<not> stale_report 0 ?d" "service_state True ''rollout'' = Some ''success''" "d_ServiceStatus ?d = []"
    "d_ServiceCount ?d = 2" "d_ID ?d = ''dep_0''" by code_simp+
  from service_reports_roll_up [OF demo_stack_reachable(1) f facts(1,2), of "''web''" "''''"] facts(3-) show ?thesis by auto
qed


section \<open>Deployments nobody reports on\<close>

definition alerted :: "string \<Rightarrow> string \<Rightarrow> deploy_db \<Rightarrow> bool" where
  "alerted ch k db \<longleftrightarrow> (\<exists>a\<in>set (alert_outbox db). al_Channel a = ch \<and> al_Key a = k)"

lemma enqueue_alerts:
  "alert_rules (enqueueAlertTx org ev k t b db) = alert_rules db"
  "alerted ch i db \<Longrightarrow> alerted ch i (enqueueAlertTx org ev k t b db)"
  "(org, ev, ch) \<in> set (alert_rules db) \<Longrightarrow> alerted ch k (enqueueAlertTx org ev k t b db)"
proof -
  show "(org, ev, ch) \<in> set (alert_rules db) \<Longrightarrow> alerted ch k (enqueueAlertTx org ev k t b db)"
    by (cases "alerted ch k db") (force simp: enqueueAlertTx_def alerted_def list_ex_iff)+
qed (force simp: enqueueAlertTx_def alerted_def)+

lemma set_failed_exact:
  assumes "row i db = Some d" "\<not> finished d" "map_of (resources db) (d_ResourceID d) = Some r" "up_Status up = ''failed''"
  obtains db' where "setDeploymentStatusTx i up db = Inr ((), db')" "now db' = now db" "resources db' = resources db"
    "alert_rules db' = alert_rules db" "\<And>j. row j db' = (if j = i then Some (apply_update (now db) up d) else row j db)"
    "\<And>ch j. alerted ch j db \<Longrightarrow> alerted ch j db'" "\<And>ch. (d_OrgID d, AlertDeployFailed, ch) \<in> set (alert_rules db) \<Longrightarrow> alerted ch (''dep:'' @ i) db'"
proof -
  let ?db1 = "update_row i (apply_update (now db) up) db"
  obtain title detail where eq: "setDeploymentStatusTx i up db = Inr ((), enqueueAlertTx (d_OrgID d) AlertDeployFailed (''dep:'' @ i) title detail ?db1)"
    using assms by (simp add: setDeploymentStatusTx_def Let_def)
  have keep: "alert_rules ?db1 = alert_rules db" "\<And>ch j. alerted ch j ?db1 \<longleftrightarrow> alerted ch j db"
    by (simp_all add: update_row_def alerted_def)
  have rows: "row j (enqueueAlertTx (d_OrgID d) AlertDeployFailed (''dep:'' @ i) title detail ?db1) = row j ?db1" for j by (simp add: row_def)
  show ?thesis
    by (rule that [OF eq]) (use assms(1) keep rows in \<open>simp_all add: enqueue_alerts row_update\<close>)
qed

lemma fail_each_exact:
  assumes "distinct is'"
    and "\<And>i. i \<in> set is' \<Longrightarrow> \<exists>d r. row i db = Some d \<and> \<not> finished d \<and> map_of (resources db) (d_ResourceID d) = Some r"
  shows "\<exists>db'. fail_each is' n db = Inr (n + int (length is'), db') \<and>
    (\<forall>j. \<exists>up. row j db' = (if j \<in> set is' then map_option (apply_update (now db) up) (row j db) else row j db) \<and>
            up_Status up = ''failed'' \<and> up_MarkFinished up) \<and>
    (\<forall>ch j. alerted ch j db \<longrightarrow> alerted ch j db') \<and>
    (\<forall>i d ch. i \<in> set is' \<longrightarrow> row i db = Some d \<longrightarrow> (d_OrgID d, AlertDeployFailed, ch) \<in> set (alert_rules db) \<longrightarrow> alerted ch (''dep:'' @ i) db')"
  using assms
proof (induction is' arbitrary: n db)
  case Nil
  have "\<exists>up :: DeploymentStatusUpdate. up_Status up = ''failed'' \<and> up_MarkFinished up"
    by (rule exI [of _ "no_update\<lparr>up_Status := ''failed'', up_MarkFinished := True\<rparr>"]) (simp add: no_update_def)
  then show ?case by auto
next
  case (Cons i is')
  let ?up = "no_update\<lparr>up_Status := ''failed'', up_Detail := ''timed out'' @ [CHR '' '', CHR 0xE2, CHR 0x80, CHR 0x94] @
    '' the agent stopped reporting progress'', up_MarkFinished := True\<rparr>"
  have up: "up_Status ?up = ''failed''" "up_MarkFinished ?up" by (simp_all add: no_update_def)
  obtain d r where d: "row i db = Some d" "\<not> finished d" "map_of (resources db) (d_ResourceID d) = Some r"
    using Cons.prems(2) by force
  from d up(1) obtain db1 where db1: "setDeploymentStatusTx i ?up db = Inr ((), db1)" "now db1 = now db" "resources db1 = resources db"
    "alert_rules db1 = alert_rules db" "\<And>j. row j db1 = (if j = i then Some (apply_update (now db) ?up d) else row j db)"
    "\<And>ch j. alerted ch j db \<Longrightarrow> alerted ch j db1" "\<And>ch. (d_OrgID d, AlertDeployFailed, ch) \<in> set (alert_rules db) \<Longrightarrow> alerted ch (''dep:'' @ i) db1"
    by (rule set_failed_exact) blast
  have i: "i \<notin> set is'" and dist: "distinct is'" using Cons.prems(1) by auto
  have open1: "\<exists>d r. row j db1 = Some d \<and> \<not> finished d \<and> map_of (resources db1) (d_ResourceID d) = Some r" if "j \<in> set is'" for j
    using Cons.prems(2) [of j] that i db1(3,5) by auto
  obtain db' where db': "fail_each is' (n + 1) db1 = Inr (n + 1 + int (length is'), db')"
    and rows: "\<And>j. \<exists>up. row j db' = (if j \<in> set is' then map_option (apply_update (now db1) up) (row j db1) else row j db1) \<and>
            up_Status up = ''failed'' \<and> up_MarkFinished up"
    and old: "\<And>ch j. alerted ch j db1 \<Longrightarrow> alerted ch j db'"
    and new: "\<And>j e ch. j \<in> set is' \<Longrightarrow> row j db1 = Some e \<Longrightarrow> (d_OrgID e, AlertDeployFailed, ch) \<in> set (alert_rules db1) \<Longrightarrow> alerted ch (''dep:'' @ j) db'"
    using Cons.IH [OF dist open1, of "n + 1"] by blast
  have r1: "row j db1 = (if j = i then Some (apply_update (now db) ?up d) else row j db)" for j by (rule db1(5))
  show ?case
  proof (intro exI [of _ db'] conjI allI impI)
    show "fail_each (i # is') n db = Inr (n + int (length (i # is')), db')" using db1(1) db' by simp
  next
    fix j
    obtain up' where u: "row j db' = (if j \<in> set is' then map_option (apply_update (now db1) up') (row j db1) else row j db1)"
      "up_Status up' = ''failed''" "up_MarkFinished up'" using rows by blast
    then show "\<exists>up. row j db' = (if j \<in> set (i # is') then map_option (apply_update (now db) up) (row j db) else row j db) \<and>
            up_Status up = ''failed'' \<and> up_MarkFinished up"
      using i d(1) up by (intro exI [of _ "if j = i then ?up else up'"]) (simp add: r1 db1(2))
  next
    fix ch j assume "alerted ch j db" then show "alerted ch j db'" by (intro old db1(6))
  next
    fix j e ch assume "j \<in> set (i # is')" "row j db = Some e" "(d_OrgID e, AlertDeployFailed, ch) \<in> set (alert_rules db)"
    then show "alerted ch (''dep:'' @ j) db'" using d(1) i old db1(4,7) new [of j e ch] by (cases "j = i") (auto simp: r1)
  qed
qed


definition is_stale :: "duration \<Rightarrow> deploy_db \<Rightarrow> Deployment \<Rightarrow> bool" where
  "is_stale timeout db d \<longleftrightarrow> deployInFlight (d_Status d) \<and> last_sign d < now db - timeout"

lemma stale_ids_set: "set (stale_ids timeout db) = d_ID ` {d \<in> set (deployments db). is_stale timeout db d}"
  by (auto simp: stale_ids_def is_stale_def)

lemma stale_ids_distinct: "db_inv db \<Longrightarrow> distinct (stale_ids timeout db)"
  by (auto simp: stale_ids_def db_inv_def rows_inv_def distinct_map intro: inj_on_subset)

text \<open>
  No deployment stays in flight after its agent went silent. A pass of the time-out fails exactly the deployments in flight
  whose last sign of life is older than the limit, stamps when they ended, leaves every other row as it was, counts
  them, and leaves an alert of each for every channel of its organisation that subscribed to failed deploys.
\<close>

theorem stale_deployments_fail:
  assumes "reachable_history db" "0 < timeout"
    and "\<And>d. d \<in> set (deployments db) \<Longrightarrow> d_ResourceID d \<in> fst ` set (resources db)"
  shows "\<exists>db'. TimeoutStaleDeployments Applied timeout db = (Inr (int (card {d \<in> set (deployments db). is_stale timeout db d})), db') \<and>
    (\<forall>d\<in>set (deployments db). \<exists>d'. row (d_ID d) db' = Some d' \<and>
       (if is_stale timeout db d
        then d_Status d' = ''failed'' \<and> d_FinishedAt d' = Some (now db) \<and>
          (\<forall>ch. (d_OrgID d, AlertDeployFailed, ch) \<in> set (alert_rules db) \<longrightarrow> alerted ch (''dep:'' @ d_ID d) db')
        else d' = d))"
proof -
  note inv = reachable_history_inv [OF assms(1)]
  let ?ids = "stale_ids timeout db" and ?S = "{d \<in> set (deployments db). is_stale timeout db d}"
  have inj: "inj_on d_ID (set (deployments db))" using inv by (auto simp: db_inv_def rows_inv_def distinct_map)
  have mem: "d_ID d \<in> set ?ids \<longleftrightarrow> is_stale timeout db d" if "d \<in> set (deployments db)" for d
    using inj that by (auto simp: stale_ids_set dest: inj_onD)
  have "card (d_ID ` ?S) = card ?S" using inj by (intro card_image) (auto intro: inj_on_subset)
  then have len: "length ?ids = card ?S"
    using distinct_card [OF stale_ids_distinct [OF inv]] by (simp add: stale_ids_set)
  have "\<exists>d r. row i db = Some d \<and> \<not> finished d \<and> map_of (resources db) (d_ResourceID d) = Some r" if "i \<in> set ?ids" for i
  proof -
    obtain d where d: "d \<in> set (deployments db)" "is_stale timeout db d" "i = d_ID d" using \<open>i \<in> set ?ids\<close> by (auto simp: stale_ids_set)
    then have "map_of (resources db) (d_ResourceID d) \<noteq> None" using assms(3) by (simp add: map_of_eq_None_iff)
    with d row_of_mem [OF inv d(1)] in_flight_not_finished [of d] show ?thesis by (auto simp: is_stale_def)
  qed
  from fail_each_exact [where is' = ?ids and n = 0, OF stale_ids_distinct [OF inv] this] obtain db' where db': "fail_each ?ids 0 db = Inr (int (length ?ids), db')"
    and rows: "\<And>j. \<exists>up. row j db' = (if j \<in> set ?ids then map_option (apply_update (now db) up) (row j db) else row j db) \<and>
            up_Status up = ''failed'' \<and> up_MarkFinished up"
    and alerts: "\<And>i d ch. i \<in> set ?ids \<Longrightarrow> row i db = Some d \<Longrightarrow> (d_OrgID d, AlertDeployFailed, ch) \<in> set (alert_rules db) \<Longrightarrow> alerted ch (''dep:'' @ i) db'"
    by auto
  show ?thesis
  proof (intro exI [of _ db'] conjI ballI)
    show "TimeoutStaleDeployments Applied timeout db = (Inr (int (card ?S)), db')"
      using assms(2) db' len by (simp add: TimeoutStaleDeployments_def in_tx_def)
    fix d assume d: "d \<in> set (deployments db)"
    obtain up where up: "row (d_ID d) db' = (if is_stale timeout db d then Some (apply_update (now db) up d) else Some d)"
      "up_Status up = ''failed''" "up_MarkFinished up"
      using rows [of "d_ID d"] row_of_mem [OF inv d] mem [OF d] by auto
    from up(3) have "d_FinishedAt (apply_update (now db) up d) = Some (now db)" by (simp add: apply_update_def)
    with up(1,2) show "\<exists>d'. row (d_ID d) db' = Some d' \<and>
       (if is_stale timeout db d
        then d_Status d' = ''failed'' \<and> d_FinishedAt d' = Some (now db) \<and>
          (\<forall>ch. (d_OrgID d, AlertDeployFailed, ch) \<in> set (alert_rules db) \<longrightarrow> alerted ch (''dep:'' @ d_ID d) db')
        else d' = d)"
      using alerts [OF _ row_of_mem [OF inv d]] mem [OF d] by auto
  qed
qed

definition demo_later :: deploy_db where
  "demo_later = demo_drained\<lparr>now := 5000\<rparr>"

theorem stale_deployments_fail_witness:
  "\<exists>db' d'. TimeoutStaleDeployments Applied 3000 demo_later = (Inr 1, db') \<and> row ''dep_0'' db' = Some d' \<and>
     d_Status d' = ''failed'' \<and> alerted ''ch'' ''dep:dep_0'' db'"
proof -
  have "deploy_step demo_drained demo_later"
  proof (rule deploy_step.others)
    have "list_all (\<lambda>(i, r). i \<noteq> []) (resources demo_drained)" by code_simp
    then show "[] \<notin> fst ` set (resources demo_later)"
      by (auto simp: demo_later_def list_all_iff)
  qed (simp add: demo_later_def)
  note reach = reachable_next [OF demo_reachable(1) this]
  let ?d = "hd (deployments demo_later)"
  have one: "deployments demo_later = [?d]" and facts: "d_ID ?d = ''dep_0''" "is_stale 3000 demo_later ?d"
    "d_ResourceID ?d \<in> set (map fst (resources demo_later))" "(d_OrgID ?d, AlertDeployFailed, ''ch'') \<in> set (alert_rules demo_later)"
    by code_simp+
  have mem: "d \<in> set (deployments demo_later) \<longleftrightarrow> d = ?d" for d by (subst one) simp
  have S: "{d \<in> set (deployments demo_later). is_stale 3000 demo_later d} = {?d}" using facts(2) by (auto simp: mem)
  have fk: "d_ResourceID d \<in> fst ` set (resources demo_later)" if "d \<in> set (deployments demo_later)" for d
    using that facts(3) by (simp add: mem)
  have "0 < (3000 :: int)" by simp
  from stale_deployments_fail [OF reach this fk, unfolded S] obtain db'
    where run: "TimeoutStaleDeployments Applied 3000 demo_later = (Inr (int (card {?d})), db')"
      and rows: "\<forall>d\<in>set (deployments demo_later). \<exists>d'. row (d_ID d) db' = Some d' \<and>
       (if is_stale 3000 demo_later d
        then d_Status d' = ''failed'' \<and> d_FinishedAt d' = Some (now demo_later) \<and>
          (\<forall>ch. (d_OrgID d, AlertDeployFailed, ch) \<in> set (alert_rules demo_later) \<longrightarrow> alerted ch (''dep:'' @ d_ID d) db')
        else d' = d)" by blast
  from rows [rule_format, of ?d] obtain d' where "row ''dep_0'' db' = Some d'" "d_Status d' = ''failed''" "alerted ''ch'' ''dep:dep_0'' db'"
    using facts by (auto simp: mem)
  with run show ?thesis by auto
qed


section \<open>Rollbacks\<close>

lemma find_unique: "t \<in> set xs \<Longrightarrow> P t \<Longrightarrow> (\<And>x. x \<in> set xs \<Longrightarrow> P x \<Longrightarrow> x = t) \<Longrightarrow> find P xs = Some t"
  by (metis find_None_iff find_Some_iff not_None_eq nth_mem)

lemma find_target:
  assumes "db_inv db" "t \<in> set (history orgID rid db)"
  shows "find (\<lambda>d. d_OrgID d = orgID \<and> d_ResourceID d = rid \<and> d_ID d = d_ID t) (deployments db) = Some t"
proof (rule find_unique)
  show t: "t \<in> set (deployments db)" and "d_OrgID t = orgID \<and> d_ResourceID t = rid \<and> d_ID t = d_ID t"
    using assms(2) by (simp_all add: history_def)
  fix x assume "x \<in> set (deployments db)" "d_OrgID x = orgID \<and> d_ResourceID x = rid \<and> d_ID x = d_ID t"
  then show "x = t" using assms(1) t by (intro distinct_idD [of "deployments db"]) (simp_all add: db_inv_def rows_inv_def)
qed

lemma offered_eligible: "t \<in> set (RollbackTargets orgID rid limit db) \<Longrightarrow> t \<in> set (history orgID rid db) \<and> rollback_eligible t"
  by (auto simp: RollbackTargets_def Let_def dest: in_set_takeD)

lemma rollback_run_eq:
  assumes "db_inv db" "t \<in> set (history orgID rid db)" "rollback_eligible t" "org_resource orgID rid db = Some r"
    and "''dep_'' @ id_hex db (id_seq db) \<notin> d_ID ` set (deployments db)"
  obtains d db' where "create_rollback_tx tie orgID rid (d_ID t) actor db = Inr ((d, d_ServerID t), db')"
    "d_GitSHA d = d_GitSHA t" "d_ImageDigest d = d_ImageDigest t" "d_ImagePin d = d_ImagePin t" "d_RollbackOf d = d_ID t"
    "d_Status d = ''queued''" "row_key d = row_key t"
    "deployments db' = d # deployments (supersedeInFlightTx orgID (d_ServerID t) rid db)"
proof -
  have ids: "\<not> list_ex (\<lambda>x. d_ID x = ''dep_'' @ id_hex db (id_seq db))
      (deployments (supersedeInFlightTx orgID (d_ServerID t) rid (db\<lparr>id_seq := Suc (id_seq db)\<rparr>)))"
  proof -
    have "d_ID ` set (deployments (supersedeInFlightTx orgID (d_ServerID t) rid (db\<lparr>id_seq := Suc (id_seq db)\<rparr>))) =
        d_ID ` set (deployments db)"
      by (simp add: supersedeInFlightTx_def image_image)
    then have "''dep_'' @ id_hex db (id_seq db) \<notin>
        d_ID ` set (deployments (supersedeInFlightTx orgID (d_ServerID t) rid (db\<lparr>id_seq := Suc (id_seq db)\<rparr>)))"
      using assms(5) by (rule ssubst)
    then show ?thesis by (simp only: list_ex_id not_False_eq_True)
  qed
  obtain n where n: "resourceServiceCountTx orgID rid db = Inr n" using assms(4) by (simp add: resourceServiceCountTx_def)
  define d where "d = (queued (''dep_'' @ id_hex db (id_seq db)) orgID rid ''rollback'' actor)
     \<lparr>d_EnvironmentID := d_EnvironmentID t, d_ServerID := d_ServerID t, d_ConnectionID := d_ConnectionID t, d_GitRef := d_GitRef t,
      d_GitSHA := d_GitSHA t, d_ImageDigest := d_ImageDigest t, d_ImagePin := d_ImagePin t, d_ConfigHash := d_ConfigHash t,
      d_RollbackOf := d_ID t, d_ServiceCount := n,
      d_BuildServerID := resolveBuildServerTx tie (d_BuildServerID t) (d_ConnectionID t) (d_EnvironmentID t) (db\<lparr>id_seq := Suc (id_seq db)\<rparr>)\<rparr>"
  have key: "d_OrgID d = orgID" "d_ServerID d = d_ServerID t" "d_ResourceID d = rid" "d_ID d = ''dep_'' @ id_hex db (id_seq db)"
    by (simp_all add: d_def queued_def)
  obtain d' db' where ins: "supersede_and_insert d actor (''Rollback queued to '' @ d_ID t) (db\<lparr>id_seq := Suc (id_seq db)\<rparr>) = Inr (d', db')"
    and d': "d' = d\<lparr>d_CreatedAt := now db\<rparr>" "deployments db' = d' # deployments (supersedeInFlightTx orgID (d_ServerID t) rid db)"
    using ids by (auto simp: supersede_and_insert_def insert_row_def key Let_def supersedeInFlightTx_def)
  have "create_rollback_tx tie orgID rid (d_ID t) actor db = Inr ((d', d_ServerID t), db')"
    using assms(3) n ins key(2) d'(1)
    by (auto simp: create_rollback_tx_def find_target [OF assms(1,2)] rollback_eligible_def newID_def d_def)
  then show ?thesis
    using d' assms(2) by (intro that) (auto simp: d_def queued_def row_key_def history_def)
qed

text \<open>
  Every release the rollback list offers can be rolled back to, and the rollback ships exactly that release: the same
  commit, image and pin on the same server, queued as the one deployment in flight there, with the target itself left as it
  was. (A fresh identifier is what the random generator gives.)
\<close>

theorem offered_rollback_ships_target:
  assumes "reachable_history db" "t \<in> set (RollbackTargets orgID rid limit db)" "org_resource orgID rid db = Some r"
    and "''dep_'' @ id_hex db (id_seq db) \<notin> d_ID ` set (deployments db)"
  shows "\<exists>d db'. CreateRollback Applied tie orgID rid (d_ID t) actor db = (Inr (d, d_ServerID t), db') \<and>
    d_GitSHA d = d_GitSHA t \<and> d_ImageDigest d = d_ImageDigest t \<and> d_ImagePin d = d_ImagePin t \<and> d_RollbackOf d = d_ID t \<and>
    row (d_ID t) db' = Some t \<and>
    {e \<in> set (deployments db'). deployInFlight (d_Status e) \<and> row_key e = row_key t} = {d}"
proof -
  note inv = reachable_history_inv [OF assms(1)] and t = offered_eligible [OF assms(2)]
  obtain d db' where run: "create_rollback_tx tie orgID rid (d_ID t) actor db = Inr ((d, d_ServerID t), db')"
    and d: "d_GitSHA d = d_GitSHA t" "d_ImageDigest d = d_ImageDigest t" "d_ImagePin d = d_ImagePin t" "d_RollbackOf d = d_ID t"
      "d_Status d = ''queued''" "row_key d = row_key t"
      "deployments db' = d # deployments (supersedeInFlightTx orgID (d_ServerID t) rid db)"
    by (rule rollback_run_eq [OF inv conjunct1 [OF t] conjunct2 [OF t] assms(3,4)])
  then have tx: "CreateRollback Applied tie orgID rid (d_ID t) actor db = (Inr (d, d_ServerID t), db')"
    by (simp add: CreateRollback_def in_tx_def)
  note inv' = deploy_step_inv [OF deploy_step.rollback [OF tx] inv]
  have key: "row_key t = (orgID, rid, d_ServerID t)" and fin: "\<not> in_flight t" and mem: "t \<in> set (deployments db)"
    using t by (simp_all add: rollback_eligible_def deployInFlight_def history_def row_key_def)
  have rid: "rid \<noteq> ''''" by (rule resource_named [OF inv assms(3)])
  have "t = supersede_row (now db) orgID (d_ServerID t) rid t" using fin by (simp add: supersede_row_kept)
  then have "t \<in> set (deployments db')" unfolding d(7) using mem rid by (auto simp: supersedeInFlightTx_def)
  then have "row (d_ID t) db' = Some t" by (rule row_of_mem [OF inv'])
  moreover have "in_flight d" "d \<in> set (deployments db')" using d(5,7) by (simp_all add: deployInFlight_def)
  moreover have "e = d" if "e \<in> set (deployments db')" "in_flight e" "row_key e = row_key t" for e
    using that supersede_clears [OF rid, of e orgID "d_ServerID t" db] key unfolding d(7) by auto
  ultimately show ?thesis using tx d by blast
qed

theorem offered_rollback_ships_target_witness:
  "\<exists>(t :: Deployment) d db'. CreateRollback Applied 0 ''org'' ''app'' (d_ID t) ''ops'' demo_built = (Inr (d, d_ServerID t), db') \<and>
     d_ID t = ''dep_0'' \<and> d_ImageDigest d = ''sigmahub/app:aa-0''"
proof -
  let ?t = "hd (RollbackTargets ''org'' ''app'' 0 demo_built)"
  have t: "?t \<in> set (RollbackTargets ''org'' ''app'' 0 demo_built)" by code_simp
  have r: "org_resource ''org'' ''app'' demo_built = Some demo_app" by code_simp
  have "''dep_'' @ id_hex demo_built (id_seq demo_built) \<notin> set (map d_ID (deployments demo_built))" by code_simp
  then have fresh: "''dep_'' @ id_hex demo_built (id_seq demo_built) \<notin> d_ID ` set (deployments demo_built)" by simp
  have "d_ID ?t = ''dep_0''" "d_ImageDigest ?t = ''sigmahub/app:aa-0''" by code_simp+
  moreover obtain d db' where "CreateRollback Applied 0 ''org'' ''app'' (d_ID ?t) ''ops'' demo_built = (Inr (d, d_ServerID ?t), db')"
    "d_ImageDigest d = d_ImageDigest ?t"
    using offered_rollback_ships_target [OF demo_reachable(2) t r fresh, of 0 "''ops''"] by blast
  ultimately have "CreateRollback Applied 0 ''org'' ''app'' (d_ID ?t) ''ops'' demo_built = (Inr (d, d_ServerID ?t), db') \<and>
     d_ID ?t = ''dep_0'' \<and> d_ImageDigest d = ''sigmahub/app:aa-0''" by simp
  then show ?thesis by (intro exI) assumption
qed

text \<open>
  A rollback to anything else is refused and changes nothing: when no release of that
  resource has the identifier, or it did not succeed, or it has neither a pin nor, for a release of a single image, a recorded image.
\<close>

theorem rollback_refused:
  assumes "\<not> (\<exists>t\<in>set (deployments db). d_OrgID t = orgID \<and> d_ResourceID t = rid \<and> d_ID t = target \<and> rollback_eligible t)"
  shows "\<exists>e. CreateRollback v tie orgID rid target actor db = (Inl e, db) \<and>
    (e = ErrNotFound \<or> e = ErrInvalid ''rollback target must be a successful release with a retained image'')"
proof (cases "find (\<lambda>d. d_OrgID d = orgID \<and> d_ResourceID d = rid \<and> d_ID d = target) (deployments db)")
  case None
  then show ?thesis by (simp add: CreateRollback_def in_tx_def create_rollback_tx_def)
next
  case (Some t)
  then have "t \<in> set (deployments db)" "d_OrgID t = orgID" "d_ResourceID t = rid" "d_ID t = target"
    by (auto simp: find_Some_iff)
  with assms have "\<not> rollback_eligible t" by blast
  with Some show ?thesis by (auto simp: CreateRollback_def in_tx_def create_rollback_tx_def Let_def rollback_eligible_def)
qed

theorem rollback_refused_witness:
  "\<exists>e. CreateRollback Applied 0 ''org'' ''app'' ''dep_0'' ''ops'' demo_drained = (Inl e, demo_drained)"
proof -
  have "list_all (\<lambda>t. d_Status t \<noteq> ''success'') (deployments demo_drained)" by code_simp
  then show ?thesis
    using rollback_refused [of demo_drained "''org''" "''app''" "''dep_0''" Applied 0 "''ops''"]
    by (auto simp: list_all_iff rollback_eligible_def)
qed

section \<open>What agents are sent and what they may report\<close>

text \<open>
  Whoever is sent a deployment may report on it: the latest release the server's document is rendered from, while it is in
  flight, is one the server's reports are matched against, and the image reference the store records for it is the one
  the reconciler renders.
\<close>

theorem rendered_deployment_is_reportable:
  assumes "DeployTargetsForServer tie sid rid db = Some d" "deployInFlight (d_Status d)"
  shows "d \<in> set (deployments db) \<and> d_ResourceID d = rid \<and> deploymentReporterClause db sid d \<and>
    (\<exists>e. in_flight_for tie sid rid db = Some e \<and> d_CreatedAt d \<le> d_CreatedAt e) \<and>
    pinnedImageTag rid (d_GitSHA d) (deployPin (d_ID d)) = PinnedImageTag rid (d_GitSHA d) (DeployPin (d_ID d))"
proof -
  have d: "d \<in> set (deployments db)" "d_ResourceID d = rid" "deploymentReporterClause db sid d"
    using assms(1) by (auto simp: DeployTargetsForServer_def deploymentReporterClause_def split: if_splits option.splits dest: latest_mem)
  let ?ds = "filter (\<lambda>d. d_ResourceID d = rid \<and> in_flight d \<and> deploymentReporterClause db sid d) (deployments db)"
  have in_ds: "d \<in> set ?ds" using d assms(2) by simp
  then obtain e where e: "in_flight_for tie sid rid db = Some e" by (cases ?ds) (auto simp: in_flight_for_def latest_def Let_def)
  have "d_CreatedAt d \<le> d_CreatedAt e" using latest_max [OF e [unfolded in_flight_for_def]] in_ds by blast
  with d e show ?thesis by (auto simp: pinnedImageTag_def PinnedImageTag_def deployImageTag_def DeployImageTag_def deployPin_def DeployPin_def)
qed

theorem rendered_deployment_is_reportable_witness:
  "\<exists>d. DeployTargetsForServer 0 ''srv'' ''app'' demo_drained = Some d \<and> deploymentReporterClause demo_drained ''srv'' d"
proof -
  have "DeployTargetsForServer 0 ''srv'' ''app'' demo_drained = Some (hd (deployments demo_drained))"
    "deployInFlight (d_Status (hd (deployments demo_drained)))" by code_simp+
  with rendered_deployment_is_reportable show ?thesis by blast
qed

end
