(* ===== verification/Render_Spec.thy ===== *)
theory Render_Spec
  imports Naming Gc "HOL-Library.AList"
begin

text \<open>
  What the reconciler of the control plane reads and writes (cp/internal/reconciler, with the render inputs and
  the engine catalogs of cp/internal/store). A resource's JSON spec is decoded at two types; the results are part of the
  input record, \<open>None\<close> where decoding fails. A Go map is a function to options, a list of its entries where it is
  iterated. An op's payload is a value of \<open>op_spec\<close>, one constructor for each payload type; the wire structs repeat
  the agent's JSON tags, so decoding one at the agent's type is \<open>wire_container\<close>, which leaves the fields
  the control plane has no name for at their zero value.
\<close>

section \<open>Op kinds\<close>

definition KindAgentUpdate :: string where "KindAgentUpdate = ''agent.update''"
definition KindAgentUninstall :: string where "KindAgentUninstall = ''agent.uninstall''"
definition KindHostNftables :: string where "KindHostNftables = ''host.nftables''"
definition KindHostSSHD :: string where "KindHostSSHD = ''host.sshd''"
definition KindHostCIS :: string where "KindHostCIS = ''host.cis''"
definition KindGitClone :: string where "KindGitClone = ''git.clone''"
definition KindImageBuild :: string where "KindImageBuild = ''image.build''"
definition KindBackupRun :: string where "KindBackupRun = ''backup.run''"
definition KindBackupVerify :: string where "KindBackupVerify = ''backup.verify''"
definition KindBackupRestore :: string where "KindBackupRestore = ''backup.restore''"
definition KindBackupBase :: string where "KindBackupBase = ''backup.base''"
definition KindBackupRestorePITR :: string where "KindBackupRestorePITR = ''backup.restore-pitr''"
definition KindS3Configure :: string where "KindS3Configure = ''s3.configure''"
definition KindK8sNode :: string where "KindK8sNode = ''k8s.node''"
definition KindK8sApply :: string where "KindK8sApply = ''k8s.apply''"
definition KindK8sRemove :: string where "KindK8sRemove = ''k8s.remove''"

lemmas render_kind_defs = KindAgentUpdate_def KindAgentUninstall_def KindHostNftables_def KindHostSSHD_def KindHostCIS_def
  KindGitClone_def KindImageBuild_def KindBackupRun_def KindBackupVerify_def KindBackupRestore_def KindBackupBase_def
  KindBackupRestorePITR_def KindS3Configure_def KindK8sNode_def KindK8sApply_def KindK8sRemove_def

section \<open>Resource specs\<close>

record app_port =
  ap_Container :: int
  ap_Host :: int
  ap_Protocol :: string

record app_volume =
  av_Name :: string
  av_MountPath :: string
  av_ReadOnly :: bool

record buildConfigSpec =
  bc_Method :: string
  bc_Dockerfile :: string
  bc_ContextSubdir :: string

record composeServiceSpec =
  sv_Name :: string
  sv_Build :: string
  sv_Dockerfile :: string
  sv_Image :: string
  sv_Ports :: "int list"
  sv_Rollout :: string
  sv_DependsOn :: "string list"
  sv_ServerID :: string
  sv_Env :: "(string \<times> string) list"

record appResourceSpec =
  as_Image :: string
  as_Env :: "(string \<times> string) list"
  as_Ports :: "app_port list"
  as_Volumes :: "app_volume list"
  as_Command :: "string list"
  as_User :: string
  as_ReadOnlyRootfs :: bool
  as_Tmpfs :: "string list"
  as_CPUs :: rat
  as_MemoryMB :: int
  as_Restart :: string
  as_Compose :: "composeServiceSpec list option"
  as_Build :: "buildConfigSpec option"

record llmResourceSpec =
  ls_Engine :: string
  ls_Model :: string
  ls_GPUs :: int
  ls_Env :: "(string \<times> string) list"

record detectedHealth =
  dh_Type :: string
  dh_Path :: string
  dh_Port :: int
  dh_IntervalSec :: int

record ResourceSpec =
  sp_ResourceID :: string
  sp_ProjectID :: string
  sp_Kind :: string
  sp_ClusterID :: string
  sp_PublicHost :: string
  sp_Spec :: string
  sp_app :: "appResourceSpec option"
  sp_llm :: "llmResourceSpec option"
  sp_health :: detectedHealth

section \<open>The other inputs of a render\<close>

record SecretRefMeta =
  sm_Name :: string
  sm_EnvVar :: bool

record Domain =
  dom_Domain :: string
  dom_ChallengeType :: string

record DeployTarget =
  dt_DeploymentID :: string
  dt_Provider :: string
  dt_RepoFullName :: string
  dt_Ref :: string
  dt_SHA :: string
  dt_ConfigHash :: string
  dt_ImageDigest :: string
  dt_ImagePin :: string
  dt_Trigger :: string
  dt_Status :: string
  dt_CreatedAt :: "int option" \<comment> \<open>Unix seconds; \<open>None\<close> is the zero time\<close>
  dt_ServiceStatus :: strmap
  dt_ServerID :: string
  dt_BuildServerID :: string

definition zero_target :: DeployTarget where
  "zero_target = \<lparr>dt_DeploymentID = '''', dt_Provider = '''', dt_RepoFullName = '''', dt_Ref = '''', dt_SHA = '''',
     dt_ConfigHash = '''', dt_ImageDigest = '''', dt_ImagePin = '''', dt_Trigger = '''', dt_Status = '''', dt_CreatedAt = None,
     dt_ServiceStatus = Map.empty, dt_ServerID = '''', dt_BuildServerID = ''''\<rparr>"

record DBTarget =
  db_Username :: string
  db_Database :: string
  db_Port :: int
  db_ServerType :: string
  db_PITR :: bool

record S3Target =
  s3_Engine :: string
  s3_AccessKey :: string
  s3_Port :: int

record LLMTarget =
  lt_Port :: int
  lt_WeightsToken :: bool
  lt_ContextTokens :: int

record PortException =
  px_Port :: int
  px_Proto :: string

record HostHardening =
  hh_MeshIP :: string
  hh_MeshInterface :: string
  hh_ProxyRole :: bool
  hh_KeepPublicSSH :: bool
  hh_CISEnabled :: bool
  hh_ExtraPorts :: "PortException list"
  hh_AgentVersion :: string
  hh_DesiredAgentVersion :: string
  hh_Decommissioning :: bool
  hh_PurgeVolumes :: bool

record PendingDestructiveOp =
  po_ID :: string
  po_OpKind :: string
  po_Target :: string

record BackupRunSpec =
  br_RunID :: string
  br_Kind :: string
  br_ResourceID :: string
  br_Engine :: string
  br_Database :: string
  br_Username :: string
  br_KeepDaily :: int
  br_KeepWeekly :: int
  br_KeepMonthly :: int
  br_ExpectedSha :: string
  br_SnapshotID :: string
  br_RestoreResourceID :: string
  br_RestoreDatabase :: string
  br_RestoreUsername :: string
  br_RecoveryTargetTime :: "string option" \<comment> \<open>RFC 3339\<close>

record S3OpSpec =
  so_OpID :: string
  so_ResourceID :: string
  so_Engine :: string
  so_Container :: string
  so_Endpoint :: string
  so_Action :: string
  so_Bucket :: string
  so_AccessKey :: string
  so_QuotaBytes :: int

record ClusterMembership =
  cm_ClusterID :: string
  cm_Name :: string
  cm_Role :: string
  cm_JoinToken :: string
  cm_ControlPlaneMeshIP :: string

definition NodeRoleControlPlane :: string where
  "NodeRoleControlPlane = ''control-plane''"

record ACMEConfig =
  acme_Email :: string
  acme_CADirURL :: string

record clusterRender =
  cl_member :: bool
  cl_membership :: ClusterMembership
  cl_workloads :: "ResourceSpec list"
  cl_builds :: "ResourceSpec list"

record registryRender =
  rg_repository :: string
  rg_host :: string

section \<open>Payloads\<close>

record containerOpSpec =
  co_ResourceID :: string
  co_Service :: string
  co_Name :: string
  co_Image :: string
  co_Network :: string
  co_NetworkAliases :: "string list"
  co_Env :: "(string \<times> string) list"
  co_Ports :: "PortMapping list"
  co_Volumes :: "VolumeMount list"
  co_Command :: "string list"
  co_User :: string
  co_ReadOnlyRootfs :: bool
  co_Tmpfs :: "string list"
  co_CPUs :: rat
  co_MemoryMB :: int
  co_Restart :: string
  co_SecretRefs :: "SecretRef list"
  co_Labels :: strmap
  co_GPUs :: int
  co_ShmSizeMB :: int

definition zero_container :: containerOpSpec where
  "zero_container = \<lparr>co_ResourceID = '''', co_Service = '''', co_Name = '''', co_Image = '''', co_Network = '''', co_NetworkAliases = [],
     co_Env = [], co_Ports = [], co_Volumes = [], co_Command = [], co_User = '''', co_ReadOnlyRootfs = False, co_Tmpfs = [],
     co_CPUs = 0, co_MemoryMB = 0, co_Restart = '''', co_SecretRefs = [], co_Labels = Map.empty, co_GPUs = 0, co_ShmSizeMB = 0\<rparr>"

record rolloutOpSpec =
  ro_Container :: containerOpSpec
  ro_Generation :: string
  ro_Health :: HealthProbe
  ro_DeploymentID :: string

record gitCloneOpSpec =
  gc_ResourceID :: string
  gc_Provider :: string
  gc_RepoFullName :: string
  gc_Ref :: string
  gc_SHA :: string
  gc_CredentialRef :: string

record buildImageOpSpec =
  bi_ResourceID :: string
  bi_SHA :: string
  bi_DedupKey :: string
  bi_Dockerfile :: string
  bi_ContextSubdir :: string
  bi_ImageTag :: string
  bi_Builder :: string
  bi_DeploymentID :: string
  bi_Force :: bool
  bi_PushImage :: bool
  bi_RegistryHost :: string

record backupOpSpec =
  bo_RunID :: string
  bo_ResourceID :: string
  bo_Container :: string
  bo_Engine :: string
  bo_Image :: string
  bo_Database :: string
  bo_Username :: string
  bo_Keep :: "int \<times> int \<times> int" \<comment> \<open>daily, weekly, monthly\<close>
  bo_ExpectedSha :: string
  bo_SnapshotID :: string
  bo_Target :: "string \<times> string \<times> string" \<comment> \<open>container, database, username\<close>
  bo_RecoveryTargetTime :: string

record k8sNodeOpSpec =
  kn_ClusterID :: string
  kn_Name :: string
  kn_Role :: string
  kn_JoinToken :: string
  kn_ServerURL :: string
  kn_AdvertiseIP :: string

record k8sApplyOpSpec =
  ka_ResourceID :: string
  ka_Service :: string
  ka_Name :: string
  ka_Namespace :: string
  ka_Image :: string
  ka_Replicas :: int
  ka_Ports :: "int list"
  ka_Env :: "(string \<times> string) list"
  ka_SecretRefs :: "SecretRef list"
  ka_Hosts :: "string list"
  ka_DeploymentID :: string
  ka_RegistryHost :: string
  ka_Workloads :: "string list"

datatype op_spec =
    WNetwork string
  | WVolume string string \<comment> \<open>name, resource\<close>
  | WImage string string \<comment> \<open>image, registry host\<close>
  | WContainer containerOpSpec
  | WRollout rolloutOpSpec
  | WSync string string string "string list" \<comment> \<open>resource, kind, spec, retained services\<close>
  | WClone gitCloneOpSpec
  | WBuild buildImageOpSpec
  | WNftables string bool bool "(int \<times> string) list" \<comment> \<open>mesh interface, public SSH, proxy role, extra ports\<close>
  | WSshd string bool \<comment> \<open>mesh address, listen on the mesh only\<close>
  | WCis int
  | WAgentUpdate string "string option" \<comment> \<open>version, download base\<close>
  | WUninstall string bool string \<comment> \<open>server, purge volumes, mesh interface\<close>
  | WTraefik TraefikSpec
  | WBackup backupOpSpec
  | WS3Configure S3OpSpec
  | WK8sNode k8sNodeOpSpec
  | WK8sApply k8sApplyOpSpec
  | WK8sRemove "string list"

type_synonym rop = "op_spec Op"

definition mk_op :: "string \<Rightarrow> string \<Rightarrow> string list \<Rightarrow> op_spec \<Rightarrow> rop" where
  "mk_op i kind needs spec = \<lparr>ID = i, Kind = kind, DependsOn = needs, Spec = spec\<rparr>"

lemma mk_op_simps [simp]:
  "ID (mk_op i k ds s) = i" "Kind (mk_op i k ds s) = k" "DependsOn (mk_op i k ds s) = ds" "Spec (mk_op i k ds s) = s"
  by (simp_all add: mk_op_def)

text \<open>The payloads at the types the agent decodes them to.\<close>

definition wire_container :: "containerOpSpec \<Rightarrow> ContainerSpec" where
  "wire_container c =
     \<lparr>ResourceID = co_ResourceID c, Service = co_Service c, Name = co_Name c, Image = co_Image c, Network = co_Network c,
      NetworkAliases = co_NetworkAliases c, Env = co_Env c, Ports = co_Ports c, Volumes = co_Volumes c, Cmd = co_Command c,
      User = co_User c, ReadOnlyRootfs = co_ReadOnlyRootfs c, Tmpfs = co_Tmpfs c, CPUs = co_CPUs c, MemoryMB = co_MemoryMB c,
      Restart = co_Restart c, SecretRefs = co_SecretRefs c, Labels = co_Labels c, GPUs = co_GPUs c, ShmSizeMB = co_ShmSizeMB c,
      Privileged = False, HostNetwork = False, HostPID = False, HostMounts = []\<rparr>"

definition bad_json :: goerr where
  "bad_json = ErrString ''json: cannot unmarshal''"

text \<open>
  A decoder of payloads that reads a payload back at the type it was written for. What it answers at another type does not matter here:
  every kind of op carries one type.
\<close>

definition wire_codec :: "(ContainerSpec \<Rightarrow> string) \<Rightarrow> (TraefikSpec \<Rightarrow> string) \<Rightarrow> (string \<Rightarrow> string) \<Rightarrow> op_spec codec" where
  "wire_codec spec_hash thash sha =
     \<lparr>dec_network = (\<lambda>p. case p of WNetwork n \<Rightarrow> Inr \<lparr>N_Name = n\<rparr> | _ \<Rightarrow> Inl bad_json),
      dec_volume = (\<lambda>p. case p of WVolume n r \<Rightarrow> Inr \<lparr>VS_Name = n, VS_ResourceID = r\<rparr> | _ \<Rightarrow> Inl bad_json),
      dec_image = (\<lambda>p. case p of WImage i h \<Rightarrow> Inr \<lparr>I_Image = i, I_RegistryHost = h\<rparr> | _ \<Rightarrow> Inl bad_json),
      dec_container = (\<lambda>p. case p of WContainer c \<Rightarrow> Inr (wire_container c) | _ \<Rightarrow> Inl bad_json),
      dec_rollout = (\<lambda>p. case p of
          WRollout r \<Rightarrow> Inr \<lparr>RS_Container = wire_container (ro_Container r), RS_Generation = ro_Generation r, RS_Health = ro_Health r,
                            RS_DeploymentID = ro_DeploymentID r\<rparr>
        | _ \<Rightarrow> Inl bad_json),
      dec_recreate = (\<lambda>p. case p of
          WRollout r \<Rightarrow> Inr \<lparr>RC_Container = wire_container (ro_Container r), RC_Generation = ro_Generation r, RC_Health = ro_Health r,
                            RC_DeploymentID = ro_DeploymentID r\<rparr>
        | _ \<Rightarrow> Inl bad_json),
      dec_sync = (\<lambda>p. case p of WSync r k s retain \<Rightarrow> Inr \<lparr>Sync_ResourceID = r, Sync_Retain = retain\<rparr> | _ \<Rightarrow> Inl bad_json),
      dec_traefik = (\<lambda>p. case p of WTraefik t \<Rightarrow> Inr t | _ \<Rightarrow> Inl bad_json),
      SpecHash = spec_hash, traefik_hash = thash, sha256_hex8 = sha\<rparr>"

section \<open>Engine catalogs\<close>

record DBEngineDef =
  de_Engine :: string
  de_Image :: string
  de_ContainerPort :: int
  de_DataMount :: string
  de_SecretEnvNames :: "string list"

definition dbEngines :: "(string \<times> DBEngineDef) list" where
  "dbEngines =
     [(''postgres'', \<lparr>de_Engine = ''postgres'', de_Image = ''postgres:16.6'', de_ContainerPort = 5432,
        de_DataMount = ''/var/lib/postgresql/data'', de_SecretEnvNames = [''POSTGRES_PASSWORD'']\<rparr>),
      (''mysql'', \<lparr>de_Engine = ''mysql'', de_Image = ''mysql:8.4.4'', de_ContainerPort = 3306,
        de_DataMount = ''/var/lib/mysql'', de_SecretEnvNames = [''MYSQL_PASSWORD'', ''MYSQL_ROOT_PASSWORD'']\<rparr>),
      (''redis'', \<lparr>de_Engine = ''redis'', de_Image = ''redis:7.4.2'', de_ContainerPort = 6379,
        de_DataMount = ''/data'', de_SecretEnvNames = [''REDIS_PASSWORD'']\<rparr>),
      (''mongodb'', \<lparr>de_Engine = ''mongodb'', de_Image = ''mongo:7.0.16'', de_ContainerPort = 27017,
        de_DataMount = ''/data/db'', de_SecretEnvNames = [''MONGO_INITDB_ROOT_PASSWORD'']\<rparr>)]"

definition DBEngine :: "string \<Rightarrow> DBEngineDef option" where
  "DBEngine kind = map_of dbEngines kind"

definition db_PlainEnv :: "DBEngineDef \<Rightarrow> string \<Rightarrow> string \<Rightarrow> (string \<times> string) list" where
  "db_PlainEnv d username dbname =
     (if de_Engine d = ''postgres'' then [(''POSTGRES_USER'', username), (''POSTGRES_DB'', dbname)]
      else if de_Engine d = ''mysql'' then [(''MYSQL_USER'', username), (''MYSQL_DATABASE'', dbname)]
      else if de_Engine d = ''mongodb'' then [(''MONGO_INITDB_ROOT_USERNAME'', username)]
      else [])"

definition TunedCommand :: "DBEngineDef \<Rightarrow> string \<Rightarrow> string list" where
  "TunedCommand d serverType =
     (let prod = (serverType = ''database'')
      in if de_Engine d = ''postgres'' then
           (if prod then [''postgres'', ''-c'', ''shared_buffers=512MB'', ''-c'', ''max_connections=200'']
            else [''postgres'', ''-c'', ''shared_buffers=128MB'', ''-c'', ''max_connections=50''])
         else if de_Engine d = ''mysql'' then
           (if prod then [''mysqld'', ''--innodb-buffer-pool-size=512M''] else [''mysqld'', ''--innodb-buffer-pool-size=128M''])
         else if de_Engine d = ''redis'' then
           [''sh'', ''-c'', ''exec redis-server --appendonly yes --maxmemory '' @ (if prod then ''512mb'' else ''128mb'') @
             '' --maxmemory-policy noeviction --requirepass '' @ [CHR 0x22] @ ''$REDIS_PASSWORD'' @ [CHR 0x22]]
         else if de_Engine d = ''mongodb'' then
           [''mongod'', ''--wiredTigerCacheSizeGB'', if prod then ''0.50'' else ''0.25'']
         else [])"

record S3EngineDef =
  se_Engine :: string
  se_Image :: string
  se_APIPort :: int
  se_DataMount :: string
  se_AccessKeyEnv :: string
  se_StaticEnv :: "(string \<times> string) list"
  se_SecretEnvNames :: "string list"
  se_Cmd :: "string list"

definition s3Engines :: "S3EngineDef list" where
  "s3Engines =
     [\<lparr>se_Engine = ''minio'', se_Image = ''minio/minio:RELEASE.2025-04-22T22-12-26Z'', se_APIPort = 9000, se_DataMount = ''/data'',
       se_AccessKeyEnv = ''MINIO_ROOT_USER'', se_StaticEnv = [(''MINIO_BROWSER'', ''off'')],
       se_SecretEnvNames = [''MINIO_ROOT_PASSWORD''], se_Cmd = [''server'', ''/data'', ''--address'', '':9000'']\<rparr>,
      \<lparr>se_Engine = ''seaweedfs'',
       se_Image = ''chrislusf/seaweedfs:3.94@sha256:d8ab8284bf4fd221e3cbf25f114f2f317c5bc942b1df032c43cc9d7bfe9bb1c6'',
       se_APIPort = 8333, se_DataMount = ''/data'', se_AccessKeyEnv = ''AWS_ACCESS_KEY_ID'', se_StaticEnv = [],
       se_SecretEnvNames = [''AWS_SECRET_ACCESS_KEY''], se_Cmd = [''server'', ''-dir=/data'', ''-s3'', ''-s3.port=8333'']\<rparr>]"

definition S3EngineByName :: "string \<Rightarrow> S3EngineDef option" where
  "S3EngineByName engine = find (\<lambda>d. se_Engine d = engine) s3Engines"

definition s3_PlainEnv :: "S3EngineDef \<Rightarrow> string \<Rightarrow> (string \<times> string) list" where
  "s3_PlainEnv d accessKey = fold (\<lambda>(k, v). AList.update k v) (se_StaticEnv d) [(se_AccessKeyEnv d, accessKey)]"

definition HubTokenSecretName :: string where
  "HubTokenSecretName = ''HUGGING_FACE_HUB_TOKEN''"

record LLMEngineDef =
  le_Engine :: string
  le_Image :: string
  le_ContainerPort :: int
  le_ModelCacheMount :: string
  le_SecretEnvNames :: "string list"

definition llmEngines :: "(string \<times> LLMEngineDef) list" where
  "llmEngines =
     [(''vllm'', \<lparr>le_Engine = ''vllm'', le_Image = ''vllm/vllm-openai:v0.6.6'', le_ContainerPort = 8000,
        le_ModelCacheMount = ''/root/.cache/huggingface'', le_SecretEnvNames = [HubTokenSecretName]\<rparr>),
      (''ollama'', \<lparr>le_Engine = ''ollama'', le_Image = ''ollama/ollama:0.5.4'', le_ContainerPort = 11434,
        le_ModelCacheMount = ''/root/.ollama'', le_SecretEnvNames = []\<rparr>)]"

definition DefaultLLMEngine :: string where
  "DefaultLLMEngine = ''vllm''"

definition LLMEngine :: "string \<Rightarrow> LLMEngineDef option" where
  "LLMEngine engine = map_of llmEngines engine"

definition llm_Command :: "LLMEngineDef \<Rightarrow> string \<Rightarrow> int \<Rightarrow> string list" where
  "llm_Command d model contextTokens =
     (if le_Engine d = ''vllm'' then
        (if model = '''' then []
         else [''--model'', model, ''--host'', ''0.0.0.0'', ''--port'', ''8000''] @
              (if contextTokens > 0 then [''--max-model-len'', itoa contextTokens] else []))
      else [])"

definition llm_PlainEnv :: "LLMEngineDef \<Rightarrow> string \<Rightarrow> (string \<times> string) list" where
  "llm_PlainEnv d model =
     (if le_Engine d = ''ollama'' \<and> model \<noteq> '''' then [(''OLLAMA_MODEL'', model), (''OLLAMA_HOST'', ''0.0.0.0:11434'')] else [])"

end
