(* ===== verification/Render.thy ===== *)
theory Render
  imports Render_Spec
begin

text \<open>
  The renderers of one server's document (cp/internal/reconciler): container.go, database.go, llm.go, s3.go,
  s3_configure.go, backup.go, host.go and traefik.go. A renderer that returns \<open>ok = false\<close> is \<open>None\<close>. Of a map of
  labels or environment entries the order does not matter: JSON writes its keys sorted.
\<close>

section \<open>Ingress labels\<close>

fun strings_join :: "string \<Rightarrow> string list \<Rightarrow> string" where
  "strings_join sep [] = ''''"
| "strings_join sep [x] = x"
| "strings_join sep (x # y # xs) = x @ sep @ strings_join sep (y # xs)"

definition traefikCertResolver :: string where
  "traefikCertResolver = ''le''"

definition renderTraefikOp :: "string \<Rightarrow> ACMEConfig \<Rightarrow> Domain list \<Rightarrow> rop" where
  "renderTraefikOp sid cfg domains =
     (let challenge = (if domains \<noteq> [] \<and> list_all (\<lambda>d. dom_ChallengeType d = ''tls-alpn'') domains then ''tls-alpn'' else ''http'')
      in mk_op (''proxy:traefik:'' @ sid) KindProxyTraefik []
           (WTraefik \<lparr>T_ServerID = sid, T_CertResolver = traefikCertResolver, T_ChallengeType = challenge,
              T_ACMEEmail = acme_Email cfg, T_ACMECADirURL = acme_CADirURL cfg\<rparr>))"

definition traefikHealthLabels :: "string \<Rightarrow> HealthProbe \<Rightarrow> strmap" where
  "traefikHealthLabels svc h =
     (if HP_Type h \<noteq> ''http'' \<or> HP_Path h = '''' then Map.empty
      else let pre = ''traefik.http.services.'' @ svc @ ''.loadbalancer.healthcheck.'';
               interval = (if HP_IntervalSec h \<le> 0 then 3 else HP_IntervalSec h);
               labels = [pre @ ''path'' \<mapsto> HP_Path h, pre @ ''interval'' \<mapsto> itoa interval @ ''s'']
           in if HP_Port h > 0 then labels(pre @ ''port'' \<mapsto> itoa (HP_Port h)) else labels)"

record blueGreenRouting =
  bg_Generation :: string
  bg_Priority :: int

definition routerEpoch :: int where
  "routerEpoch = 1577836800"

definition routerPriorityBase :: int where
  "routerPriorityBase = 2 ^ 30"

definition generationRouterPriority :: "int option \<Rightarrow> int" where
  "generationRouterPriority createdAt =
     (case createdAt of
        None \<Rightarrow> routerPriorityBase
      | Some t \<Rightarrow>
          let p = routerPriorityBase - (t - routerEpoch);
              p = (if p < 1 then 1 else p)
          in if p > routerPriorityBase then routerPriorityBase else p)"

definition traefik_host :: "string \<Rightarrow> string" where
  "traefik_host h = ''Host('' @ [CHR 0x60] @ h @ [CHR 0x60] @ '')''"

definition traefikLabels :: "string \<Rightarrow> Domain list \<Rightarrow> string \<Rightarrow> int \<Rightarrow> blueGreenRouting \<Rightarrow> strmap" where
  "traefikLabels resourceID domains publicHost port bg =
     (if domains = [] \<and> publicHost = '''' then Map.empty
      else let hosts = sort (map (\<lambda>d. traefik_host (dom_Domain d)) domains @ (if publicHost \<noteq> '''' then [traefik_host publicHost] else []));
               router = TraefikGenerationRouterName resourceID (bg_Generation bg);
               labels = [''traefik.enable'' \<mapsto> ''true'',
                 ''traefik.http.routers.'' @ router @ ''.rule'' \<mapsto> strings_join '' || '' hosts,
                 ''traefik.http.routers.'' @ router @ ''.entrypoints'' \<mapsto> ''websecure'',
                 ''traefik.http.routers.'' @ router @ ''.tls'' \<mapsto> ''true'',
                 ''traefik.http.routers.'' @ router @ ''.tls.certresolver'' \<mapsto> traefikCertResolver];
               labels = (if bg_Generation bg \<noteq> '''' \<and> bg_Priority bg > 0
                 then labels(''traefik.http.routers.'' @ router @ ''.priority'' \<mapsto> itoa (bg_Priority bg)) else labels)
           in if port > 0
              then labels(''traefik.http.services.'' @ router @ ''.loadbalancer.server.port'' \<mapsto> itoa port,
                          ''traefik.http.routers.'' @ router @ ''.service'' \<mapsto> router)
              else labels)"

section \<open>Apps from a registry image\<close>

definition secretsMountDir :: string where
  "secretsMountDir = ''/run/secrets''"

definition secret_refs :: "SecretRefMeta list \<Rightarrow> SecretRef list" where
  "secret_refs refs = map (\<lambda>r. \<lparr>SR_Name = sm_Name r, SR_EnvVar = sm_EnvVar r\<rparr>) refs"

definition file_mode :: "SecretRefMeta list \<Rightarrow> bool" where
  "file_mode refs = list_ex (\<lambda>r. \<not> sm_EnvVar r) refs"

definition declared_volumes :: "appResourceSpec \<Rightarrow> app_volume list" where
  "declared_volumes spec = filter (\<lambda>v. av_Name v \<noteq> '''') (as_Volumes spec)"

definition volume_id :: "string \<Rightarrow> string \<Rightarrow> string" where
  "volume_id rid vol = ''vol:'' @ rid @ '':'' @ vol"

definition volume_op :: "string \<Rightarrow> string \<Rightarrow> rop" where
  "volume_op rid vol = mk_op (volume_id rid vol) KindVolumeEnsure [] (WVolume (VolumeName rid vol) rid)"

definition volume_mount :: "string \<Rightarrow> app_volume \<Rightarrow> VolumeMount" where
  "volume_mount rid v = \<lparr>V_Name = VolumeName rid (av_Name v), V_MountPath = av_MountPath v, V_ReadOnly = av_ReadOnly v\<rparr>"

definition first_port :: "appResourceSpec \<Rightarrow> int" where
  "first_port spec = (case as_Ports spec of [] \<Rightarrow> 0 | p # _ \<Rightarrow> ap_Container p)"

definition renderAppOps :: "ResourceSpec \<Rightarrow> SecretRefMeta list \<Rightarrow> Domain list \<Rightarrow> (rop list \<times> string) option" where
  "renderAppOps rs refs domains =
     (case sp_app rs of
        None \<Rightarrow> None
      | Some spec \<Rightarrow>
          if as_Image spec = '''' then None
          else let rid = sp_ResourceID rs;
                   networkID = ''net:'' @ sp_ProjectID rs;
                   imageID = ''img:'' @ rid;
                   vols = declared_volumes spec;
                   tmpfs = (if file_mode refs \<and> secretsMountDir \<notin> set (as_Tmpfs spec) then as_Tmpfs spec @ [secretsMountDir] else as_Tmpfs spec);
                   cs = zero_container\<lparr>co_ResourceID := rid, co_Name := ContainerName rid, co_Image := as_Image spec,
                     co_Network := NetworkName (sp_ProjectID rs), co_Env := as_Env spec, co_Volumes := map (volume_mount rid) vols,
                     co_Command := as_Command spec, co_User := as_User spec, co_ReadOnlyRootfs := as_ReadOnlyRootfs spec,
                     co_Tmpfs := tmpfs, co_CPUs := as_CPUs spec, co_MemoryMB := as_MemoryMB spec, co_Restart := as_Restart spec,
                     co_Ports := map (\<lambda>p. \<lparr>P_Container = ap_Container p, P_Host = ap_Host p, P_Protocol = ap_Protocol p, P_HostIP = ''''\<rparr>) (as_Ports spec),
                     co_SecretRefs := secret_refs refs,
                     co_Labels := (if domains \<noteq> [] \<or> sp_PublicHost rs \<noteq> ''''
                       then traefikLabels rid domains (sp_PublicHost rs) (first_port spec) \<lparr>bg_Generation = '''', bg_Priority = 0\<rparr>
                       else Map.empty)\<rparr>
               in Some ([mk_op imageID KindImagePull [] (WImage (as_Image spec) '''')] @
                        map (\<lambda>v. volume_op rid (av_Name v)) vols @
                        [mk_op (''res:'' @ rid) KindContainerApply ([networkID, imageID] @ map (\<lambda>v. volume_id rid (av_Name v)) vols) (WContainer cs)],
                        networkID))"

definition renderVolumeRemoveOp :: "PendingDestructiveOp \<Rightarrow> rop" where
  "renderVolumeRemoveOp p = mk_op (''volrm:'' @ po_ID p) KindVolumeRemove [] (WVolume (po_Target p) '''')"

section \<open>Databases, object storage and models\<close>

definition mesh_port :: "int \<Rightarrow> int \<Rightarrow> string \<Rightarrow> PortMapping" where
  "mesh_port container host meshIP = \<lparr>P_Container = container, P_Host = host, P_Protocol = '''', P_HostIP = meshIP\<rparr>"

definition env_refs :: "string list \<Rightarrow> SecretRef list" where
  "env_refs names = map (\<lambda>n. \<lparr>SR_Name = n, SR_EnvVar = True\<rparr>) names"

definition wal_spool :: string where
  "wal_spool = ''/var/lib/postgresql/wal-archive''"

definition wal_flags :: "string list" where
  "wal_flags = [''-c'', ''wal_level=replica'', ''-c'', ''archive_mode=on'', ''-c'', ''archive_timeout=300'', ''-c'',
     ''archive_command=test ! -f '' @ wal_spool @ ''/%f && cp %p '' @ wal_spool @ ''/%f.tmp && mv '' @ wal_spool @ ''/%f.tmp '' @ wal_spool @ ''/%f'']"

definition renderDatabaseOps :: "ResourceSpec \<Rightarrow> DBTarget \<Rightarrow> string \<Rightarrow> (rop list \<times> string) option" where
  "renderDatabaseOps rs target meshIP =
     (case DBEngine (sp_Kind rs) of
        None \<Rightarrow> None
      | Some def \<Rightarrow>
          if meshIP = '''' \<or> db_Port target = 0 then None
          else let rid = sp_ResourceID rs;
                   networkID = ''net:'' @ sp_ProjectID rs;
                   imageID = ''img:'' @ rid;
                   pitr = (db_PITR target \<and> sp_Kind rs = ''postgres'');
                   cs = zero_container\<lparr>co_ResourceID := rid, co_Name := ContainerName rid, co_Image := de_Image def,
                     co_Network := NetworkName (sp_ProjectID rs), co_Env := db_PlainEnv def (db_Username target) (db_Database target),
                     co_Ports := [mesh_port (de_ContainerPort def) (db_Port target) meshIP],
                     co_Volumes := \<lparr>V_Name = VolumeName rid ''data'', V_MountPath = de_DataMount def, V_ReadOnly = False\<rparr> #
                       (if pitr then [\<lparr>V_Name = VolumeName rid ''wal'', V_MountPath = wal_spool, V_ReadOnly = False\<rparr>] else []),
                     co_Command := TunedCommand def (db_ServerType target) @ (if pitr then wal_flags else []),
                     co_SecretRefs := env_refs (de_SecretEnvNames def)\<rparr>
               in Some ([mk_op imageID KindImagePull [] (WImage (de_Image def) ''''), volume_op rid ''data''] @
                        (if pitr then [volume_op rid ''wal''] else []) @
                        [mk_op (''res:'' @ rid) KindContainerApply
                           ([networkID, imageID, volume_id rid ''data''] @ (if pitr then [volume_id rid ''wal''] else [])) (WContainer cs)],
                        networkID))"

definition renderS3Ops :: "ResourceSpec \<Rightarrow> S3Target \<Rightarrow> string \<Rightarrow> (rop list \<times> string) option" where
  "renderS3Ops rs target meshIP =
     (case S3EngineByName (s3_Engine target) of
        None \<Rightarrow> None
      | Some def \<Rightarrow>
          if meshIP = '''' \<or> s3_Port target = 0 then None
          else let rid = sp_ResourceID rs;
                   networkID = ''net:'' @ sp_ProjectID rs;
                   imageID = ''img:'' @ rid;
                   cs = zero_container\<lparr>co_ResourceID := rid, co_Name := ContainerName rid, co_Image := se_Image def,
                     co_Network := NetworkName (sp_ProjectID rs), co_Env := s3_PlainEnv def (s3_AccessKey target),
                     co_Ports := [mesh_port (se_APIPort def) (s3_Port target) meshIP],
                     co_Volumes := [\<lparr>V_Name = VolumeName rid ''data'', V_MountPath = se_DataMount def, V_ReadOnly = False\<rparr>],
                     co_Command := se_Cmd def, co_SecretRefs := env_refs (se_SecretEnvNames def)\<rparr>
               in Some ([mk_op imageID KindImagePull [] (WImage (se_Image def) ''''), volume_op rid ''data'',
                         mk_op (''res:'' @ rid) KindContainerApply [networkID, imageID, volume_id rid ''data''] (WContainer cs)],
                        networkID))"

definition llmShmSizeMB :: int where
  "llmShmSizeMB = 8192"

definition gpuRequest :: "int \<Rightarrow> int" where
  "gpuRequest n = (if n \<le> 0 then -1 else n)"

definition hasSecretRef :: "SecretRefMeta list \<Rightarrow> string \<Rightarrow> bool" where
  "hasSecretRef refs name = list_ex (\<lambda>r. sm_Name r = name) refs"

definition renderLLMOps :: "ResourceSpec \<Rightarrow> LLMTarget \<Rightarrow> string \<Rightarrow> SecretRefMeta list \<Rightarrow> (rop list \<times> string) option" where
  "renderLLMOps rs target meshIP refs =
     (if meshIP = '''' \<or> lt_Port target = 0 then None
      else case sp_llm rs of
             None \<Rightarrow> None
           | Some spec \<Rightarrow>
               (case LLMEngine (if ls_Engine spec = '''' then DefaultLLMEngine else ls_Engine spec) of
                  None \<Rightarrow> None
                | Some def \<Rightarrow>
                    let rid = sp_ResourceID rs;
                        networkID = ''net:'' @ sp_ProjectID rs;
                        imageID = ''img:'' @ rid;
                        own = filter (\<lambda>name. \<not> (name = HubTokenSecretName \<and> \<not> lt_WeightsToken target) \<and> \<not> hasSecretRef refs name)
                                (le_SecretEnvNames def);
                        cs = zero_container\<lparr>co_ResourceID := rid, co_Name := ContainerName rid, co_Image := le_Image def,
                          co_Network := NetworkName (sp_ProjectID rs),
                          co_Env := fold (\<lambda>(k, v). AList.update k v) (ls_Env spec) (llm_PlainEnv def (ls_Model spec)),
                          co_Ports := [mesh_port (le_ContainerPort def) (lt_Port target) meshIP],
                          co_Volumes := [\<lparr>V_Name = VolumeName rid ''models'', V_MountPath = le_ModelCacheMount def, V_ReadOnly = False\<rparr>],
                          co_Command := llm_Command def (ls_Model spec) (lt_ContextTokens target),
                          co_GPUs := gpuRequest (ls_GPUs spec), co_ShmSizeMB := llmShmSizeMB,
                          co_SecretRefs := env_refs own @ secret_refs refs\<rparr>
                    in Some ([mk_op imageID KindImagePull [] (WImage (le_Image def) ''''), volume_op rid ''models'',
                              mk_op (''res:'' @ rid) KindContainerApply [networkID, imageID, volume_id rid ''models''] (WContainer cs)],
                             networkID)))"

section \<open>Host ops\<close>

definition trim_right :: "string \<Rightarrow> string \<Rightarrow> string" where
  "trim_right cutset s = rev (trim_left cutset (rev s))"

definition extraPortsJSON :: "PortException list \<Rightarrow> (int \<times> string) list" where
  "extraPortsJSON ports = map (\<lambda>p. (px_Port p, if px_Proto p \<noteq> ''udp'' then ''tcp'' else px_Proto p)) ports"

definition renderHostOps :: "string \<Rightarrow> HostHardening \<Rightarrow> string \<Rightarrow> rop list" where
  "renderHostOps sid hh publicURL =
     [mk_op (''host:nftables:'' @ sid) KindHostNftables []
        (WNftables (hh_MeshInterface hh) (hh_KeepPublicSSH hh) (hh_ProxyRole hh) (extraPortsJSON (hh_ExtraPorts hh))),
      mk_op (''host:sshd:'' @ sid) KindHostSSHD [] (WSshd (hh_MeshIP hh) (\<not> hh_KeepPublicSSH hh))] @
     (if hh_CISEnabled hh then [mk_op (''host:cis:'' @ sid) KindHostCIS [] (WCis 1)] else []) @
     (if hh_DesiredAgentVersion hh \<noteq> '''' \<and> hh_DesiredAgentVersion hh \<noteq> hh_AgentVersion hh
      then let base = trim_right ''/'' publicURL
           in [mk_op (''agent:update:'' @ sid @ '':'' @ hh_DesiredAgentVersion hh) KindAgentUpdate []
                (WAgentUpdate (hh_DesiredAgentVersion hh)
                   (if base \<noteq> '''' then Some (base @ ''/dl/'' @ hh_DesiredAgentVersion hh) else None))]
      else [])"

definition UninstallOpID :: "string \<Rightarrow> string" where
  "UninstallOpID sid = ''agent:uninstall:'' @ sid"

definition renderUninstallOps :: "string \<Rightarrow> HostHardening \<Rightarrow> rop list" where
  "renderUninstallOps sid hh =
     [mk_op (UninstallOpID sid) KindAgentUninstall [] (WUninstall sid (hh_PurgeVolumes hh) (hh_MeshInterface hh))]"

section \<open>Backups and object-storage administration\<close>

text \<open>The last backup run of a resource in the list.\<close>

definition backupOp :: "BackupRunSpec list \<Rightarrow> strmap" where
  "backupOp runs = fold (\<lambda>r m. if br_Kind r = ''backup'' then m(br_ResourceID r \<mapsto> ''bkr:'' @ br_RunID r) else m) runs Map.empty"

definition backup_spec :: "BackupRunSpec \<Rightarrow> DBEngineDef \<Rightarrow> backupOpSpec" where
  "backup_spec r def =
     \<lparr>bo_RunID = br_RunID r, bo_ResourceID = br_ResourceID r, bo_Container = ContainerName (br_ResourceID r), bo_Engine = br_Engine r,
      bo_Image = de_Image def, bo_Database = br_Database r, bo_Username = br_Username r, bo_Keep = (0, 0, 0), bo_ExpectedSha = '''',
      bo_SnapshotID = '''', bo_Target = ('''', '''', ''''), bo_RecoveryTargetTime = ''''\<rparr>"

definition when_rendered :: "(string \<Rightarrow> bool) \<Rightarrow> string \<Rightarrow> string list" where
  "when_rendered rendered i = (if rendered i then [i] else [])"

definition renderBackupOp :: "strmap \<Rightarrow> (string \<Rightarrow> bool) \<Rightarrow> BackupRunSpec \<Rightarrow> rop option" where
  "renderBackupOp backups rendered r =
     (case DBEngine (br_Engine r) of
        None \<Rightarrow> None
      | Some def \<Rightarrow>
          let spec = backup_spec r def;
              target = (ContainerName (br_RestoreResourceID r), br_RestoreDatabase r, br_RestoreUsername r);
              keep = (br_KeepDaily r, br_KeepWeekly r, br_KeepMonthly r);
              i = ''bkr:'' @ br_RunID r
          in if br_Kind r = ''backup'' then
               Some (mk_op i KindBackupRun (when_rendered rendered (''res:'' @ br_ResourceID r)) (WBackup (spec\<lparr>bo_Keep := keep\<rparr>)))
             else if br_Kind r = ''basebackup'' then
               Some (mk_op i KindBackupBase (when_rendered rendered (''res:'' @ br_ResourceID r)) (WBackup (spec\<lparr>bo_Keep := keep\<rparr>)))
             else if br_Kind r = ''verify'' then
               (if br_ExpectedSha r = '''' then None
                else Some (mk_op i KindBackupVerify (case backups (br_ResourceID r) of None \<Rightarrow> [] | Some dep \<Rightarrow> [dep])
                       (WBackup (spec\<lparr>bo_ExpectedSha := br_ExpectedSha r\<rparr>))))
             else if br_Kind r = ''restore'' then
               Some (mk_op i KindBackupRestore (when_rendered rendered (''res:'' @ br_RestoreResourceID r))
                 (WBackup (spec\<lparr>bo_ExpectedSha := br_ExpectedSha r, bo_SnapshotID := br_SnapshotID r, bo_Target := target\<rparr>)))
             else if br_Kind r = ''restore-pitr'' then
               (case br_RecoveryTargetTime r of
                  None \<Rightarrow> None
                | Some t \<Rightarrow> Some (mk_op i KindBackupRestorePITR (when_rendered rendered (''res:'' @ br_RestoreResourceID r))
                    (WBackup (spec\<lparr>bo_Target := target, bo_RecoveryTargetTime := t\<rparr>))))
             else None)"

definition renderBackupOps :: "BackupRunSpec list \<Rightarrow> (string \<Rightarrow> bool) \<Rightarrow> rop list" where
  "renderBackupOps runs rendered = List.map_filter (renderBackupOp (backupOp runs) rendered) runs"

definition renderS3ConfigureOps :: "S3OpSpec list \<Rightarrow> (string \<Rightarrow> bool) \<Rightarrow> rop list" where
  "renderS3ConfigureOps ops rendered =
     map (\<lambda>o'. mk_op (''s3cfg:'' @ so_OpID o') KindS3Configure (when_rendered rendered (''res:'' @ so_ResourceID o')) (WS3Configure o')) ops"

end
