(* ===== verification/Render_Deploy.thy ===== *)
theory Render_Deploy
  imports Render
begin

text \<open>
  The deploy pipelines (cp/internal/reconciler/deploy.go), the Kubernetes workloads (k8s.go), and the document of a server
  (\<open>renderOps\<close> of reconciler.go). The lower-casing of runes and the digest of a name are arguments, as in \<open>Naming\<close>; so is the
  hash of the ops.
\<close>

section \<open>Deploys\<close>

definition in_flight_status :: "string \<Rightarrow> bool" where
  "in_flight_status s \<longleftrightarrow> s = ''queued'' \<or> s = ''building'' \<or> s = ''deploying''"

definition manualForce :: "DeployTarget \<Rightarrow> bool" where
  "manualForce target \<longleftrightarrow> dt_Trigger target = ''manual'' \<and> in_flight_status (dt_Status target)"

definition buildConfig :: "buildConfigSpec option \<Rightarrow> string \<times> string \<times> string" where
  "buildConfig b =
     (case b of
        None \<Rightarrow> ('''', '''', '''')
      | Some b \<Rightarrow> (if bc_Method b \<noteq> '''' \<and> bc_Method b \<noteq> ''dockerfile'' then bc_Method b else '''', bc_Dockerfile b, bc_ContextSubdir b))"

definition crossHostRegistryHost :: "bool \<Rightarrow> registryRender \<Rightarrow> string" where
  "crossHostRegistryHost crossHost registry = (if \<not> crossHost then '''' else rg_host registry)"

definition deployGeneration :: "string \<Rightarrow> string \<Rightarrow> string" where
  "deployGeneration sha deploymentID =
     (let suffix = DeployPin deploymentID in if suffix = '''' then take 8 sha else take 8 sha @ ''-'' @ suffix)"

definition reshipsRetainedImage :: "DeployTarget \<Rightarrow> bool \<Rightarrow> bool" where
  "reshipsRetainedImage target requirePin =
     (if dt_Trigger target \<noteq> ''rollback'' \<and> dt_Trigger target \<noteq> ''config'' then False
      else if requirePin then dt_ImagePin target \<noteq> ''''
      else dt_ImagePin target \<noteq> '''' \<or> dt_ImageDigest target \<noteq> '''')"

definition compose_services :: "appResourceSpec \<Rightarrow> composeServiceSpec list" where
  "compose_services spec = (case as_Compose spec of None \<Rightarrow> [] | Some ss \<Rightarrow> ss)"

definition placed_on :: "DeployTarget \<Rightarrow> composeServiceSpec \<Rightarrow> string" where
  "placed_on target s = (if sv_ServerID s \<noteq> '''' then sv_ServerID s else dt_ServerID target)"

definition retainedContainerGroups :: "ResourceSpec \<Rightarrow> DeployTarget \<Rightarrow> string \<Rightarrow> string list" where
  "retainedContainerGroups rs target sid =
     (if sp_Kind rs \<noteq> ''app'' then []
      else case sp_app rs of
             None \<Rightarrow> []
           | Some spec \<Rightarrow>
               if compose_services spec \<noteq> []
               then sort (map sv_Name (filter (\<lambda>s. placed_on target s = sid) (compose_services spec)))
               else let bs = dt_BuildServerID target
                    in if bs \<noteq> '''' \<and> bs \<noteq> dt_ServerID target \<and> sid = bs then [] else [''''])"

definition deployHealth :: "appResourceSpec \<Rightarrow> detectedHealth \<Rightarrow> HealthProbe" where
  "deployHealth spec h =
     (let out = \<lparr>HP_Type = ''tcp'', HP_Path = '''', HP_Port = first_port spec, HP_IntervalSec = 3, HP_TimeoutSec = 120\<rparr>;
          out = (if dh_Type h = ''http'' \<and> dh_Path h \<noteq> ''''
                 then let out = out\<lparr>HP_Type := ''http'', HP_Path := dh_Path h\<rparr> in if dh_Port h > 0 then out\<lparr>HP_Port := dh_Port h\<rparr> else out
                 else if dh_Type h = ''tcp'' \<and> dh_Port h > 0 then out\<lparr>HP_Port := dh_Port h\<rparr> else out)
      in if HP_Type out = ''tcp'' \<and> HP_Port out = 0 then out\<lparr>HP_Type := ''none''\<rparr> else out)"

definition composeServiceHealth :: "composeServiceSpec \<Rightarrow> HealthProbe" where
  "composeServiceHealth s =
     (case sv_Ports s of
        [] \<Rightarrow> \<lparr>HP_Type = ''none'', HP_Path = '''', HP_Port = 0, HP_IntervalSec = 3, HP_TimeoutSec = 120\<rparr>
      | p # _ \<Rightarrow> \<lparr>HP_Type = ''tcp'', HP_Path = '''', HP_Port = p, HP_IntervalSec = 3, HP_TimeoutSec = 120\<rparr>)"

definition gitRolloutRecreate :: string where
  "gitRolloutRecreate = ''recreate''"

definition validComposeServices :: "composeServiceSpec list \<Rightarrow> composeServiceSpec list" where
  "validComposeServices ss = filter (\<lambda>s. sv_Name s \<noteq> '''' \<and> (sv_Build s \<noteq> '''' \<or> sv_Image s \<noteq> '''')) ss"

definition mergeEnv :: "(string \<times> string) list \<Rightarrow> (string \<times> string) list \<Rightarrow> (string \<times> string) list" where
  "mergeEnv base override = (if override = [] then base else fold (\<lambda>(k, v). AList.update k v) override base)"

definition clone_op :: "string \<Rightarrow> DeployTarget \<Rightarrow> rop" where
  "clone_op rid target = mk_op (''clone:'' @ rid) KindGitClone []
     (WClone \<lparr>gc_ResourceID = rid, gc_Provider = dt_Provider target, gc_RepoFullName = dt_RepoFullName target, gc_Ref = dt_Ref target,
        gc_SHA = dt_SHA target, gc_CredentialRef = dt_DeploymentID target\<rparr>)"

definition web_service :: "composeServiceSpec list \<Rightarrow> string" where
  "web_service services =
     (case find (\<lambda>s. sv_Ports s \<noteq> [] \<and> sv_Build s \<noteq> '''' \<and> sv_Rollout s \<noteq> gitRolloutRecreate) services of
        Some s \<Rightarrow> sv_Name s
      | None \<Rightarrow> (case find (\<lambda>s. sv_Ports s \<noteq> []) services of Some s \<Rightarrow> sv_Name s | None \<Rightarrow> ''''))"

section \<open>Compose services on servers\<close>

definition gated :: "DeployTarget \<Rightarrow> (string \<Rightarrow> bool) \<Rightarrow> (string \<Rightarrow> bool) \<Rightarrow> composeServiceSpec \<Rightarrow> bool" where
  "gated target declared local s =
     list_ex (\<lambda>d. declared d \<and> \<not> local d \<and> mget (dt_ServiceStatus target) d \<noteq> ''success'') (sv_DependsOn s)"

definition local_services :: "DeployTarget \<Rightarrow> string \<Rightarrow> composeServiceSpec list \<Rightarrow> string list" where
  "local_services target sid services = map sv_Name (filter (\<lambda>s. placed_on target s = sid) services)"

text \<open>Which of a server's services may render now.\<close>

definition compose_renderable :: "DeployTarget \<Rightarrow> string \<Rightarrow> composeServiceSpec list \<Rightarrow> composeServiceSpec list" where
  "compose_renderable target sid services =
     filter (\<lambda>s. placed_on target s = sid \<and>
       \<not> gated target (\<lambda>d. d \<in> set (map sv_Name services)) (\<lambda>d. d \<in> set (local_services target sid services)) s) services"

definition compose_container ::
  "ResourceSpec \<Rightarrow> appResourceSpec \<Rightarrow> SecretRefMeta list \<Rightarrow> Domain list \<Rightarrow> DeployTarget \<Rightarrow> string \<Rightarrow> composeServiceSpec \<Rightarrow> containerOpSpec" where
  "compose_container rs spec refs domains target webSvc s =
     (let rid = sp_ResourceID rs;
          gen = deployGeneration (dt_SHA target) (dt_DeploymentID target);
          lbPort = (case sv_Ports s of [] \<Rightarrow> 0 | p # _ \<Rightarrow> p)
      in zero_container\<lparr>co_ResourceID := rid, co_Service := sv_Name s, co_Name := ServiceContainerName rid (sv_Name s),
           co_Network := ResourceNetworkName rid, co_NetworkAliases := [sv_Name s], co_Env := mergeEnv (as_Env spec) (sv_Env s),
           co_Restart := as_Restart spec, co_SecretRefs := secret_refs refs,
           co_Ports := map (\<lambda>p. \<lparr>P_Container = p, P_Host = 0, P_Protocol = '''', P_HostIP = ''''\<rparr>) (sv_Ports s),
           co_Tmpfs := (if file_mode refs then [secretsMountDir] else []),
           co_Labels := (if sv_Name s = webSvc \<and> (domains \<noteq> [] \<or> sp_PublicHost rs \<noteq> '''')
             then traefikLabels rid domains (sp_PublicHost rs) lbPort
                    \<lparr>bg_Generation = gen, bg_Priority = generationRouterPriority (dt_CreatedAt target)\<rparr>
                  ++ traefikHealthLabels (TraefikGenerationRouterName rid gen) (composeServiceHealth s)
             else Map.empty),
           co_Image := (if sv_Build s \<noteq> '''' then PinnedServiceImageTag rid (sv_Name s) (dt_SHA target) (dt_ImagePin target) else sv_Image s)\<rparr>)"

definition compose_image_op :: "string \<Rightarrow> DeployTarget \<Rightarrow> bool \<Rightarrow> composeServiceSpec \<Rightarrow> rop option" where
  "compose_image_op rid target reship s =
     (let svcKey = rid @ '':'' @ sv_Name s
      in if sv_Build s \<noteq> '''' then
           (if reship then None
            else Some (mk_op (''build:'' @ svcKey) KindImageBuild [''clone:'' @ rid]
              (WBuild \<lparr>bi_ResourceID = rid, bi_SHA = dt_SHA target, bi_DedupKey = dt_ConfigHash target @ '':'' @ sv_Name s @ '':'' @ dt_SHA target,
                 bi_Dockerfile = sv_Dockerfile s, bi_ContextSubdir = sv_Build s,
                 bi_ImageTag = PinnedServiceImageTag rid (sv_Name s) (dt_SHA target) (dt_ImagePin target), bi_Builder = '''',
                 bi_DeploymentID = dt_DeploymentID target, bi_Force = manualForce target, bi_PushImage = False, bi_RegistryHost = ''''\<rparr>)))
         else Some (mk_op (''pull:'' @ svcKey) KindImagePull [] (WImage (sv_Image s) '''')))"

definition compose_service_ops ::
  "ResourceSpec \<Rightarrow> appResourceSpec \<Rightarrow> SecretRefMeta list \<Rightarrow> Domain list \<Rightarrow> DeployTarget \<Rightarrow> string \<Rightarrow> (string \<Rightarrow> bool) \<Rightarrow> composeServiceSpec \<Rightarrow> rop list" where
  "compose_service_ops rs spec refs domains target webSvc local s =
     (let rid = sp_ResourceID rs;
          image = compose_image_op rid target (reshipsRetainedImage target True) s;
          images = (case image of None \<Rightarrow> [] | Some x \<Rightarrow> [x])
      in images @
         [mk_op (''res:'' @ rid @ '':'' @ sv_Name s)
            (if sv_Rollout s = gitRolloutRecreate then KindDeployRecreate else KindDeployRollout)
            ([''net:res:'' @ rid] @ map ID images @ map (\<lambda>d. ''res:'' @ rid @ '':'' @ d) (filter local (sv_DependsOn s)))
            (WRollout \<lparr>ro_Container = compose_container rs spec refs domains target webSvc s,
               ro_Generation = deployGeneration (dt_SHA target) (dt_DeploymentID target),
               ro_Health = composeServiceHealth s, ro_DeploymentID = dt_DeploymentID target\<rparr>)])"

definition renderComposeDeployOps ::
  "ResourceSpec \<Rightarrow> appResourceSpec \<Rightarrow> SecretRefMeta list \<Rightarrow> Domain list \<Rightarrow> DeployTarget \<Rightarrow> string \<Rightarrow> (rop list \<times> string) option" where
  "renderComposeDeployOps rs spec refs domains target sid =
     (let rid = sp_ResourceID rs;
          services = validComposeServices (compose_services spec)
      in if services = [] then None
         else let webSvc = web_service services;
                  local = (\<lambda>d. d \<in> set (local_services target sid services));
                  renderable = compose_renderable target sid services
              in if renderable = [] then None
                 else Some ((if \<not> reshipsRetainedImage target True \<and> list_ex (\<lambda>s. sv_Build s \<noteq> '''') renderable
                             then [clone_op rid target] else []) @
                            concat (map (compose_service_ops rs spec refs domains target webSvc local) renderable),
                            ''net:res:'' @ rid))"

section \<open>Single-container deploys\<close>

definition deploy_container ::
  "ResourceSpec \<Rightarrow> appResourceSpec \<Rightarrow> SecretRefMeta list \<Rightarrow> Domain list \<Rightarrow> DeployTarget \<Rightarrow> string \<Rightarrow> containerOpSpec" where
  "deploy_container rs spec refs domains target imageTag =
     (let rid = sp_ResourceID rs;
          gen = deployGeneration (dt_SHA target) (dt_DeploymentID target)
      in zero_container\<lparr>co_ResourceID := rid, co_Name := ContainerName rid, co_Image := imageTag, co_Network := NetworkName (sp_ProjectID rs),
           co_Env := as_Env spec, co_Command := as_Command spec, co_User := as_User spec, co_ReadOnlyRootfs := as_ReadOnlyRootfs spec,
           co_Tmpfs := as_Tmpfs spec @ (if file_mode refs then [secretsMountDir] else []), co_CPUs := as_CPUs spec,
           co_MemoryMB := as_MemoryMB spec, co_Restart := as_Restart spec,
           co_Ports := map (\<lambda>p. \<lparr>P_Container = ap_Container p, P_Host = 0, P_Protocol = '''', P_HostIP = ''''\<rparr>) (as_Ports spec),
           co_Volumes := map (volume_mount rid) (declared_volumes spec), co_SecretRefs := secret_refs refs,
           co_Labels := (if domains \<noteq> [] \<or> sp_PublicHost rs \<noteq> ''''
             then traefikLabels rid domains (sp_PublicHost rs) (first_port spec)
                    \<lparr>bg_Generation = gen, bg_Priority = generationRouterPriority (dt_CreatedAt target)\<rparr>
                  ++ traefikHealthLabels (TraefikGenerationRouterName rid gen) (deployHealth spec (sp_health rs))
             else Map.empty)\<rparr>)"

definition build_op :: "string \<Rightarrow> appResourceSpec \<Rightarrow> DeployTarget \<Rightarrow> string \<Rightarrow> bool \<Rightarrow> string \<Rightarrow> rop" where
  "build_op rid spec target imageTag push registryHost =
     (let (builder, dockerfile, contextSubdir) = buildConfig (as_Build spec)
      in mk_op (''build:'' @ rid) KindImageBuild [''clone:'' @ rid]
           (WBuild \<lparr>bi_ResourceID = rid, bi_SHA = dt_SHA target, bi_DedupKey = dt_ConfigHash target @ '':'' @ dt_SHA target,
              bi_Dockerfile = dockerfile, bi_ContextSubdir = contextSubdir, bi_ImageTag = imageTag, bi_Builder = builder,
              bi_DeploymentID = dt_DeploymentID target, bi_Force = manualForce target, bi_PushImage = push, bi_RegistryHost = registryHost\<rparr>))"

definition rollout_op ::
  "ResourceSpec \<Rightarrow> appResourceSpec \<Rightarrow> SecretRefMeta list \<Rightarrow> Domain list \<Rightarrow> DeployTarget \<Rightarrow> string \<Rightarrow> string list \<Rightarrow> rop" where
  "rollout_op rs spec refs domains target imageTag needs =
     (let cs = deploy_container rs spec refs domains target imageTag
      in mk_op (''res:'' @ sp_ResourceID rs) (if co_Volumes cs \<noteq> [] then KindDeployRecreate else KindDeployRollout) needs
           (WRollout \<lparr>ro_Container = cs, ro_Generation = deployGeneration (dt_SHA target) (dt_DeploymentID target),
              ro_Health = deployHealth spec (sp_health rs), ro_DeploymentID = dt_DeploymentID target\<rparr>))"

definition renderDeployOps ::
  "ResourceSpec \<Rightarrow> SecretRefMeta list \<Rightarrow> Domain list \<Rightarrow> DeployTarget \<Rightarrow> string \<Rightarrow> registryRender \<Rightarrow> (rop list \<times> string) option" where
  "renderDeployOps rs refs domains target sid registry =
     (case sp_app rs of
        None \<Rightarrow> None
      | Some spec \<Rightarrow>
          if compose_services spec \<noteq> [] then renderComposeDeployOps rs spec refs domains target sid
          else let rid = sp_ResourceID rs;
                   networkID = ''net:'' @ sp_ProjectID rs;
                   bs = dt_BuildServerID target;
                   crossHost = (bs \<noteq> '''' \<and> bs \<noteq> dt_ServerID target)
               in if crossHost \<and> rg_repository registry = '''' then None
                  else let tag = PinnedImageTag rid (dt_SHA target) (dt_ImagePin target);
                           imageTag = (if crossHost then QualifyImage (rg_repository registry) tag else tag);
                           vols = declared_volumes spec;
                           volOps = map (\<lambda>v. volume_op rid (av_Name v)) vols;
                           rolloutDeps = [networkID] @ map (\<lambda>v. volume_id rid (av_Name v)) vols;
                           rollout = rollout_op rs spec refs domains target imageTag;
                           pullID = ''pull:'' @ rid;
                           pull = mk_op pullID KindImagePull [] (WImage imageTag (rg_host registry));
                           build = build_op rid spec target imageTag crossHost (crossHostRegistryHost crossHost registry)
                       in if reshipsRetainedImage target False
                          then (if crossHost \<and> sid = bs then None
                                else if crossHost then Some (volOps @ [pull, rollout (rolloutDeps @ [pullID])], networkID)
                                else Some (volOps @ [rollout rolloutDeps], networkID))
                          else if crossHost
                          then (if sid = bs then Some ([clone_op rid target, build], '''')
                                else if dt_Status target = ''queued'' \<or> dt_Status target = ''building'' then None
                                else Some (volOps @ [pull, rollout (rolloutDeps @ [pullID])], networkID))
                          else Some (volOps @ [clone_op rid target, build, rollout (rolloutDeps @ [''build:'' @ rid])], networkID))"

section \<open>Kubernetes\<close>

definition defaultClusterReplicas :: int where
  "defaultClusterReplicas = 1"

fun split_on :: "char \<Rightarrow> string \<Rightarrow> string list" where
  "split_on c [] = [[]]"
| "split_on c (x # xs) = (if x = c then [] # split_on c xs else case split_on c xs of [] \<Rightarrow> [[x]] | w # ws \<Rightarrow> (x # w) # ws)"

definition renderK8sRemoveOp :: "PendingDestructiveOp \<Rightarrow> rop" where
  "renderK8sRemoveOp p = mk_op (''k8srm:'' @ po_ID p) KindK8sRemove []
     (WK8sRemove (filter (\<lambda>n. n \<noteq> '''') (map trim_space (split_on (CHR '','') (po_Target p)))))"

definition renderClusterNodeOp :: "ClusterMembership \<Rightarrow> string \<Rightarrow> rop option" where
  "renderClusterNodeOp m meshIP =
     (if meshIP = '''' \<or> cm_JoinToken m = '''' then None
      else if cm_Role m \<noteq> NodeRoleControlPlane \<and> cm_ControlPlaneMeshIP m = '''' then None
      else Some (mk_op (''k8s:node:'' @ cm_ClusterID m) KindK8sNode []
        (WK8sNode \<lparr>kn_ClusterID = cm_ClusterID m, kn_Name = cm_Name m, kn_Role = cm_Role m, kn_JoinToken = cm_JoinToken m,
           kn_ServerURL = (if cm_Role m \<noteq> NodeRoleControlPlane then ''https://'' @ cm_ControlPlaneMeshIP m @ '':6443'' else ''''),
           kn_AdvertiseIP = meshIP\<rparr>)))"

definition clusterImageReady :: "DeployTarget \<Rightarrow> string \<Rightarrow> bool \<Rightarrow> bool \<times> bool" where
  "clusterImageReady target repository reship =
     (if dt_DeploymentID target = '''' then (True, False)
      else if reship then (True, False)
      else if repository = '''' \<or> dt_BuildServerID target = '''' then (False, False)
      else if dt_Status target = ''queued'' \<or> dt_Status target = ''building'' then (False, True)
      else (True, False))"

definition cluster_service_op ::
  "(rune \<Rightarrow> rune) \<Rightarrow> (rune list \<Rightarrow> string) \<Rightarrow> ResourceSpec \<Rightarrow> appResourceSpec \<Rightarrow> SecretRef list \<Rightarrow> string list \<Rightarrow> DeployTarget \<Rightarrow> string \<Rightarrow> string list \<Rightarrow>
   string \<Rightarrow> string \<Rightarrow> string list \<Rightarrow> string \<Rightarrow> (string \<Rightarrow> bool) \<Rightarrow> composeServiceSpec \<Rightarrow> rop option" where
  "cluster_service_op lower digest rs spec refsSpec hosts target namespace nodeDeps repository registryHost names webSvc rendering s =
     (let rid = sp_ResourceID rs;
          image = (if sv_Build s \<noteq> '''' then QualifyImage repository (PinnedServiceImageTag rid (sv_Name s) (dt_SHA target) (dt_ImagePin target))
                   else sv_Image s)
      in if image = '''' then None
         else Some (mk_op (''res:'' @ rid @ '':'' @ sv_Name s) KindK8sApply
           (nodeDeps @ map (\<lambda>d. ''res:'' @ rid @ '':'' @ d) (filter (\<lambda>d. rendering d \<and> d \<noteq> sv_Name s) (sv_DependsOn s)))
           (WK8sApply \<lparr>ka_ResourceID = rid, ka_Service = sv_Name s, ka_Name = K8sWorkloadName lower digest rid (sv_Name s), ka_Namespace = namespace,
              ka_Image = image, ka_Replicas = defaultClusterReplicas, ka_Ports = sv_Ports s, ka_Env = mergeEnv (as_Env spec) (sv_Env s),
              ka_SecretRefs = refsSpec, ka_Hosts = (if sv_Name s = webSvc then hosts else []), ka_DeploymentID = dt_DeploymentID target,
              ka_RegistryHost = (if sv_Build s \<noteq> '''' then registryHost else ''''), ka_Workloads = names\<rparr>)))"

definition renderClusterComposeOps ::
  "(rune \<Rightarrow> rune) \<Rightarrow> (rune list \<Rightarrow> string) \<Rightarrow> ResourceSpec \<Rightarrow> appResourceSpec \<Rightarrow> SecretRef list \<Rightarrow> string list \<Rightarrow> DeployTarget \<Rightarrow> string \<Rightarrow> string list \<Rightarrow>
   string \<Rightarrow> string \<Rightarrow> rop list option" where
  "renderClusterComposeOps lower digest rs spec refsSpec hosts target namespace nodeDeps repository registryHost =
     (let rid = sp_ResourceID rs;
          services = validComposeServices (compose_services spec);
          reship = reshipsRetainedImage target True
      in if services = [] then None
         else if list_ex (\<lambda>s. sv_Build s \<noteq> '''') services \<and> \<not> fst (clusterImageReady target repository reship) then None
         else let names = map (\<lambda>s. K8sWorkloadName lower digest rid (sv_Name s)) services
              in if '''' \<in> set names then None
                 else let renderable = filter (\<lambda>s. sv_Build s = '''' \<or> reship \<or>
                            mget (dt_ServiceStatus target) (sv_Name s) \<in> {''deploying'', ''success''}) services;
                          rendering = (\<lambda>d. d \<in> set (map sv_Name renderable))
                      in if renderable = [] then None
                         else let ops = List.map_filter (cluster_service_op lower digest rs spec refsSpec hosts target namespace nodeDeps
                                          repository registryHost (sort names) (web_service services) rendering) renderable
                              in if ops = [] then None else Some ops)"

definition renderClusterWorkloadOps ::
  "(rune \<Rightarrow> rune) \<Rightarrow> (rune list \<Rightarrow> string) \<Rightarrow> ResourceSpec \<Rightarrow> SecretRefMeta list \<Rightarrow> Domain list \<Rightarrow> DeployTarget \<Rightarrow> ClusterMembership \<Rightarrow> string \<Rightarrow>
   string \<Rightarrow> string \<Rightarrow> rop list option" where
  "renderClusterWorkloadOps lower digest rs refs domains target m nodeOpID repository registryHost =
     (if cm_Role m \<noteq> NodeRoleControlPlane then None
      else case sp_app rs of
             None \<Rightarrow> None
           | Some spec \<Rightarrow>
               let rid = sp_ResourceID rs;
                   namespace = K8sNamespace lower digest (sp_ProjectID rs);
                   refsSpec = secret_refs refs;
                   hosts = map dom_Domain domains;
                   nodeDeps = (if nodeOpID \<noteq> '''' then [nodeOpID] else [])
               in if namespace = '''' then None
                  else if compose_services spec \<noteq> []
                  then renderClusterComposeOps lower digest rs spec refsSpec hosts target namespace nodeDeps repository registryHost
                  else if \<not> fst (clusterImageReady target repository (reshipsRetainedImage target False)) then None
                  else let name = K8sWorkloadName lower digest rid '''';
                           deployed = (dt_DeploymentID target \<noteq> '''');
                           image = (if deployed then QualifyImage repository (PinnedImageTag rid (dt_SHA target) (dt_ImagePin target)) else as_Image spec)
                       in if name = '''' \<or> image = '''' then None
                          else Some [mk_op (''res:'' @ rid) KindK8sApply nodeDeps
                            (WK8sApply \<lparr>ka_ResourceID = rid, ka_Service = '''', ka_Name = name, ka_Namespace = namespace, ka_Image = image,
                               ka_Replicas = defaultClusterReplicas, ka_Ports = filter (\<lambda>p. p > 0) (map ap_Container (as_Ports spec)),
                               ka_Env = as_Env spec, ka_SecretRefs = refsSpec, ka_Hosts = hosts,
                               ka_DeploymentID = (if deployed then dt_DeploymentID target else ''''),
                               ka_RegistryHost = (if deployed then registryHost else ''''), ka_Workloads = [name]\<rparr>)])"

definition cluster_build_op :: "string \<Rightarrow> DeployTarget \<Rightarrow> string \<Rightarrow> composeServiceSpec \<Rightarrow> rop" where
  "cluster_build_op rid target repository s =
     mk_op (''build:'' @ rid @ '':'' @ sv_Name s) KindImageBuild [''clone:'' @ rid]
       (WBuild \<lparr>bi_ResourceID = rid, bi_SHA = dt_SHA target, bi_DedupKey = dt_ConfigHash target @ '':'' @ sv_Name s @ '':'' @ dt_SHA target,
          bi_Dockerfile = sv_Dockerfile s, bi_ContextSubdir = sv_Build s,
          bi_ImageTag = QualifyImage repository (PinnedServiceImageTag rid (sv_Name s) (dt_SHA target) (dt_ImagePin target)), bi_Builder = '''',
          bi_DeploymentID = dt_DeploymentID target, bi_Force = manualForce target, bi_PushImage = True, bi_RegistryHost = ''''\<rparr>)"

definition renderClusterBuildOps :: "ResourceSpec \<Rightarrow> DeployTarget \<Rightarrow> string \<Rightarrow> rop list option" where
  "renderClusterBuildOps rs target repository =
     (if dt_DeploymentID target = '''' \<or> repository = '''' then None
      else case sp_app rs of
             None \<Rightarrow> None
           | Some spec \<Rightarrow>
               let rid = sp_ResourceID rs; isCompose = (compose_services spec \<noteq> [])
               in if reshipsRetainedImage target isCompose then None
                  else if \<not> isCompose
                  then Some [clone_op rid target,
                             build_op rid spec target (QualifyImage repository (PinnedImageTag rid (dt_SHA target) (dt_ImagePin target))) True '''']
                  else let ops = map (cluster_build_op rid target repository)
                             (filter (\<lambda>s. sv_Build s \<noteq> '''') (validComposeServices (compose_services spec)))
                       in if ops = [] then None else Some (clone_op rid target # ops))"

section \<open>The document of a server\<close>

record render_input =
  ri_specs :: "ResourceSpec list"
  ri_pending :: "PendingDestructiveOp list"
  ri_secretRefs :: "string \<Rightarrow> SecretRefMeta list"
  ri_hardening :: HostHardening
  ri_domains :: "(string \<times> Domain list) list"
  ri_deployTargets :: "string \<Rightarrow> DeployTarget option"
  ri_dbTargets :: "string \<Rightarrow> DBTarget option"
  ri_s3Targets :: "string \<Rightarrow> S3Target option"
  ri_llmTargets :: "string \<Rightarrow> LLMTarget option"
  ri_backupRuns :: "BackupRunSpec list"
  ri_s3Ops :: "S3OpSpec list"
  ri_acme :: ACMEConfig
  ri_cluster :: clusterRender
  ri_registry :: registryRender
  ri_publicURL :: string

definition domains_of :: "render_input \<Rightarrow> string \<Rightarrow> Domain list" where
  "domains_of ri rid = (case map_of (ri_domains ri) rid of None \<Rightarrow> [] | Some ds \<Rightarrow> ds)"

definition target_of :: "render_input \<Rightarrow> string \<Rightarrow> DeployTarget" where
  "target_of ri rid = (case ri_deployTargets ri rid of None \<Rightarrow> zero_target | Some t \<Rightarrow> t)"

definition sync_stub :: "render_input \<Rightarrow> string \<Rightarrow> ResourceSpec \<Rightarrow> rop" where
  "sync_stub ri sid rs =
     mk_op (''sync:'' @ sp_ResourceID rs) KindResourceSync []
       (WSync (sp_ResourceID rs) (sp_Kind rs) (sp_Spec rs)
          (case ri_deployTargets ri (sp_ResourceID rs) of None \<Rightarrow> [] | Some t \<Rightarrow> retainedContainerGroups rs t sid))"

definition or_else :: "'a option \<Rightarrow> 'a option \<Rightarrow> 'a option" where
  "or_else a b = (case a of None \<Rightarrow> b | Some x \<Rightarrow> Some x)"

definition project_net :: "ResourceSpec \<Rightarrow> rop list \<times> string \<Rightarrow> rop list \<times> string \<times> string" where
  "project_net rs r = (fst r, snd r, NetworkName (sp_ProjectID rs))"

definition deploy_net :: "ResourceSpec \<Rightarrow> rop list \<times> string \<Rightarrow> rop list \<times> string \<times> string" where
  "deploy_net rs r =
     (fst r, snd r, if has_prefix (snd r) ''net:res:'' then ResourceNetworkName (sp_ResourceID rs) else NetworkName (sp_ProjectID rs))"

text \<open>The ops of a resource, the id of its network op and the network's name: database, model, object storage, git deploy, registry image, in this order.\<close>

definition render_resource :: "render_input \<Rightarrow> string \<Rightarrow> ResourceSpec \<Rightarrow> (rop list \<times> string \<times> string) option" where
  "render_resource ri sid rs =
     (let rid = sp_ResourceID rs; meshIP = hh_MeshIP (ri_hardening ri); refs = ri_secretRefs ri rid; domains = domains_of ri rid
      in or_else (map_option (project_net rs) (case ri_dbTargets ri rid of None \<Rightarrow> None | Some t \<Rightarrow> renderDatabaseOps rs t meshIP))
        (or_else (map_option (project_net rs) (case ri_llmTargets ri rid of None \<Rightarrow> None | Some t \<Rightarrow> renderLLMOps rs t meshIP refs))
        (or_else (map_option (project_net rs) (case ri_s3Targets ri rid of None \<Rightarrow> None | Some t \<Rightarrow> renderS3Ops rs t meshIP))
          (if sp_Kind rs = ''app''
           then or_else (map_option (deploy_net rs)
                   (case ri_deployTargets ri rid of None \<Rightarrow> None | Some t \<Rightarrow> renderDeployOps rs refs domains t sid (ri_registry ri)))
                        (map_option (project_net rs) (renderAppOps rs refs domains))
           else None))))"

definition resource_ops :: "render_input \<Rightarrow> string \<Rightarrow> ResourceSpec \<Rightarrow> rop list" where
  "resource_ops ri sid rs =
     (if sp_ClusterID rs \<noteq> '''' then []
      else case render_resource ri sid rs of None \<Rightarrow> [sync_stub ri sid rs] | Some (ops, net) \<Rightarrow> ops)"

definition resource_network :: "render_input \<Rightarrow> string \<Rightarrow> ResourceSpec \<Rightarrow> (string \<times> string) option" where
  "resource_network ri sid rs =
     (if sp_ClusterID rs \<noteq> '''' then None
      else case render_resource ri sid rs of None \<Rightarrow> None | Some (ops, net) \<Rightarrow> Some net)"

definition networks :: "render_input \<Rightarrow> string \<Rightarrow> strmap" where
  "networks ri sid = map_of (rev (List.map_filter (resource_network ri sid) (ri_specs ri)))"

definition network_ops :: "render_input \<Rightarrow> string \<Rightarrow> rop list" where
  "network_ops ri sid =
     map (\<lambda>i. mk_op i KindNetworkEnsure [] (WNetwork (mget (networks ri sid) i)))
       (sort (remdups (map fst (List.map_filter (resource_network ri sid) (ri_specs ri)))))"

definition node_op :: "render_input \<Rightarrow> rop option" where
  "node_op ri =
     (if cl_member (ri_cluster ri) then renderClusterNodeOp (cl_membership (ri_cluster ri)) (hh_MeshIP (ri_hardening ri)) else None)"

definition concat_some :: "'a list option list \<Rightarrow> 'a list" where
  "concat_some xs = concat (map (\<lambda>x. case x of None \<Rightarrow> [] | Some l \<Rightarrow> l) xs)"

definition cluster_ops :: "(rune \<Rightarrow> rune) \<Rightarrow> (rune list \<Rightarrow> string) \<Rightarrow> render_input \<Rightarrow> rop list" where
  "cluster_ops lower digest ri =
     (let cl = ri_cluster ri;
          repository = rg_repository (ri_registry ri);
          nodes = (case node_op ri of None \<Rightarrow> [] | Some x \<Rightarrow> [x]);
          workloads = (case node_op ri of
             None \<Rightarrow> []
           | Some x \<Rightarrow>
               if cm_Role (cl_membership cl) = NodeRoleControlPlane \<and> ID x \<noteq> ''''
               then concat_some (map (\<lambda>rs. renderClusterWorkloadOps lower digest rs (ri_secretRefs ri (sp_ResourceID rs))
                      (domains_of ri (sp_ResourceID rs)) (target_of ri (sp_ResourceID rs)) (cl_membership cl) (ID x)
                      repository (rg_host (ri_registry ri))) (cl_workloads cl))
               else []);
          builds = concat_some (map (\<lambda>rs. renderClusterBuildOps rs (target_of ri (sp_ResourceID rs)) repository) (cl_builds cl))
      in nodes @ workloads @ builds)"

definition pending_op :: "PendingDestructiveOp \<Rightarrow> rop" where
  "pending_op p = (if po_OpKind p = KindK8sRemove then renderK8sRemoveOp p else renderVolumeRemoveOp p)"

definition resource_graph :: "(rune \<Rightarrow> rune) \<Rightarrow> (rune list \<Rightarrow> string) \<Rightarrow> string \<Rightarrow> render_input \<Rightarrow> rop list" where
  "resource_graph lower digest sid ri =
     network_ops ri sid @ cluster_ops lower digest ri @ concat (map (resource_ops ri sid) (ri_specs ri)) @
     renderHostOps sid (ri_hardening ri) (ri_publicURL ri) @
     (if hh_ProxyRole (ri_hardening ri) then [renderTraefikOp sid (ri_acme ri) (concat (map snd (ri_domains ri)))] else [])"

definition renderOps :: "(rune \<Rightarrow> rune) \<Rightarrow> (rune list \<Rightarrow> string) \<Rightarrow> (rop list \<Rightarrow> string) \<Rightarrow> string \<Rightarrow> render_input \<Rightarrow> rop list \<times> string" where
  "renderOps lower digest hash sid ri =
     (if hh_Decommissioning (ri_hardening ri)
      then let ops = renderUninstallOps sid (ri_hardening ri) in (ops, hash ops)
      else let graph = resource_graph lower digest sid ri;
               rendered = (\<lambda>i. i \<in> set (map ID graph));
               ops = graph @ (if ri_backupRuns ri \<noteq> [] then renderBackupOps (ri_backupRuns ri) rendered else []) @
                     renderS3ConfigureOps (ri_s3Ops ri) rendered @ map pending_op (ri_pending ri)
           in (ops, hash ops))"

end
