(* ===== verification/Render_Order.thy ===== *)
theory Render_Order
  imports Render_Deploy Gc_Props
begin

text \<open>
  What the reconciler renders can be ordered by the agent. The level of an op id (images, volumes, clones and networks; builds;
  containers; backups and bucket administration; verifications) falls along every dependency, except between the services of a Compose
  app, where the declared dependencies decide.
\<close>

section \<open>Well-founded op graphs\<close>

definition graph_ok :: "(string \<times> string) set \<Rightarrow> 'p Op list \<Rightarrow> bool" where
  "graph_ok R ops \<longleftrightarrow> (\<forall>x \<in> set ops. \<forall>d \<in> set (DependsOn x). d \<in> ID ` set ops \<and> (d, ID x) \<in> R)"

lemma graph_ok_resolvable:
  assumes "graph_ok R ops" "wf R" "i \<in> ID ` set ops"
  shows "resolvable ops i"
  using assms(2,3)
proof (induction i rule: wf_induct_rule)
  case (less i)
  then obtain x where x: "byID ops i = Some x" by (metis byID_None option.exhaust)
  then have "x \<in> set ops" "ID x = i" by (auto dest: byID_Some)
  with assms(1) less show ?case by (intro resolvable_op [OF x]) (auto simp: graph_ok_def)
qed

lemma all_resolvable_ordered:
  assumes "\<forall>i \<in> ID ` set ops. resolvable ops i"
  shows "snd (TopoOrder ops) = []" "ID ` set (fst (TopoOrder ops)) = ID ` set ops"
proof -
  obtain ordered unresolved where t: "TopoOrder ops = (ordered, unresolved)" by fastforce
  note p = TopoOrder_props [OF t]
  show "snd (TopoOrder ops) = []" using p(5) assms by (auto simp: t filter_empty_conv)
  show "ID ` set (fst (TopoOrder ops)) = ID ` set ops" using p(1) assms resolvable_known [of ops] by (auto simp: t)
qed

text \<open>A relation refined by a rank: ranks fall, or stay while a well-founded relation is followed.\<close>

definition ranked :: "('a \<Rightarrow> nat) \<Rightarrow> ('a \<times> 'a) set \<Rightarrow> ('a \<times> 'a) set" where
  "ranked rk E = {(d, i). rk d < rk i \<or> rk d = rk i \<and> (d, i) \<in> E}"

lemma wf_ranked: "wf E \<Longrightarrow> wf (ranked rk E)"
proof -
  assume "wf E"
  then have "wf (inv_image (less_than <*lex*> E) (\<lambda>i. (rk i, i)))" by (intro wf_inv_image wf_lex_prod) simp_all
  moreover have "ranked rk E = inv_image (less_than <*lex*> E) (\<lambda>i. (rk i, i))"
    by (auto simp: ranked_def inv_image_def)
  ultimately show ?thesis by simp
qed

section \<open>Levels and service dependencies\<close>

definition verify_ids :: "BackupRunSpec list \<Rightarrow> string set" where
  "verify_ids runs = {''bkr:'' @ br_RunID r | r. r \<in> set runs \<and> br_Kind r = ''verify''}"

definition level :: "BackupRunSpec list \<Rightarrow> string \<Rightarrow> nat" where
  "level runs i =
     (if has_prefix i ''build:'' then 1
      else if has_prefix i ''res:'' then 2
      else if i \<in> verify_ids runs then 4
      else if has_prefix i ''bkr:'' \<or> has_prefix i ''s3cfg:'' then 3
      else 0)"

definition service_id :: "ResourceSpec \<Rightarrow> string \<Rightarrow> string" where
  "service_id rs d = ''res:'' @ sp_ResourceID rs @ '':'' @ d"

definition service_edges :: "ResourceSpec \<Rightarrow> (string \<times> string) list" where
  "service_edges rs =
     (case sp_app rs of
        None \<Rightarrow> []
      | Some spec \<Rightarrow>
          let services = validComposeServices (compose_services spec)
          in concat (map (\<lambda>s. map (\<lambda>d. (service_id rs d, service_id rs (sv_Name s)))
               (filter (\<lambda>d. d \<in> set (map sv_Name services)) (sv_DependsOn s))) services))"

definition compose_edges :: "render_input \<Rightarrow> (string \<times> string) set" where
  "compose_edges ri = set (concat (map service_edges (ri_specs ri @ cl_workloads (ri_cluster ri))))"

lemma wf_compose_edges: "acyclic (compose_edges ri) \<Longrightarrow> wf (compose_edges ri)"
  by (intro finite_acyclic_wf) (simp_all add: compose_edges_def)


text \<open>The dependencies of an op are among the ids \<open>K\<close> and below it.\<close>

definition dep_ok :: "BackupRunSpec list \<Rightarrow> (string \<times> string) set \<Rightarrow> string set \<Rightarrow> 'p Op \<Rightarrow> bool" where
  "dep_ok runs E K x \<longleftrightarrow> (\<forall>d \<in> set (DependsOn x). d \<in> K \<and> (d, ID x) \<in> ranked (level runs) E)"

lemma level_simps [simplified, simp]:
  "level runs (''net:'' @ a) = 0" "level runs (''img:'' @ a) = 0" "level runs (''pull:'' @ a) = 0" "level runs (''clone:'' @ a) = 0"
  "level runs (''vol:'' @ a) = 0" "level runs (''k8s:node:'' @ a) = 0"
  "level runs (''build:'' @ a) = 1" "level runs (''res:'' @ a) = 2" "level runs (''s3cfg:'' @ a) = 3"
  by (auto simp: level_def verify_ids_def)

lemma level_volume [simp]: "level runs (volume_id rid v) = 0"
  by (auto simp: level_def verify_ids_def volume_id_def)

lemma dep_okI: "(\<And>d. d \<in> set (DependsOn x) \<Longrightarrow> d \<in> K \<and> level runs d < level runs (ID x)) \<Longrightarrow> dep_ok runs E K x"
  by (auto simp: dep_ok_def ranked_def)

lemma dep_ok_none [simp]: "DependsOn x = [] \<Longrightarrow> dep_ok runs E K x"
  by (simp add: dep_ok_def)

lemma volume_op_simps [simp]: "ID (volume_op rid v) = volume_id rid v" "DependsOn (volume_op rid v) = []"
  by (simp_all add: volume_op_def)

section \<open>The renderers of a resource\<close>

lemma renderAppOps_deps:
  assumes "renderAppOps rs refs ds = Some (ops, net)" "net \<in> K" "ID ` set ops \<subseteq> K" "x \<in> set ops"
  shows "dep_ok runs E K x"
proof (cases "sp_app rs")
  case (Some spec)
  with assms(1) have "as_Image spec \<noteq> ''''" by (auto simp: renderAppOps_def)
  with Some assms show ?thesis by (auto simp: renderAppOps_def Let_def image_subset_iff intro!: dep_okI)
qed (use assms(1) in \<open>simp add: renderAppOps_def\<close>)

lemma renderDatabaseOps_deps:
  assumes "renderDatabaseOps rs t ip = Some (ops, net)" "net \<in> K" "ID ` set ops \<subseteq> K" "x \<in> set ops"
  shows "dep_ok runs E K x"
  using assms by (auto simp: renderDatabaseOps_def Let_def split: option.splits if_splits intro!: dep_okI)

lemma renderS3Ops_deps:
  assumes "renderS3Ops rs t ip = Some (ops, net)" "net \<in> K" "ID ` set ops \<subseteq> K" "x \<in> set ops"
  shows "dep_ok runs E K x"
  using assms by (auto simp: renderS3Ops_def Let_def split: option.splits if_splits intro!: dep_okI)

lemma renderLLMOps_deps:
  assumes "renderLLMOps rs t ip refs = Some (ops, net)" "net \<in> K" "ID ` set ops \<subseteq> K" "x \<in> set ops"
  shows "dep_ok runs E K x"
  using assms by (auto simp: renderLLMOps_def Let_def split: option.splits if_splits intro!: dep_okI)


section \<open>Deploys\<close>

lemma clone_build_simps [simp]:
  "ID (clone_op rid t) = ''clone:'' @ rid" "DependsOn (clone_op rid t) = []"
  "ID (build_op rid spec t img push h) = ''build:'' @ rid" "DependsOn (build_op rid spec t img push h) = [''clone:'' @ rid]"
  "ID (rollout_op rs spec refs ds t img needs) = ''res:'' @ sp_ResourceID rs" "DependsOn (rollout_op rs spec refs ds t img needs) = needs"
  by (simp_all add: clone_op_def build_op_def rollout_op_def Let_def split: prod.splits)

text \<open>No service rendered on the server waits for one that is placed there too but held back.\<close>

definition gate_closed :: "ResourceSpec \<Rightarrow> DeployTarget \<Rightarrow> string \<Rightarrow> bool" where
  "gate_closed rs target sid =
     (case sp_app rs of
        None \<Rightarrow> True
      | Some spec \<Rightarrow>
          let services = validComposeServices (compose_services spec); renderable = compose_renderable target sid services
          in list_all (\<lambda>s. list_all (\<lambda>d. d \<in> set (local_services target sid services) \<longrightarrow> d \<in> set (map sv_Name renderable))
               (sv_DependsOn s)) renderable)"

lemma service_edgeI:
  assumes "sp_app rs = Some spec" "s \<in> set (validComposeServices (compose_services spec))" "d \<in> set (sv_DependsOn s)"
    "d \<in> sv_Name ` set (validComposeServices (compose_services spec))"
  shows "(service_id rs d, service_id rs (sv_Name s)) \<in> set (service_edges rs)"
  using assms by (auto simp: service_edges_def Let_def)

lemma compose_image_id:
  "compose_image_op rid t reship s = Some x \<Longrightarrow> sv_Build s \<noteq> '''' \<and> \<not> reship \<and> ID x = ''build:'' @ rid @ '':'' @ sv_Name s \<and> DependsOn x = [''clone:'' @ rid] \<or>
     ID x = ''pull:'' @ rid @ '':'' @ sv_Name s \<and> DependsOn x = []"
  by (auto simp: compose_image_op_def Let_def split: if_splits)

lemma compose_service_deps:
  assumes "x \<in> set (compose_service_ops rs spec refs ds t web local s)" "ID ` set (compose_service_ops rs spec refs ds t web local s) \<subseteq> K"
    and "''net:res:'' @ sp_ResourceID rs \<in> K"
    and clone: "sv_Build s \<noteq> '''' \<Longrightarrow> \<not> reshipsRetainedImage t True \<Longrightarrow> ''clone:'' @ sp_ResourceID rs \<in> K"
    and local: "\<And>d. d \<in> set (sv_DependsOn s) \<Longrightarrow> local d \<Longrightarrow> service_id rs d \<in> K \<and> (service_id rs d, service_id rs (sv_Name s)) \<in> E"
  shows "dep_ok runs E K x"
proof -
  let ?img = "compose_image_op (sp_ResourceID rs) t (reshipsRetainedImage t True) s"
  consider "?img = Some x" | "ID x = service_id rs (sv_Name s)" "\<forall>y. ?img = Some y \<longrightarrow> ID y \<in> K"
    "set (DependsOn x) = {''net:res:'' @ sp_ResourceID rs} \<union> (case ?img of None \<Rightarrow> {} | Some y \<Rightarrow> {ID y}) \<union>
       service_id rs ` {d \<in> set (sv_DependsOn s). local d}"
    using assms(1,2) by (auto simp: compose_service_ops_def Let_def service_id_def split: option.splits)
  then show ?thesis
  proof cases
    case 1
    then show ?thesis using compose_image_id [OF 1] clone by (auto intro!: dep_okI)
  next
    case 2
    have "level runs (ID y) < 2" if "?img = Some y" for y using compose_image_id [OF that] by auto
    with 2 assms(3) local show ?thesis
      by (auto simp: dep_ok_def ranked_def service_id_def split: option.splits)
  qed
qed

lemma renderCompose_deps:
  assumes r: "renderComposeDeployOps rs spec refs ds t sid = Some (ops, net)" and app: "sp_app rs = Some spec"
    and "net \<in> K" "ID ` set ops \<subseteq> K" "x \<in> set ops" "gate_closed rs t sid" "set (service_edges rs) \<subseteq> E"
  shows "dep_ok runs E K x"
proof -
  let ?services = "validComposeServices (compose_services spec)"
  let ?renderable = "compose_renderable t sid ?services" and ?local = "\<lambda>d. d \<in> set (local_services t sid ?services)"
  let ?rid = "sp_ResourceID rs" and ?svc = "compose_service_ops rs spec refs ds t (web_service ?services) ?local"
  have ops: "ops = (if \<not> reshipsRetainedImage t True \<and> list_ex (\<lambda>s. sv_Build s \<noteq> '''') ?renderable then [clone_op ?rid t] else []) @
      concat (map ?svc ?renderable)" and net: "net = ''net:res:'' @ ?rid"
    using r by (auto simp: renderComposeDeployOps_def Let_def split: if_splits)
  from assms(5) ops consider "x = clone_op ?rid t" | s where "s \<in> set ?renderable" "x \<in> set (?svc s)" by (auto split: if_splits)
  then show ?thesis
  proof cases
    case (2 s)
    have s: "s \<in> set ?services" using 2(1) by (simp add: compose_renderable_def)
    have clone: "''clone:'' @ ?rid \<in> K" if "sv_Build s \<noteq> ''''" "\<not> reshipsRetainedImage t True"
    proof -
      have "clone_op ?rid t \<in> set ops" using that 2(1) by (auto simp: ops list_ex_iff)
      with assms(4) show ?thesis by (force simp: image_subset_iff)
    qed
    have here: "service_id rs d \<in> K" if "d \<in> sv_Name ` set ?renderable" for d
    proof -
      from that obtain s' where s': "s' \<in> set ?renderable" "sv_Name s' = d" by auto
      have "service_id rs d \<in> ID ` set (?svc s')" using s'(2) by (auto simp: compose_service_ops_def Let_def service_id_def)
      with s'(1) assms(4) show ?thesis by (auto simp: ops image_subset_iff)
    qed
    have "service_id rs d \<in> K \<and> (service_id rs d, service_id rs (sv_Name s)) \<in> E" if d: "d \<in> set (sv_DependsOn s)" "?local d" for d
    proof
      show "service_id rs d \<in> K" using assms(6) app d 2(1) here by (auto simp: gate_closed_def Let_def list_all_iff)
      have "d \<in> sv_Name ` set ?services" using d(2) by (auto simp: local_services_def)
      then show "(service_id rs d, service_id rs (sv_Name s)) \<in> E" using service_edgeI [OF app s d(1)] assms(7) by auto
    qed
    moreover have "ID ` set (?svc s) \<subseteq> K" using assms(4) 2(1) by (auto simp: ops)
    ultimately show ?thesis using compose_service_deps [OF 2(2)] clone assms(3) net by blast
  qed simp
qed

lemma renderDeployOps_deps:
  assumes r: "renderDeployOps rs refs ds t sid reg = Some (ops, net)"
    and "net \<in> K" "ID ` set ops \<subseteq> K" "x \<in> set ops" "gate_closed rs t sid" "set (service_edges rs) \<subseteq> E"
  shows "dep_ok runs E K x"
proof (cases "sp_app rs")
  case (Some spec)
  show ?thesis
  proof (cases "compose_services spec = []")
    case False
    then show ?thesis using renderCompose_deps [of rs spec refs ds t sid ops net K x E runs] Some assms by (simp add: renderDeployOps_def)
  next
    case True
    with Some assms show ?thesis
      by (auto simp: renderDeployOps_def Let_def image_subset_iff split: if_split_asm intro!: dep_okI)
  qed
qed (use r in \<open>simp add: renderDeployOps_def\<close>)


section \<open>Kubernetes workloads\<close>

lemma service_image_nonempty: "QualifyImage repo (PinnedServiceImageTag rid svc sha pin) \<noteq> ''''"
  by (simp add: QualifyImage_def PinnedServiceImageTag_def DeployServiceImageTag_def Let_def)

lemma cluster_service_some:
  assumes "sv_Build s \<noteq> '''' \<or> sv_Image s \<noteq> ''''"
  shows "\<exists>x. cluster_service_op lower digest rs spec refs hosts t ns nodeDeps repo host names web rendering s = Some x \<and>
    ID x = service_id rs (sv_Name s) \<and>
    DependsOn x = nodeDeps @ map (service_id rs) (filter (\<lambda>d. rendering d \<and> d \<noteq> sv_Name s) (sv_DependsOn s))"
  using assms by (auto simp: cluster_service_op_def Let_def service_id_def service_image_nonempty)

lemma renderClusterCompose_deps:
  assumes r: "renderClusterComposeOps lower digest rs spec refs hosts t ns nodeDeps repo host = Some ops" and app: "sp_app rs = Some spec"
    and "set nodeDeps \<subseteq> K" "\<forall>d \<in> set nodeDeps. level runs d < 2" "ID ` set ops \<subseteq> K" "x \<in> set ops" "set (service_edges rs) \<subseteq> E"
  shows "dep_ok runs E K x"
proof -
  let ?services = "validComposeServices (compose_services spec)"
  obtain services names rendering web where
    ops: "ops = List.map_filter (cluster_service_op lower digest rs spec refs hosts t ns nodeDeps repo host names web rendering) services"
    and sub: "set services \<subseteq> set ?services" and rendering: "\<And>d. rendering d \<longleftrightarrow> d \<in> sv_Name ` set services"
    using r unfolding renderClusterComposeOps_def Let_def by (auto split: if_split_asm)
  note some = cluster_service_some [of _ lower digest rs spec refs hosts t ns nodeDeps repo host names web rendering]
  have valid: "sv_Build s \<noteq> '''' \<or> sv_Image s \<noteq> ''''" if "s \<in> set services" for s
    using that sub by (auto simp: validComposeServices_def)
  have here: "service_id rs d \<in> K" if "rendering d" for d
  proof -
    from that obtain s where s: "s \<in> set services" "sv_Name s = d" by (auto simp: rendering)
    then have "service_id rs d \<in> ID ` set ops" using some [OF valid, of s] by (force simp: ops map_filter_def)
    with assms(5) show ?thesis by blast
  qed
  from assms(6) obtain s where s: "s \<in> set services"
      "cluster_service_op lower digest rs spec refs hosts t ns nodeDeps repo host names web rendering s = Some x"
    by (auto simp: ops map_filter_def)
  then have x: "ID x = service_id rs (sv_Name s)"
    "DependsOn x = nodeDeps @ map (service_id rs) (filter (\<lambda>d. rendering d \<and> d \<noteq> sv_Name s) (sv_DependsOn s))"
    using some [OF valid, of s] by auto
  have "(service_id rs d, ID x) \<in> ranked (level runs) E" if "d \<in> set (sv_DependsOn s)" "rendering d" for d
  proof -
    have "(service_id rs d, service_id rs (sv_Name s)) \<in> E"
      using service_edgeI [OF app, of s d] that s(1) sub assms(7) by (auto simp: rendering)
    then show ?thesis by (simp add: ranked_def x service_id_def)
  qed
  moreover have "(d, ID x) \<in> ranked (level runs) E" if "d \<in> set nodeDeps" for d
    using that assms(4) by (auto simp: ranked_def x service_id_def)
  ultimately show ?thesis using here assms(3) by (auto simp: dep_ok_def x(2))
qed

lemma renderClusterWorkload_deps:
  assumes r: "renderClusterWorkloadOps lower digest rs refs ds t m nodeID repo host = Some ops"
    and "nodeID \<in> K" "level runs nodeID = 0" "ID ` set ops \<subseteq> K" "x \<in> set ops" "set (service_edges rs) \<subseteq> E"
  shows "dep_ok runs E K x"
proof -
  from r obtain spec where app: "sp_app rs = Some spec" by (auto simp: renderClusterWorkloadOps_def split: option.splits if_splits)
  let ?nodeDeps = "if nodeID \<noteq> '''' then [nodeID] else []"
  show ?thesis
  proof (cases "compose_services spec = []")
    case False
    then have "renderClusterComposeOps lower digest rs spec (secret_refs refs) (map dom_Domain ds) t (K8sNamespace lower digest (sp_ProjectID rs))
        ?nodeDeps repo host = Some ops"
      using r app by (simp add: renderClusterWorkloadOps_def Let_def split: if_split_asm)
    then show ?thesis using app assms by (rule_tac renderClusterCompose_deps) (auto split: if_splits)
  next
    case True
    then have "ID x = ''res:'' @ sp_ResourceID rs" "DependsOn x = ?nodeDeps"
      using r app assms(5) by (auto simp: renderClusterWorkloadOps_def Let_def split: if_split_asm)
    then show ?thesis using assms(2,3) by (auto intro!: dep_okI split: if_splits)
  qed
qed

lemma renderClusterBuild_deps:
  assumes r: "renderClusterBuildOps rs t repo = Some ops" and "ID ` set ops \<subseteq> K" "x \<in> set ops"
  shows "dep_ok runs E K x"
  using assms by (auto simp: renderClusterBuildOps_def Let_def cluster_build_op_def split: option.splits if_split_asm intro!: dep_okI)


section \<open>Backups and bucket administration\<close>

definition backups_ok :: "BackupRunSpec list \<Rightarrow> bool" where
  "backups_ok runs \<longleftrightarrow> distinct (map br_RunID runs) \<and> list_all (\<lambda>r. br_Kind r = ''backup'' \<longrightarrow> DBEngine (br_Engine r) \<noteq> None) runs"

lemma backupOp_from:
  assumes "fold (\<lambda>r m. if br_Kind r = ''backup'' then m(br_ResourceID r \<mapsto> ''bkr:'' @ br_RunID r) else m) runs m rid = Some i"
  shows "m rid = Some i \<or> (\<exists>r \<in> set runs. br_Kind r = ''backup'' \<and> i = ''bkr:'' @ br_RunID r)"
  using assms by (induction runs arbitrary: m) (fastforce split: if_splits)+

lemma backupOp_Some: "backupOp runs rid = Some i \<Longrightarrow> \<exists>r \<in> set runs. br_Kind r = ''backup'' \<and> i = ''bkr:'' @ br_RunID r"
  using backupOp_from [of runs Map.empty rid i] by (simp add: backupOp_def)

lemma level_bkr [simplified, simp]: "level runs (''bkr:'' @ a) = (if ''bkr:'' @ a \<in> verify_ids runs then 4 else 3)"
  by (simp add: level_def)

lemma backup_not_verify: "distinct (map br_RunID runs) \<Longrightarrow> r \<in> set runs \<Longrightarrow> br_Kind r = ''backup'' \<Longrightarrow> ''bkr:'' @ br_RunID r \<notin> verify_ids runs"
  by (auto simp: verify_ids_def distinct_map dest!: inj_onD)

lemma renderBackupOp_cases:
  assumes "renderBackupOp backups rendered r = Some x"
  shows "ID x = ''bkr:'' @ br_RunID r"
    and "d \<in> set (DependsOn x) \<Longrightarrow> (\<exists>rid. d = ''res:'' @ rid \<and> rendered d) \<or> br_Kind r = ''verify'' \<and> backups (br_ResourceID r) = Some d"
  using assms by (auto simp: renderBackupOp_def when_rendered_def Let_def split: option.splits if_split_asm)

lemma renderBackup_deps:
  assumes ok: "backups_ok runs" and K: "\<And>i. rendered i \<Longrightarrow> i \<in> K" "ID ` set (renderBackupOps runs rendered) \<subseteq> K"
    and x: "x \<in> set (renderBackupOps runs rendered)"
  shows "dep_ok runs E K x"
proof (rule dep_okI)
  fix d assume d: "d \<in> set (DependsOn x)"
  from x obtain r where r: "r \<in> set runs" "renderBackupOp (backupOp runs) rendered r = Some x"
    by (auto simp: renderBackupOps_def map_filter_def)
  from renderBackupOp_cases(2) [OF r(2) d]
  consider rid where "d = ''res:'' @ rid" "rendered d" | "br_Kind r = ''verify''" "backupOp runs (br_ResourceID r) = Some d" by blast
  then show "d \<in> K \<and> level runs d < level runs (ID x)"
  proof cases
    case 1
    then show ?thesis using K(1) renderBackupOp_cases(1) [OF r(2)] by simp
  next
    case 2
    then obtain b where b: "b \<in> set runs" "br_Kind b = ''backup''" "d = ''bkr:'' @ br_RunID b" by (auto dest: backupOp_Some)
    with ok obtain y where "renderBackupOp (backupOp runs) rendered b = Some y" "ID y = d"
      by (auto simp: backups_ok_def list_all_iff renderBackupOp_def Let_def)
    with b(1) have "d \<in> ID ` set (renderBackupOps runs rendered)" by (force simp: renderBackupOps_def map_filter_def)
    moreover have "ID x \<in> verify_ids runs" using r(1) 2(1) renderBackupOp_cases(1) [OF r(2)] by (auto simp: verify_ids_def)
    moreover have "d \<notin> verify_ids runs" using ok b backup_not_verify by (auto simp: backups_ok_def)
    ultimately show ?thesis using K(2) b(3) renderBackupOp_cases(1) [OF r(2)] by auto
  qed
qed

lemma renderS3Configure_deps:
  assumes "\<And>i. rendered i \<Longrightarrow> i \<in> K" "x \<in> set (renderS3ConfigureOps s3 rendered)"
  shows "dep_ok runs E K x"
  using assms by (auto simp: renderS3ConfigureOps_def when_rendered_def intro!: dep_okI split: if_splits)

section \<open>The document\<close>

lemma render_resource_cases:
  assumes "render_resource ri sid rs = Some (ops, net, name)"
  obtains (db) t where "ri_dbTargets ri (sp_ResourceID rs) = Some t" "renderDatabaseOps rs t (hh_MeshIP (ri_hardening ri)) = Some (ops, net)"
    | (llm) t where "ri_llmTargets ri (sp_ResourceID rs) = Some t"
        "renderLLMOps rs t (hh_MeshIP (ri_hardening ri)) (ri_secretRefs ri (sp_ResourceID rs)) = Some (ops, net)"
    | (s3) t where "ri_s3Targets ri (sp_ResourceID rs) = Some t" "renderS3Ops rs t (hh_MeshIP (ri_hardening ri)) = Some (ops, net)"
    | (deploy) t where "sp_Kind rs = ''app''" "ri_deployTargets ri (sp_ResourceID rs) = Some t"
        "renderDeployOps rs (ri_secretRefs ri (sp_ResourceID rs)) (domains_of ri (sp_ResourceID rs)) t sid (ri_registry ri) = Some (ops, net)"
    | (app) "sp_Kind rs = ''app''" "renderAppOps rs (ri_secretRefs ri (sp_ResourceID rs)) (domains_of ri (sp_ResourceID rs)) = Some (ops, net)"
  using assms by (auto simp: render_resource_def or_else_def project_net_def deploy_net_def Let_def split: option.splits if_split_asm)

lemma render_resource_deps:
  assumes r: "render_resource ri sid rs = Some (ops, net, name)" and "net \<in> K" "ID ` set ops \<subseteq> K" "x \<in> set ops"
    and gate: "\<And>t. ri_deployTargets ri (sp_ResourceID rs) = Some t \<Longrightarrow> gate_closed rs t sid" and E: "set (service_edges rs) \<subseteq> E"
  shows "dep_ok runs E K x"
  using r
proof (cases rule: render_resource_cases)
  case db
  then show ?thesis using renderDatabaseOps_deps assms by blast
next
  case llm
  then show ?thesis using renderLLMOps_deps assms by blast
next
  case s3
  then show ?thesis using renderS3Ops_deps assms by blast
next
  case deploy
  then show ?thesis using renderDeployOps_deps assms by blast
next
  case app
  then show ?thesis using renderAppOps_deps assms by blast
qed

lemma network_ops_ids: "resource_network ri sid rs = Some (i, name) \<Longrightarrow> rs \<in> set (ri_specs ri) \<Longrightarrow> i \<in> ID ` set (network_ops ri sid)"
  by (force simp: network_ops_def map_filter_def image_image)

lemma resource_ops_deps:
  assumes "rs \<in> set (ri_specs ri)" "x \<in> set (resource_ops ri sid rs)" "ID ` set (network_ops ri sid) \<subseteq> K" "ID ` set (resource_ops ri sid rs) \<subseteq> K"
    and gate: "\<And>t. sp_ClusterID rs = '''' \<Longrightarrow> ri_deployTargets ri (sp_ResourceID rs) = Some t \<Longrightarrow> gate_closed rs t sid"
    and E: "set (service_edges rs) \<subseteq> E"
  shows "dep_ok runs E K x"
proof (cases "sp_ClusterID rs = '''' \<and> render_resource ri sid rs \<noteq> None")
  case True
  then obtain ops net name where r: "render_resource ri sid rs = Some (ops, net, name)" by fastforce
  then have "net \<in> K" using True assms(1,3) network_ops_ids [of ri sid rs net name] by (auto simp: resource_network_def)
  then show ?thesis using render_resource_deps [OF r _ _ _ gate E] True r assms(2,4) by (auto simp: resource_ops_def)
qed (use assms(2) in \<open>auto simp: resource_ops_def sync_stub_def split: if_split_asm option.splits\<close>)

lemma node_op_id: "node_op ri = Some x \<Longrightarrow> level runs (ID x) = 0 \<and> DependsOn x = []"
  by (auto simp: node_op_def renderClusterNodeOp_def split: if_splits)

lemma concat_some_in: "x \<in> set (concat_some (map f xs)) \<longleftrightarrow> (\<exists>y \<in> set xs. \<exists>l. f y = Some l \<and> x \<in> set l)"
  by (force simp: concat_some_def split: option.splits)

lemma concat_some_sub: "y \<in> set xs \<Longrightarrow> f y = Some l \<Longrightarrow> set l \<subseteq> set (concat_some (map f xs))"
  unfolding subset_iff concat_some_in by blast

lemma cluster_ops_cases:
  assumes "x \<in> set (cluster_ops lower digest ri)"
  obtains (node) "node_op ri = Some x"
    | (workload) n rs ops where "node_op ri = Some n" "rs \<in> set (cl_workloads (ri_cluster ri))" "x \<in> set ops"
        "renderClusterWorkloadOps lower digest rs (ri_secretRefs ri (sp_ResourceID rs)) (domains_of ri (sp_ResourceID rs))
           (target_of ri (sp_ResourceID rs)) (cl_membership (ri_cluster ri)) (ID n) (rg_repository (ri_registry ri)) (rg_host (ri_registry ri)) = Some ops"
        "set ops \<subseteq> set (cluster_ops lower digest ri)" "n \<in> set (cluster_ops lower digest ri)"
    | (build) rs ops where "renderClusterBuildOps rs (target_of ri (sp_ResourceID rs)) (rg_repository (ri_registry ri)) = Some ops" "x \<in> set ops"
        "set ops \<subseteq> set (cluster_ops lower digest ri)"
proof -
  let ?repo = "rg_repository (ri_registry ri)"
  let ?b = "\<lambda>rs. renderClusterBuildOps rs (target_of ri (sp_ResourceID rs)) ?repo"
  let ?w = "\<lambda>n rs. renderClusterWorkloadOps lower digest rs (ri_secretRefs ri (sp_ResourceID rs)) (domains_of ri (sp_ResourceID rs))
      (target_of ri (sp_ResourceID rs)) (cl_membership (ri_cluster ri)) (ID n) ?repo (rg_host (ri_registry ri))"
  define ws where "ws = (case node_op ri of None \<Rightarrow> []
    | Some n \<Rightarrow> if cm_Role (cl_membership (ri_cluster ri)) = NodeRoleControlPlane \<and> ID n \<noteq> '''' then concat_some (map (?w n) (cl_workloads (ri_cluster ri))) else [])"
  have eq: "set (cluster_ops lower digest ri) = set_option (node_op ri) \<union> set ws \<union> set (concat_some (map ?b (cl_builds (ri_cluster ri))))"
    by (cases "node_op ri") (simp_all add: cluster_ops_def Let_def ws_def)
  have ws: "ws = [] \<or> (\<exists>n. node_op ri = Some n \<and> ws = concat_some (map (?w n) (cl_workloads (ri_cluster ri))))"
    by (simp add: ws_def split: option.splits)
  from assms consider "node_op ri = Some x" | "x \<in> set ws" | "x \<in> set (concat_some (map ?b (cl_builds (ri_cluster ri))))" by (auto simp: eq)
  then show ?thesis
  proof cases
    case 2
    with ws obtain n where n: "node_op ri = Some n" "ws = concat_some (map (?w n) (cl_workloads (ri_cluster ri)))" by auto
    from 2 obtain rs ops where r: "rs \<in> set (cl_workloads (ri_cluster ri))" "?w n rs = Some ops" "x \<in> set ops"
      unfolding n(2) concat_some_in by blast
    have "set ops \<subseteq> set ws" unfolding n(2) using r(1,2) by (intro concat_some_sub)
    then show ?thesis using n(1) eq by (intro workload [OF n(1) r(1,3,2)]) auto
  next
    case 3
    then obtain rs ops where r: "rs \<in> set (cl_builds (ri_cluster ri))" "?b rs = Some ops" "x \<in> set ops"
      unfolding concat_some_in by blast
    have "set ops \<subseteq> set (concat_some (map ?b (cl_builds (ri_cluster ri))))" using r(1,2) by (intro concat_some_sub)
    then show ?thesis using eq by (intro build [OF r(2,3)]) auto
  qed (rule node)
qed

lemma cluster_ops_deps:
  assumes x: "x \<in> set (cluster_ops lower digest ri)" and K: "ID ` set (cluster_ops lower digest ri) \<subseteq> K"
    and E: "\<And>rs. rs \<in> set (cl_workloads (ri_cluster ri)) \<Longrightarrow> set (service_edges rs) \<subseteq> E"
  shows "dep_ok runs E K x"
  using x
proof (cases rule: cluster_ops_cases)
  case node
  then show ?thesis using node_op_id by auto
next
  case (workload n rs ops)
  then show ?thesis using K node_op_id [of ri n runs] E by (intro renderClusterWorkload_deps [OF workload(4)]) auto
next
  case (build rs ops)
  then show ?thesis using K by (intro renderClusterBuild_deps [OF build(1)]) auto
qed


lemma host_op_deps: "x \<in> set (renderHostOps sid hh url) \<Longrightarrow> DependsOn x = []"
  by (auto simp: renderHostOps_def Let_def split: if_splits)

lemma pending_op_deps: "DependsOn (pending_op p) = []"
  by (simp add: pending_op_def renderK8sRemoveOp_def renderVolumeRemoveOp_def)

definition render_ok :: "string \<Rightarrow> render_input \<Rightarrow> bool" where
  "render_ok sid ri \<longleftrightarrow> acyclic (compose_edges ri) \<and> backups_ok (ri_backupRuns ri) \<and>
     (\<forall>rs \<in> set (ri_specs ri). sp_ClusterID rs = '''' \<longrightarrow>
        (case ri_deployTargets ri (sp_ResourceID rs) of None \<Rightarrow> True | Some t \<Rightarrow> gate_closed rs t sid))"

lemma resource_graph_deps:
  assumes ok: "render_ok sid ri" and K: "ID ` set (resource_graph lower digest sid ri) \<subseteq> K" and x: "x \<in> set (resource_graph lower digest sid ri)"
  shows "dep_ok (ri_backupRuns ri) (compose_edges ri) K x"
proof -
  have E: "set (service_edges rs) \<subseteq> compose_edges ri" if "rs \<in> set (ri_specs ri) \<union> set (cl_workloads (ri_cluster ri))" for rs
    using that by (auto simp: compose_edges_def)
  from x consider "x \<in> set (network_ops ri sid)" | "x \<in> set (cluster_ops lower digest ri)"
    | rs where "rs \<in> set (ri_specs ri)" "x \<in> set (resource_ops ri sid rs)"
    | "x \<in> set (renderHostOps sid (ri_hardening ri) (ri_publicURL ri))"
    | "x = renderTraefikOp sid (ri_acme ri) (concat (map snd (ri_domains ri)))"
    by (auto simp: resource_graph_def split: if_splits)
  then show ?thesis
  proof cases
    case 1
    then show ?thesis by (auto simp: network_ops_def)
  next
    case 2
    then show ?thesis using K E by (intro cluster_ops_deps) (auto simp: resource_graph_def)
  next
    case (3 rs)
    have "gate_closed rs t sid" if "sp_ClusterID rs = ''''" "ri_deployTargets ri (sp_ResourceID rs) = Some t" for t
      using ok 3(1) that by (fastforce simp: render_ok_def)
    then show ?thesis using 3 K E by (intro resource_ops_deps [OF 3]) (auto simp: resource_graph_def)
  next
    case 4
    then show ?thesis using host_op_deps by simp
  next
    case 5
    then show ?thesis by (simp add: renderTraefikOp_def Let_def)
  qed
qed

lemma renderOps_graph_ok:
  assumes ok: "render_ok sid ri"
  shows "graph_ok (ranked (level (ri_backupRuns ri)) (compose_edges ri)) (fst (renderOps lower digest hash sid ri))"
proof (cases "hh_Decommissioning (ri_hardening ri)")
  case True
  then show ?thesis by (simp add: renderOps_def renderUninstallOps_def graph_ok_def Let_def)
next
  case False
  let ?graph = "resource_graph lower digest sid ri" and ?ops = "fst (renderOps lower digest hash sid ri)"
  let ?rendered = "\<lambda>i. i \<in> set (map ID ?graph)"
  have ops: "set ?ops = set ?graph \<union> set (renderBackupOps (ri_backupRuns ri) ?rendered) \<union> set (renderS3ConfigureOps (ri_s3Ops ri) ?rendered) \<union>
      pending_op ` set (ri_pending ri)"
    using False by (auto simp: renderOps_def Let_def renderBackupOps_def map_filter_def)
  have "dep_ok (ri_backupRuns ri) (compose_edges ri) (ID ` set ?ops) x" if "x \<in> set ?ops" for x
  proof -
    from that consider "x \<in> set ?graph" | "x \<in> set (renderBackupOps (ri_backupRuns ri) ?rendered)"
      | "x \<in> set (renderS3ConfigureOps (ri_s3Ops ri) ?rendered)" | p where "x = pending_op p" by (auto simp: ops)
    then show ?thesis
    proof cases
      case 1
      then show ?thesis using ops by (intro resource_graph_deps [OF ok]) auto
    next
      case 2
      then show ?thesis using ok ops by (intro renderBackup_deps) (auto simp: render_ok_def)
    next
      case 3
      then show ?thesis using ops by (intro renderS3Configure_deps) auto
    next
      case 4
      then show ?thesis using pending_op_deps by simp
    qed
  qed
  then show ?thesis by (auto simp: graph_ok_def dep_ok_def)
qed

text \<open>
  C7. A rendered document can be applied, under three conditions on its inputs (reconciler.go, \<open>renderOps\<close> with all its renderers, against
  \<open>TopoOrder\<close> of the agent; the conditions are \<open>render_ok\<close>). When the declared Compose dependencies have no cycle, no service rendered on
  the server waits for a service placed there that is held back, and the open backup runs have distinct ids and known engines, then the
  agent's ordering of the rendered ops reports none as unresolved and lists every rendered id: no renderer emits a dependency on an op of
  another document or on a later level. Without the second condition the claim is false of the program: the excluded case
  is the property \<open>held_back_dependency_unorderable\<close>.
\<close>

theorem rendered_documents_orderable:
  assumes "render_ok sid ri"
  shows "snd (TopoOrder (fst (renderOps lower digest hash sid ri))) = [] \<and>
    ID ` set (fst (TopoOrder (fst (renderOps lower digest hash sid ri)))) = ID ` set (fst (renderOps lower digest hash sid ri))"
proof -
  have "wf (ranked (level (ri_backupRuns ri)) (compose_edges ri))"
    using assms by (intro wf_ranked wf_compose_edges) (simp add: render_ok_def)
  then have "\<forall>i \<in> ID ` set (fst (renderOps lower digest hash sid ri)). resolvable (fst (renderOps lower digest hash sid ri)) i"
    using graph_ok_resolvable [OF renderOps_graph_ok [OF assms]] by blast
  then show ?thesis using all_resolvable_ordered [of "fst (renderOps lower digest hash sid ri)"] by blast
qed


section \<open>A small server\<close>

definition demo_hardening :: HostHardening where
  "demo_hardening = \<lparr>hh_MeshIP = ''10.0.0.1'', hh_MeshInterface = ''wg0'', hh_ProxyRole = True, hh_KeepPublicSSH = False, hh_CISEnabled = False,
     hh_ExtraPorts = [], hh_AgentVersion = ''1'', hh_DesiredAgentVersion = ''1'', hh_Decommissioning = False, hh_PurgeVolumes = False\<rparr>"

definition demo_app :: "composeServiceSpec list \<Rightarrow> appResourceSpec" where
  "demo_app services = \<lparr>as_Image = '''', as_Env = [], as_Ports = [], as_Volumes = [], as_Command = [], as_User = '''', as_ReadOnlyRootfs = False,
     as_Tmpfs = [], as_CPUs = 0, as_MemoryMB = 0, as_Restart = '''', as_Compose = Some services, as_Build = None\<rparr>"

definition demo_service :: "string \<Rightarrow> string list \<Rightarrow> string \<Rightarrow> composeServiceSpec" where
  "demo_service name needs server = \<lparr>sv_Name = name, sv_Build = '''', sv_Dockerfile = '''', sv_Image = ''img:1'', sv_Ports = [80], sv_Rollout = '''',
     sv_DependsOn = needs, sv_ServerID = server, sv_Env = []\<rparr>"

definition demo_resource :: "composeServiceSpec list \<Rightarrow> ResourceSpec" where
  "demo_resource services = \<lparr>sp_ResourceID = ''r1'', sp_ProjectID = ''p1'', sp_Kind = ''app'', sp_ClusterID = '''', sp_PublicHost = '''', sp_Spec = '''',
     sp_app = Some (demo_app services), sp_llm = None, sp_health = \<lparr>dh_Type = '''', dh_Path = '''', dh_Port = 0, dh_IntervalSec = 0\<rparr>\<rparr>"

definition demo_target :: DeployTarget where
  "demo_target = zero_target\<lparr>dt_DeploymentID := ''dep_1'', dt_SHA := ''deadbeef'', dt_Status := ''deploying'', dt_ServerID := ''s1''\<rparr>"

definition demo_backup :: "string \<Rightarrow> string \<Rightarrow> BackupRunSpec" where
  "demo_backup i kind = \<lparr>br_RunID = i, br_Kind = kind, br_ResourceID = ''r2'', br_Engine = ''postgres'', br_Database = ''d'', br_Username = ''u'',
     br_KeepDaily = 1, br_KeepWeekly = 1, br_KeepMonthly = 1, br_ExpectedSha = ''aa'', br_SnapshotID = '''', br_RestoreResourceID = '''',
     br_RestoreDatabase = '''', br_RestoreUsername = '''', br_RecoveryTargetTime = None\<rparr>"

definition demo_input :: "composeServiceSpec list \<Rightarrow> BackupRunSpec list \<Rightarrow> render_input" where
  "demo_input services runs = \<lparr>ri_specs = [demo_resource services], ri_pending = [], ri_secretRefs = (\<lambda>_. []), ri_hardening = demo_hardening,
     ri_domains = [], ri_deployTargets = (\<lambda>i. if i = ''r1'' then Some demo_target else None), ri_dbTargets = Map.empty, ri_s3Targets = Map.empty,
     ri_llmTargets = Map.empty, ri_backupRuns = runs, ri_s3Ops = [], ri_acme = \<lparr>acme_Email = '''', acme_CADirURL = ''''\<rparr>,
     ri_cluster = \<lparr>cl_member = False, cl_membership = \<lparr>cm_ClusterID = '''', cm_Name = '''', cm_Role = '''', cm_JoinToken = '''', cm_ControlPlaneMeshIP = ''''\<rparr>,
       cl_workloads = [], cl_builds = []\<rparr>, ri_registry = \<lparr>rg_repository = '''', rg_host = ''''\<rparr>, ri_publicURL = ''''\<rparr>"

definition demo_ordered :: render_input where
  "demo_ordered = demo_input [demo_service ''web'' [''db''] '''', demo_service ''db'' [] ''''] [demo_backup ''1'' ''verify'', demo_backup ''2'' ''backup'']"

lemma acyclic_edge: "a \<noteq> b \<Longrightarrow> acyclic {(a, b)}"
  by (simp add: acyclic_insert wf_acyclic)

lemma demo_ordered_ok: "render_ok ''s1'' demo_ordered"
proof -
  have "concat (map service_edges (ri_specs demo_ordered @ cl_workloads (ri_cluster demo_ordered))) = [(''res:r1:db'', ''res:r1:web'')]" by code_simp
  then have "compose_edges demo_ordered = {(''res:r1:db'', ''res:r1:web'')}"
    unfolding compose_edges_def by (metis empty_set list.simps(15))
  then have "acyclic (compose_edges demo_ordered)" by (simp add: acyclic_edge del: acyclic_insert)
  moreover have "backups_ok (ri_backupRuns demo_ordered)" by code_simp
  moreover have "list_all (\<lambda>rs. case ri_deployTargets demo_ordered (sp_ResourceID rs) of None \<Rightarrow> True | Some t \<Rightarrow> gate_closed rs t ''s1'')
      (ri_specs demo_ordered)" by code_simp
  ultimately show ?thesis by (simp add: render_ok_def list_all_iff)
qed

theorem rendered_documents_orderable_witness:
  "snd (TopoOrder (fst (renderOps id (\<lambda>_. '''') (\<lambda>_. '''') ''s1'' demo_ordered))) = [] \<and>
   {''res:r1:web'', ''bkr:1''} \<subseteq> ID ` set (fst (TopoOrder (fst (renderOps id (\<lambda>_. '''') (\<lambda>_. '''') ''s1'' demo_ordered))))"
proof -
  have "map ID (fst (renderOps id (\<lambda>_. '''') (\<lambda>_. '''') ''s1'' demo_ordered)) =
      [''net:res:r1'', ''pull:r1:web'', ''res:r1:web'', ''pull:r1:db'', ''res:r1:db'', ''host:nftables:s1'', ''host:sshd:s1'', ''proxy:traefik:s1'', ''bkr:1'', ''bkr:2'']"
    by code_simp
  then have "{''res:r1:web'', ''bkr:1''} \<subseteq> ID ` set (fst (renderOps id (\<lambda>_. '''') (\<lambda>_. '''') ''s1'' demo_ordered))"
    by (metis (no_types, lifting) empty_subsetI insert_subset list.set_intros list.set_map)
  then show ?thesis using rendered_documents_orderable [OF demo_ordered_ok, of id "\<lambda>_. ''''" "\<lambda>_. ''''"] by simp
qed

end
