(* ===== verification/Render_Agent.thy ===== *)
theory Render_Agent
  imports Render_Order
begin

text \<open>
  What rendered documents mean to the agent's ordering, garbage collection, policy and published ports.
\<close>

section \<open>Where a payload comes from\<close>

definition plain :: "op_spec \<Rightarrow> bool" where
  "plain p = (case p of WContainer c \<Rightarrow> False | WRollout r \<Rightarrow> False | WSync r k s g \<Rightarrow> False | _ \<Rightarrow> True)"

lemma plain_simps [simp]:
  "plain (WNetwork n)" "plain (WVolume n r)" "plain (WImage i h)" "plain (WClone g)" "plain (WBuild b)" "plain (WTraefik t)" "plain (WBackup bo)"
  "plain (WS3Configure so)" "plain (WK8sNode kn)" "plain (WK8sApply ka)" "plain (WK8sRemove ns)" "plain (WNftables mif ssh px ports)" "plain (WSshd m l)"
  "plain (WCis lvl)" "plain (WAgentUpdate v u)" "plain (WUninstall s pv mi)"
  "\<not> plain (WContainer c')" "\<not> plain (WRollout ro)" "\<not> plain (WSync r' k s g')"
  by (simp_all add: plain_def)

lemma common_specs [simp]: "plain (Spec (clone_op rid t))" "plain (Spec (build_op rid spec t img push h))" "plain (Spec (volume_op rid v))"
  by (simp_all add: clone_op_def build_op_def volume_op_def split: prod.splits)

lemma cluster_service_plain:
  "cluster_service_op lower digest rs spec refs hosts t ns nodeDeps repo host names web rendering s = Some x \<Longrightarrow> plain (Spec x)"
proof -
  have "pred_option (\<lambda>x. plain (Spec x)) (cluster_service_op lower digest rs spec refs hosts t ns nodeDeps repo host names web rendering s)"
    by (simp add: cluster_service_op_def Let_def)
  then show "cluster_service_op lower digest rs spec refs hosts t ns nodeDeps repo host names web rendering s = Some x \<Longrightarrow> plain (Spec x)" by simp
qed

lemma cluster_workload_plain:
  assumes "renderClusterWorkloadOps lower digest rs refs ds t m nodeID repo host = Some ops" "x \<in> set ops"
  shows "plain (Spec x)"
proof -
  have "pred_option (list_all (\<lambda>x. plain (Spec x))) (renderClusterWorkloadOps lower digest rs refs ds t m nodeID repo host)"
    using cluster_service_plain
    by (fastforce simp: renderClusterWorkloadOps_def renderClusterComposeOps_def Let_def list_all_iff map_filter_def split: option.split)
  with assms show ?thesis by (simp add: list_all_iff)
qed

lemma cluster_plain: "x \<in> set (cluster_ops lower digest ri) \<Longrightarrow> plain (Spec x)"
proof (induction rule: cluster_ops_cases [consumes 1])
  case node
  then show ?case by (auto simp: node_op_def renderClusterNodeOp_def split: if_splits)
next
  case (workload n rs ops)
  then show ?case using cluster_workload_plain by blast
next
  case (build rs ops)
  then show ?case
    by (auto simp: renderClusterBuildOps_def cluster_build_op_def Let_def split: option.splits if_split_asm)
qed

lemma backup_plain: "x \<in> set (renderBackupOps runs rendered) \<Longrightarrow> plain (Spec x)"
proof -
  have "pred_option (\<lambda>x. plain (Spec x)) (renderBackupOp backups rendered r)" for backups r
    by (simp add: renderBackupOp_def Let_def split: option.split)
  then show "x \<in> set (renderBackupOps runs rendered) \<Longrightarrow> plain (Spec x)"
    by (auto simp: renderBackupOps_def map_filter_def) (metis option.pred_inject(2))
qed

lemma host_plain: "x \<in> set (renderHostOps sid hh url) \<Longrightarrow> plain (Spec x)"
  by (auto simp: renderHostOps_def Let_def split: if_splits)

lemma document_payload:
  assumes "x \<in> set (fst (renderOps lower digest hash sid ri))" "\<not> plain (Spec x)"
  shows "\<exists>rs \<in> set (ri_specs ri). x \<in> set (resource_ops ri sid rs)"
  using assms cluster_plain host_plain backup_plain
  by (auto simp: renderOps_def Let_def resource_graph_def renderUninstallOps_def network_ops_def renderS3ConfigureOps_def renderTraefikOp_def
      pending_op_def renderK8sRemoveOp_def renderVolumeRemoveOp_def split: if_split_asm)

lemma resource_in_document:
  assumes "rs \<in> set (ri_specs ri)" "x \<in> set (resource_ops ri sid rs)" "\<not> hh_Decommissioning (ri_hardening ri)"
  shows "x \<in> set (fst (renderOps lower digest hash sid ri))"
  using assms by (auto simp: renderOps_def Let_def resource_graph_def)

section \<open>Containers of a resource\<close>

lemma single_deploy_specs:
  assumes "renderDeployOps rs refs ds t sid reg = Some (ops, net)" "sp_app rs = Some spec" "compose_services spec = []"
    and "x \<in> set ops" "\<not> plain (Spec x)"
  shows "x = rollout_op rs spec refs ds t (PinnedImageTag (sp_ResourceID rs) (dt_SHA t) (dt_ImagePin t)) (DependsOn x) \<or>
    x = rollout_op rs spec refs ds t (QualifyImage (rg_repository reg) (PinnedImageTag (sp_ResourceID rs) (dt_SHA t) (dt_ImagePin t))) (DependsOn x)"
  using assms by (auto simp: renderDeployOps_def Let_def split: if_split_asm)

definition compose_rollout ::
  "ResourceSpec \<Rightarrow> appResourceSpec \<Rightarrow> SecretRefMeta list \<Rightarrow> Domain list \<Rightarrow> DeployTarget \<Rightarrow> string \<Rightarrow> composeServiceSpec \<Rightarrow> rolloutOpSpec" where
  "compose_rollout rs spec refs ds t web s = \<lparr>ro_Container = compose_container rs spec refs ds t web s,
     ro_Generation = deployGeneration (dt_SHA t) (dt_DeploymentID t), ro_Health = composeServiceHealth s, ro_DeploymentID = dt_DeploymentID t\<rparr>"

lemma compose_image_plain: "compose_image_op rid t reship s = Some x \<Longrightarrow> plain (Spec x)"
  by (auto simp: compose_image_op_def Let_def split: if_split_asm)

text \<open>The op that swaps in a service.\<close>

definition compose_swap ::
  "ResourceSpec \<Rightarrow> appResourceSpec \<Rightarrow> SecretRefMeta list \<Rightarrow> Domain list \<Rightarrow> DeployTarget \<Rightarrow> string \<Rightarrow> (string \<Rightarrow> bool) \<Rightarrow> composeServiceSpec \<Rightarrow> rop" where
  "compose_swap rs spec refs ds t web local s =
     mk_op (service_id rs (sv_Name s)) (if sv_Rollout s = gitRolloutRecreate then KindDeployRecreate else KindDeployRollout)
       ([''net:res:'' @ sp_ResourceID rs] @ map ID (case compose_image_op (sp_ResourceID rs) t (reshipsRetainedImage t True) s of None \<Rightarrow> [] | Some y \<Rightarrow> [y]) @
        map (service_id rs) (filter local (sv_DependsOn s)))
       (WRollout (compose_rollout rs spec refs ds t web s))"

lemma compose_swap_simps [simp]:
  "ID (compose_swap rs spec refs ds t web local s) = service_id rs (sv_Name s)"
  "Kind (compose_swap rs spec refs ds t web local s) = KindDeployRecreate \<or> Kind (compose_swap rs spec refs ds t web local s) = KindDeployRollout"
  "Spec (compose_swap rs spec refs ds t web local s) = WRollout (compose_rollout rs spec refs ds t web s)"
  by (simp_all add: compose_swap_def)

lemma compose_service_specs:
  "set (compose_service_ops rs spec refs ds t web local s) =
     set_option (compose_image_op (sp_ResourceID rs) t (reshipsRetainedImage t True) s) \<union> {compose_swap rs spec refs ds t web local s}"
  by (auto simp: compose_service_ops_def compose_swap_def compose_rollout_def service_id_def Let_def split: option.split)

lemma compose_deploy_shape:
  assumes "renderComposeDeployOps rs spec refs ds t sid = Some (ops, net)"
  shows "ops = (if \<not> reshipsRetainedImage t True \<and> list_ex (\<lambda>s. sv_Build s \<noteq> '''') (compose_renderable t sid (validComposeServices (compose_services spec)))
      then [clone_op (sp_ResourceID rs) t] else []) @
    concat (map (compose_service_ops rs spec refs ds t (web_service (validComposeServices (compose_services spec)))
      (\<lambda>d. d \<in> set (local_services t sid (validComposeServices (compose_services spec)))))
      (compose_renderable t sid (validComposeServices (compose_services spec))))"
  using assms by (auto simp: renderComposeDeployOps_def Let_def split: if_split_asm)

lemma compose_deploy_specs:
  assumes "renderComposeDeployOps rs spec refs ds t sid = Some (ops, net)" "x \<in> set ops" "\<not> plain (Spec x)"
  shows "\<exists>s \<in> set (compose_renderable t sid (validComposeServices (compose_services spec))).
    x = compose_swap rs spec refs ds t (web_service (validComposeServices (compose_services spec)))
      (\<lambda>d. d \<in> set (local_services t sid (validComposeServices (compose_services spec)))) s"
  using assms(2,3) compose_image_plain
  by (auto simp: compose_deploy_shape [OF assms(1)] compose_service_specs split: if_split_asm)

lemma compose_deploy_rendered:
  assumes "renderComposeDeployOps rs spec refs ds t sid = Some (ops, net)"
    and "s \<in> set (compose_renderable t sid (validComposeServices (compose_services spec)))"
  shows "compose_swap rs spec refs ds t (web_service (validComposeServices (compose_services spec)))
      (\<lambda>d. d \<in> set (local_services t sid (validComposeServices (compose_services spec)))) s \<in> set ops"
  using assms(2) unfolding compose_deploy_shape [OF assms(1)] by (auto simp: compose_service_specs)

text \<open>The ids of a resource's ops other than its containers have another prefix than \<open>res:\<close>.\<close>

lemma compose_ids:
  assumes "renderComposeDeployOps rs spec refs ds t sid = Some (ops, net)" "x \<in> set ops" "has_prefix (ID x) ''res:''"
  shows "\<not> plain (Spec x)"
proof
  assume p: "plain (Spec x)"
  have "\<not> has_prefix (ID x) ''res:''" if "compose_image_op rid t reship s = Some x" for rid reship s
    using compose_image_id [OF that] by auto
  then show False using assms(2,3) p by (auto simp: compose_deploy_shape [OF assms(1)] compose_service_specs split: if_split_asm)
qed


section \<open>A dependency on a service that is held back\<close>

lemma network_id_of:
  "pred_option (\<lambda>(ops, net). has_prefix net ''net:'') (renderDatabaseOps rs dt ip)"
  "pred_option (\<lambda>(ops, net). has_prefix net ''net:'') (renderLLMOps rs lt ip refs)"
  "pred_option (\<lambda>(ops, net). has_prefix net ''net:'') (renderS3Ops rs st ip)"
  "pred_option (\<lambda>(ops, net). has_prefix net ''net:'') (renderAppOps rs refs ds)"
  "pred_option (\<lambda>(ops, net). net = '''' \<or> has_prefix net ''net:'') (renderDeployOps rs refs ds t sid reg)"
  by (simp_all add: renderDatabaseOps_def renderLLMOps_def renderS3Ops_def renderAppOps_def renderDeployOps_def renderComposeDeployOps_def Let_def
      split: option.split)

lemma render_network_id:
  assumes "render_resource ri sid rs = Some (ops, net, name)"
  shows "net = '''' \<or> has_prefix net ''net:''"
  using assms by (cases rule: render_resource_cases) (use network_id_of in \<open>fastforce simp: option.pred_set\<close>)+

lemma cluster_build_ids: "renderClusterBuildOps rs t repo = Some ops \<Longrightarrow> x \<in> set ops \<Longrightarrow> \<not> has_prefix (ID x) ''res:''"
  by (auto simp: renderClusterBuildOps_def cluster_build_op_def Let_def split: option.splits if_split_asm)

lemma backup_ids: "x \<in> set (renderBackupOps runs rendered) \<Longrightarrow> \<not> has_prefix (ID x) ''res:''"
  using renderBackupOp_cases(1) by (fastforce simp: renderBackupOps_def map_filter_def)

lemma network_ids: "x \<in> set (network_ops ri sid) \<Longrightarrow> \<not> has_prefix (ID x) ''res:''"
  using render_network_id [of ri sid]
  by (fastforce simp: network_ops_def map_filter_def resource_network_def has_prefix_iff split: if_split_asm option.splits)

lemma cluster_ids: "x \<in> set (cluster_ops lower digest ri) \<Longrightarrow> cl_workloads (ri_cluster ri) = [] \<Longrightarrow> \<not> has_prefix (ID x) ''res:''"
  by (induction rule: cluster_ops_cases [consumes 1])
    (auto simp: node_op_def renderClusterNodeOp_def dest: cluster_build_ids split: if_splits)

lemma document_res_ids:
  assumes "x \<in> set (fst (renderOps lower digest hash sid ri))" "has_prefix (ID x) ''res:''" "cl_workloads (ri_cluster ri) = []"
  shows "\<exists>rs \<in> set (ri_specs ri). x \<in> set (resource_ops ri sid rs)"
proof -
  have "\<not> has_prefix (ID y) ''res:''" if "y \<in> set (renderHostOps sid (ri_hardening ri) (ri_publicURL ri))" for y
    using that by (auto simp: renderHostOps_def Let_def split: if_splits)
  then show ?thesis using assms cluster_ids network_ids backup_ids
    by (auto simp: renderOps_def Let_def resource_graph_def renderUninstallOps_def UninstallOpID_def renderS3ConfigureOps_def renderTraefikOp_def
      pending_op_def renderK8sRemoveOp_def renderVolumeRemoveOp_def split: if_split_asm)
qed


text \<open>An app that is deployed from git to servers, and one of several Compose services.\<close>

definition git_app :: "render_input \<Rightarrow> ResourceSpec \<Rightarrow> appResourceSpec \<Rightarrow> DeployTarget \<Rightarrow> bool" where
  "git_app ri rs spec t \<longleftrightarrow> rs \<in> set (ri_specs ri) \<and> sp_ClusterID rs = '''' \<and> sp_Kind rs = ''app'' \<and> sp_app rs = Some spec \<and>
     ri_dbTargets ri (sp_ResourceID rs) = None \<and> ri_llmTargets ri (sp_ResourceID rs) = None \<and> ri_s3Targets ri (sp_ResourceID rs) = None \<and>
     ri_deployTargets ri (sp_ResourceID rs) = Some t \<and> \<not> hh_Decommissioning (ri_hardening ri)"

definition compose_app :: "render_input \<Rightarrow> ResourceSpec \<Rightarrow> appResourceSpec \<Rightarrow> DeployTarget \<Rightarrow> bool" where
  "compose_app ri rs spec t \<longleftrightarrow> git_app ri rs spec t \<and> compose_services spec \<noteq> [] \<and> distinct (map sv_Name (compose_services spec))"

lemmas compose_app_defs = compose_app_def git_app_def

abbreviation "services_of spec \<equiv> validComposeServices (compose_services spec)"

abbreviation "swap_of ri rs spec t sid \<equiv> compose_swap rs spec (ri_secretRefs ri (sp_ResourceID rs)) (domains_of ri (sp_ResourceID rs)) t
  (web_service (services_of spec)) (\<lambda>d. d \<in> set (local_services t sid (services_of spec)))"

lemma compose_app_ops:
  assumes "compose_app ri rs spec t" "compose_renderable t sid (services_of spec) \<noteq> []"
  shows "\<exists>net. renderComposeDeployOps rs spec (ri_secretRefs ri (sp_ResourceID rs)) (domains_of ri (sp_ResourceID rs)) t sid =
    Some (resource_ops ri sid rs, net)"
proof -
  have "services_of spec \<noteq> []" using assms(2) by (auto simp: compose_renderable_def)
  with assms(2) have "renderComposeDeployOps rs spec refs ds t sid \<noteq> None" for refs ds
    by (simp add: renderComposeDeployOps_def Let_def)
  then obtain ops net where
    r: "renderComposeDeployOps rs spec (ri_secretRefs ri (sp_ResourceID rs)) (domains_of ri (sp_ResourceID rs)) t sid = Some (ops, net)"
    by (metis option.exhaust surj_pair)
  then have "resource_ops ri sid rs = ops"
    using assms(1) by (simp add: compose_app_defs resource_ops_def render_resource_def or_else_def deploy_net_def renderDeployOps_def Let_def)
  with r show ?thesis by blast
qed

lemma renderable_distinct:
  "compose_app ri rs spec t \<Longrightarrow> s \<in> set (services_of spec) \<Longrightarrow> s' \<in> set (services_of spec) \<Longrightarrow> sv_Name s = sv_Name s' \<Longrightarrow> s = s'"
  by (auto simp: compose_app_def validComposeServices_def distinct_map dest: inj_onD)

lemma renderable_service: "s \<in> set (compose_renderable t sid services) \<Longrightarrow> s \<in> set services \<and> placed_on t s = sid"
  by (simp add: compose_renderable_def)

lemma service_id_inj [simp]: "service_id rs a = service_id rs b \<longleftrightarrow> a = b"
  by (simp add: service_id_def)

text \<open>
  C10. A service that depends on a held-back service of the same server cannot be applied (deploy.go, \<open>renderComposeDeployOps\<close>).
  The comment there says that \<open>depends_on\<close> is rendered only for services of this document, so that no dangling reference arises. The
  code tests only that the dependency is placed on the server. When the dependency is held back, waiting for a service on another
  server, the dependent is rendered with a dependency on an op that is not in the document, and the agent reports it as unresolved. (Stated for
  a server with this one resource and no cluster workloads.)
\<close>

theorem held_back_dependency_unorderable:
  assumes app: "compose_app ri rs spec t" and only: "ri_specs ri = [rs]" "cl_workloads (ri_cluster ri) = []"
    and s: "s \<in> set (compose_renderable t sid (services_of spec))" "d \<in> set (sv_DependsOn s)"
    and d: "d \<in> set (local_services t sid (services_of spec))" "d \<notin> sv_Name ` set (compose_renderable t sid (services_of spec))"
  shows "service_id rs (sv_Name s) \<in> set (snd (TopoOrder (fst (renderOps lower digest hash sid ri))))"
proof -
  let ?doc = "fst (renderOps lower digest hash sid ri)" and ?i = "service_id rs (sv_Name s)"
  obtain net where r: "renderComposeDeployOps rs spec (ri_secretRefs ri (sp_ResourceID rs)) (domains_of ri (sp_ResourceID rs)) t sid =
      Some (resource_ops ri sid rs, net)" using compose_app_ops [OF app] s(1) by (metis empty_iff empty_set)
  have from_swap: "\<exists>s' \<in> set (compose_renderable t sid (services_of spec)). x = swap_of ri rs spec t sid s' \<and> sv_Name s' = e"
    if "x \<in> set ?doc" "ID x = service_id rs e" for x e
  proof -
    have pre: "has_prefix (ID x) ''res:''" using that(2) by (simp add: service_id_def)
    then have x: "x \<in> set (resource_ops ri sid rs)" using document_res_ids [OF that(1)] only by simp
    then show ?thesis using compose_deploy_specs [OF r x compose_ids [OF r x pre]] that(2) by auto
  qed
  have known: "?i \<in> ID ` set ?doc"
  proof -
    have "swap_of ri rs spec t sid s \<in> set ?doc"
      using compose_deploy_rendered [OF r s(1)] app by (intro resource_in_document) (auto simp: compose_app_defs)
    then show ?thesis by (metis compose_swap_simps(1) image_eqI)
  qed
  have "\<not> resolvable ?doc ?i"
  proof
    assume "resolvable ?doc ?i"
    then obtain x where x: "byID ?doc ?i = Some x" "\<And>e. e \<in> set (DependsOn x) \<Longrightarrow> resolvable ?doc e" by (auto elim: resolvable_E)
    have "x \<in> set ?doc" "ID x = ?i" using byID_Some [OF x(1)] by simp_all
    from from_swap [OF this] obtain s' where s': "s' \<in> set (compose_renderable t sid (services_of spec))"
      "x = swap_of ri rs spec t sid s'" "sv_Name s' = sv_Name s" by blast
    have "s' = s" using renderable_distinct [OF app _ _ s'(3)] renderable_service [OF s'(1)] renderable_service [OF s(1)] by blast
    with s'(2) have "x = swap_of ri rs spec t sid s" by simp
    then have "service_id rs d \<in> set (DependsOn x)" using s(2) d(1) by (simp add: compose_swap_def)
    then have "service_id rs d \<in> ID ` set ?doc" using x(2) resolvable_known by blast
    then obtain y where "y \<in> set ?doc" "ID y = service_id rs d" by (metis imageE)
    with from_swap d(2) show False by blast
  qed
  with known show ?thesis using TopoOrder_props(5) [of ?doc "fst (TopoOrder ?doc)" "snd (TopoOrder ?doc)"] by auto
qed

definition demo_wedged :: render_input where
  "demo_wedged = demo_input [demo_service ''web'' [''db''] '''', demo_service ''db'' [''queue''] '''', demo_service ''queue'' [] ''s2''] []"

theorem held_back_dependency_unorderable_witness:
  "''res:r1:web'' \<in> set (snd (TopoOrder (fst (renderOps id (\<lambda>_. '''') (\<lambda>_. '''') ''s1'' demo_wedged))))"
proof -
  let ?spec = "demo_app [demo_service ''web'' [''db''] '''', demo_service ''db'' [''queue''] '''', demo_service ''queue'' [] ''s2'']"
  let ?rs = "demo_resource [demo_service ''web'' [''db''] '''', demo_service ''db'' [''queue''] '''', demo_service ''queue'' [] ''s2'']"
  let ?s = "demo_service ''web'' [''db''] ''''"
  have app: "compose_app demo_wedged ?rs ?spec demo_target"
    by (simp add: compose_app_defs demo_wedged_def demo_input_def demo_resource_def demo_app_def demo_service_def compose_services_def demo_hardening_def)
  have only: "ri_specs demo_wedged = [?rs]" "cl_workloads (ri_cluster demo_wedged) = []" by (simp_all add: demo_wedged_def demo_input_def)
  have rend: "compose_renderable demo_target ''s1'' (services_of ?spec) = [?s]" by code_simp
  have loc: "local_services demo_target ''s1'' (services_of ?spec) = [''web'', ''db'']" by code_simp
  have "service_id ?rs (sv_Name ?s) = ''res:r1:web''" by code_simp
  with held_back_dependency_unorderable [OF app only, of ?s "''s1''" "''db''" id "\<lambda>_. ''''" "\<lambda>_. ''''"]
  show ?thesis unfolding rend loc by (simp add: demo_service_def)
qed

end
