(* ===== verification/Render_Gc.thy ===== *)
theory Render_Gc
  imports Render_Agent
begin

text \<open>
  Rendered documents under the agent's garbage collection: which running containers of a git-deployed app a collection spares
  while its rollout is held back, and which it does not.
\<close>

section \<open>What the agent decodes\<close>

lemma kinds_differ [simp]: "KindDeployRecreate \<noteq> KindDeployRollout" "KindDeployRollout \<noteq> KindDeployRecreate"
  by (simp_all add: KindDeployRecreate_def KindDeployRollout_def)

lemma rollout_container_wire:
  "rollout_container (wire_codec sh th sha) x = Some k \<longleftrightarrow>
     (\<exists>r. Spec x = WRollout r \<and> (Kind x = KindDeployRollout \<or> Kind x = KindDeployRecreate) \<and> k = wire_container (ro_Container r))"
  by (auto simp: rollout_container_def wire_codec_def split: op_spec.splits)

lemma retains_wire:
  "retains (wire_codec sh th sha) x rid svc \<longleftrightarrow> Kind x = KindResourceSync \<and> (\<exists>k s g. Spec x = WSync rid k s g \<and> svc \<in> set g)"
  by (auto simp: retains_def wire_codec_def split: op_spec.splits)

lemma wire_container_simps [simp]: "ResourceID (wire_container c) = co_ResourceID c" "Service (wire_container c) = co_Service c"
  by (simp_all add: wire_container_def)

lemma zero_container_simps [simp]: "co_Service zero_container = ''''" by (simp add: zero_container_def)

lemma compose_rollout_simps [simp]:
  "co_ResourceID (ro_Container (compose_rollout rs spec refs ds t web s)) = sp_ResourceID rs"
  "co_Service (ro_Container (compose_rollout rs spec refs ds t web s)) = sv_Name s"
  by (simp_all add: compose_rollout_def compose_container_def Let_def)

lemma deploy_container_simps [simp]:
  "co_ResourceID (deploy_container rs spec refs ds t img) = sp_ResourceID rs" "co_Service (deploy_container rs spec refs ds t img) = ''''"
  by (simp_all add: deploy_container_def Let_def)

lemma rollout_op_payload:
  "Spec (rollout_op rs spec refs ds t img needs) = WRollout \<lparr>ro_Container = deploy_container rs spec refs ds t img,
     ro_Generation = deployGeneration (dt_SHA t) (dt_DeploymentID t), ro_Health = deployHealth spec (sp_health rs), ro_DeploymentID = dt_DeploymentID t\<rparr>"
  "Kind (rollout_op rs spec refs ds t img needs) = KindDeployRollout \<or> Kind (rollout_op rs spec refs ds t img needs) = KindDeployRecreate"
  by (simp_all add: rollout_op_def Let_def)

section \<open>All or none of an app's services held back\<close>

text \<open>The container groups an app runs on a server.\<close>

definition serves :: "appResourceSpec \<Rightarrow> DeployTarget \<Rightarrow> string \<Rightarrow> string \<Rightarrow> bool" where
  "serves spec t sid g =
     (if compose_services spec \<noteq> [] then list_ex (\<lambda>s. sv_Name s = g \<and> placed_on t s = sid) (services_of spec)
      else g = '''' \<and> \<not> (dt_BuildServerID t \<noteq> '''' \<and> dt_BuildServerID t \<noteq> dt_ServerID t \<and> sid = dt_BuildServerID t))"

lemma held_back_stub:
  assumes "git_app ri rs spec t" "render_resource ri sid rs = None" "serves spec t sid g"
  shows "\<exists>x \<in> set (resource_ops ri sid rs). retains (wire_codec sh th sha) x (sp_ResourceID rs) g"
proof -
  have "g \<in> set (retainedContainerGroups rs t sid)"
    using assms(1,3) by (auto simp: git_app_def serves_def retainedContainerGroups_def validComposeServices_def list_ex_iff Let_def split: if_splits)
  then show ?thesis using assms(1,2) by (auto simp: git_app_def resource_ops_def sync_stub_def retains_wire)
qed

lemma rendered_rollout:
  assumes app: "git_app ri rs spec t" and r: "render_resource ri sid rs = Some (ops, net, name)" and "as_Image spec = ''''" "serves spec t sid g"
    and all: "compose_renderable t sid (services_of spec) \<in> {[], filter (\<lambda>s. placed_on t s = sid) (services_of spec)}"
  shows "\<exists>x \<in> set ops. \<exists>k. rollout_container (wire_codec sh th sha) x = Some k \<and> ResourceID k = sp_ResourceID rs \<and> Service k = g"
proof -
  have no_app: "renderAppOps rs refs ds = None" for refs ds using app assms(3) by (simp add: renderAppOps_def git_app_def)
  from r have d: "renderDeployOps rs (ri_secretRefs ri (sp_ResourceID rs)) (domains_of ri (sp_ResourceID rs)) t sid (ri_registry ri) = Some (ops, net)"
    by (cases rule: render_resource_cases) (use app no_app in \<open>auto simp: git_app_def\<close>)
  show ?thesis
  proof (cases "compose_services spec = []")
    case True
    have "list_ex (\<lambda>x. \<not> plain (Spec x)) ops"
      using d True app assms(4) by (auto simp: renderDeployOps_def git_app_def serves_def rollout_op_payload Let_def split: if_split_asm)
    then obtain x where x: "x \<in> set ops" "\<not> plain (Spec x)" by (auto simp: list_ex_iff)
    have "sp_app rs = Some spec" using app by (simp add: git_app_def)
    from single_deploy_specs [OF d this True x] obtain img needs where
      "x = rollout_op rs spec (ri_secretRefs ri (sp_ResourceID rs)) (domains_of ri (sp_ResourceID rs)) t img needs" by metis
    then have "\<exists>k. rollout_container (wire_codec sh th sha) x = Some k \<and> ResourceID k = sp_ResourceID rs \<and> Service k = ''''"
      using rollout_op_payload by (auto simp: rollout_container_wire)
    moreover have "g = ''''" using True assms(4) by (simp add: serves_def)
    ultimately show ?thesis using x(1) by blast
  next
    case False
    then have c: "renderComposeDeployOps rs spec (ri_secretRefs ri (sp_ResourceID rs)) (domains_of ri (sp_ResourceID rs)) t sid = Some (ops, net)"
      using d app by (simp add: renderDeployOps_def git_app_def)
    then have "compose_renderable t sid (services_of spec) \<noteq> []" by (auto simp: renderComposeDeployOps_def Let_def split: if_split_asm)
    with all False assms(4) obtain s where s: "s \<in> set (compose_renderable t sid (services_of spec))" "sv_Name s = g"
      by (auto simp: serves_def list_ex_iff)
    from compose_deploy_rendered [OF c s(1)] s(2) show ?thesis
      by (intro bexI) (auto simp: rollout_container_wire compose_swap_def)
  qed
qed

text \<open>
  C8. A collection never takes down an app without an image of its own whose rollout is held back (renderOps and \<open>retainedContainerGroups\<close> of the control
  plane, \<open>protectedGroups\<close> and \<open>gcReap\<close> of the agent). For an app deployed from git whose spec names no \<open>image\<close>, in whatever phase its deployment
  is, let a server run a container group of the app: a Compose service placed there or, for an app of one container, any server but the dedicated build server. Unless only a part of the app's services on the
  server is held back, no container of the group is reaped with any document the server is given, whatever its name and generation. (An
  app with both a deployment and an \<open>image\<close> is not covered: held back, it is rendered as an image app, without a retain list.)
\<close>

theorem deploys_survive_collection:
  assumes "git_app ri rs spec t" "as_Image spec = ''''" "sp_ResourceID rs \<noteq> ''''" "serves spec t sid g"
    and "compose_renderable t sid (services_of spec) \<in> {[], filter (\<lambda>s. placed_on t s = sid) (services_of spec)}"
    and "Ops doc = fst (renderOps lower digest hash sid ri)"
    and "mget (C_Labels c) LabelResourceID = sp_ResourceID rs" "mget (C_Labels c) LabelService = g"
  shows "\<not> gcReap c (desiredNames (wire_codec sh th sha) doc) (protectedGroups (wire_codec sh th sha) doc) owner"
proof -
  have "\<exists>x \<in> set (resource_ops ri sid rs). retains (wire_codec sh th sha) x (sp_ResourceID rs) g \<or>
      (\<exists>k. rollout_container (wire_codec sh th sha) x = Some k \<and> ResourceID k = sp_ResourceID rs \<and> Service k = g)"
  proof (cases "render_resource ri sid rs")
    case None
    then show ?thesis using held_back_stub [OF assms(1) None assms(4)] by blast
  next
    case (Some r)
    then obtain ops net name where r: "render_resource ri sid rs = Some (ops, net, name)" by (metis prod_cases3)
    then have "resource_ops ri sid rs = ops" using assms(1) by (simp add: resource_ops_def git_app_def)
    then show ?thesis using rendered_rollout [OF assms(1) r assms(2,4,5)] by blast
  qed
  then have "spared (wire_codec sh th sha) doc owner c"
    using resource_in_document [of rs ri _ sid lower digest hash] assms(1,3,6,7,8) by (auto simp: spared_def git_app_def Let_def)
  then show ?thesis using gcReap_spares by blast
qed


definition demo_held :: render_input where
  "demo_held = demo_input [demo_service ''web'' [''queue''] '''', demo_service ''queue'' [] ''s2''] []"

definition demo_codec :: "op_spec codec" where
  "demo_codec = wire_codec (\<lambda>_. '''') (\<lambda>_. '''') (\<lambda>_. '''')"

definition demo_document :: "render_input \<Rightarrow> op_spec Document" where
  "demo_document ri = \<lparr>Version = 2, OrgID = ''org'', ServerID = ''s1'', Ops = fst (renderOps id (\<lambda>_. '''') (\<lambda>_. '''') ''s1'' ri)\<rparr>"

definition demo_live :: "string \<Rightarrow> ContainerState" where
  "demo_live svc = \<lparr>C_ID = ''c1'', C_Name = ''sigmahub-r1-old'', C_Image = ''img:0'', C_Running = True, C_Pid = 7, C_IP = '''',
     C_Labels = [LabelResourceID \<mapsto> ''r1'', LabelService \<mapsto> svc]\<rparr>"

lemma demo_live_labels: "mget (C_Labels (demo_live svc)) LabelResourceID = ''r1''" "mget (C_Labels (demo_live svc)) LabelService = svc"
    "mget (C_Labels (demo_live svc)) LabelServerID = ''''"
  by (simp_all add: demo_live_def mget_def LabelResourceID_def LabelService_def LabelServerID_def)

theorem deploys_survive_collection_witness:
  "\<not> gcReap (demo_live ''web'') (desiredNames demo_codec (demo_document demo_held)) (protectedGroups demo_codec (demo_document demo_held)) ''s1''"
proof -
  let ?ss = "[demo_service ''web'' [''queue''] '''', demo_service ''queue'' [] ''s2'']"
  have app: "git_app demo_held (demo_resource ?ss) (demo_app ?ss) demo_target"
    by (simp add: git_app_def demo_held_def demo_input_def demo_resource_def demo_app_def demo_hardening_def)
  have sv: "serves (demo_app ?ss) demo_target ''s1'' ''web''" by code_simp
  have rend: "compose_renderable demo_target ''s1'' (services_of (demo_app ?ss)) = []" by code_simp
  have id: "sp_ResourceID (demo_resource ?ss) = ''r1''" "as_Image (demo_app ?ss) = ''''" by (simp_all add: demo_resource_def demo_app_def)
  have doc: "Ops (demo_document demo_held) = fst (renderOps id (\<lambda>_. '''') (\<lambda>_. '''') ''s1'' demo_held)" by (simp add: demo_document_def)
  show ?thesis unfolding demo_codec_def
    by (rule deploys_survive_collection [OF app id(2) _ sv _ doc]) (simp_all add: id rend demo_live_labels)
qed

section \<open>A part of an app's services held back\<close>

lemma database_payload: "pred_option (\<lambda>(ops, net). \<forall>x \<in> set ops. \<not> plain (Spec x) \<longrightarrow> (\<exists>c. Spec x = WContainer c \<and> co_ResourceID c = sp_ResourceID rs)) (renderDatabaseOps rs t ip)"
  by (auto simp: renderDatabaseOps_def Let_def split: option.split)

lemma llm_payload: "pred_option (\<lambda>(ops, net). \<forall>x \<in> set ops. \<not> plain (Spec x) \<longrightarrow> (\<exists>c. Spec x = WContainer c \<and> co_ResourceID c = sp_ResourceID rs)) (renderLLMOps rs t ip refs)"
  by (auto simp: renderLLMOps_def Let_def split: option.split)

lemma s3_payload: "pred_option (\<lambda>(ops, net). \<forall>x \<in> set ops. \<not> plain (Spec x) \<longrightarrow> (\<exists>c. Spec x = WContainer c \<and> co_ResourceID c = sp_ResourceID rs)) (renderS3Ops rs t ip)"
  by (auto simp: renderS3Ops_def Let_def split: option.split)

lemma app_payload: "pred_option (\<lambda>(ops, net). \<forall>x \<in> set ops. \<not> plain (Spec x) \<longrightarrow> (\<exists>c. Spec x = WContainer c \<and> co_ResourceID c = sp_ResourceID rs)) (renderAppOps rs refs ds)"
  by (auto simp: renderAppOps_def Let_def split: option.split)

lemma deploy_payload:
  assumes "renderDeployOps rs refs ds t sid reg = Some (ops, net)" "x \<in> set ops" "\<not> plain (Spec x)"
  shows "\<exists>r. Spec x = WRollout r \<and> co_ResourceID (ro_Container r) = sp_ResourceID rs"
proof -
  from assms(1) obtain spec where app: "sp_app rs = Some spec" by (auto simp: renderDeployOps_def split: option.splits)
  show ?thesis
  proof (cases "compose_services spec = []")
    case True
    with single_deploy_specs [OF assms(1) app True assms(2,3)] obtain img needs where "x = rollout_op rs spec refs ds t img needs" by metis
    then show ?thesis by (simp add: rollout_op_payload)
  next
    case False
    with assms(1) app have "renderComposeDeployOps rs spec refs ds t sid = Some (ops, net)" by (simp add: renderDeployOps_def)
    from compose_deploy_specs [OF this assms(2,3)] show ?thesis by force
  qed
qed

lemma render_payload:
  assumes "render_resource ri sid rs = Some (ops, net, name)" "x \<in> set ops" "\<not> plain (Spec x)"
  shows "(\<exists>c. Spec x = WContainer c \<and> co_ResourceID c = sp_ResourceID rs) \<or> (\<exists>r. Spec x = WRollout r \<and> co_ResourceID (ro_Container r) = sp_ResourceID rs)"
  using assms(1)
proof (cases rule: render_resource_cases)
  case (db t)
  then show ?thesis using database_payload [of rs t "hh_MeshIP (ri_hardening ri)"] assms(2,3) by auto
next
  case (llm t)
  then show ?thesis using llm_payload [of rs t "hh_MeshIP (ri_hardening ri)" "ri_secretRefs ri (sp_ResourceID rs)"] assms(2,3) by auto
next
  case (s3 t)
  then show ?thesis using s3_payload [of rs t "hh_MeshIP (ri_hardening ri)"] assms(2,3) by auto
next
  case (deploy t)
  then show ?thesis using deploy_payload assms(2,3) by blast
next
  case app
  then show ?thesis using app_payload [of rs "ri_secretRefs ri (sp_ResourceID rs)" "domains_of ri (sp_ResourceID rs)"] assms(2,3) by auto
qed

lemma document_resource:
  assumes "x \<in> set (fst (renderOps lower digest hash sid ri))" "\<not> plain (Spec x)"
  obtains (stub) rs where "rs \<in> set (ri_specs ri)" "render_resource ri sid rs = None" "x = sync_stub ri sid rs"
    | (ops) rs ops net name where "rs \<in> set (ri_specs ri)" "render_resource ri sid rs = Some (ops, net, name)" "x \<in> set ops" "resource_ops ri sid rs = ops"
proof -
  from document_payload [OF assms] obtain rs where rs: "rs \<in> set (ri_specs ri)" "x \<in> set (resource_ops ri sid rs)" by blast
  then have cl: "sp_ClusterID rs = ''''" by (simp add: resource_ops_def split: if_split_asm)
  show ?thesis
  proof (cases "render_resource ri sid rs")
    case None
    with rs cl show ?thesis by (intro stub [OF rs(1)]) (simp_all add: resource_ops_def)
  next
    case (Some r)
    then obtain rops net name where r: "render_resource ri sid rs = Some (rops, net, name)" by (metis prod_cases3)
    with rs cl show ?thesis by (intro ops [OF rs(1) r]) (simp_all add: resource_ops_def)
  qed
qed

lemma retained_resource:
  assumes "x \<in> set (fst (renderOps lower digest hash sid ri))" "retains (wire_codec sh th sha) x rid svc"
  shows "\<exists>rs \<in> set (ri_specs ri). render_resource ri sid rs = None \<and> rid = sp_ResourceID rs"
proof -
  from assms(2) obtain k sp g where w: "Spec x = WSync rid k sp g" by (auto simp: retains_wire)
  then have "\<not> plain (Spec x)" by simp
  with assms(1) show ?thesis
  proof (cases rule: document_resource)
    case (stub rs)
    then show ?thesis using w by (auto simp: sync_stub_def)
  next
    case (ops rs ops net name)
    then show ?thesis using render_payload [OF ops(2,3)] w by auto
  qed
qed

lemma rolled_out_resource:
  assumes "x \<in> set (fst (renderOps lower digest hash sid ri))" "rollout_container (wire_codec sh th sha) x = Some k"
  shows "\<exists>rs \<in> set (ri_specs ri). x \<in> set (resource_ops ri sid rs) \<and> ResourceID k = sp_ResourceID rs \<and> \<not> plain (Spec x)"
proof -
  from assms(2) obtain r where r: "Spec x = WRollout r" "k = wire_container (ro_Container r)" by (auto simp: rollout_container_wire)
  then have np: "\<not> plain (Spec x)" by simp
  with assms(1) show ?thesis
  proof (cases rule: document_resource)
    case (stub rs)
    then show ?thesis using r by (auto simp: sync_stub_def)
  next
    case (ops rs ops net name)
    then show ?thesis using render_payload [OF ops(2,3) np] r np by auto
  qed
qed

lemma document_nul_free:
  assumes "\<forall>r \<in> set (ri_specs ri). CHR 0x00 \<notin> set (sp_ResourceID r)" "rs \<in> set (ri_specs ri)" "mget (C_Labels c) LabelResourceID = sp_ResourceID rs"
    and doc: "Ops doc = fst (renderOps lower digest hash sid ri)"
  shows "nul_free (wire_codec sh th sha) doc c"
  unfolding nul_free_def doc
proof (intro conjI ballI allI impI)
  show "CHR 0x00 \<notin> set (mget (C_Labels c) LabelResourceID)" using assms(1,2,3) by simp
  fix x assume x: "x \<in> set (fst (renderOps lower digest hash sid ri))"
  show "CHR 0x00 \<notin> set (ResourceID k)" if "rollout_container (wire_codec sh th sha) x = Some k" for k
    using rolled_out_resource [OF x that] assms(1) by auto
  show "CHR 0x00 \<notin> set rid" if "retains (wire_codec sh th sha) x rid svc" for rid svc
    using retained_resource [OF x that] assms(1) by auto
qed

text \<open>
  C9. A Compose service that is held back while its siblings are rendered loses its running container (deploy.go and reconciler.go
  against the agent's reconcile.go). The comment on the stub says that retention is stated so that a service gated on a
  remote dependency is not reaped. But the stub is rendered only when no service of the app renders on the server. When one renders and another is held back, no op
  of the document protects the group of the held-back service, and the agent's collection reaps its running container, whose
  generation is not the one the document names.
\<close>

theorem held_back_service_is_reaped:
  assumes app: "compose_app ri rs spec t" and ids: "distinct (map sp_ResourceID (ri_specs ri))"
    and nul: "\<forall>r \<in> set (ri_specs ri). CHR 0x00 \<notin> set (sp_ResourceID r)"
    and some: "compose_renderable t sid (services_of spec) \<noteq> []"
    and h: "h \<in> set (services_of spec)" "placed_on t h = sid" "h \<notin> set (compose_renderable t sid (services_of spec))"
    and doc: "Ops doc = fst (renderOps lower digest hash sid ri)"
    and c: "mget (C_Labels c) LabelResourceID = sp_ResourceID rs" "mget (C_Labels c) LabelService = sv_Name h" "mget (C_Labels c) LabelServerID \<in> {'''', sid}"
      "\<not> desiredNames (wire_codec sh th sha) doc (C_Name c)"
  shows "gcReap c (desiredNames (wire_codec sh th sha) doc) (protectedGroups (wire_codec sh th sha) doc) sid"
proof -
  let ?cd = "wire_codec sh th sha"
  obtain net where r: "renderComposeDeployOps rs spec (ri_secretRefs ri (sp_ResourceID rs)) (domains_of ri (sp_ResourceID rs)) t sid =
      Some (resource_ops ri sid rs, net)" using compose_app_ops [OF app some] by blast
  have rs: "rs \<in> set (ri_specs ri)" using app by (simp add: compose_app_defs)
  have same: "r' = rs" if "r' \<in> set (ri_specs ri)" "sp_ResourceID rs = sp_ResourceID r'" for r'
    using ids that rs by (auto simp: distinct_map dest: inj_onD)
  have rendered: "render_resource ri sid rs \<noteq> None"
    using r app by (simp add: render_resource_def or_else_def compose_app_defs renderDeployOps_def Let_def)
  have retain: "\<not> retains ?cd x (sp_ResourceID rs) svc" if "x \<in> set (Ops doc)" for x svc
    using retained_resource [OF that [unfolded doc]] same rendered by metis
  have roll: "Service k \<noteq> sv_Name h"
    if x: "x \<in> set (Ops doc)" and k: "rollout_container ?cd x = Some k" "ResourceID k = sp_ResourceID rs" for x k
  proof -
    have x: "x \<in> set (resource_ops ri sid rs)" "\<not> plain (Spec x)"
      using rolled_out_resource [OF x [unfolded doc] k(1)] same k(2) by metis+
    from compose_deploy_specs [OF r x] obtain s where s: "s \<in> set (compose_renderable t sid (services_of spec))" "x = swap_of ri rs spec t sid s" by blast
    then have "Service k = sv_Name s" using k(1) by (auto simp: rollout_container_wire)
    then show ?thesis using renderable_distinct [OF app, of s h] renderable_service [OF s(1)] s(1) h(1,3) by auto
  qed
  have "\<not> spared ?cd doc sid c" using c retain roll by (auto simp: spared_def Let_def desiredNames_iff)
  then show ?thesis using gcReap_complete document_nul_free [OF nul rs c(1) doc] by blast
qed

definition demo_split :: render_input where
  "demo_split = demo_input [demo_service ''web'' [] '''', demo_service ''worker'' [''queue''] '''', demo_service ''queue'' [] ''s2''] []"

theorem held_back_service_is_reaped_witness:
  "gcReap (demo_live ''worker'') (desiredNames demo_codec (demo_document demo_split)) (protectedGroups demo_codec (demo_document demo_split)) ''s1''"
proof -
  let ?ss = "[demo_service ''web'' [] '''', demo_service ''worker'' [''queue''] '''', demo_service ''queue'' [] ''s2'']"
  let ?h = "demo_service ''worker'' [''queue''] ''''"
  have app: "compose_app demo_split (demo_resource ?ss) (demo_app ?ss) demo_target"
    by (simp add: compose_app_defs demo_split_def demo_input_def demo_resource_def demo_app_def demo_hardening_def compose_services_def demo_service_def)
  have one: "ri_specs demo_split = [demo_resource ?ss]" by (simp add: demo_split_def demo_input_def)
  have sv: "services_of (demo_app ?ss) = ?ss" by code_simp
  have rend: "compose_renderable demo_target ''s1'' ?ss = [demo_service ''web'' [] '''']" by code_simp
  have id: "sp_ResourceID (demo_resource ?ss) = ''r1''" "sv_Name ?h = ''worker''" "placed_on demo_target ?h = ''s1''"
    by (simp_all add: demo_resource_def demo_service_def placed_on_def demo_target_def)
  have doc: "Ops (demo_document demo_split) = fst (renderOps id (\<lambda>_. '''') (\<lambda>_. '''') ''s1'' demo_split)" by (simp add: demo_document_def)
  have name: "\<not> desiredNames demo_codec (demo_document demo_split) (C_Name (demo_live ''worker''))" by code_simp
  have h: "?h \<noteq> demo_service ''web'' [] ''''" by (simp add: demo_service_def)
  show ?thesis unfolding demo_codec_def
    by (rule held_back_service_is_reaped [OF app _ _ _ _ id(3) _ doc])
      (use name h in \<open>simp_all add: one rend sv id demo_live_labels demo_codec_def\<close>)
qed

end
