(* ===== verification/Render_Policy.thy ===== *)
theory Render_Policy
  imports Render_Gc
begin

text \<open>
  Rendered containers under the agent's policy and in its create requests: every container of a document is one the policy accepts, up to
  images the user names, and only containers of registry images publish ports beyond the mesh.
\<close>

section \<open>Engine containers\<close>

definition engine_container :: "ResourceSpec \<Rightarrow> string \<Rightarrow> containerOpSpec \<Rightarrow> bool" where
  "engine_container rs ip c \<longleftrightarrow> co_ResourceID c = sp_ResourceID rs \<and> co_Network c = NetworkName (sp_ProjectID rs) \<and>
     V_Name ` set (co_Volumes c) \<subseteq> VolumeName (sp_ResourceID rs) ` {''data'', ''wal'', ''models''} \<and>
     (\<forall>p \<in> set (co_Ports c). P_HostIP p = ip \<and> ip \<noteq> '''') \<and> checkImagePinned (co_Image c) = None"

lemma catalogs_pinned:
  "DBEngine k = Some d \<Longrightarrow> checkImagePinned (de_Image d) = None"
  "S3EngineByName e = Some sd \<Longrightarrow> checkImagePinned (se_Image sd) = None"
  "LLMEngine l = Some ld \<Longrightarrow> checkImagePinned (le_Image ld) = None"
proof -
  have "list_all (\<lambda>(k, d). checkImagePinned (de_Image d) = None) dbEngines" by code_simp
  then show "DBEngine k = Some d \<Longrightarrow> checkImagePinned (de_Image d) = None" by (auto simp: DBEngine_def list_all_iff dest!: map_of_SomeD)
  have "list_all (\<lambda>d. checkImagePinned (se_Image d) = None) s3Engines" by code_simp
  then show "S3EngineByName e = Some sd \<Longrightarrow> checkImagePinned (se_Image sd) = None" by (auto simp: S3EngineByName_def list_all_iff find_Some_iff)
  have "list_all (\<lambda>(k, d). checkImagePinned (le_Image d) = None) llmEngines" by code_simp
  then show "LLMEngine l = Some ld \<Longrightarrow> checkImagePinned (le_Image ld) = None" by (auto simp: LLMEngine_def list_all_iff dest!: map_of_SomeD)
qed

lemma engine_idents: "ident ''data''" "ident ''wal''" "ident ''models''"
  by code_simp+

lemma database_container:
  "pred_option (\<lambda>(ops, net). \<forall>x \<in> set ops. \<not> plain (Spec x) \<longrightarrow> Kind x = KindContainerApply \<and> (\<exists>c. Spec x = WContainer c \<and> engine_container rs ip c)) (renderDatabaseOps rs t ip)"
  using catalogs_pinned(1) by (auto simp: renderDatabaseOps_def engine_container_def mesh_port_def Let_def split: option.split)

lemma llm_container:
  "pred_option (\<lambda>(ops, net). \<forall>x \<in> set ops. \<not> plain (Spec x) \<longrightarrow> Kind x = KindContainerApply \<and> (\<exists>c. Spec x = WContainer c \<and> engine_container rs ip c)) (renderLLMOps rs t ip refs)"
  using catalogs_pinned(3) by (auto simp: renderLLMOps_def engine_container_def mesh_port_def Let_def split: option.split)

lemma s3_container:
  "pred_option (\<lambda>(ops, net). \<forall>x \<in> set ops. \<not> plain (Spec x) \<longrightarrow> Kind x = KindContainerApply \<and> (\<exists>c. Spec x = WContainer c \<and> engine_container rs ip c)) (renderS3Ops rs t ip)"
  using catalogs_pinned(2) by (auto simp: renderS3Ops_def engine_container_def mesh_port_def Let_def split: option.split)

section \<open>App containers\<close>

text \<open>A container of a registry image.\<close>

definition image_container :: "ResourceSpec \<Rightarrow> containerOpSpec \<Rightarrow> bool" where
  "image_container rs c \<longleftrightarrow> co_ResourceID c = sp_ResourceID rs \<and> co_Network c = NetworkName (sp_ProjectID rs) \<and>
     (\<exists>spec. sp_app rs = Some spec \<and> co_Image c = as_Image spec \<and>
       co_Volumes c = map (volume_mount (sp_ResourceID rs)) (declared_volumes spec) \<and>
       co_Ports c = map (\<lambda>p. \<lparr>P_Container = ap_Container p, P_Host = ap_Host p, P_Protocol = ap_Protocol p, P_HostIP = ''''\<rparr>) (as_Ports spec))"

lemma app_container:
  "pred_option (\<lambda>(ops, net). \<forall>x \<in> set ops. \<not> plain (Spec x) \<longrightarrow> Kind x = KindContainerApply \<and> (\<exists>c. Spec x = WContainer c \<and> image_container rs c)) (renderAppOps rs refs ds)"
  by (auto simp: renderAppOps_def image_container_def Let_def split: option.split)

text \<open>A container of a git deploy.\<close>

definition git_container :: "ResourceSpec \<Rightarrow> DeployTarget \<Rightarrow> string \<Rightarrow> containerOpSpec \<Rightarrow> bool" where
  "git_container rs t repo c \<longleftrightarrow> co_ResourceID c = sp_ResourceID rs \<and> (\<forall>p \<in> set (co_Ports c). P_Host p = 0) \<and>
     (co_Network c = NetworkName (sp_ProjectID rs) \<or> co_Network c = ResourceNetworkName (sp_ResourceID rs)) \<and>
     (\<exists>spec. sp_app rs = Some spec \<and> set (co_Volumes c) \<subseteq> volume_mount (sp_ResourceID rs) ` set (declared_volumes spec) \<and>
       (let tag = PinnedImageTag (sp_ResourceID rs) (dt_SHA t) (dt_ImagePin t)
        in co_Image c = tag \<or> co_Image c = QualifyImage repo tag \<or>
           (\<exists>s \<in> set (services_of spec). if sv_Build s \<noteq> '''' then co_Image c = PinnedServiceImageTag (sp_ResourceID rs) (sv_Name s) (dt_SHA t) (dt_ImagePin t)
              else co_Image c = sv_Image s)))"

lemma single_git_container: "sp_app rs = Some spec \<Longrightarrow> img = tag \<or> img = QualifyImage repo tag \<Longrightarrow>
    tag = PinnedImageTag (sp_ResourceID rs) (dt_SHA t) (dt_ImagePin t) \<Longrightarrow> git_container rs t repo (deploy_container rs spec refs ds t img)"
  by (auto simp: git_container_def deploy_container_def Let_def)

lemma compose_git_container: "sp_app rs = Some spec \<Longrightarrow> s \<in> set (services_of spec) \<Longrightarrow>
    git_container rs t repo (ro_Container (compose_rollout rs spec refs ds t web s))"
  by (auto simp: git_container_def compose_rollout_def compose_container_def zero_container_def Let_def)

lemma deploy_container_of:
  assumes "renderDeployOps rs refs ds t sid reg = Some (ops, net)" "x \<in> set ops" "\<not> plain (Spec x)"
  shows "\<exists>r. Spec x = WRollout r \<and> git_container rs t (rg_repository reg) (ro_Container r)"
proof -
  from assms(1) obtain spec where app: "sp_app rs = Some spec" by (auto simp: renderDeployOps_def split: option.splits)
  show ?thesis
  proof (cases "compose_services spec = []")
    case True
    then show ?thesis using single_deploy_specs [OF assms(1) app True assms(2,3)] single_git_container [OF app]
      by (metis rollout_op_payload(1) rolloutOpSpec.select_convs(1))
  next
    case False
    with assms(1) app have "renderComposeDeployOps rs spec refs ds t sid = Some (ops, net)" by (simp add: renderDeployOps_def)
    from compose_deploy_specs [OF this assms(2,3)] show ?thesis using compose_git_container [OF app] renderable_service
      by (metis compose_swap_simps(3))
  qed
qed


section \<open>Containers of a document\<close>

definition container_of :: "rop \<Rightarrow> containerOpSpec option" where
  "container_of x = (case Spec x of WContainer c \<Rightarrow> Some c | WRollout r \<Rightarrow> Some (ro_Container r) | _ \<Rightarrow> None)"

lemma container_not_plain: "container_of x = Some c \<Longrightarrow> \<not> plain (Spec x)"
  by (auto simp: container_of_def plain_def split: op_spec.splits)

lemma document_container:
  assumes "x \<in> set (fst (renderOps lower digest hash sid ri))" "container_of x = Some c"
  obtains (engine) rs where "rs \<in> set (ri_specs ri)" "Kind x = KindContainerApply" "engine_container rs (hh_MeshIP (ri_hardening ri)) c"
    | (image) rs where "rs \<in> set (ri_specs ri)" "Kind x = KindContainerApply" "sp_Kind rs = ''app''" "image_container rs c"
    | (git) rs t where "rs \<in> set (ri_specs ri)" "sp_Kind rs = ''app''" "ri_deployTargets ri (sp_ResourceID rs) = Some t"
        "git_container rs t (rg_repository (ri_registry ri)) c"
proof -
  note np = container_not_plain [OF assms(2)]
  from assms(1) np show ?thesis
  proof (cases rule: document_resource)
    case (stub rs)
    then show ?thesis using assms(2) by (simp add: container_of_def sync_stub_def)
  next
    case (ops rs ops net name)
    note rs = ops(1) and x = ops(3)
    from ops(2) show ?thesis
    proof (cases rule: render_resource_cases)
      case (db t)
      then show ?thesis using database_container [of rs "hh_MeshIP (ri_hardening ri)" t] engine [OF rs] x np assms(2)
        by (auto simp: container_of_def)
    next
      case (llm t)
      then show ?thesis using llm_container [of rs "hh_MeshIP (ri_hardening ri)" t "ri_secretRefs ri (sp_ResourceID rs)"] engine [OF rs] x np assms(2)
        by (auto simp: container_of_def)
    next
      case (s3 t)
      then show ?thesis using s3_container [of rs "hh_MeshIP (ri_hardening ri)" t] engine [OF rs] x np assms(2)
        by (auto simp: container_of_def)
    next
      case (deploy t)
      then show ?thesis using deploy_container_of [OF deploy(3) x np] git [OF rs deploy(1,2)] assms(2) by (auto simp: container_of_def)
    next
      case app
      then show ?thesis using app_container [of rs "ri_secretRefs ri (sp_ResourceID rs)" "domains_of ri (sp_ResourceID rs)"] image [OF rs] x np assms(2)
        by (auto simp: container_of_def)
    qed
  qed
qed

lemma port_bindings_from:
  assumes "port_bindings ps m k = Some (hp, ip)"
  shows "m k = Some (hp, ip) \<or> (\<exists>p \<in> set ps. P_Host p > 0 \<and> hp = itoa (P_Host p) \<and> ip = (if P_HostIP p \<noteq> '''' then Some (P_HostIP p) else None))"
  using assms by (induction ps arbitrary: m) (fastforce split: if_splits)+

section \<open>A database server\<close>

definition demo_database :: ResourceSpec where
  "demo_database = (demo_resource [])\<lparr>sp_ResourceID := ''r2'', sp_Kind := ''postgres'', sp_app := None\<rparr>"

definition demo_db_input :: render_input where
  "demo_db_input = (demo_input [] [])\<lparr>ri_specs := [demo_database], ri_dbTargets := (\<lambda>i. if i = ''r2''
     then Some \<lparr>db_Username = ''u'', db_Database = ''d'', db_Port = 15000, db_ServerType = '''', db_PITR = True\<rparr> else None)\<rparr>"

lemma demo_db_render: "\<exists>ops op c. resource_ops demo_db_input ''s1'' demo_database = ops @ [op] \<and> container_of op = Some c \<and> Kind op = KindContainerApply \<and>
    co_Ports c = [mesh_port 5432 15000 ''10.0.0.1'']"
  by (simp add: resource_ops_def render_resource_def or_else_def project_net_def renderDatabaseOps_def DBEngine_def dbEngines_def demo_db_input_def demo_database_def
      demo_input_def demo_resource_def demo_hardening_def container_of_def Let_def)

lemma demo_db_op: "\<exists>op c. op \<in> set (fst (renderOps id (\<lambda>_. '''') (\<lambda>_. '''') ''s1'' demo_db_input)) \<and> container_of op = Some c \<and>
    Kind op = KindContainerApply \<and> co_Ports c = [mesh_port 5432 15000 ''10.0.0.1'']"
proof -
  from demo_db_render obtain ops op c where o: "resource_ops demo_db_input ''s1'' demo_database = ops @ [op]" "container_of op = Some c"
    "Kind op = KindContainerApply" "co_Ports c = [mesh_port 5432 15000 ''10.0.0.1'']" by blast
  have "op \<in> set (fst (renderOps id (\<lambda>_. '''') (\<lambda>_. '''') ''s1'' demo_db_input))"
    by (rule resource_in_document [of demo_database]) (simp_all add: o(1), simp_all add: demo_db_input_def demo_input_def demo_hardening_def)
  with o show ?thesis by blast
qed

text \<open>
  C11. What a server publishes (all renderers of the control plane against the agent's \<open>buildCreateBody\<close>). Whatever port binding the agent asks
  the daemon for on behalf of a container of a rendered document, either it is bound to the server's address in the mesh,
  which is not empty, and belongs to a database, model or object store; or it is a port that the user of an app with a registry image
  asked for explicitly. Containers of git deploys publish no port: they are reached through the proxy only.
\<close>

theorem rendered_ports_private:
  assumes "x \<in> set (fst (renderOps lower digest hash sid ri))" "container_of x = Some c"
    and b: "PortBindings (B_HostConfig (buildCreateBody srv (wire_container c) h)) k = Some (hp, ip)"
  shows "Kind x = KindContainerApply \<and>
    (ip = Some (hh_MeshIP (ri_hardening ri)) \<and> hh_MeshIP (ri_hardening ri) \<noteq> '''' \<or>
     ip = None \<and> (\<exists>rs spec. rs \<in> set (ri_specs ri) \<and> sp_ResourceID rs = co_ResourceID c \<and> sp_Kind rs = ''app'' \<and> sp_app rs = Some spec \<and>
       (\<exists>p \<in> set (as_Ports spec). ap_Host p > 0 \<and> hp = itoa (ap_Host p))))"
proof -
  obtain p where p: "p \<in> set (co_Ports c)" "P_Host p > 0" "hp = itoa (P_Host p)" "ip = (if P_HostIP p \<noteq> '''' then Some (P_HostIP p) else None)"
    using port_bindings_from [of "co_Ports c" Map.empty k hp ip] b by (auto simp: buildCreateBody_def wire_container_def)
  from assms(1,2) show ?thesis
  proof (cases rule: document_container)
    case (engine rs)
    then show ?thesis using p by (auto simp: engine_container_def)
  next
    case (image rs)
    then show ?thesis using p by (fastforce simp: image_container_def)
  next
    case (git rs t)
    then show ?thesis using p by (auto simp: git_container_def)
  qed
qed


theorem rendered_ports_private_witness:
  "\<exists>op c ip. op \<in> set (fst (renderOps id (\<lambda>_. '''') (\<lambda>_. '''') ''s1'' demo_db_input)) \<and> container_of op = Some c \<and>
     PortBindings (B_HostConfig (buildCreateBody ''s1'' (wire_container c) '''')) (itoa 5432 @ ''/tcp'') = Some (itoa 15000, ip) \<and> ip = Some ''10.0.0.1''"
proof -
  from demo_db_op obtain op c where o: "op \<in> set (fst (renderOps id (\<lambda>_. '''') (\<lambda>_. '''') ''s1'' demo_db_input))" "container_of op = Some c"
    "co_Ports c = [mesh_port 5432 15000 ''10.0.0.1'']" by blast
  have "PortBindings (B_HostConfig (buildCreateBody ''s1'' (wire_container c) '''')) (itoa 5432 @ ''/tcp'') = Some (itoa 15000, Some ''10.0.0.1'')"
    by (simp add: buildCreateBody_def wire_container_def o(3) mesh_port_def port_key_def)
  with rendered_ports_private [OF o(1,2) this] o show ?thesis by blast
qed

section \<open>The agent's policy\<close>

text \<open>
  Identifiers, volume and service names, commit hashes and pins over letters, digits, hyphen and underscore. The control plane gives
  identifiers and pins this form itself; the names of volumes and services come from the user's spec, which it stores as it is given.
\<close>

definition ident_resource :: "render_input \<Rightarrow> ResourceSpec \<Rightarrow> bool" where
  "ident_resource ri rs \<longleftrightarrow> ident (sp_ProjectID rs) \<and> ident (sp_ResourceID rs) \<and>
     (case sp_app rs of None \<Rightarrow> True
      | Some spec \<Rightarrow> list_all (\<lambda>v. ident (av_Name v)) (as_Volumes spec) \<and> list_all (\<lambda>s. ident (sv_Name s)) (compose_services spec)) \<and>
     (case ri_deployTargets ri (sp_ResourceID rs) of None \<Rightarrow> True
      | Some t \<Rightarrow> ident (dt_SHA t) \<and> dt_SHA t \<noteq> '''' \<and> dt_SHA t \<noteq> ''latest'' \<and> ident (dt_ImagePin t))"

lemma tag_pinned:
  assumes "ident tag" "tag \<noteq> ''''" "tag \<noteq> ''latest''"
  shows "checkImagePinned (x @ CHR '':'' # tag) = None"
proof -
  have "cut_last (CHR '':'') (x @ CHR '':'' # tag) = Some (x, tag)" using ident_chars [OF assms(1)] by (intro cut_last_append) simp
  moreover have "\<not> contains tag ''/''" using ident_chars [OF assms(1)] by (auto simp: contains_iff)
  ultimately show ?thesis using assms(2,3) by (auto simp: checkImagePinned_None image_tag_def)
qed

lemma deploy_tag_pinned:
  assumes "ident sha" "sha \<noteq> ''''" "sha \<noteq> ''latest''" "ident pin"
  shows "checkImagePinned (PinnedImageTag rid sha pin) = None" "checkImagePinned (PinnedServiceImageTag rid svc sha pin) = None"
    "checkImagePinned (QualifyImage repo (PinnedImageTag rid sha pin)) = None"
proof -
  let ?tag = "if pin = '''' then sha else sha @ ''-'' @ pin"
  have tag: "ident ?tag" "?tag \<noteq> ''''" "?tag \<noteq> ''latest''"
    using assms split_list [of "CHR ''-''" "''latest''"] by (auto simp: append_eq_Cons_conv)
  have one: "PinnedImageTag rid sha pin = (''sigmahub/'' @ rid) @ CHR '':'' # ?tag" by (simp add: PinnedImageTag_def DeployImageTag_def)
  show a: "checkImagePinned (PinnedImageTag rid sha pin) = None" unfolding one by (rule tag_pinned [OF tag])
  have two: "PinnedServiceImageTag rid svc sha pin = (''sigmahub/'' @ rid @ ''-'' @ svc) @ CHR '':'' # ?tag"
    by (simp add: PinnedServiceImageTag_def DeployServiceImageTag_def)
  show "checkImagePinned (PinnedServiceImageTag rid svc sha pin) = None" unfolding two by (rule tag_pinned [OF tag])
  let ?repo = "trim [CHR ''/''] (trim_space repo)"
  show "checkImagePinned (QualifyImage repo (PinnedImageTag rid sha pin)) = None"
  proof (cases "?repo = ''''")
    case True
    then show ?thesis using a by (simp add: QualifyImage_def)
  next
    case False
    then have "QualifyImage repo (PinnedImageTag rid sha pin) = (?repo @ ''/'' @ rid) @ CHR '':'' # ?tag"
      by (simp add: QualifyImage_def one trim_prefix_def)
    then show ?thesis using tag_pinned [OF tag] by metis
  qed
qed

lemma managed_names:
  "ident a \<Longrightarrow> isManagedName (NetworkName a)" "ident a \<Longrightarrow> isManagedName (ResourceNetworkName a)"
  "ident a \<Longrightarrow> ident b \<Longrightarrow> isManagedName (VolumeName a b)"
  using managed_ident [of a] managed_ident [of "''app-'' @ a"] managed_ident [of "a @ ''-'' @ b"]
  by (auto simp: NetworkName_def ResourceNetworkName_def VolumeName_def)

lemma wire_policy:
  assumes "isManagedName (co_Network c)" "\<forall>v \<in> set (co_Volumes c). isManagedName (V_Name v)"
  shows "CheckPolicy (wire_container c) = checkImagePinned (co_Image c)"
proof -
  have "checkVolumes (co_Volumes c) = None" using assms(2) by (simp add: checkVolumes_None)
  moreover have "checkNetwork (co_Network c) = None" using assms(1) by (simp add: checkNetwork_None)
  ultimately show ?thesis by (simp add: CheckPolicy_def wire_container_def)
qed

lemma declared_managed:
  assumes "ident (sp_ResourceID rs)" "list_all (\<lambda>v. ident (av_Name v)) (as_Volumes spec)"
    and "v \<in> volume_mount (sp_ResourceID rs) ` set (declared_volumes spec)"
  shows "isManagedName (V_Name v)"
  using assms by (auto simp: volume_mount_def declared_volumes_def list_all_iff intro!: managed_names(3))

text \<open>
  C12. A container rendered from well-named resources passes the agent's local policy (all renderers against policy.go). When the identifiers,
  volume and service names, commits and pins of all resources are over letters, digits, hyphen and underscore, and a deployed commit is neither empty nor
  \<open>latest\<close> (\<open>ident_resource\<close>), every container of the rendered document, as the agent decodes it, is accepted, except that an image named by the user (of an app, or of a Compose service that is not built) must be pinned: then
  the verdict is exactly that of the image rule. The catalogs' images and every built tag, also one qualified by a registry, are pinned.
\<close>

theorem rendered_containers_pass_policy:
  assumes "x \<in> set (fst (renderOps lower digest hash sid ri))" "container_of x = Some c" and ids: "\<forall>rs \<in> set (ri_specs ri). ident_resource ri rs"
  shows "CheckPolicy (wire_container c) = None \<or>
    CheckPolicy (wire_container c) = checkImagePinned (co_Image c) \<and> (\<exists>rs \<in> set (ri_specs ri). \<exists>spec. sp_app rs = Some spec \<and>
      (co_Image c = as_Image spec \<or> (\<exists>s \<in> set (compose_services spec). sv_Build s = '''' \<and> co_Image c = sv_Image s)))"
  using assms(1,2)
proof (cases rule: document_container)
  case (engine rs)
  have i: "ident (sp_ProjectID rs)" "ident (sp_ResourceID rs)" using ids engine(1) by (auto simp: ident_resource_def)
  have "isManagedName (V_Name v)" if "v \<in> set (co_Volumes c)" for v
  proof -
    have "V_Name v \<in> VolumeName (sp_ResourceID rs) ` {''data'', ''wal'', ''models''}"
      using that engine(3) by (simp only: engine_container_def image_subset_iff)
    then show ?thesis using managed_names(3) [OF i(2) engine_idents(1)] managed_names(3) [OF i(2) engine_idents(2)]
      managed_names(3) [OF i(2) engine_idents(3)] by (elim imageE insertE emptyE) (simp_all only:)
  qed
  moreover have "isManagedName (co_Network c)" using engine(3) managed_names(1) [OF i(1)] by (simp add: engine_container_def)
  ultimately show ?thesis using wire_policy engine(3) by (auto simp: engine_container_def)
next
  case (image rs)
  then obtain spec where spec: "sp_app rs = Some spec" "co_Image c = as_Image spec" "set (co_Volumes c) = volume_mount (sp_ResourceID rs) ` set (declared_volumes spec)"
    "co_Network c = NetworkName (sp_ProjectID rs)" by (auto simp: image_container_def)
  have "ident (sp_ProjectID rs)" "ident (sp_ResourceID rs)" "list_all (\<lambda>v. ident (av_Name v)) (as_Volumes spec)"
    using ids image(1) spec(1) by (auto simp: ident_resource_def)
  then have "CheckPolicy (wire_container c) = checkImagePinned (co_Image c)"
    using declared_managed [of rs spec] managed_names(1) spec(3,4) by (intro wire_policy) auto
  then show ?thesis using image(1) spec(1,2) by auto
next
  case (git rs t)
  then obtain spec where spec: "sp_app rs = Some spec" "set (co_Volumes c) \<subseteq> volume_mount (sp_ResourceID rs) ` set (declared_volumes spec)"
    and img: "co_Image c = PinnedImageTag (sp_ResourceID rs) (dt_SHA t) (dt_ImagePin t) \<or>
      co_Image c = QualifyImage (rg_repository (ri_registry ri)) (PinnedImageTag (sp_ResourceID rs) (dt_SHA t) (dt_ImagePin t)) \<or>
      (\<exists>s \<in> set (services_of spec). if sv_Build s \<noteq> '''' then co_Image c = PinnedServiceImageTag (sp_ResourceID rs) (sv_Name s) (dt_SHA t) (dt_ImagePin t)
         else co_Image c = sv_Image s)"
    by (auto simp: git_container_def Let_def)
  have i: "ident (sp_ProjectID rs)" "ident (sp_ResourceID rs)" "list_all (\<lambda>v. ident (av_Name v)) (as_Volumes spec)"
    and t: "ident (dt_SHA t)" "dt_SHA t \<noteq> ''''" "dt_SHA t \<noteq> ''latest''" "ident (dt_ImagePin t)"
    using ids git(1,3) spec(1) by (auto simp: ident_resource_def)
  have "isManagedName (co_Network c)" using git(4) managed_names i by (auto simp: git_container_def)
  then have "CheckPolicy (wire_container c) = checkImagePinned (co_Image c)"
    using declared_managed [OF i(2,3)] spec(2) by (intro wire_policy) auto
  moreover have "checkImagePinned (co_Image c) = None \<or> (\<exists>s \<in> set (compose_services spec). sv_Build s = '''' \<and> co_Image c = sv_Image s)"
    using img deploy_tag_pinned [OF t] by (auto simp: validComposeServices_def split: if_splits)
  ultimately show ?thesis using git(1) spec(1) by auto
qed

theorem rendered_containers_pass_policy_witness:
  "\<exists>op c. op \<in> set (fst (renderOps id (\<lambda>_. '''') (\<lambda>_. '''') ''s1'' demo_db_input)) \<and> container_of op = Some c \<and> CheckPolicy (wire_container c) = None"
proof -
  from demo_db_op obtain op c where o: "op \<in> set (fst (renderOps id (\<lambda>_. '''') (\<lambda>_. '''') ''s1'' demo_db_input))" "container_of op = Some c" by blast
  have one: "ri_specs demo_db_input = [demo_database]" "sp_app demo_database = None" by (simp_all add: demo_db_input_def demo_database_def)
  have "ident_resource demo_db_input demo_database" by code_simp
  with one rendered_containers_pass_policy [OF o] have "CheckPolicy (wire_container c) = None" by force
  with o show ?thesis by blast
qed

end
