(* ===== verification/Backups.thy ===== *)
theory Backups
  imports Deploy Render
begin

text \<open>
  Backup targets, policies and runs of the control plane (cp/internal/store/backups.go, with the uniqueness
  indexes of its migrations) and the pass of the scheduler (cp/internal/backup/scheduler.go). The tables are the record
  \<open>backup_db\<close> around the tables of the release history, which has the audit log, the alerts, the clock of the database and the
  identifiers. A run is pending, running, then success or failed. What the database chooses among
  equal rows is an argument \<open>tie\<close>; the envelope encryption of secrets is the argument \<open>vault\<close>. The time-out of stale runs is
  one statement whose rows are chosen on its snapshot and written later: \<open>stale_runs\<close> and \<open>timeout_write\<close>.
\<close>

section \<open>Days\<close>

definition day_length :: duration where
  "day_length = seconds 86400"

definition day_of :: "timestamp \<Rightarrow> int" where
  "day_of t = t div day_length"

definition day_start :: "timestamp \<Rightarrow> timestamp" where
  "day_start t = day_of t * day_length"

text \<open>\<open>time.Format\<close> of a time in UTC: the civil date of a day number, and the RFC 3339 text.\<close>

definition civil :: "int \<Rightarrow> int \<times> int \<times> int" where
  "civil days =
     (let z = days + 719468; era = z div 146097; doe = z mod 146097;
          yoe = (doe - doe div 1460 + doe div 36524 - doe div 146096) div 365;
          doy = doe - (365 * yoe + yoe div 4 - yoe div 100); mp = (5 * doy + 2) div 153;
          d = doy - (153 * mp + 2) div 5 + 1; m = (if mp < 10 then mp + 3 else mp - 9)
      in (yoe + era * 400 + (if m \<le> 2 then 1 else 0), m, d))"

definition date_text :: "int \<Rightarrow> string" where
  "date_text days = (case civil days of (y, m, d) \<Rightarrow> pad_zero 4 (itoa y) @ ''-'' @ pad_zero 2 (itoa m) @ ''-'' @ pad_zero 2 (itoa d))"

definition rfc3339 :: "timestamp \<Rightarrow> string" where
  "rfc3339 t =
     (let s = (t div nano_per_second) mod 86400
      in date_text (day_of t) @ ''T'' @ pad_zero 2 (itoa (s div 3600)) @ '':'' @ pad_zero 2 (itoa (s div 60 mod 60)) @ '':'' @ pad_zero 2 (itoa (s mod 60)) @ ''Z'')"

section \<open>Rows\<close>

definition BackupRunPending :: string where "BackupRunPending = ''pending''"

definition BackupRunRunning :: string where "BackupRunRunning = ''running''"

definition BackupRunSuccess :: string where "BackupRunSuccess = ''success''"

definition BackupRunFailed :: string where "BackupRunFailed = ''failed''"

definition AlertBackupFailed :: string where "AlertBackupFailed = ''backup_failed''"

definition AlertVerifyFailed :: string where "AlertVerifyFailed = ''verify_failed''"

record BackupTarget =
  bt_ID :: string
  bt_OrgID :: string
  bt_Name :: string
  bt_Endpoint :: string
  bt_Bucket :: string
  bt_Region :: string
  bt_ForcePathStyle :: bool
  bt_AccessKey :: string
  bt_SecretKey :: "string \<times> string \<times> string" \<comment> \<open>ciphertext, nonce, key id\<close>
  bt_CreatedBy :: string
  bt_CreatedAt :: timestamp

record BackupPolicy =
  bp_ID :: string
  bp_OrgID :: string
  bp_ResourceID :: string
  bp_Schedule :: string
  bp_KeepDaily :: int
  bp_KeepWeekly :: int
  bp_KeepMonthly :: int
  bp_TargetID :: "string option"
  bp_Enabled :: bool
  bp_PitrEnabled :: bool
  bp_RepoKey :: "(string \<times> string \<times> string) option" \<comment> \<open>ciphertext, nonce, key id\<close>

record BackupRun =
  rn_ID :: string
  rn_OrgID :: string
  rn_ResourceID :: string
  rn_PolicyID :: string
  rn_ServerID :: string
  rn_Kind :: string
  rn_Status :: string
  rn_SnapshotID :: string
  rn_DumpSha256 :: string
  rn_Detail :: string
  rn_RestoreResourceID :: string
  rn_RecoveryTargetTime :: "timestamp option"
  rn_CreatedAt :: timestamp
  rn_StartedAt :: "timestamp option"
  rn_FinishedAt :: "timestamp option"

record db_credential =
  dc_OrgID :: string
  dc_ResourceID :: string
  dc_ServerID :: string
  dc_Engine :: string
  dc_DBName :: string
  dc_Username :: string

record archived_key =
  ak_PolicyID :: string
  ak_OrgID :: string
  ak_ResourceID :: string
  ak_ResourceName :: string
  ak_Key :: "string \<times> string \<times> string"

record backup_db =
  tables :: deploy_db
  backup_targets :: "BackupTarget list"
  backup_policies :: "BackupPolicy list"
  backup_runs :: "BackupRun list" \<comment> \<open>the last inserted first\<close>
  db_credentials :: "db_credential list"
  wal_archive :: "(string \<times> timestamp) list" \<comment> \<open>resource, last shipped\<close>
  repo_key_archive :: "archived_key list"

text \<open>The keys of an organisation and the sealing under them (secrets of the store, AES-GCM).\<close>

record vault =
  activeDEK :: "string \<Rightarrow> (string \<times> string) res" \<comment> \<open>organisation: key id, key\<close>
  dekPlaintext :: "string \<Rightarrow> string res"
  gcmSeal :: "string \<Rightarrow> string \<Rightarrow> string \<Rightarrow> (string \<times> string) res" \<comment> \<open>key, bound data, plaintext: nonce, ciphertext\<close>
  gcmOpen :: "string \<Rightarrow> string \<Rightarrow> string \<Rightarrow> string \<Rightarrow> string res" \<comment> \<open>key, bound data, nonce, ciphertext\<close>
  randomKey :: "string res" \<comment> \<open>24 random bytes in hex\<close>
  lower_text :: "string \<Rightarrow> string" \<comment> \<open>\<open>lower\<close> of the database\<close>

type_synonym 'a btx = "backup_db \<Rightarrow> ('a \<times> backup_db) res"

definition on_tables :: "(deploy_db \<Rightarrow> deploy_db) \<Rightarrow> backup_db \<Rightarrow> backup_db" where
  "on_tables f db = db\<lparr>tables := f (tables db)\<rparr>"

definition db_now :: "backup_db \<Rightarrow> timestamp" where
  "db_now db = now (tables db)"

definition fresh_id :: "string \<Rightarrow> backup_db \<Rightarrow> string \<times> backup_db" where
  "fresh_id prefix db = (case newID prefix (tables db) of (i, t) \<Rightarrow> (i, db\<lparr>tables := t\<rparr>))"

definition open_run :: "BackupRun \<Rightarrow> bool" where
  "open_run r \<longleftrightarrow> rn_Status r = BackupRunPending \<or> rn_Status r = BackupRunRunning"

text \<open>A lookup of a resource's policy; \<open>resource_id\<close> is unique in the table.\<close>

definition policy_of :: "string \<Rightarrow> string \<Rightarrow> backup_db \<Rightarrow> BackupPolicy option" where
  "policy_of orgID resourceID db = find (\<lambda>p. bp_OrgID p = orgID \<and> bp_ResourceID p = resourceID) (backup_policies db)"

definition credential_of :: "string \<Rightarrow> backup_db \<Rightarrow> db_credential option" where
  "credential_of resourceID db = find (\<lambda>c. dc_ResourceID c = resourceID) (db_credentials db)"

definition org_credential :: "string \<Rightarrow> string \<Rightarrow> backup_db \<Rightarrow> db_credential option" where
  "org_credential orgID resourceID db =
     find (\<lambda>c. dc_OrgID c = orgID \<and> dc_ResourceID c = resourceID) (db_credentials db)"

definition update_policy :: "string \<Rightarrow> (BackupPolicy \<Rightarrow> BackupPolicy) \<Rightarrow> backup_db \<Rightarrow> backup_db" where
  "update_policy i f db = db\<lparr>backup_policies := map (\<lambda>p. if bp_ID p = i then f p else p) (backup_policies db)\<rparr>"

definition update_run :: "string \<Rightarrow> (BackupRun \<Rightarrow> BackupRun) \<Rightarrow> backup_db \<Rightarrow> backup_db" where
  "update_run i f db = db\<lparr>backup_runs := map (\<lambda>r. if rn_ID r = i then f r else r) (backup_runs db)\<rparr>"

section \<open>Targets\<close>

definition targetAAD :: "string \<Rightarrow> string \<Rightarrow> string" where
  "targetAAD orgID targetID = orgID @ ''|bktarget|'' @ targetID"

definition repoKeyAAD :: "string \<Rightarrow> string \<Rightarrow> string" where
  "repoKeyAAD orgID policyID = orgID @ ''|bkrepo|'' @ policyID"

record CreateBackupTargetInput =
  ti_Name :: string
  ti_Endpoint :: string
  ti_Bucket :: string
  ti_Region :: string
  ti_ForcePathStyle :: bool
  ti_AccessKey :: string
  ti_SecretKey :: string

definition create_target_tx :: "vault \<Rightarrow> string \<Rightarrow> string \<Rightarrow> CreateBackupTargetInput \<Rightarrow> BackupTarget btx" where
  "create_target_tx vt orgID actor inp db =
     (case activeDEK vt orgID of
        Inl e \<Rightarrow> Inl e
      | Inr (dekID, dek) \<Rightarrow>
          (case fresh_id ''bkt'' db of
             (i, db) \<Rightarrow>
               (case gcmSeal vt dek (targetAAD orgID i) (ti_SecretKey inp) of
                  Inl e \<Rightarrow> Inl e
                | Inr (nonce, ct) \<Rightarrow>
                    if list_ex (\<lambda>t. bt_OrgID t = orgID \<and> lower_text vt (bt_Name t) = lower_text vt (ti_Name inp)) (backup_targets db)
                    then Inl ErrConflict
                    else if list_ex (\<lambda>t. bt_ID t = i) (backup_targets db)
                    then Inl (ErrString ''duplicate key value violates unique constraint'')
                    else let t = \<lparr>bt_ID = i, bt_OrgID = orgID, bt_Name = ti_Name inp, bt_Endpoint = ti_Endpoint inp,
                           bt_Bucket = ti_Bucket inp, bt_Region = ti_Region inp, bt_ForcePathStyle = ti_ForcePathStyle inp,
                           bt_AccessKey = ti_AccessKey inp, bt_SecretKey = (ct, nonce, dekID), bt_CreatedBy = actor, bt_CreatedAt = db_now db\<rparr>
                         in Inr (t, on_tables (auditTx orgID actor ''Backup target created'' (ti_Name inp))
                                   (db\<lparr>backup_targets := t # backup_targets db\<rparr>)))))"

definition CreateBackupTarget ::
  "db_verdict \<Rightarrow> vault \<Rightarrow> string \<Rightarrow> string \<Rightarrow> CreateBackupTargetInput \<Rightarrow> backup_db \<Rightarrow> BackupTarget res \<times> backup_db" where
  "CreateBackupTarget v vt orgID actor inp db =
     (if ti_Name inp = '''' \<or> ti_Bucket inp = '''' \<or> ti_AccessKey inp = '''' \<or> ti_SecretKey inp = ''''
      then (Inl (ErrInvalid ''name, bucket, accessKey and secretKey are required''), db)
      else in_tx v (create_target_tx vt orgID actor inp) db)"

definition target_in_use :: goerr where
  "target_in_use = ErrInvalid ''backup target is in use by a backup policy; point the policy elsewhere first''"

text \<open>After the check inside the organisation the foreign key rejects a reference of any organisation.\<close>

definition delete_target_tx :: "string \<Rightarrow> string \<Rightarrow> string \<Rightarrow> unit btx" where
  "delete_target_tx orgID targetID actor db =
     (if list_ex (\<lambda>p. bp_OrgID p = orgID \<and> bp_TargetID p = Some targetID) (backup_policies db) then Inl target_in_use
      else case find (\<lambda>t. bt_OrgID t = orgID \<and> bt_ID t = targetID) (backup_targets db) of
             None \<Rightarrow> Inl ErrNotFound
           | Some t \<Rightarrow>
               if list_ex (\<lambda>p. bp_TargetID p = Some targetID) (backup_policies db) then Inl target_in_use
               else Inr ((), on_tables (auditTx orgID actor ''Backup target deleted'' (bt_Name t))
                      (db\<lparr>backup_targets := filter (\<lambda>t. \<not> (bt_OrgID t = orgID \<and> bt_ID t = targetID)) (backup_targets db)\<rparr>)))"

definition DeleteBackupTarget :: "db_verdict \<Rightarrow> string \<Rightarrow> string \<Rightarrow> string \<Rightarrow> backup_db \<Rightarrow> unit res \<times> backup_db" where
  "DeleteBackupTarget v orgID targetID actor = in_tx v (delete_target_tx orgID targetID actor)"

section \<open>Policies\<close>

definition ErrNotDatabase :: goerr where
  "ErrNotDatabase = ErrString ''resource is not a database''"

record UpdateBackupPolicyInput =
  ui_TargetID :: "string option"
  ui_Schedule :: "string option"
  ui_KeepDaily :: "int option"
  ui_KeepWeekly :: "int option"
  ui_KeepMonthly :: "int option"
  ui_Enabled :: "bool option"
  ui_PitrEnabled :: "bool option"

definition set_target :: "string \<Rightarrow> string option \<Rightarrow> backup_db \<Rightarrow> BackupPolicy \<Rightarrow> BackupPolicy res" where
  "set_target orgID target db bp =
     (case target of
        None \<Rightarrow> Inr bp
      | Some t \<Rightarrow>
          if t = '''' then Inr (bp\<lparr>bp_TargetID := None\<rparr>)
          else if list_ex (\<lambda>x. bt_OrgID x = orgID \<and> bt_ID x = t) (backup_targets db) then Inr (bp\<lparr>bp_TargetID := Some t\<rparr>)
          else Inl (ErrInvalid ''unknown backup target''))"

definition set_schedule :: "UpdateBackupPolicyInput \<Rightarrow> BackupPolicy \<Rightarrow> BackupPolicy res" where
  "set_schedule inp bp =
     (if ui_Schedule inp \<noteq> None \<and> ui_Schedule inp \<noteq> Some ''daily''
      then Inl (ErrInvalid (''schedule must be '' @ [CHR 0x22] @ ''daily'' @ [CHR 0x22] @ '' in v1''))
      else let bp = (case ui_Schedule inp of None \<Rightarrow> bp | Some x \<Rightarrow> bp\<lparr>bp_Schedule := x\<rparr>);
               bp = (case ui_KeepDaily inp of None \<Rightarrow> bp | Some x \<Rightarrow> bp\<lparr>bp_KeepDaily := x\<rparr>);
               bp = (case ui_KeepWeekly inp of None \<Rightarrow> bp | Some x \<Rightarrow> bp\<lparr>bp_KeepWeekly := x\<rparr>);
               bp = (case ui_KeepMonthly inp of None \<Rightarrow> bp | Some x \<Rightarrow> bp\<lparr>bp_KeepMonthly := x\<rparr>)
           in if bp_KeepDaily bp < 1 \<or> bp_KeepDaily bp > 365 \<or> bp_KeepWeekly bp < 0 \<or> bp_KeepWeekly bp > 52 \<or>
                bp_KeepMonthly bp < 0 \<or> bp_KeepMonthly bp > 24
              then Inl (ErrInvalid ''retention out of range'')
              else Inr (case ui_Enabled inp of None \<Rightarrow> bp | Some x \<Rightarrow> bp\<lparr>bp_Enabled := x\<rparr>))"

definition set_pitr :: "string \<Rightarrow> string \<Rightarrow> bool option \<Rightarrow> backup_db \<Rightarrow> BackupPolicy \<Rightarrow> BackupPolicy res" where
  "set_pitr orgID resourceID pitr db bp =
     (case pitr of
        None \<Rightarrow> Inr bp
      | Some False \<Rightarrow> Inr (bp\<lparr>bp_PitrEnabled := False\<rparr>)
      | Some True \<Rightarrow>
          (case org_credential orgID resourceID db of
             None \<Rightarrow> Inl ErrNoRows
           | Some c \<Rightarrow>
               if dc_Engine c \<noteq> ''postgres''
               then Inl (ErrInvalid ''point-in-time recovery is available for postgres resources only'')
               else if bp_TargetID bp = None then Inl (ErrInvalid ''point-in-time recovery requires a backup target'')
               else Inr (bp\<lparr>bp_PitrEnabled := True\<rparr>)))"

definition update_policy_tx :: "string \<Rightarrow> string \<Rightarrow> string \<Rightarrow> UpdateBackupPolicyInput \<Rightarrow> BackupPolicy btx" where
  "update_policy_tx orgID resourceID actor inp db =
     (case policy_of orgID resourceID db of
        None \<Rightarrow> Inl ErrNotDatabase
      | Some bp \<Rightarrow>
          (case set_target orgID (ui_TargetID inp) db bp of
             Inl e \<Rightarrow> Inl e
           | Inr bp1 \<Rightarrow>
               (case set_schedule inp bp1 of
                  Inl e \<Rightarrow> Inl e
                | Inr bp2 \<Rightarrow>
                    (case set_pitr orgID resourceID (ui_PitrEnabled inp) db bp2 of
                       Inl e \<Rightarrow> Inl e
                     | Inr bp3 \<Rightarrow>
                         let bp4 = (if bp_TargetID bp3 = None then bp3\<lparr>bp_PitrEnabled := False\<rparr> else bp3)
                         in Inr (bp4, on_tables (auditTx orgID actor ''Backup policy updated'' resourceID)
                              (update_policy (bp_ID bp) (\<lambda>_. bp4) db))))))"

definition UpdateBackupPolicy ::
  "db_verdict \<Rightarrow> string \<Rightarrow> string \<Rightarrow> string \<Rightarrow> UpdateBackupPolicyInput \<Rightarrow> backup_db \<Rightarrow> BackupPolicy res \<times> backup_db" where
  "UpdateBackupPolicy v orgID resourceID actor inp = in_tx v (update_policy_tx orgID resourceID actor inp)"

text \<open>The first archive of a policy's key wins; \<open>scope\<close> selects the policies of a resource, project or environment.\<close>

definition in_scope :: "string \<Rightarrow> string \<Rightarrow> string \<Rightarrow> resource \<Rightarrow> bool" where
  "in_scope scope scopeID i r \<longleftrightarrow>
     scope = ''resource'' \<and> i = scopeID \<or> scope = ''project'' \<and> rs_ProjectID r = scopeID \<or>
     scope = ''environment'' \<and> rs_EnvironmentID r = scopeID"

definition archived_row :: "BackupPolicy \<Rightarrow> resource \<Rightarrow> string \<times> string \<times> string \<Rightarrow> archived_key" where
  "archived_row p r k = \<lparr>ak_PolicyID = bp_ID p, ak_OrgID = bp_OrgID p, ak_ResourceID = bp_ResourceID p, ak_ResourceName = rs_Name r, ak_Key = k\<rparr>"

definition archiveRepoKeysTx :: "string \<Rightarrow> string \<Rightarrow> string \<Rightarrow> unit btx" where
  "archiveRepoKeysTx orgID scope scopeID db =
     (if scope \<notin> {''resource'', ''project'', ''environment''} then Inl (ErrString (''archiveRepoKeys: unknown scope '' @ scope))
      else let rows = List.map_filter (\<lambda>p.
                 case (map_of (resources (tables db)) (bp_ResourceID p), bp_RepoKey p) of
                   (Some r, Some k) \<Rightarrow>
                     if bp_OrgID p = orgID \<and> in_scope scope scopeID (bp_ResourceID p) r then Some (archived_row p r k) else None
                 | _ \<Rightarrow> None) (backup_policies db)
           in Inr ((), db\<lparr>repo_key_archive := repo_key_archive db @
                filter (\<lambda>a. \<not> list_ex (\<lambda>b. ak_PolicyID b = ak_PolicyID a) (repo_key_archive db)) rows\<rparr>))"

definition ensureRepoKeyTx :: "vault \<Rightarrow> string \<Rightarrow> string \<Rightarrow> unit btx" where
  "ensureRepoKeyTx vt orgID policyID db =
     (case find (\<lambda>p. bp_OrgID p = orgID \<and> bp_ID p = policyID) (backup_policies db) of
        None \<Rightarrow> Inl ErrNoRows
      | Some p \<Rightarrow>
          if (case bp_RepoKey p of None \<Rightarrow> False | Some (ct, _) \<Rightarrow> ct \<noteq> '''') then Inr ((), db)
          else (case randomKey vt of
                  Inl e \<Rightarrow> Inl e
                | Inr key \<Rightarrow>
                    (case activeDEK vt orgID of
                       Inl e \<Rightarrow> Inl e
                     | Inr (dekID, dek) \<Rightarrow>
                         (case gcmSeal vt dek (repoKeyAAD orgID policyID) key of
                            Inl e \<Rightarrow> Inl e
                          | Inr (nonce, ct) \<Rightarrow> Inr ((), update_policy policyID (\<lambda>p. p\<lparr>bp_RepoKey := Some (ct, nonce, dekID)\<rparr>) db)))))"

section \<open>Scheduling\<close>

definition new_run :: "string \<Rightarrow> string \<Rightarrow> string \<Rightarrow> string \<Rightarrow> string \<Rightarrow> string \<Rightarrow> timestamp \<Rightarrow> BackupRun" where
  "new_run i orgID resourceID policyID sid kind t =
     \<lparr>rn_ID = i, rn_OrgID = orgID, rn_ResourceID = resourceID, rn_PolicyID = policyID, rn_ServerID = sid, rn_Kind = kind,
      rn_Status = BackupRunPending, rn_SnapshotID = '''', rn_DumpSha256 = '''', rn_Detail = '''', rn_RestoreResourceID = '''',
      rn_RecoveryTargetTime = None, rn_CreatedAt = t, rn_StartedAt = None, rn_FinishedAt = None\<rparr>"

definition insert_run :: "BackupRun \<Rightarrow> unit btx" where
  "insert_run r db =
     (if list_ex (\<lambda>x. rn_ID x = rn_ID r) (backup_runs db) then Inl (ErrString ''duplicate key value violates unique constraint'')
      else Inr ((), db\<lparr>backup_runs := r # backup_runs db\<rparr>))"

text \<open>The unique index of daily runs, and the insertion that does nothing on its conflict.\<close>

definition same_day_run :: "string \<Rightarrow> string \<Rightarrow> int \<Rightarrow> BackupRun \<Rightarrow> bool" where
  "same_day_run policyID kind day r \<longleftrightarrow> rn_PolicyID r = policyID \<and> rn_Kind r = kind \<and> day_of (rn_CreatedAt r) = day"

record due =
  du_policyID :: string
  du_orgID :: string
  du_resourceID :: string
  du_serverID :: string
  du_backup :: bool
  du_verify :: bool
  du_base :: bool

definition schedule_run :: "string \<Rightarrow> due \<Rightarrow> unit btx" where
  "schedule_run kind d db =
     (case fresh_id ''run'' db of
        (i, db) \<Rightarrow>
          if list_ex (same_day_run (du_policyID d) kind (day_of (db_now db))) (backup_runs db) then Inr ((), db)
          else insert_run (new_run i (du_orgID d) (du_resourceID d) (du_policyID d) (du_serverID d) kind (db_now db)) db)"

definition ran_since :: "backup_db \<Rightarrow> timestamp \<Rightarrow> string \<Rightarrow> string \<Rightarrow> bool" where
  "ran_since db day policyID kind \<longleftrightarrow>
     list_ex (\<lambda>r. rn_PolicyID r = policyID \<and> rn_Kind r = kind \<and> rn_CreatedAt r \<ge> day) (backup_runs db)"

definition sha_since :: "backup_db \<Rightarrow> timestamp \<Rightarrow> string \<Rightarrow> bool" where
  "sha_since db day policyID \<longleftrightarrow>
     list_ex (\<lambda>r. rn_PolicyID r = policyID \<and> rn_Kind r = ''backup'' \<and> rn_Status r = BackupRunSuccess \<and>
       rn_CreatedAt r \<ge> day \<and> rn_DumpSha256 r \<noteq> '''') (backup_runs db)"

definition due_of :: "backup_db \<Rightarrow> timestamp \<Rightarrow> BackupPolicy \<Rightarrow> db_credential \<Rightarrow> due" where
  "due_of db day p c =
     \<lparr>du_policyID = bp_ID p, du_orgID = bp_OrgID p, du_resourceID = bp_ResourceID p, du_serverID = dc_ServerID c,
      du_backup = (\<not> ran_since db day (bp_ID p) ''backup''),
      du_verify = (\<not> ran_since db day (bp_ID p) ''verify'' \<and> sha_since db day (bp_ID p)),
      du_base = (bp_PitrEnabled p \<and> dc_Engine c = ''postgres'' \<and> \<not> ran_since db day (bp_ID p) ''basebackup'')\<rparr>"

definition due_work :: "timestamp \<Rightarrow> backup_db \<Rightarrow> due list" where
  "due_work t db =
     filter (\<lambda>d. du_backup d \<or> du_verify d \<or> du_base d)
       (concat (map (\<lambda>p. map (due_of db (day_start t) p) (filter (\<lambda>c. dc_ResourceID c = bp_ResourceID p) (db_credentials db)))
         (filter (\<lambda>p. bp_Enabled p \<and> bp_TargetID p \<noteq> None) (backup_policies db))))"

definition schedule_if :: "bool \<Rightarrow> string \<Rightarrow> due \<Rightarrow> unit btx" where
  "schedule_if b kind d db = (if b then schedule_run kind d db else Inr ((), db))"

definition schedule_due :: "vault \<Rightarrow> due \<Rightarrow> unit btx" where
  "schedule_due vt d db =
     (case ensureRepoKeyTx vt (du_orgID d) (du_policyID d) db of
        Inl e \<Rightarrow> Inl (Wrapf ''ensure repo key'' e)
      | Inr (_, db) \<Rightarrow>
          (case schedule_if (du_backup d) ''backup'' d db of
             Inl e \<Rightarrow> Inl e
           | Inr (_, db) \<Rightarrow>
               (case schedule_if (du_verify d) ''verify'' d db of
                  Inl e \<Rightarrow> Inl e
                | Inr (_, db) \<Rightarrow> schedule_if (du_base d) ''basebackup'' d db)))"

fun schedule_work :: "vault \<Rightarrow> due list \<Rightarrow> unit btx" where
  "schedule_work vt [] db = Inr ((), db)"
| "schedule_work vt (d # ds) db =
     (case schedule_due vt d db of Inl e \<Rightarrow> Inl e | Inr (_, db) \<Rightarrow> schedule_work vt ds db)"

fun due_servers :: "due list \<Rightarrow> string list \<Rightarrow> (string \<times> string) list" where
  "due_servers [] seen = []"
| "due_servers (d # ds) seen =
     (if du_serverID d \<in> set seen then due_servers ds seen
      else (du_serverID d, du_orgID d) # due_servers ds (du_serverID d # seen))"

definition create_due_tx :: "vault \<Rightarrow> timestamp \<Rightarrow> (string \<times> string) list btx" where
  "create_due_tx vt t db =
     (case schedule_work vt (due_work t db) db of
        Inl e \<Rightarrow> Inl e | Inr (_, db') \<Rightarrow> Inr (due_servers (due_work t db) [], db'))"

definition CreateDueBackupRuns ::
  "db_verdict \<Rightarrow> vault \<Rightarrow> timestamp \<Rightarrow> backup_db \<Rightarrow> (string \<times> string) list res \<times> backup_db" where
  "CreateDueBackupRuns v vt t = in_tx v (create_due_tx vt t)"

section \<open>Time-outs and results\<close>

definition backupRunKinds :: "(string \<times> string) list" where
  "backupRunKinds = [(''backup'', ''Backup''), (''basebackup'', ''Base backup''), (''verify'', ''Restore-verify''),
     (''restore'', ''Restore''), (''restore-pitr'', ''Restore to timestamp'')]"

definition backupRunAction :: "string \<Rightarrow> string" where
  "backupRunAction kind = (case map_of backupRunKinds kind of None \<Rightarrow> kind | Some l \<Rightarrow> l)"

definition run_event :: "string \<Rightarrow> string" where
  "run_event kind = (if kind = ''verify'' then AlertVerifyFailed else AlertBackupFailed)"

definition resource_name :: "string \<Rightarrow> backup_db \<Rightarrow> string" where
  "resource_name resourceID db =
     (case map_of (resources (tables db)) resourceID of None \<Rightarrow> resourceID | Some r \<Rightarrow> rs_Name r)"

definition stale_runs :: "duration \<Rightarrow> duration \<Rightarrow> timestamp \<Rightarrow> backup_db \<Rightarrow> (string \<times> string) list" where
  "stale_runs execMaxAge queueMaxAge t db =
     map (\<lambda>r. (rn_ID r, rn_Status r)) (filter (\<lambda>r.
       rn_Status r = BackupRunRunning \<and> (case rn_StartedAt r of None \<Rightarrow> rn_CreatedAt r | Some s \<Rightarrow> s) < t - execMaxAge \<or>
       rn_Status r = BackupRunPending \<and> rn_CreatedAt r < t - queueMaxAge) (backup_runs db))"

definition timeout_row :: "timestamp \<Rightarrow> string \<Rightarrow> BackupRun \<Rightarrow> BackupRun" where
  "timeout_row t old r =
     r\<lparr>rn_Status := BackupRunFailed, rn_Detail := (if old = BackupRunPending then ''timed out in queue'' else ''timed out''),
       rn_FinishedAt := Some t\<rparr>"

text \<open>
  The alert of a time-out, deduplicated on the state of the write; the statement looks for earlier alerts on its snapshot, and
  what that costs is shown for the outbox (\<open>direct_alerts\<close> in the theory \<open>Alerts\<close>).
\<close>

definition timeout_alert :: "string \<Rightarrow> BackupRun \<Rightarrow> backup_db \<Rightarrow> backup_db" where
  "timeout_alert old r db =
     on_tables (enqueueAlertTx (rn_OrgID r) (run_event (rn_Kind r)) (''bkr:'' @ rn_ID r)
       (backupRunAction (rn_Kind r) @ '' timed out for '' @ resource_name (rn_ResourceID r) db)
       (if old = BackupRunPending
        then ''The run was never dispatched within its queue window and was failed by the scheduler.''
        else ''The dispatched run stopped reporting and was failed by the scheduler (agent crashed or unreachable mid-run).'')) db"

fun timeout_write :: "(string \<times> string) list \<Rightarrow> backup_db \<Rightarrow> int \<times> backup_db" where
  "timeout_write [] db = (0, db)"
| "timeout_write ((i, old) # stale) db =
     (case find (\<lambda>r. rn_ID r = i) (backup_runs db) of
        None \<Rightarrow> timeout_write stale db
      | Some r \<Rightarrow>
          (case timeout_write stale (timeout_alert old r (update_run i (timeout_row (db_now db) old) db)) of
             (n, db) \<Rightarrow> (n + 1, db)))"

definition TimeoutStaleBackupRuns ::
  "db_verdict \<Rightarrow> duration \<Rightarrow> duration \<Rightarrow> timestamp \<Rightarrow> backup_db \<Rightarrow> int res \<times> backup_db" where
  "TimeoutStaleBackupRuns v execMaxAge queueMaxAge t =
     in_tx v (\<lambda>db. Inr (timeout_write (stale_runs execMaxAge queueMaxAge t db) db))"

definition set_result_tx :: "string \<Rightarrow> string \<Rightarrow> bool \<Rightarrow> string \<Rightarrow> string \<Rightarrow> string \<Rightarrow> unit btx" where
  "set_result_tx sid runID ok snapshotID dumpSha detail db =
     (case find (\<lambda>r. rn_ID r = runID \<and> rn_ServerID r = sid \<and> open_run r) (backup_runs db) of
        None \<Rightarrow> Inl ErrNotFound
      | Some r \<Rightarrow>
          let db1 = update_run runID (\<lambda>r. r\<lparr>rn_Status := (if ok then BackupRunSuccess else BackupRunFailed), rn_SnapshotID := snapshotID,
                      rn_DumpSha256 := dumpSha, rn_Detail := take 4000 detail, rn_FinishedAt := Some (db_now db)\<rparr>) db;
              action = backupRunAction (rn_Kind r) @ (if ok then '' succeeded'' else '' failed'');
              db2 = on_tables (auditTx (rn_OrgID r) (''agent:'' @ sid) action (rn_ResourceID r @ '' run '' @ runID)) db1
          in Inr ((), if ok then db2
                      else on_tables (enqueueAlertTx (rn_OrgID r) (run_event (rn_Kind r)) (''bkr:'' @ runID)
                             (action @ '' for '' @ resource_name (rn_ResourceID r) db)
                             (if detail = '''' then ''no failure detail reported'' else detail)) db2))"

definition SetBackupRunResult ::
  "db_verdict \<Rightarrow> string \<Rightarrow> string \<Rightarrow> bool \<Rightarrow> string \<Rightarrow> string \<Rightarrow> string \<Rightarrow> backup_db \<Rightarrow> unit res \<times> backup_db" where
  "SetBackupRunResult v sid runID ok snapshotID dumpSha detail =
     in_tx v (set_result_tx sid runID ok snapshotID dumpSha detail)"

definition FailBackupRunFromOpStatus :: "db_verdict \<Rightarrow> string \<Rightarrow> string \<Rightarrow> string \<Rightarrow> backup_db \<Rightarrow> goerr option \<times> backup_db" where
  "FailBackupRunFromOpStatus v sid runID errText db =
     (case SetBackupRunResult v sid runID False '''' '''' errText db of
        (Inl e, db) \<Rightarrow> (if e = ErrNotFound then None else Some e, db)
      | (Inr _, db) \<Rightarrow> (None, db))"

text \<open>One pass of the scheduler: the servers it re-renders and the first error.\<close>

definition sweep ::
  "db_verdict \<Rightarrow> db_verdict \<Rightarrow> vault \<Rightarrow> timestamp \<Rightarrow> timestamp \<Rightarrow> duration \<Rightarrow> duration \<Rightarrow> backup_db \<Rightarrow>
   ((string \<times> string) list \<times> goerr option) \<times> backup_db" where
  "sweep v v' vt t t' runTimeout queueTimeout db =
     (case CreateDueBackupRuns v vt t db of
        (due, db) \<Rightarrow>
          (case TimeoutStaleBackupRuns v' runTimeout queueTimeout t' db of
             (n, db) \<Rightarrow>
               ((case due of Inl e \<Rightarrow> ([], Some e) | Inr servers \<Rightarrow> (servers, case n of Inl e \<Rightarrow> Some e | Inr _ \<Rightarrow> None)), db)))"

section \<open>What the reconciler and the agent read\<close>

definition top_rows :: "('a \<Rightarrow> int) \<Rightarrow> 'a list \<Rightarrow> 'a list" where
  "top_rows f xs = filter (\<lambda>x. list_all (\<lambda>y. f y \<le> f x) xs) xs"

definition pick :: "nat \<Rightarrow> 'a list \<Rightarrow> 'a option" where
  "pick tie xs = (if xs = [] then None else Some (xs ! (tie mod length xs)))"

definition finished_stamp :: "BackupRun \<Rightarrow> int" where
  "finished_stamp r = (case rn_FinishedAt r of None \<Rightarrow> 0 | Some t \<Rightarrow> t)"

text \<open>\<open>ORDER BY finished_at DESC LIMIT 1\<close>: a missing stamp comes first. The digest a verify checks is that of its own day's backup.\<close>

definition day_backups :: "BackupRun \<Rightarrow> backup_db \<Rightarrow> BackupRun list" where
  "day_backups r db =
     filter (\<lambda>b. rn_PolicyID b = rn_PolicyID r \<and> rn_Kind b = ''backup'' \<and> rn_Status b = BackupRunSuccess \<and>
       day_of (rn_CreatedAt b) = day_of (rn_CreatedAt r)) (backup_runs db)"

definition expected_sha :: "nat \<Rightarrow> BackupRun \<Rightarrow> backup_db \<Rightarrow> string" where
  "expected_sha tie r db =
     (if rn_Kind r \<noteq> ''verify'' then rn_DumpSha256 r
      else let bs = day_backups r db; nulls = filter (\<lambda>b. rn_FinishedAt b = None) bs
           in case pick tie (if nulls \<noteq> [] then nulls else top_rows finished_stamp bs) of None \<Rightarrow> '''' | Some b \<Rightarrow> rn_DumpSha256 b)"

definition kind_rank :: "string \<Rightarrow> int" where
  "kind_rank kind = (if kind = ''backup'' then 0 else if kind = ''basebackup'' then 1 else if kind = ''verify'' then 2 else 3)"

definition run_spec :: "nat \<Rightarrow> backup_db \<Rightarrow> BackupRun \<Rightarrow> BackupRunSpec option" where
  "run_spec tie db r =
     (case (find (\<lambda>p. bp_ID p = rn_PolicyID r) (backup_policies db), credential_of (rn_ResourceID r) db) of
        (Some p, Some c) \<Rightarrow>
          let rc = (if rn_RestoreResourceID r = '''' then None else credential_of (rn_RestoreResourceID r) db)
          in Some \<lparr>br_RunID = rn_ID r, br_Kind = rn_Kind r, br_ResourceID = rn_ResourceID r, br_Engine = dc_Engine c,
               br_Database = dc_DBName c, br_Username = dc_Username c, br_KeepDaily = bp_KeepDaily p, br_KeepWeekly = bp_KeepWeekly p,
               br_KeepMonthly = bp_KeepMonthly p, br_ExpectedSha = expected_sha tie r db, br_SnapshotID = rn_SnapshotID r,
               br_RestoreResourceID = rn_RestoreResourceID r,
               br_RestoreDatabase = (case rc of None \<Rightarrow> '''' | Some c \<Rightarrow> dc_DBName c),
               br_RestoreUsername = (case rc of None \<Rightarrow> '''' | Some c \<Rightarrow> dc_Username c),
               br_RecoveryTargetTime = map_option rfc3339 (rn_RecoveryTargetTime r)\<rparr>
      | _ \<Rightarrow> None)"

definition open_runs_of :: "string \<Rightarrow> backup_db \<Rightarrow> BackupRun list" where
  "open_runs_of sid db =
     sort_key rn_CreatedAt (sort_key (\<lambda>r. kind_rank (rn_Kind r)) (sort_key rn_ID
       (filter (\<lambda>r. rn_ServerID r = sid \<and> open_run r) (backup_runs db))))"

definition BackupRunsForServer :: "nat \<Rightarrow> string \<Rightarrow> backup_db \<Rightarrow> BackupRunSpec list" where
  "BackupRunsForServer tie sid db = List.map_filter (run_spec tie db) (open_runs_of sid db)"

record BackupCredential =
  cr_Repository :: string
  cr_RepoKey :: string
  cr_AccessKey :: string
  cr_SecretKey :: string
  cr_Region :: string
  cr_ForcePathStyle :: bool

definition resticRepository :: "string \<Rightarrow> string \<Rightarrow> string \<Rightarrow> string" where
  "resticRepository endpoint bucket resourceID =
     (let host = (if endpoint = '''' then ''s3.amazonaws.com'' else endpoint);
          host = (if host \<noteq> '''' \<and> last host = CHR ''/'' then butlast host else host)
      in ''s3:'' @ host @ ''/'' @ bucket @ ''/sigmahub/'' @ resourceID)"

text \<open>A key id is NULL only together with the ciphertext, which \<open>ensureRepoKeyTx\<close> writes at once.\<close>

definition open_keys :: "vault \<Rightarrow> BackupRun \<Rightarrow> BackupPolicy \<Rightarrow> BackupTarget \<Rightarrow> (string \<times> string) res" where
  "open_keys vt r p t =
     (case bp_RepoKey p of
        None \<Rightarrow> Inl (ErrString (''backup run '' @ rn_ID r @ '' has no repo key''))
      | Some (repoCT, repoNonce, rDekID) \<Rightarrow>
          if repoCT = '''' then Inl (ErrString (''backup run '' @ rn_ID r @ '' has no repo key''))
          else case bt_SecretKey t of
            (secretCT, secretNonce, tDekID) \<Rightarrow>
              (case dekPlaintext vt tDekID of
                 Inl e \<Rightarrow> Inl e
               | Inr tDek \<Rightarrow>
                   (case gcmOpen vt tDek (targetAAD (rn_OrgID r) (bt_ID t)) secretNonce secretCT of
                      Inl e \<Rightarrow> Inl (Wrapf ''decrypt target secret'' e)
                    | Inr secretKey \<Rightarrow>
                        (case dekPlaintext vt rDekID of
                           Inl e \<Rightarrow> Inl e
                         | Inr rDek \<Rightarrow>
                             (case gcmOpen vt rDek (repoKeyAAD (rn_OrgID r) (rn_PolicyID r)) repoNonce repoCT of
                                Inl e \<Rightarrow> Inl (Wrapf ''decrypt repo key'' e)
                              | Inr repoKey \<Rightarrow> Inr (secretKey, repoKey))))))"

definition credential_row :: "string \<Rightarrow> string \<Rightarrow> backup_db \<Rightarrow> (BackupRun \<times> BackupPolicy \<times> BackupTarget) option" where
  "credential_row sid runID db =
     (case find (\<lambda>r. rn_ID r = runID \<and> rn_ServerID r = sid \<and> open_run r) (backup_runs db) of
        None \<Rightarrow> None
      | Some r \<Rightarrow>
          (case find (\<lambda>p. bp_ID p = rn_PolicyID r) (backup_policies db) of
             None \<Rightarrow> None
           | Some p \<Rightarrow> map_option (\<lambda>t. (r, p, t)) (find (\<lambda>t. bp_TargetID p = Some (bt_ID t)) (backup_targets db))))"

definition credential_tx :: "vault \<Rightarrow> string \<Rightarrow> string \<Rightarrow> BackupCredential btx" where
  "credential_tx vt sid runID db =
     (case credential_row sid runID db of
        None \<Rightarrow> Inl ErrNotFound
      | Some (r, p, t) \<Rightarrow>
          (case open_keys vt r p t of
             Inl e \<Rightarrow> Inl e
           | Inr (secretKey, repoKey) \<Rightarrow>
               Inr (\<lparr>cr_Repository = resticRepository (bt_Endpoint t) (bt_Bucket t) (rn_ResourceID r), cr_RepoKey = repoKey,
                      cr_AccessKey = bt_AccessKey t, cr_SecretKey = secretKey, cr_Region = bt_Region t,
                      cr_ForcePathStyle = bt_ForcePathStyle t\<rparr>,
                    on_tables (auditTx (rn_OrgID r) (''agent:'' @ sid) ''Backup repo key unwrapped (agent)'' (rn_ResourceID r @ '' run '' @ runID))
                      (update_run runID (\<lambda>r. if rn_Status r = BackupRunPending
                          then r\<lparr>rn_Status := BackupRunRunning, rn_StartedAt := Some (db_now db)\<rparr> else r) db))))"

definition BackupCredentialForRun :: "db_verdict \<Rightarrow> vault \<Rightarrow> string \<Rightarrow> string \<Rightarrow> backup_db \<Rightarrow> BackupCredential res \<times> backup_db" where
  "BackupCredentialForRun v vt sid runID = in_tx v (credential_tx vt sid runID)"

definition ListBackupRuns :: "string \<Rightarrow> string \<Rightarrow> int \<Rightarrow> backup_db \<Rightarrow> BackupRun list" where
  "ListBackupRuns orgID resourceID limit db =
     (let limit = (if limit \<le> 0 \<or> limit > 200 then 50 else limit)
      in take (nat limit) (sort_key (\<lambda>r. - rn_CreatedAt r) (filter (\<lambda>r. rn_OrgID r = orgID \<and> rn_ResourceID r = resourceID) (backup_runs db))))"

record VerifyDay =
  vd_Day :: string
  vd_Runs :: int
  vd_Failed :: int
  vd_Green :: bool

definition verify_day :: "string \<Rightarrow> backup_db \<Rightarrow> int \<Rightarrow> VerifyDay" where
  "verify_day orgID db day =
     (let rs = filter (\<lambda>r. rn_OrgID r = orgID \<and> rn_Kind r = ''verify'' \<and> day_of (rn_CreatedAt r) = day) (backup_runs db);
          runs = int (length (filter (\<lambda>r. rn_Status r = BackupRunSuccess \<or> rn_Status r = BackupRunFailed) rs));
          failed = int (length (filter (\<lambda>r. rn_Status r = BackupRunFailed) rs))
      in \<lparr>vd_Day = date_text day, vd_Runs = runs, vd_Failed = failed, vd_Green = (runs > 0 \<and> failed = 0)\<rparr>)"

definition VerifyDays :: "string \<Rightarrow> int \<Rightarrow> backup_db \<Rightarrow> VerifyDay list" where
  "VerifyDays orgID days db =
     (let days = (if days \<le> 0 \<or> days > 366 then 30 else days); today = day_of (db_now db)
      in map (verify_day orgID db) [today - (days - 1) .. today])"

section \<open>Restores\<close>

text \<open>\<open>ORDER BY finished_at DESC NULLS LAST, created_at DESC LIMIT 1\<close>.\<close>

definition successes :: "string \<Rightarrow> backup_db \<Rightarrow> BackupRun list" where
  "successes policyID db =
     filter (\<lambda>r. rn_PolicyID r = policyID \<and> rn_Kind r = ''backup'' \<and> rn_Status r = BackupRunSuccess) (backup_runs db)"

definition newest_success :: "nat \<Rightarrow> string \<Rightarrow> backup_db \<Rightarrow> BackupRun option" where
  "newest_success tie policyID db =
     (let rs = successes policyID db; fin = filter (\<lambda>r. rn_FinishedAt r \<noteq> None) rs
      in pick tie (top_rows rn_CreatedAt (if fin \<noteq> [] then top_rows finished_stamp fin else rs)))"

definition targeted_policy :: "string \<Rightarrow> string \<Rightarrow> backup_db \<Rightarrow> BackupPolicy option" where
  "targeted_policy orgID resourceID db =
     find (\<lambda>p. bp_OrgID p = orgID \<and> bp_ResourceID p = resourceID \<and> bp_TargetID p \<noteq> None) (backup_policies db)"

definition restore_tx :: "nat \<Rightarrow> string \<Rightarrow> string \<Rightarrow> string \<Rightarrow> string \<Rightarrow> BackupRun btx" where
  "restore_tx tie orgID sourceResourceID newResourceID actor db =
     (case targeted_policy orgID sourceResourceID db of
        None \<Rightarrow> Inl (ErrInvalid ''source database has no backup target configured'')
      | Some p \<Rightarrow>
          if bp_RepoKey p = None then Inl (ErrInvalid ''source database has no backups yet'')
          else (case newest_success tie (bp_ID p) db of
                  None \<Rightarrow> Inl (ErrInvalid ''source database has no successful backup to restore'')
                | Some b \<Rightarrow>
                    if rn_DumpSha256 b = ''''
                    then Inl (ErrInvalid ''the newest successful backup recorded no checksum; it cannot be restored safely'')
                    else (case org_credential orgID newResourceID db of
                            None \<Rightarrow> Inl (ErrInvalid ''restore target is not a database resource'')
                          | Some c \<Rightarrow>
                              (case fresh_id ''run'' db of
                                 (i, db) \<Rightarrow>
                                   let r = (new_run i orgID sourceResourceID (bp_ID p) (dc_ServerID c) ''restore'' (db_now db))
                                         \<lparr>rn_RestoreResourceID := newResourceID, rn_SnapshotID := rn_SnapshotID b, rn_DumpSha256 := rn_DumpSha256 b\<rparr>
                                   in case insert_run r db of
                                        Inl e \<Rightarrow> Inl e
                                      | Inr (_, db) \<Rightarrow>
                                          Inr (r, on_tables (auditTx orgID actor ''Restore queued'' (sourceResourceID @ '' -> '' @ newResourceID)) db)))))"

definition CreateRestoreRun ::
  "db_verdict \<Rightarrow> nat \<Rightarrow> string \<Rightarrow> string \<Rightarrow> string \<Rightarrow> string \<Rightarrow> backup_db \<Rightarrow> BackupRun res \<times> backup_db" where
  "CreateRestoreRun v tie orgID sourceResourceID newResourceID actor = in_tx v (restore_tx tie orgID sourceResourceID newResourceID actor)"

definition has_base :: "string \<Rightarrow> timestamp \<Rightarrow> backup_db \<Rightarrow> bool" where
  "has_base policyID target db \<longleftrightarrow>
     list_ex (\<lambda>r. rn_PolicyID r = policyID \<and> rn_Kind r = ''basebackup'' \<and> rn_Status r = BackupRunSuccess \<and>
       (case rn_FinishedAt r of None \<Rightarrow> False | Some t \<Rightarrow> t \<le> target)) (backup_runs db)"

definition restore_pitr_tx :: "string \<Rightarrow> string \<Rightarrow> string \<Rightarrow> timestamp \<Rightarrow> string \<Rightarrow> BackupRun btx" where
  "restore_pitr_tx orgID sourceResourceID newResourceID target actor db =
     (case targeted_policy orgID sourceResourceID db of
        None \<Rightarrow> Inl (ErrInvalid ''source database has no backup target configured'')
      | Some p \<Rightarrow>
          if \<not> bp_PitrEnabled p then Inl (ErrInvalid ''point-in-time recovery is not enabled on the source database'')
          else if bp_RepoKey p = None then Inl (ErrInvalid ''source database has no backups yet'')
          else if \<not> has_base (bp_ID p) target db then Inl (ErrInvalid ''no base backup was taken before the requested time'')
          else if \<not> list_ex (\<lambda>(res, t). res = sourceResourceID \<and> target \<le> t) (wal_archive db)
          then Inl (ErrInvalid ''the archived WAL does not yet cover the requested time; pick an earlier time'')
          else (case org_credential orgID newResourceID db of
                  None \<Rightarrow> Inl (ErrInvalid ''restore target is not a database resource'')
                | Some c \<Rightarrow>
                    if dc_Engine c \<noteq> ''postgres'' then Inl (ErrInvalid ''point-in-time recovery is postgres-only'')
                    else (case fresh_id ''run'' db of
                            (i, db) \<Rightarrow>
                              let r = (new_run i orgID sourceResourceID (bp_ID p) (dc_ServerID c) ''restore-pitr'' (db_now db))
                                    \<lparr>rn_RestoreResourceID := newResourceID, rn_RecoveryTargetTime := Some target\<rparr>
                              in case insert_run r db of
                                   Inl e \<Rightarrow> Inl e
                                 | Inr (_, db) \<Rightarrow>
                                     Inr (r, on_tables (auditTx orgID actor ''PITR restore queued''
                                       (sourceResourceID @ '' -> '' @ newResourceID @ '' @ '' @ rfc3339 target)) db))))"

definition CreateRestoreToTimestampRun ::
  "db_verdict \<Rightarrow> timestamp \<Rightarrow> string \<Rightarrow> string \<Rightarrow> string \<Rightarrow> timestamp \<Rightarrow> string \<Rightarrow> backup_db \<Rightarrow> BackupRun res \<times> backup_db" where
  "CreateRestoreToTimestampRun v t orgID sourceResourceID newResourceID target actor db =
     (if target > t then (Inl (ErrInvalid ''recovery target time is in the future''), db)
      else in_tx v (restore_pitr_tx orgID sourceResourceID newResourceID target actor) db)"

end
