(* ===== verification/Backups_Steps.thy ===== *)
theory Backups_Steps
  imports Backups
begin

text \<open>
  Properties of backup runs. Whatever an operation does to the table of runs is a sequence of three kinds of primitive steps
  (\<open>run_step\<close>): a rewriting of rows that keeps what identifies them and, while they are open, what they are pinned to; the entry
  of a fresh pending row that the index of daily runs admits; and the removal of rows. The operations are shown to be such sequences once;
  the uniqueness of daily runs and the fate of a single run then follow by induction over primitive steps.
\<close>

section \<open>Primitive steps\<close>

definition run_key :: "BackupRun \<Rightarrow> string \<times> string \<times> string \<times> string \<times> string \<times> string \<times> string \<times> timestamp option \<times> timestamp" where
  "run_key r = (rn_ID r, rn_OrgID r, rn_ResourceID r, rn_PolicyID r, rn_ServerID r, rn_Kind r, rn_RestoreResourceID r,
     rn_RecoveryTargetTime r, rn_CreatedAt r)"

definition pinned :: "BackupRun \<Rightarrow> string \<times> string" where
  "pinned r = (rn_SnapshotID r, rn_DumpSha256 r)"

definition carries_on :: "BackupRun \<Rightarrow> BackupRun \<Rightarrow> bool" where
  "carries_on r r' \<longleftrightarrow> run_key r' = run_key r \<and> (open_run r' \<longrightarrow> open_run r \<and> pinned r' = pinned r)"

definition daily :: "BackupRun \<Rightarrow> bool" where
  "daily r \<longleftrightarrow> rn_Kind r \<in> {''backup'', ''basebackup'', ''verify''}"

definition same_slot :: "BackupRun \<Rightarrow> BackupRun \<Rightarrow> bool" where
  "same_slot r r' \<longleftrightarrow> rn_PolicyID r = rn_PolicyID r' \<and> rn_Kind r = rn_Kind r' \<and> day_of (rn_CreatedAt r) = day_of (rn_CreatedAt r')"

definition seq_of :: "backup_db \<Rightarrow> nat" where
  "seq_of db = id_seq (tables db)"

definition run_id :: "backup_db \<Rightarrow> nat \<Rightarrow> string" where
  "run_id db n = ''run_'' @ id_hex (tables db) n"

definition ids_go_on :: "backup_db \<Rightarrow> backup_db \<Rightarrow> bool" where
  "ids_go_on db db' \<longleftrightarrow> id_hex (tables db') = id_hex (tables db) \<and> seq_of db \<le> seq_of db'"

inductive run_step :: "backup_db \<Rightarrow> backup_db \<Rightarrow> bool" where
  rewrite: "backup_runs db' = map f (backup_runs db) \<Longrightarrow> (\<And>r. r \<in> set (backup_runs db) \<Longrightarrow> carries_on r (f r)) \<Longrightarrow>
    ids_go_on db db' \<Longrightarrow> run_step db db'"
| enter: "backup_runs db' = r # backup_runs db \<Longrightarrow> rn_ID r = run_id db n \<Longrightarrow> seq_of db \<le> n \<Longrightarrow> n < seq_of db' \<Longrightarrow>
    rn_ID r \<notin> rn_ID ` set (backup_runs db) \<Longrightarrow> rn_Status r = BackupRunPending \<Longrightarrow>
    (daily r \<Longrightarrow> \<forall>x \<in> set (backup_runs db). \<not> same_slot x r) \<Longrightarrow> ids_go_on db db' \<Longrightarrow> run_step db db'"
| leave: "backup_runs db' = filter P (backup_runs db) \<Longrightarrow> ids_go_on db db' \<Longrightarrow> run_step db db'"

lemma carries_on_refl [simp]: "carries_on r r"
  by (simp add: carries_on_def)

lemma carries_on_trans: "carries_on r r' \<Longrightarrow> carries_on r' r'' \<Longrightarrow> carries_on r r''"
  by (auto simp: carries_on_def)

lemma ids_go_on_refl [simp]: "ids_go_on db db"
  by (simp add: ids_go_on_def)

lemma ids_go_on_trans: "ids_go_on db db' \<Longrightarrow> ids_go_on db' db'' \<Longrightarrow> ids_go_on db db''"
  by (simp add: ids_go_on_def)

text \<open>A step that leaves the runs alone, and a rewriting of one row.\<close>

lemma run_step_same: "backup_runs db' = backup_runs db \<Longrightarrow> ids_go_on db db' \<Longrightarrow> run_step db db'"
  by (rule run_step.rewrite [where f = "\<lambda>r. r"]) auto

lemma run_step_update:
  assumes "backup_runs db' = map (\<lambda>r. if rn_ID r = i then f r else r) (backup_runs db)" "ids_go_on db db'"
    and "\<And>r. r \<in> set (backup_runs db) \<Longrightarrow> rn_ID r = i \<Longrightarrow> carries_on r (f r)"
  shows "run_step db db'"
  using assms by (intro run_step.rewrite [where f = "\<lambda>r. if rn_ID r = i then f r else r"]) auto

lemma tables_frame [simp]:
  "backup_runs (on_tables f db) = backup_runs db" "backup_policies (on_tables f db) = backup_policies db"
  "backup_targets (on_tables f db) = backup_targets db" "db_credentials (on_tables f db) = db_credentials db"
  "tables (on_tables f db) = f (tables db)"
  by (simp_all add: on_tables_def)

lemma tx_frame [simp]:
  "id_hex (auditTx a b c d t) = id_hex t" "id_seq (auditTx a b c d t) = id_seq t" "now (auditTx a b c d t) = now t"
  "id_hex (enqueueAlertTx a b c d e t) = id_hex t" "id_seq (enqueueAlertTx a b c d e t) = id_seq t" "now (enqueueAlertTx a b c d e t) = now t"
  by (simp_all add: auditTx_def enqueueAlertTx_def)

lemma fresh_id_simps:
  "fresh_id p db = (p @ ''_'' @ id_hex (tables db) (seq_of db), db\<lparr>tables := (tables db)\<lparr>id_seq := Suc (seq_of db)\<rparr>\<rparr>)"
  by (simp add: fresh_id_def newID_def seq_of_def)

section \<open>The operations as primitive steps\<close>

lemma update_policy_frame [simp]:
  "backup_runs (update_policy i f db) = backup_runs db" "tables (update_policy i f db) = tables db"
  "backup_targets (update_policy i f db) = backup_targets db" "db_credentials (update_policy i f db) = db_credentials db"
  by (simp_all add: update_policy_def)

lemma update_run_frame [simp]:
  "tables (update_run i f db) = tables db" "backup_policies (update_run i f db) = backup_policies db"
  "backup_targets (update_run i f db) = backup_targets db" "db_credentials (update_run i f db) = db_credentials db"
  "backup_runs (update_run i f db) = map (\<lambda>r. if rn_ID r = i then f r else r) (backup_runs db)"
  by (simp_all add: update_run_def)

lemma create_target_steps: "create_target_tx vt org actor inp db = Inr (x, db') \<Longrightarrow> run_step db db'"
  by (rule run_step_same)
    (auto simp: create_target_tx_def fresh_id_simps Let_def ids_go_on_def seq_of_def split: sum.splits prod.splits if_splits)

lemma delete_target_steps: "delete_target_tx org i actor db = Inr (x, db') \<Longrightarrow> run_step db db'"
  by (rule run_step_same) (auto simp: delete_target_tx_def ids_go_on_def seq_of_def split: option.splits if_splits)

lemma update_policy_steps: "update_policy_tx org res actor inp db = Inr (x, db') \<Longrightarrow> run_step db db'"
  by (rule run_step_same)
    (auto simp: update_policy_tx_def ids_go_on_def seq_of_def Let_def split: option.splits sum.splits if_splits)

lemma archive_steps: "archiveRepoKeysTx org scope i db = Inr (x, db') \<Longrightarrow> run_step db db'"
  by (rule run_step_same) (auto simp: archiveRepoKeysTx_def ids_go_on_def seq_of_def Let_def split: if_splits)

lemma ensure_key_frame:
  assumes "ensureRepoKeyTx vt org pid db = Inr (x, db')"
  shows "backup_runs db' = backup_runs db" "tables db' = tables db" "backup_targets db' = backup_targets db" "db_credentials db' = db_credentials db"
  using assms by (auto simp: ensureRepoKeyTx_def split: option.splits sum.splits prod.splits if_splits)

text \<open>An insertion after a fresh identifier was drawn.\<close>

lemma insert_steps:
  assumes "insert_run r (db\<lparr>tables := (tables db)\<lparr>id_seq := Suc (seq_of db)\<rparr>\<rparr>) = Inr (x, db1)" "rn_ID r = run_id db (seq_of db)"
    "rn_Status r = BackupRunPending" "daily r \<Longrightarrow> \<forall>x \<in> set (backup_runs db). \<not> same_slot x r"
    "backup_runs db' = backup_runs db1" "id_hex (tables db') = id_hex (tables db1)" "id_seq (tables db') = id_seq (tables db1)"
  shows "run_step db db'"
proof (rule run_step.enter)
  show "backup_runs db' = r # backup_runs db" "rn_ID r \<notin> rn_ID ` set (backup_runs db)"
    using assms(1,5) by (auto simp: insert_run_def list_ex_iff image_iff split: if_splits)
  show "seq_of db < seq_of db'" "ids_go_on db db'"
    using assms(1,6,7) by (auto simp: insert_run_def seq_of_def ids_go_on_def split: if_splits)
qed (use assms in auto)

lemma schedule_run_steps: "schedule_run kind d db = Inr (x, db') \<Longrightarrow> run_step db db'"
proof -
  assume "schedule_run kind d db = Inr (x, db')"
  then consider "backup_runs db' = backup_runs db" "ids_go_on db db'"
    | "\<not> list_ex (same_day_run (du_policyID d) kind (day_of (db_now db))) (backup_runs db)"
      "insert_run (new_run (run_id db (seq_of db)) (du_orgID d) (du_resourceID d) (du_policyID d) (du_serverID d) kind (db_now db))
         (db\<lparr>tables := (tables db)\<lparr>id_seq := Suc (seq_of db)\<rparr>\<rparr>) = Inr (x, db')"
    by (auto simp: schedule_run_def fresh_id_simps db_now_def run_id_def ids_go_on_def seq_of_def split: if_splits)
  then show ?thesis
  proof cases
    case 2
    from 2(2) show ?thesis
      by (rule insert_steps) (use 2(1) in \<open>auto simp: new_run_def list_ex_iff same_day_run_def same_slot_def\<close>)
  qed (rule run_step_same)
qed

lemma schedule_if_steps: "schedule_if b kind d db = Inr (x, db') \<Longrightarrow> run_step\<^sup>*\<^sup>* db db'"
  by (auto simp: schedule_if_def split: if_splits dest: schedule_run_steps)

lemma schedule_due_steps: "schedule_due vt d db = Inr (x, db') \<Longrightarrow> run_step\<^sup>*\<^sup>* db db'"
proof -
  assume "schedule_due vt d db = Inr (x, db')"
  then obtain db1 db2 db3 where "ensureRepoKeyTx vt (du_orgID d) (du_policyID d) db = Inr ((), db1)"
    "schedule_if (du_backup d) ''backup'' d db1 = Inr ((), db2)" "schedule_if (du_verify d) ''verify'' d db2 = Inr ((), db3)"
    "schedule_if (du_base d) ''basebackup'' d db3 = Inr (x, db')"
    by (auto simp: schedule_due_def split: sum.splits)
  moreover from this(1) have "run_step db db1"
    by (intro run_step_same) (auto simp: ids_go_on_def seq_of_def dest: ensure_key_frame)
  ultimately show ?thesis by (meson converse_rtranclp_into_rtranclp rtranclp_trans schedule_if_steps)
qed

lemma schedule_work_steps: "schedule_work vt ds db = Inr (x, db') \<Longrightarrow> run_step\<^sup>*\<^sup>* db db'"
  by (induction ds arbitrary: db) (auto split: sum.splits dest!: schedule_due_steps intro: rtranclp_trans)

lemma create_due_steps: "create_due_tx vt t db = Inr (x, db') \<Longrightarrow> run_step\<^sup>*\<^sup>* db db'"
  by (auto simp: create_due_tx_def split: sum.splits dest: schedule_work_steps)

lemma timeout_alert_frame [simp]:
  "backup_runs (timeout_alert old r db) = backup_runs db" "backup_policies (timeout_alert old r db) = backup_policies db"
  "backup_targets (timeout_alert old r db) = backup_targets db" "db_credentials (timeout_alert old r db) = db_credentials db"
  "id_hex (tables (timeout_alert old r db)) = id_hex (tables db)" "id_seq (tables (timeout_alert old r db)) = id_seq (tables db)"
  "now (tables (timeout_alert old r db)) = now (tables db)"
  by (simp_all add: timeout_alert_def)

lemma closed_carries_on: "run_key r' = run_key r \<Longrightarrow> \<not> open_run r' \<Longrightarrow> carries_on r r'"
  by (simp add: carries_on_def)

lemma timeout_write_steps: "run_step\<^sup>*\<^sup>* db (snd (timeout_write stale db))"
proof (induction stale arbitrary: db)
  case (Cons p stale)
  obtain i old where p: "p = (i, old)" by (cases p)
  show ?case
  proof (cases "find (\<lambda>r. rn_ID r = i) (backup_runs db)")
    case (Some r)
    let ?db = "timeout_alert old r (update_run i (timeout_row (db_now db) old) db)"
    have "run_step db ?db"
      by (rule run_step_update [of _ i "timeout_row (db_now db) old"])
        (auto simp: ids_go_on_def seq_of_def timeout_row_def run_key_def open_run_def BackupRunFailed_def BackupRunPending_def BackupRunRunning_def
          intro: closed_carries_on)
    from this Cons.IH [of ?db] have "run_step\<^sup>*\<^sup>* db (snd (timeout_write stale ?db))" by (rule converse_rtranclp_into_rtranclp)
    then show ?thesis using Some p by (auto split: prod.splits)
  qed (use Cons.IH p in simp)
qed simp

lemma set_result_steps: "set_result_tx sid i ok snap sha detail db = Inr (x, db') \<Longrightarrow> run_step db db'"
  by (rule run_step_update [of _ i "\<lambda>r. r\<lparr>rn_Status := (if ok then BackupRunSuccess else BackupRunFailed), rn_SnapshotID := snap,
        rn_DumpSha256 := sha, rn_Detail := take 4000 detail, rn_FinishedAt := Some (db_now db)\<rparr>"])
    (auto simp: set_result_tx_def Let_def ids_go_on_def seq_of_def run_key_def open_run_def BackupRunFailed_def BackupRunSuccess_def
      BackupRunPending_def BackupRunRunning_def intro: closed_carries_on split: option.splits)

lemma credential_steps: "credential_tx vt sid i db = Inr (x, db') \<Longrightarrow> run_step db db'"
  by (rule run_step_update [of _ i "\<lambda>r. if rn_Status r = BackupRunPending
        then r\<lparr>rn_Status := BackupRunRunning, rn_StartedAt := Some (db_now db)\<rparr> else r"])
    (auto simp: credential_tx_def ids_go_on_def seq_of_def carries_on_def run_key_def pinned_def open_run_def split: option.splits sum.splits)

lemma restore_cases:
  assumes "restore_tx tie org src new actor db = Inr (r, db')"
  obtains p b and c :: db_credential and db1 where "targeted_policy org src db = Some p" "newest_success tie (bp_ID p) db = Some b" "rn_DumpSha256 b \<noteq> ''''"
    "r = (new_run (run_id db (seq_of db)) org src (bp_ID p) (dc_ServerID c) ''restore'' (db_now db))
       \<lparr>rn_RestoreResourceID := new, rn_SnapshotID := rn_SnapshotID b, rn_DumpSha256 := rn_DumpSha256 b\<rparr>"
    "insert_run r (db\<lparr>tables := (tables db)\<lparr>id_seq := Suc (seq_of db)\<rparr>\<rparr>) = Inr ((), db1)"
    "db' = on_tables (auditTx org actor ''Restore queued'' (src @ '' -> '' @ new)) db1"
proof -
  obtain p where p: "targeted_policy org src db = Some p" "bp_RepoKey p \<noteq> None"
    using assms by (cases "targeted_policy org src db") (auto simp: restore_tx_def split: if_splits)
  obtain b where b: "newest_success tie (bp_ID p) db = Some b" "rn_DumpSha256 b \<noteq> ''''"
    using assms p by (cases "newest_success tie (bp_ID p) db") (auto simp: restore_tx_def split: if_splits)
  obtain c where c: "org_credential org new db = Some c"
    using assms p b by (cases "org_credential org new db") (auto simp: restore_tx_def)
  let ?r = "(new_run (run_id db (seq_of db)) org src (bp_ID p) (dc_ServerID c) ''restore'' (db_now db))
       \<lparr>rn_RestoreResourceID := new, rn_SnapshotID := rn_SnapshotID b, rn_DumpSha256 := rn_DumpSha256 b\<rparr>"
  obtain db1 where "r = ?r" "insert_run ?r (db\<lparr>tables := (tables db)\<lparr>id_seq := Suc (seq_of db)\<rparr>\<rparr>) = Inr ((), db1)"
    "db' = on_tables (auditTx org actor ''Restore queued'' (src @ '' -> '' @ new)) db1"
    using assms p b c by (auto simp: restore_tx_def fresh_id_simps run_id_def db_now_def Let_def split: sum.splits)
  with p b show thesis using that [of p b c db1] by simp
qed

lemma restore_steps: "restore_tx tie org src new actor db = Inr (r, db') \<Longrightarrow> run_step db db'"
  by (erule restore_cases, erule insert_steps) (auto simp: new_run_def daily_def)

lemma restore_pitr_steps:
  assumes "restore_pitr_tx org src new target actor db = Inr (r, db')"
  shows "run_step db db'"
proof -
  obtain p :: BackupPolicy and c :: db_credential and db1 where r: "r = (new_run (run_id db (seq_of db)) org src (bp_ID p) (dc_ServerID c) ''restore-pitr'' (db_now db))
       \<lparr>rn_RestoreResourceID := new, rn_RecoveryTargetTime := Some target\<rparr>"
    and ins: "insert_run r (db\<lparr>tables := (tables db)\<lparr>id_seq := Suc (seq_of db)\<rparr>\<rparr>) = Inr ((), db1)"
    and db': "db' = on_tables (auditTx org actor ''PITR restore queued'' (src @ '' -> '' @ new @ '' @ '' @ rfc3339 target)) db1"
    using assms by (auto simp: restore_pitr_tx_def fresh_id_simps run_id_def db_now_def Let_def split: option.splits if_splits sum.splits)
  from ins show ?thesis by (rule insert_steps) (simp_all add: r db' new_run_def daily_def)
qed

section \<open>Runs of the system\<close>

text \<open>
  The states the store goes through, with \<open>others\<close> for everything else: time passes, databases are created with a fresh
  policy that has no target yet, and deletions take the policies and their runs with them. The stale runs of a
  time-out may have been read at any earlier moment.
\<close>

inductive backup_step :: "backup_db \<Rightarrow> backup_db \<Rightarrow> bool" where
  create_target: "CreateBackupTarget v vt org actor inp db = (x, db') \<Longrightarrow> backup_step db db'"
| delete_target: "DeleteBackupTarget v org i actor db = (x, db') \<Longrightarrow> backup_step db db'"
| update_policy: "UpdateBackupPolicy v org res actor inp db = (x, db') \<Longrightarrow> backup_step db db'"
| create_due: "CreateDueBackupRuns v vt t db = (x, db') \<Longrightarrow> backup_step db db'"
| timeout: "in_tx v (\<lambda>db. Inr (timeout_write stale db)) db = (x, db') \<Longrightarrow> backup_step db db'"
| result: "SetBackupRunResult v sid i ok snap sha detail db = (x, db') \<Longrightarrow> backup_step db db'"
| credential: "BackupCredentialForRun v vt sid i db = (x, db') \<Longrightarrow> backup_step db db'"
| restore: "CreateRestoreRun v tie org src new actor db = (y, db') \<Longrightarrow> backup_step db db'"
| restore_pitr: "CreateRestoreToTimestampRun v t org src new target actor db = (y, db') \<Longrightarrow> backup_step db db'"
| archive: "archiveRepoKeysTx org scope i db = Inr (x, db') \<Longrightarrow> backup_step db db'"
| others: "ids_go_on db db' \<Longrightarrow> backup_targets db' = backup_targets db \<Longrightarrow>
    set (backup_policies db') \<subseteq> set (backup_policies db) \<union>
      {p. bp_TargetID p = None \<and> \<not> bp_PitrEnabled p \<and> bp_ID p \<notin> bp_ID ` set (backup_policies db)} \<Longrightarrow>
    distinct (map bp_ID (backup_policies db')) \<Longrightarrow>
    backup_runs db' = filter (\<lambda>r. rn_PolicyID r \<in> bp_ID ` (set (backup_policies db) \<inter> set (backup_policies db'))) (backup_runs db) \<Longrightarrow>
    backup_step db db'"

lemma tx_run_steps:
  assumes "in_tx v body db = (y, db')" "\<And>x db'. body db = Inr (x, db') \<Longrightarrow> run_step\<^sup>*\<^sup>* db db'"
  shows "run_step\<^sup>*\<^sup>* db db'"
  using assms by (auto elim!: in_tx_cases)

lemma backup_step_runs: "backup_step db db' \<Longrightarrow> run_step\<^sup>*\<^sup>* db db'"
proof (induction rule: backup_step.induct)
  case (create_target v vt org actor inp db x db')
  then show ?case unfolding CreateBackupTarget_def
    by (auto split: if_splits intro: create_target_steps elim!: tx_run_steps)
next
  case (delete_target v org i actor db x db')
  then show ?case unfolding DeleteBackupTarget_def by (rule tx_run_steps) (auto intro: delete_target_steps)
next
  case (update_policy v org res actor inp db x db')
  then show ?case unfolding UpdateBackupPolicy_def by (rule tx_run_steps) (auto intro: update_policy_steps)
next
  case (create_due v vt t db x db')
  then show ?case unfolding CreateDueBackupRuns_def by (rule tx_run_steps) (rule create_due_steps)
next
  case (timeout v stale db x db')
  then show ?case by (rule tx_run_steps) (metis Inr_inject snd_conv timeout_write_steps)
next
  case (result v sid i ok snap sha detail db x db')
  then show ?case unfolding SetBackupRunResult_def by (rule tx_run_steps) (auto intro: set_result_steps)
next
  case (credential v vt sid i db x db')
  then show ?case unfolding BackupCredentialForRun_def by (rule tx_run_steps) (auto intro: credential_steps)
next
  case (restore v tie org src new actor db y db')
  then show ?case unfolding CreateRestoreRun_def by (rule tx_run_steps) (auto intro: restore_steps)
next
  case (restore_pitr v t org src new target actor db y db')
  then show ?case unfolding CreateRestoreToTimestampRun_def
    by (auto split: if_splits intro: restore_pitr_steps elim!: tx_run_steps)
next
  case (archive org scope i db x db')
  then show ?case by (auto intro: archive_steps)
next
  case (others db db')
  then show ?case by (auto intro: run_step.leave)
qed

lemma backup_steps_runs: "backup_step\<^sup>*\<^sup>* db db' \<Longrightarrow> run_step\<^sup>*\<^sup>* db db'"
  by (induction rule: rtranclp_induct) (auto dest: backup_step_runs)

section \<open>Invariants of the runs\<close>

definition runs_ok :: "backup_db \<Rightarrow> bool" where
  "runs_ok db \<longleftrightarrow> distinct (map rn_ID (backup_runs db)) \<and>
     (\<forall>r \<in> set (backup_runs db). \<forall>r' \<in> set (backup_runs db). daily r \<and> same_slot r r' \<longrightarrow> rn_ID r = rn_ID r')"

lemma runs_ok_step: "run_step db db' \<Longrightarrow> runs_ok db \<Longrightarrow> runs_ok db'"
proof (induction rule: run_step.induct)
  case (rewrite db' f db)
  have ids: "map rn_ID (map f (backup_runs db)) = map rn_ID (backup_runs db)"
    using rewrite(2) by (simp add: carries_on_def run_key_def)
  have "distinct (map rn_ID (map f (backup_runs db)))" unfolding ids using rewrite(4) by (simp add: runs_ok_def)
  moreover have "daily (f r) \<longleftrightarrow> daily r" "same_slot (f r) (f r') \<longleftrightarrow> same_slot r r'" "rn_ID (f r) = rn_ID r"
    if "r \<in> set (backup_runs db)" "r' \<in> set (backup_runs db)" for r r'
    using that rewrite(2) [of r] rewrite(2) [of r'] by (auto simp: carries_on_def run_key_def daily_def same_slot_def)
  ultimately show ?case using rewrite(1,4) unfolding runs_ok_def by simp
next
  case (enter db' r db n)
  have slot: "daily x \<longleftrightarrow> daily r" "same_slot x r" if "daily r \<or> daily x" "same_slot r x \<or> same_slot x r" for x
    using that by (auto simp: same_slot_def daily_def)
  have "\<not> (daily x \<and> same_slot x r)" "\<not> (daily r \<and> same_slot r x)" if "x \<in> set (backup_runs db)" for x
    using enter(7) slot [of x] that by blast+
  then show ?case using enter(1,5,9) by (auto simp: runs_ok_def)
next
  case (leave db' P db)
  then show ?case by (auto simp: runs_ok_def distinct_map_filter)
qed

lemma runs_ok_steps: "run_step\<^sup>*\<^sup>* db db' \<Longrightarrow> runs_ok db \<Longrightarrow> runs_ok db'"
  by (induction rule: rtranclp_induct) (auto intro: runs_ok_step)

text \<open>Every run of a later state carries on a run of the earlier one, or its identifier was drawn since.\<close>

definition descends :: "backup_db \<Rightarrow> backup_db \<Rightarrow> bool" where
  "descends db db' \<longleftrightarrow> ids_go_on db db' \<and>
     (\<forall>r' \<in> set (backup_runs db'). (\<exists>r \<in> set (backup_runs db). carries_on r r') \<or> (\<exists>n \<ge> seq_of db. rn_ID r' = run_id db n))"

lemma descends_step: "run_step db db' \<Longrightarrow> descends db db'"
  by (induction rule: run_step.induct) (auto simp: descends_def intro: carries_on_refl)

lemma descends_trans:
  assumes "descends db db'" "descends db' db''"
  shows "descends db db''"
proof -
  have ids: "run_id db' = run_id db" "seq_of db \<le> seq_of db'"
    using assms(1) by (auto simp: descends_def ids_go_on_def run_id_def)
  show ?thesis unfolding descends_def
  proof (intro conjI ballI)
    fix r'' assume r'': "r'' \<in> set (backup_runs db'')"
    then consider r' where "r' \<in> set (backup_runs db')" "carries_on r' r''" | n where "n \<ge> seq_of db'" "rn_ID r'' = run_id db' n"
      using assms(2) by (auto simp: descends_def)
    then show "(\<exists>r \<in> set (backup_runs db). carries_on r r'') \<or> (\<exists>n \<ge> seq_of db. rn_ID r'' = run_id db n)"
    proof cases
      case 1
      then have "rn_ID r'' = rn_ID r'" by (simp add: carries_on_def run_key_def)
      then show ?thesis using 1 assms(1) carries_on_trans [of _ r' r''] by (fastforce simp: descends_def)
    next
      case 2
      then show ?thesis using ids by (metis order_trans)
    qed
  qed (use assms in \<open>auto simp: descends_def intro: ids_go_on_trans\<close>)
qed

lemma descends_steps: "run_step\<^sup>*\<^sup>* db db' \<Longrightarrow> descends db db'"
proof (induction rule: rtranclp_induct)
  case base
  then show ?case by (auto simp: descends_def intro: carries_on_refl)
next
  case (step db1 db2)
  then show ?case using descends_trans descends_step by blast
qed

lemma reachable_runs_ok:
  assumes "backup_runs db0 = []" "backup_step\<^sup>*\<^sup>* db0 db"
  shows "runs_ok db"
proof (rule runs_ok_steps [OF backup_steps_runs [OF assms(2)]])
  show "runs_ok db0" using assms(1) by (simp add: runs_ok_def)
qed

lemma same_id: "runs_ok db \<Longrightarrow> r \<in> set (backup_runs db) \<Longrightarrow> r' \<in> set (backup_runs db) \<Longrightarrow> rn_ID r = rn_ID r' \<Longrightarrow> r = r'"
  by (auto simp: runs_ok_def distinct_map dest: inj_onD)

text \<open>The row of a run in a later state, as long as identifiers do not repeat.\<close>

lemma run_carries_on:
  assumes "run_step\<^sup>*\<^sup>* db db'" "runs_ok db" "inj (id_hex (tables db))" "r \<in> set (backup_runs db)" "rn_ID r = run_id db n" "n < seq_of db"
    and "r' \<in> set (backup_runs db')" "rn_ID r' = rn_ID r"
  shows "carries_on r r'"
proof -
  consider r0 where "r0 \<in> set (backup_runs db)" "carries_on r0 r'" | m where "m \<ge> seq_of db" "rn_ID r' = run_id db m"
    using descends_steps [OF assms(1)] assms(7) by (auto simp: descends_def)
  then show ?thesis
  proof cases
    case 1
    then have "rn_ID r0 = rn_ID r" using assms(8) by (simp add: carries_on_def run_key_def)
    then have "r0 = r" by (rule same_id [OF assms(2) 1(1) assms(4)])
    with 1(2) show ?thesis by simp
  next
    case 2
    then have "m = n" using assms(3,5,8) by (auto simp: run_id_def dest: injD)
    with 2(1) assms(6) show ?thesis by simp
  qed
qed

section \<open>Organisations\<close>

text \<open>
  What the policies, targets and runs of different organisations have to do with each other: nothing. Point-in-time
  recovery needs somewhere to ship to.
\<close>

definition policies_ok :: "backup_db \<Rightarrow> bool" where
  "policies_ok db \<longleftrightarrow> distinct (map bp_ID (backup_policies db)) \<and> distinct (map bt_ID (backup_targets db)) \<and>
     (\<forall>p \<in> set (backup_policies db). (bp_PitrEnabled p \<longrightarrow> bp_TargetID p \<noteq> None) \<and>
        (\<forall>i. bp_TargetID p = Some i \<longrightarrow> (\<exists>t \<in> set (backup_targets db). bt_ID t = i \<and> bt_OrgID t = bp_OrgID p))) \<and>
     (\<forall>r \<in> set (backup_runs db). \<exists>p \<in> set (backup_policies db). bp_ID p = rn_PolicyID r \<and> bp_OrgID p = rn_OrgID r \<and> bp_ResourceID p = rn_ResourceID r)"

definition policy_view :: "BackupPolicy \<Rightarrow> string \<times> string \<times> string \<times> string option \<times> bool" where
  "policy_view p = (bp_ID p, bp_OrgID p, bp_ResourceID p, bp_TargetID p, bp_PitrEnabled p)"

text \<open>A state whose policies are the same but for keys and retention, with no other targets and no unowned run.\<close>

lemma policies_ok_frame:
  assumes ok: "policies_ok db" and views: "map policy_view (backup_policies db') = map policy_view (backup_policies db)"
    and "backup_targets db' = backup_targets db"
    and runs: "\<And>r. r \<in> set (backup_runs db') \<Longrightarrow> \<exists>p \<in> set (backup_policies db). bp_ID p = rn_PolicyID r \<and> bp_OrgID p = rn_OrgID r \<and> bp_ResourceID p = rn_ResourceID r"
  shows "policies_ok db'"
proof -
  have ids: "map bp_ID (backup_policies db') = map bp_ID (backup_policies db)"
    using arg_cong [OF views, of "map fst"] by (simp add: policy_view_def o_def)
  have sets: "policy_view ` set (backup_policies db') = policy_view ` set (backup_policies db)"
    using arg_cong [OF views, of set] by simp
  have there: "\<exists>q \<in> set (backup_policies db). policy_view q = policy_view p" if "p \<in> set (backup_policies db')" for p
    using that sets by (metis image_iff)
  have here: "\<exists>q \<in> set (backup_policies db'). policy_view q = policy_view p" if "p \<in> set (backup_policies db)" for p
    using that sets by (metis image_iff)
  show ?thesis unfolding policies_ok_def
  proof (intro conjI ballI)
    show "distinct (map bp_ID (backup_policies db'))" "distinct (map bt_ID (backup_targets db'))"
      using ok ids assms(3) by (simp_all add: policies_ok_def)
  next
    fix p assume "p \<in> set (backup_policies db')"
    then obtain q where "q \<in> set (backup_policies db)" and view: "policy_view q = policy_view p" using there by blast
    then have "bp_PitrEnabled q \<longrightarrow> bp_TargetID q \<noteq> None"
      "\<forall>i. bp_TargetID q = Some i \<longrightarrow> (\<exists>t \<in> set (backup_targets db). bt_ID t = i \<and> bt_OrgID t = bp_OrgID q)"
      using ok unfolding policies_ok_def by blast+
    then show "bp_PitrEnabled p \<longrightarrow> bp_TargetID p \<noteq> None"
      "\<forall>i. bp_TargetID p = Some i \<longrightarrow> (\<exists>t \<in> set (backup_targets db'). bt_ID t = i \<and> bt_OrgID t = bp_OrgID p)"
      using view assms(3) by (simp_all add: policy_view_def)
  next
    fix r assume "r \<in> set (backup_runs db')"
    then obtain p q where "p \<in> set (backup_policies db)" "bp_ID p = rn_PolicyID r" "bp_OrgID p = rn_OrgID r" "bp_ResourceID p = rn_ResourceID r"
      "q \<in> set (backup_policies db')" "policy_view q = policy_view p" using runs here by metis
    then show "\<exists>p \<in> set (backup_policies db'). bp_ID p = rn_PolicyID r \<and> bp_OrgID p = rn_OrgID r \<and> bp_ResourceID p = rn_ResourceID r"
      by (auto simp: policy_view_def intro!: bexI [of _ q])
  qed
qed

text \<open>The same policies and targets, and runs that carry on the old ones or belong to a policy.\<close>

lemma policies_ok_runs:
  assumes "policies_ok db" "backup_policies db' = backup_policies db" "backup_targets db' = backup_targets db"
    and "\<And>r. r \<in> set (backup_runs db') \<Longrightarrow> (\<exists>r0 \<in> set (backup_runs db). run_key r = run_key r0) \<or>
      (\<exists>p \<in> set (backup_policies db). bp_ID p = rn_PolicyID r \<and> bp_OrgID p = rn_OrgID r \<and> bp_ResourceID p = rn_ResourceID r)"
  shows "policies_ok db'"
proof (rule policies_ok_frame [OF assms(1)])
  fix r assume "r \<in> set (backup_runs db')"
  then show "\<exists>p \<in> set (backup_policies db). bp_ID p = rn_PolicyID r \<and> bp_OrgID p = rn_OrgID r \<and> bp_ResourceID p = rn_ResourceID r"
    using assms(1) assms(4) [of r] by (auto simp: policies_ok_def run_key_def)
qed (use assms in auto)

lemma create_target_ok:
  assumes "create_target_tx vt org actor inp db = Inr (x, db')" "policies_ok db"
  shows "policies_ok db'"
proof -
  obtain t where "backup_targets db' = t # backup_targets db" "\<forall>t' \<in> set (backup_targets db). bt_ID t' \<noteq> bt_ID t"
    "backup_policies db' = backup_policies db" "backup_runs db' = backup_runs db"
    using assms(1) by (auto simp: create_target_tx_def fresh_id_simps Let_def list_ex_iff split: sum.splits prod.splits if_splits)
  then show ?thesis using assms(2) unfolding policies_ok_def by (simp add: image_iff) metis
qed

lemma delete_target_ok:
  assumes "delete_target_tx org i actor db = Inr (x, db')" "policies_ok db"
  shows "policies_ok db'"
proof -
  have t: "backup_targets db' = filter (\<lambda>t. \<not> (bt_OrgID t = org \<and> bt_ID t = i)) (backup_targets db)"
    and unused: "\<forall>p \<in> set (backup_policies db). bp_TargetID p \<noteq> Some i"
    and same: "backup_policies db' = backup_policies db" "backup_runs db' = backup_runs db"
    using assms(1) by (auto simp: delete_target_tx_def list_ex_iff split: option.splits if_splits)
  have "distinct (map bt_ID (backup_targets db'))" using assms(2) t by (simp add: policies_ok_def distinct_map_filter)
  moreover have "\<exists>t \<in> set (backup_targets db'). bt_ID t = j \<and> bt_OrgID t = bp_OrgID p"
    if p: "p \<in> set (backup_policies db)" "bp_TargetID p = Some j" for p j
  proof -
    obtain x where "x \<in> set (backup_targets db)" "bt_ID x = j" "bt_OrgID x = bp_OrgID p"
      using assms(2) p unfolding policies_ok_def by blast
    moreover have "j \<noteq> i" using unused p by blast
    ultimately show ?thesis using t by auto
  qed
  ultimately show ?thesis using assms(2) same unfolding policies_ok_def by simp
qed

lemma set_fields_keep:
  "set_target org target db bp = Inr bp1 \<Longrightarrow> bp_ID bp1 = bp_ID bp \<and> bp_OrgID bp1 = bp_OrgID bp \<and> bp_ResourceID bp1 = bp_ResourceID bp"
  "set_schedule inp bp1 = Inr bp2 \<Longrightarrow> policy_view bp2 = policy_view bp1"
  "set_pitr org res pitr db bp2 = Inr bp3 \<Longrightarrow> bp_ID bp3 = bp_ID bp2 \<and> bp_OrgID bp3 = bp_OrgID bp2 \<and> bp_ResourceID bp3 = bp_ResourceID bp2 \<and> bp_TargetID bp3 = bp_TargetID bp2"
  by (auto simp: set_target_def set_schedule_def set_pitr_def policy_view_def Let_def split: option.splits if_splits bool.splits)

lemma set_target_owner:
  "set_target org target db bp = Inr bp1 \<Longrightarrow> bp_TargetID bp1 = Some i \<Longrightarrow> bp_TargetID bp = Some i \<or>
     (\<exists>t \<in> set (backup_targets db). bt_ID t = i \<and> bt_OrgID t = org)"
  by (auto simp: set_target_def list_ex_iff split: option.splits if_splits)

lemma update_policy_ok:
  assumes "update_policy_tx org res actor inp db = Inr (x, db')" "policies_ok db"
  shows "policies_ok db'"
proof -
  obtain bp bp1 bp2 bp3 where bp: "policy_of org res db = Some bp" "set_target org (ui_TargetID inp) db bp = Inr bp1"
    "set_schedule inp bp1 = Inr bp2" "set_pitr org res (ui_PitrEnabled inp) db bp2 = Inr bp3"
    and db': "backup_policies db' = backup_policies (update_policy (bp_ID bp) (\<lambda>_. if bp_TargetID bp3 = None then bp3\<lparr>bp_PitrEnabled := False\<rparr> else bp3) db)"
      "backup_targets db' = backup_targets db" "backup_runs db' = backup_runs db"
    using assms(1) by (auto simp: update_policy_tx_def Let_def split: option.splits sum.splits)
  let ?new = "if bp_TargetID bp3 = None then bp3\<lparr>bp_PitrEnabled := False\<rparr> else bp3"
  have mem: "bp \<in> set (backup_policies db)" "bp_OrgID bp = org" using bp(1) by (auto simp: policy_of_def find_Some_iff)
  have same: "bp_ID ?new = bp_ID bp" "bp_OrgID ?new = bp_OrgID bp" "bp_ResourceID ?new = bp_ResourceID bp" "bp_TargetID ?new = bp_TargetID bp1"
    using set_fields_keep(1) [OF bp(2)] set_fields_keep(2) [OF bp(3)] set_fields_keep(3) [OF bp(4)] by (auto simp: policy_view_def)
  have target: "\<exists>t \<in> set (backup_targets db). bt_ID t = i \<and> bt_OrgID t = bp_OrgID ?new" if "bp_TargetID ?new = Some i" for i
    using set_target_owner [OF bp(2)] that same mem assms(2) unfolding policies_ok_def by metis
  let ?f = "\<lambda>p. if bp_ID p = bp_ID bp then ?new else p"
  have pols: "backup_policies db' = map ?f (backup_policies db)" using db'(1) by (simp add: update_policy_def)
  have one: "?f p = ?new \<and> p = bp \<or> ?f p = p" if "p \<in> set (backup_policies db)" for p
    using assms(2) mem(1) that unfolding policies_ok_def by (metis distinct_map inj_onD)
  have keep: "bp_ID (?f p) = bp_ID p" "bp_OrgID (?f p) = bp_OrgID p" "bp_ResourceID (?f p) = bp_ResourceID p" if "p \<in> set (backup_policies db)" for p
    using one [OF that] same by (elim disjE conjE; simp only:)+
  show ?thesis unfolding policies_ok_def
  proof (intro conjI ballI)
    have "map bp_ID (backup_policies db') = map bp_ID (backup_policies db)" unfolding pols using keep(1) by simp
    then show "distinct (map bp_ID (backup_policies db'))" "distinct (map bt_ID (backup_targets db'))"
      using assms(2) db'(2) by (simp_all add: policies_ok_def)
  next
    fix q assume "q \<in> set (backup_policies db')"
    then have "q \<in> ?f ` set (backup_policies db)" by (simp only: pols set_map)
    then obtain p where p: "p \<in> set (backup_policies db)" "q = ?f p" by (rule imageE)
    have "bp_PitrEnabled ?new \<longrightarrow> bp_TargetID ?new \<noteq> None" by simp
    moreover have "bp_PitrEnabled p \<longrightarrow> bp_TargetID p \<noteq> None"
      "\<forall>i. bp_TargetID p = Some i \<longrightarrow> (\<exists>t \<in> set (backup_targets db). bt_ID t = i \<and> bt_OrgID t = bp_OrgID p)"
      using assms(2) p(1) unfolding policies_ok_def by blast+
    moreover have "q = ?new \<or> q = p" using one [OF p(1)] p(2) by (simp only:) blast
    ultimately show "bp_PitrEnabled q \<longrightarrow> bp_TargetID q \<noteq> None"
      "\<forall>i. bp_TargetID q = Some i \<longrightarrow> (\<exists>t \<in> set (backup_targets db'). bt_ID t = i \<and> bt_OrgID t = bp_OrgID q)"
      using target unfolding db'(2) by (elim disjE; simp only:; blast)+
  next
    fix r assume "r \<in> set (backup_runs db')"
    then obtain p where p: "p \<in> set (backup_policies db)" "bp_ID p = rn_PolicyID r" "bp_OrgID p = rn_OrgID r" "bp_ResourceID p = rn_ResourceID r"
      using assms(2) db'(3) unfolding policies_ok_def by auto
    have m: "?f p \<in> set (backup_policies db')" unfolding pols set_map by (rule imageI [OF p(1)])
    show "\<exists>p \<in> set (backup_policies db'). bp_ID p = rn_PolicyID r \<and> bp_OrgID p = rn_OrgID r \<and> bp_ResourceID p = rn_ResourceID r"
      by (intro bexI [OF _ m] conjI trans [OF keep(1) p(2)] trans [OF keep(2) p(3)] trans [OF keep(3) p(4)] p(1))
  qed
qed

text \<open>The scheduler adds runs of the policies it read; keys may be written on the way.\<close>

definition due_owned :: "backup_db \<Rightarrow> due \<Rightarrow> bool" where
  "due_owned db d \<longleftrightarrow> (\<exists>p \<in> set (backup_policies db). bp_ID p = du_policyID d \<and> bp_OrgID p = du_orgID d \<and> bp_ResourceID p = du_resourceID d)"

definition same_views :: "backup_db \<Rightarrow> backup_db \<Rightarrow> bool" where
  "same_views db db' \<longleftrightarrow> map policy_view (backup_policies db') = map policy_view (backup_policies db)"

lemma due_owned_views: "same_views db db' \<Longrightarrow> due_owned db d \<Longrightarrow> due_owned db' d"
proof -
  assume "same_views db db'" "due_owned db d"
  then obtain p where "p \<in> set (backup_policies db)" "bp_ID p = du_policyID d" "bp_OrgID p = du_orgID d" "bp_ResourceID p = du_resourceID d"
    and "policy_view ` set (backup_policies db') = policy_view ` set (backup_policies db)"
    by (auto simp: same_views_def due_owned_def dest: arg_cong [of _ _ set])
  moreover from this obtain q where "q \<in> set (backup_policies db')" "policy_view q = policy_view p" by (metis image_iff)
  ultimately show ?thesis by (auto simp: due_owned_def policy_view_def intro!: bexI [of _ q])
qed

lemma schedule_run_ok:
  assumes "schedule_run kind d db = Inr (x, db')" "due_owned db d" "policies_ok db"
  shows "policies_ok db' \<and> same_views db db'"
proof -
  have same: "backup_policies db' = backup_policies db" "backup_targets db' = backup_targets db"
    using assms(1) by (auto simp: schedule_run_def fresh_id_simps insert_run_def split: if_splits)
  have runs: "r \<in> set (backup_runs db) \<or> rn_PolicyID r = du_policyID d \<and> rn_OrgID r = du_orgID d \<and> rn_ResourceID r = du_resourceID d"
    if "r \<in> set (backup_runs db')" for r
    using assms(1) that by (auto simp: schedule_run_def fresh_id_simps insert_run_def new_run_def split: if_splits)
  have "policies_ok db'"
  proof (rule policies_ok_runs [OF assms(3) same])
    fix r assume "r \<in> set (backup_runs db')"
    then show "(\<exists>r0 \<in> set (backup_runs db). run_key r = run_key r0) \<or>
      (\<exists>p \<in> set (backup_policies db). bp_ID p = rn_PolicyID r \<and> bp_OrgID p = rn_OrgID r \<and> bp_ResourceID p = rn_ResourceID r)"
      using runs [of r] assms(2) unfolding due_owned_def by auto
  qed
  then show ?thesis using same by (simp add: same_views_def)
qed

lemma schedule_if_ok:
  "schedule_if b kind d db = Inr (x, db') \<Longrightarrow> due_owned db d \<Longrightarrow> policies_ok db \<Longrightarrow> policies_ok db' \<and> same_views db db'"
  by (auto simp: schedule_if_def same_views_def split: if_splits dest: schedule_run_ok)

lemma ensure_key_ok:
  assumes "ensureRepoKeyTx vt org pid db = Inr (x, db')" "policies_ok db"
  shows "policies_ok db' \<and> same_views db db'"
proof -
  have views: "same_views db db'"
    using assms(1) by (auto simp: ensureRepoKeyTx_def same_views_def update_policy_def policy_view_def split: option.splits sum.splits prod.splits if_splits)
  moreover have "policies_ok db'"
  proof (rule policies_ok_frame [OF assms(2)])
    show "map policy_view (backup_policies db') = map policy_view (backup_policies db)" using views by (simp add: same_views_def)
    fix r assume "r \<in> set (backup_runs db')"
    then show "\<exists>p \<in> set (backup_policies db). bp_ID p = rn_PolicyID r \<and> bp_OrgID p = rn_OrgID r \<and> bp_ResourceID p = rn_ResourceID r"
      using assms(2) ensure_key_frame(1) [OF assms(1)] unfolding policies_ok_def by auto
  qed (use ensure_key_frame [OF assms(1)] in auto)
  ultimately show ?thesis by blast
qed

lemma same_views_trans: "same_views db db' \<Longrightarrow> same_views db' db'' \<Longrightarrow> same_views db db''"
  by (simp add: same_views_def)

lemma schedule_due_ok:
  assumes "schedule_due vt d db = Inr (x, db')" "due_owned db d" "policies_ok db"
  shows "policies_ok db' \<and> same_views db db'"
proof -
  obtain db1 db2 db3 where "ensureRepoKeyTx vt (du_orgID d) (du_policyID d) db = Inr ((), db1)"
    and s: "schedule_if (du_backup d) ''backup'' d db1 = Inr ((), db2)" "schedule_if (du_verify d) ''verify'' d db2 = Inr ((), db3)"
    "schedule_if (du_base d) ''basebackup'' d db3 = Inr (x, db')"
    using assms(1) by (auto simp: schedule_due_def split: sum.splits)
  then have 1: "policies_ok db1" "same_views db db1" using ensure_key_ok assms(3) by blast+
  then have 2: "policies_ok db2" "same_views db1 db2" using schedule_if_ok [OF s(1)] due_owned_views assms(2) by blast+
  have 3: "policies_ok db3" "same_views db2 db3"
    using schedule_if_ok [OF s(2)] due_owned_views [OF same_views_trans [OF 1(2) 2(2)] assms(2)] 2(1) by blast+
  have "policies_ok db' \<and> same_views db3 db'"
    using schedule_if_ok [OF s(3)] due_owned_views [OF same_views_trans [OF same_views_trans [OF 1(2) 2(2)] 3(2)] assms(2)] 3(1) by blast
  then show ?thesis using 1(2) 2(2) 3(2) by (simp add: same_views_def)
qed

lemma schedule_work_ok:
  "schedule_work vt ds db = Inr (x, db') \<Longrightarrow> (\<And>d. d \<in> set ds \<Longrightarrow> due_owned db d) \<Longrightarrow> policies_ok db \<Longrightarrow> policies_ok db'"
proof (induction ds arbitrary: db)
  case (Cons d ds)
  then obtain db1 where d: "schedule_due vt d db = Inr ((), db1)" and rest: "schedule_work vt ds db1 = Inr (x, db')"
    by (auto split: sum.splits)
  have "policies_ok db1 \<and> same_views db db1" using schedule_due_ok [OF d] Cons.prems by simp
  then show ?case using Cons.IH [OF rest] due_owned_views Cons.prems(2) by (metis list.set_intros(2))
qed simp

lemma create_due_ok:
  assumes "create_due_tx vt t db = Inr (x, db')" "policies_ok db"
  shows "policies_ok db'"
proof -
  obtain y where "schedule_work vt (due_work t db) db = Inr (y, db')" using assms(1) by (auto simp: create_due_tx_def split: sum.splits)
  moreover have "due_owned db d" if "d \<in> set (due_work t db)" for d
    using that by (auto simp: due_work_def due_of_def due_owned_def)
  ultimately show ?thesis using assms(2) schedule_work_ok by blast
qed

text \<open>Primitive steps without new rows.\<close>

lemma timeout_write_frame:
  "backup_policies (snd (timeout_write stale db)) = backup_policies db \<and> backup_targets (snd (timeout_write stale db)) = backup_targets db \<and>
   run_key ` set (backup_runs (snd (timeout_write stale db))) = run_key ` set (backup_runs db)"
proof (induction stale arbitrary: db)
  case (Cons p stale)
  obtain i old where p: "p = (i, old)" by (cases p)
  show ?case
  proof (cases "find (\<lambda>r. rn_ID r = i) (backup_runs db)")
    case (Some r)
    let ?db = "timeout_alert old r (update_run i (timeout_row (db_now db) old) db)"
    have "run_key (timeout_row t old q) = run_key q" for t q by (simp add: run_key_def timeout_row_def)
    then have "run_key ` (\<lambda>q. if rn_ID q = i then timeout_row (db_now db) old q else q) ` set (backup_runs db) = run_key ` set (backup_runs db)"
      unfolding image_image by (intro image_cong) auto
    then have "run_key ` set (backup_runs ?db) = run_key ` set (backup_runs db)" by (simp only: timeout_alert_frame update_run_frame set_map)
    then show ?thesis using Cons.IH [of ?db] Some p by (simp add: case_prod_beta)
  qed (use Cons.IH p in simp)
qed simp

lemma update_run_keys:
  assumes "\<And>r. run_key (f r) = run_key r"
  shows "run_key ` set (map (\<lambda>r. if rn_ID r = i then f r else r) rs) = run_key ` set rs"
  unfolding set_map image_image using assms by (intro image_cong) auto

lemma policies_ok_keys:
  assumes "policies_ok db" "backup_policies db' = backup_policies db" "backup_targets db' = backup_targets db"
    and "run_key ` set (backup_runs db') = run_key ` set (backup_runs db)"
  shows "policies_ok db'"
proof (rule policies_ok_runs [OF assms(1-3)])
  fix r assume "r \<in> set (backup_runs db')"
  then have "run_key r \<in> run_key ` set (backup_runs db)" using assms(4) by blast
  then show "(\<exists>r0 \<in> set (backup_runs db). run_key r = run_key r0) \<or>
    (\<exists>p \<in> set (backup_policies db). bp_ID p = rn_PolicyID r \<and> bp_OrgID p = rn_OrgID r \<and> bp_ResourceID p = rn_ResourceID r)" by blast
qed

lemma set_result_ok:
  assumes "set_result_tx sid i ok snap sha detail db = Inr (x, db')" "policies_ok db"
  shows "policies_ok db'"
proof (rule policies_ok_keys [OF assms(2)])
  have "backup_runs db' = map (\<lambda>r. if rn_ID r = i then r\<lparr>rn_Status := (if ok then BackupRunSuccess else BackupRunFailed), rn_SnapshotID := snap,
      rn_DumpSha256 := sha, rn_Detail := take 4000 detail, rn_FinishedAt := Some (db_now db)\<rparr> else r) (backup_runs db)"
    using assms(1) by (auto simp: set_result_tx_def Let_def split: option.splits)
  then show "run_key ` set (backup_runs db') = run_key ` set (backup_runs db)"
    by (simp only:) (rule update_run_keys, simp add: run_key_def)
qed (use assms(1) in \<open>auto simp: set_result_tx_def Let_def split: option.splits\<close>)

lemma credential_ok:
  assumes "credential_tx vt sid i db = Inr (x, db')" "policies_ok db"
  shows "policies_ok db'"
proof (rule policies_ok_keys [OF assms(2)])
  have "backup_runs db' = map (\<lambda>r. if rn_ID r = i then if rn_Status r = BackupRunPending
      then r\<lparr>rn_Status := BackupRunRunning, rn_StartedAt := Some (db_now db)\<rparr> else r else r) (backup_runs db)"
    using assms(1) by (auto simp: credential_tx_def split: option.splits sum.splits)
  then show "run_key ` set (backup_runs db') = run_key ` set (backup_runs db)"
    by (simp only:) (rule update_run_keys, simp add: run_key_def)
qed (use assms(1) in \<open>auto simp: credential_tx_def split: option.splits sum.splits\<close>)

lemma restores_ok:
  assumes "restore_tx tie org src new actor db = Inr (r, db') \<or> restore_pitr_tx org src new target actor db = Inr (r, db')" "policies_ok db"
  shows "policies_ok db'"
proof (rule policies_ok_runs [OF assms(2)])
  obtain p where p: "targeted_policy org src db = Some p" "rn_PolicyID r = bp_ID p" "rn_OrgID r = org" "rn_ResourceID r = src"
    and db': "backup_runs db' = r # backup_runs db" "backup_policies db' = backup_policies db" "backup_targets db' = backup_targets db"
    using assms(1)
    by (auto simp: restore_tx_def restore_pitr_tx_def fresh_id_simps insert_run_def new_run_def Let_def split: option.splits if_splits)
  then show "backup_policies db' = backup_policies db" "backup_targets db' = backup_targets db" by blast+
  have "p \<in> set (backup_policies db)" "bp_OrgID p = org" "bp_ResourceID p = src"
    using p(1) by (auto simp: targeted_policy_def find_Some_iff)
  with p db'(1) show "(\<exists>r0 \<in> set (backup_runs db). run_key q = run_key r0) \<or>
    (\<exists>p \<in> set (backup_policies db). bp_ID p = rn_PolicyID q \<and> bp_OrgID p = rn_OrgID q \<and> bp_ResourceID p = rn_ResourceID q)"
    if "q \<in> set (backup_runs db')" for q using that by auto
qed

lemma tx_policies_ok:
  assumes "in_tx v body db = (y, db')" "policies_ok db" "\<And>x db'. body db = Inr (x, db') \<Longrightarrow> policies_ok db'"
  shows "policies_ok db'"
  using assms by (auto elim!: in_tx_cases)

lemma others_ok:
  assumes "backup_targets db' = backup_targets db"
    and new: "set (backup_policies db') \<subseteq> set (backup_policies db) \<union>
      {p. bp_TargetID p = None \<and> \<not> bp_PitrEnabled p \<and> bp_ID p \<notin> bp_ID ` set (backup_policies db)}"
    and "distinct (map bp_ID (backup_policies db'))"
    and runs: "backup_runs db' = filter (\<lambda>r. rn_PolicyID r \<in> bp_ID ` (set (backup_policies db) \<inter> set (backup_policies db'))) (backup_runs db)"
    and ok: "policies_ok db"
  shows "policies_ok db'"
  unfolding policies_ok_def
proof (intro conjI ballI)
  fix p assume "p \<in> set (backup_policies db')"
  then consider "p \<in> set (backup_policies db)" | "bp_TargetID p = None" "\<not> bp_PitrEnabled p" using new by auto
  then show "bp_PitrEnabled p \<longrightarrow> bp_TargetID p \<noteq> None"
    "\<forall>i. bp_TargetID p = Some i \<longrightarrow> (\<exists>t \<in> set (backup_targets db'). bt_ID t = i \<and> bt_OrgID t = bp_OrgID p)"
    using ok assms(1) unfolding policies_ok_def by (cases, simp_all)+
next
  fix r assume "r \<in> set (backup_runs db')"
  then obtain q where r: "r \<in> set (backup_runs db)" and q: "q \<in> set (backup_policies db)" "q \<in> set (backup_policies db')" "bp_ID q = rn_PolicyID r"
    using runs by auto
  then obtain p where "p \<in> set (backup_policies db)" "bp_ID p = rn_PolicyID r" "bp_OrgID p = rn_OrgID r" "bp_ResourceID p = rn_ResourceID r"
    using ok unfolding policies_ok_def by blast
  moreover from this have "p = q" using q ok unfolding policies_ok_def by (metis distinct_map inj_onD)
  ultimately show "\<exists>p \<in> set (backup_policies db'). bp_ID p = rn_PolicyID r \<and> bp_OrgID p = rn_OrgID r \<and> bp_ResourceID p = rn_ResourceID r"
    using q(2) by blast
qed (use assms in \<open>auto simp: policies_ok_def\<close>)

lemma policies_ok_step: "backup_step db db' \<Longrightarrow> policies_ok db \<Longrightarrow> policies_ok db'"
proof (induction rule: backup_step.induct)
  case (create_target v vt org actor inp db x db')
  then show ?case unfolding CreateBackupTarget_def by (auto split: if_splits intro: create_target_ok elim!: tx_policies_ok)
next
  case (delete_target v org i actor db x db')
  then show ?case unfolding DeleteBackupTarget_def by (rule tx_policies_ok) (auto intro: delete_target_ok delete_target.prems)
next
  case (update_policy v org res actor inp db x db')
  then show ?case unfolding UpdateBackupPolicy_def by (rule tx_policies_ok) (auto intro: update_policy_ok update_policy.prems)
next
  case (create_due v vt t db x db')
  then show ?case unfolding CreateDueBackupRuns_def by (rule tx_policies_ok) (auto intro: create_due_ok create_due.prems)
next
  case (timeout v stale db x db')
  then show ?case
    by (rule tx_policies_ok) (metis Inr_inject snd_conv timeout_write_frame policies_ok_keys timeout.prems)
next
  case (result v sid i ok snap sha detail db x db')
  then show ?case unfolding SetBackupRunResult_def by (rule tx_policies_ok) (auto intro: set_result_ok result.prems)
next
  case (credential v vt sid i db x db')
  then show ?case unfolding BackupCredentialForRun_def by (rule tx_policies_ok) (auto intro: credential_ok credential.prems)
next
  case (restore v tie org src new actor db y db')
  then show ?case unfolding CreateRestoreRun_def by (rule tx_policies_ok) (auto intro: restores_ok restore.prems)
next
  case (restore_pitr v t org src new target actor db y db')
  then show ?case unfolding CreateRestoreToTimestampRun_def
    by (auto split: if_splits intro: restores_ok elim!: tx_policies_ok)
next
  case (archive org scope i db x db')
  then show ?case by (auto simp: archiveRepoKeysTx_def Let_def policies_ok_def split: if_splits)
next
  case (others db db')
  from others(2-6) show ?case by (rule others_ok)
qed

definition backup_init :: "backup_db \<Rightarrow> bool" where
  "backup_init db \<longleftrightarrow> backup_runs db = [] \<and> backup_policies db = [] \<and> backup_targets db = []"

lemma reachable_policies_ok: "backup_init db0 \<Longrightarrow> backup_step\<^sup>*\<^sup>* db0 db \<Longrightarrow> policies_ok db"
proof (rotate_tac, induction rule: rtranclp_induct)
  case base
  then show ?case by (simp add: backup_init_def policies_ok_def)
qed (blast intro: policies_ok_step)

end
