(* ===== verification/Backups_Props.thy ===== *)
theory Backups_Props
  imports Backups_Steps
begin

text \<open>
  Properties of backup runs: one run of a kind and day, restores and verifies that carry the right digest, credentials that
  stay in their organisation; and two ways in which runs go wrong, when a verify stays open over midnight and when a
  time-out races a result. Two days of a small schedule serve as the concrete states.
\<close>

section \<open>What is rendered for an open run\<close>

lemma rendered_backup_cases:
  assumes "x \<in> set (renderBackupOps (BackupRunsForServer tie sid db) rendered)"
  obtains r spec where "r \<in> set (backup_runs db)" "rn_ServerID r = sid" "open_run r" "run_spec tie db r = Some spec"
    "renderBackupOp (backupOp (BackupRunsForServer tie sid db)) rendered spec = Some x"
  using assms by (auto simp: renderBackupOps_def BackupRunsForServer_def open_runs_of_def List.map_filter_def)

lemma rendered_backup_id: "renderBackupOp bs rendered spec = Some x \<Longrightarrow> ID x = ''bkr:'' @ br_RunID spec"
  by (auto simp: renderBackupOp_def mk_op_def Let_def split: option.splits if_splits)

lemma run_spec_simps:
  assumes "run_spec tie db r = Some spec"
  shows "br_RunID spec = rn_ID r" "br_Kind spec = rn_Kind r" "br_ResourceID spec = rn_ResourceID r"
    "br_ExpectedSha spec = expected_sha tie r db" "br_SnapshotID spec = rn_SnapshotID r"
  using assms by (auto simp: run_spec_def Let_def split: option.splits)

lemma distinct_singleton: "distinct xs \<Longrightarrow> x \<in> set xs \<Longrightarrow> (\<And>y. y \<in> set xs \<Longrightarrow> y = x) \<Longrightarrow> xs = [x]"
  by (metis distinct.simps(2) empty_iff empty_set list.exhaust list.set_intros)

lemma pick_in: "pick tie xs = Some x \<Longrightarrow> x \<in> set xs"
  by (auto simp: pick_def split: if_splits)

lemma top_rows_subset: "x \<in> set (top_rows f xs) \<Longrightarrow> x \<in> set xs"
  by (simp add: top_rows_def)

lemma newest_success_is_newest:
  assumes "newest_success tie pid db = Some b"
  shows "b \<in> set (successes pid db)"
    and "x \<in> set (successes pid db) \<Longrightarrow> rn_FinishedAt x = Some t \<Longrightarrow> \<exists>u \<ge> t. rn_FinishedAt b = Some u"
proof -
  let ?fin = "filter (\<lambda>r. rn_FinishedAt r \<noteq> None) (successes pid db)"
  have b: "b \<in> set (if ?fin \<noteq> [] then top_rows finished_stamp ?fin else successes pid db)"
    using assms by (auto simp: newest_success_def Let_def dest!: pick_in top_rows_subset split: if_splits)
  then show "b \<in> set (successes pid db)" by (auto dest: top_rows_subset split: if_splits)
  assume x: "x \<in> set (successes pid db)" "rn_FinishedAt x = Some t"
  then have "x \<in> set ?fin" by simp
  then have "?fin \<noteq> []" by (metis empty_iff empty_set)
  then have "b \<in> set (top_rows finished_stamp ?fin)" using b by presburger
  then have "rn_FinishedAt b \<noteq> None" "finished_stamp x \<le> finished_stamp b"
    using \<open>x \<in> set ?fin\<close> by (auto simp: top_rows_def list_all_iff)
  then show "\<exists>u \<ge> t. rn_FinishedAt b = Some u" using x(2) by (auto simp: finished_stamp_def)
qed

text \<open>A time-out fails every run it was given that still exists.\<close>

lemma timeout_write_keeps_failed:
  assumes "r \<in> set (backup_runs db)" "rn_ID r = i" "rn_Status r = BackupRunFailed" "rn_Detail r \<in> {''timed out'', ''timed out in queue''}"
  shows "\<exists>r \<in> set (backup_runs (snd (timeout_write stale db))). rn_ID r = i \<and> rn_Status r = BackupRunFailed \<and> rn_Detail r \<in> {''timed out'', ''timed out in queue''}"
  using assms
proof (induction stale arbitrary: db r)
  case (Cons p stale)
  obtain j old where p: "p = (j, old)" by (cases p)
  show ?case
  proof (cases "find (\<lambda>r. rn_ID r = j) (backup_runs db)")
    case (Some q)
    let ?db = "timeout_alert old q (update_run j (timeout_row (db_now db) old) db)"
    let ?r = "if rn_ID r = j then timeout_row (db_now db) old r else r"
    have "?r \<in> set (backup_runs ?db)" using Cons.prems(1) by auto
    then have "\<exists>r \<in> set (backup_runs (snd (timeout_write stale ?db))). rn_ID r = i \<and> rn_Status r = BackupRunFailed \<and> rn_Detail r \<in> {''timed out'', ''timed out in queue''}"
      by (rule Cons.IH) (use Cons.prems in \<open>auto simp: timeout_row_def\<close>)
    then show ?thesis using Some p by (simp add: case_prod_beta)
  qed (use Cons p in simp)
qed auto

lemma timeout_write_fails:
  assumes "(i, old) \<in> set stale" "i \<in> rn_ID ` set (backup_runs db)"
  shows "\<exists>r \<in> set (backup_runs (snd (timeout_write stale db))). rn_ID r = i \<and> rn_Status r = BackupRunFailed \<and> rn_Detail r \<in> {''timed out'', ''timed out in queue''}"
  using assms
proof (induction stale arbitrary: db)
  case (Cons p stale)
  obtain j o' where p: "p = (j, o')" by (cases p)
  show ?case
  proof (cases "find (\<lambda>r. rn_ID r = j) (backup_runs db)")
    case None
    then have "i \<noteq> j" using Cons.prems(2) by (auto simp: find_None_iff)
    then show ?thesis using Cons p None by auto
  next
    case (Some q)
    let ?db = "timeout_alert o' q (update_run j (timeout_row (db_now db) o') db)"
    have "\<exists>r \<in> set (backup_runs (snd (timeout_write stale ?db))). rn_ID r = i \<and> rn_Status r = BackupRunFailed \<and> rn_Detail r \<in> {''timed out'', ''timed out in queue''}"
    proof (cases "i = j")
      case True
      obtain r where "r \<in> set (backup_runs db)" "rn_ID r = i" using Cons.prems(2) by auto
      then have "timeout_row (db_now db) o' r \<in> set (backup_runs ?db)" using True by (auto simp: image_iff intro!: bexI [of _ r])
      then show ?thesis by (rule timeout_write_keeps_failed) (use \<open>rn_ID r = i\<close> in \<open>auto simp: timeout_row_def\<close>)
    next
      case False
      obtain r where r: "r \<in> set (backup_runs db)" "rn_ID r = i" using Cons.prems(2) by auto
      then have "r \<in> (\<lambda>r. if rn_ID r = j then timeout_row (db_now db) o' r else r) ` set (backup_runs db)"
        using False by (intro image_eqI [of _ _ r]) auto
      then have "i \<in> rn_ID ` set (backup_runs ?db)" using r(2) by (simp only: timeout_alert_frame update_run_frame set_map) blast
      then show ?thesis using Cons.prems(1) False p by (intro Cons.IH) auto
    qed
    then show ?thesis using Some p by (simp add: case_prod_beta)
  qed
qed simp

section \<open>Properties\<close>

text \<open>
  C28. The schedule runs each scheduled kind of backup once a day (backups.go, \<open>CreateDueBackupRuns\<close> with the index of migration 0030). In every state the
  store can reach, with passes of several control planes whose clocks disagree, reports, time-outs, restores and deletions in any
  order and with lost acknowledgements, identifiers of runs are unique and there is at most one backup, one base backup
  and one verify per policy and UTC day.
\<close>

theorem backup_runs_daily_unique:
  assumes "backup_runs db0 = []" "backup_step\<^sup>*\<^sup>* db0 db" "r \<in> set (backup_runs db)" "r' \<in> set (backup_runs db)"
    and "rn_ID r = rn_ID r' \<or>
      rn_Kind r \<in> {''backup'', ''basebackup'', ''verify''} \<and> rn_Kind r' = rn_Kind r \<and> rn_PolicyID r' = rn_PolicyID r \<and>
      day_of (rn_CreatedAt r') = day_of (rn_CreatedAt r)"
  shows "r = r'"
proof -
  note ok = reachable_runs_ok [OF assms(1,2)]
  have "rn_ID r = rn_ID r' \<or> daily r \<and> same_slot r r'" using assms(5) by (auto simp only: daily_def same_slot_def)
  then have "rn_ID r = rn_ID r'" using ok assms(3,4) unfolding runs_ok_def by blast
  then show ?thesis by (rule same_id [OF ok assms(3,4)])
qed

text \<open>
  C27. A restore loads what it was promised (backups.go, \<open>CreateRestoreRun\<close> and \<open>BackupRunsForServer\<close>, with the renderer of backup.go). A queued restore
  is pinned to the snapshot and digest of the successful backup that finished last. Whatever the store does afterwards, whichever
  backups succeed or fail and whatever the day, the op rendered for the run while it is open restores exactly
  this snapshot with this digest, which is not empty. (The random parts of identifiers are assumed never to repeat.)
\<close>

theorem restore_loads_what_it_pinned:
  assumes "backup_runs db0 = []" "backup_step\<^sup>*\<^sup>* db0 db" "inj (id_hex (tables db))"
    and "CreateRestoreRun v tie org src new actor db = (Inr r, db1)" "backup_step\<^sup>*\<^sup>* db1 db2"
    and "x \<in> set (renderBackupOps (BackupRunsForServer tie' sid db2) rendered)" "ID x = ''bkr:'' @ rn_ID r"
  shows "\<exists>p \<in> set (backup_policies db). \<exists>b. bp_OrgID p = org \<and> bp_ResourceID p = src \<and> b \<in> set (successes (bp_ID p) db) \<and>
    (\<forall>b' \<in> set (successes (bp_ID p) db). \<forall>t. rn_FinishedAt b' = Some t \<longrightarrow> (\<exists>u \<ge> t. rn_FinishedAt b = Some u)) \<and>
    Kind x = KindBackupRestore \<and> rn_DumpSha256 b \<noteq> '''' \<and>
    (\<exists>spec. Spec x = WBackup spec \<and> bo_SnapshotID spec = rn_SnapshotID b \<and> bo_ExpectedSha spec = rn_DumpSha256 b)"
proof -
  have tx: "restore_tx tie org src new actor db = Inr (r, db1)" using assms(4) by (simp add: CreateRestoreRun_def in_tx_ok)
  obtain p b and c :: db_credential and db' where p: "targeted_policy org src db = Some p" and b: "newest_success tie (bp_ID p) db = Some b" "rn_DumpSha256 b \<noteq> ''''"
    and r: "r = (new_run (run_id db (seq_of db)) org src (bp_ID p) (dc_ServerID c) ''restore'' (db_now db))
       \<lparr>rn_RestoreResourceID := new, rn_SnapshotID := rn_SnapshotID b, rn_DumpSha256 := rn_DumpSha256 b\<rparr>"
    and ins: "insert_run r (db\<lparr>tables := (tables db)\<lparr>id_seq := Suc (seq_of db)\<rparr>\<rparr>) = Inr ((), db')"
    and db1: "db1 = on_tables (auditTx org actor ''Restore queued'' (src @ '' -> '' @ new)) db'"
    by (rule restore_cases [OF tx]) blast
  have db1_facts: "r \<in> set (backup_runs db1)" "id_hex (tables db1) = id_hex (tables db)" "seq_of db1 = Suc (seq_of db)"
    using ins db1 by (auto simp: insert_run_def seq_of_def split: if_splits)
  have ok: "runs_ok db1"
    using runs_ok_step [OF restore_steps [OF tx] reachable_runs_ok [OF assms(1,2)]] .
  obtain r' spec where r': "r' \<in> set (backup_runs db2)" "open_run r'" "run_spec tie' db2 r' = Some spec"
    "renderBackupOp (backupOp (BackupRunsForServer tie' sid db2)) rendered spec = Some x"
    using assms(6) by (rule rendered_backup_cases)
  then have "rn_ID r' = rn_ID r" using rendered_backup_id [OF r'(4)] assms(7) run_spec_simps(1) [OF r'(3)] by simp
  then have "carries_on r r'"
    using run_carries_on [OF backup_steps_runs [OF assms(5)] ok _ db1_facts(1) _ _ r'(1), of "seq_of db"] assms(3) db1_facts r
    by (simp add: new_run_def run_id_def)
  then have "rn_Kind r' = ''restore''" "rn_SnapshotID r' = rn_SnapshotID b" "rn_DumpSha256 r' = rn_DumpSha256 b"
    using r'(2) r by (auto simp: carries_on_def run_key_def pinned_def new_run_def)
  then have "Kind x = KindBackupRestore \<and> (\<exists>spec. Spec x = WBackup spec \<and> bo_SnapshotID spec = rn_SnapshotID b \<and> bo_ExpectedSha spec = rn_DumpSha256 b)"
    using r'(4) run_spec_simps [OF r'(3)] by (auto simp: renderBackupOp_def mk_op_def Let_def expected_sha_def split: option.splits)
  moreover have "p \<in> set (backup_policies db)" "bp_OrgID p = org" "bp_ResourceID p = src"
    using p by (auto simp: targeted_policy_def find_Some_iff)
  ultimately show ?thesis using newest_success_is_newest [OF b(1)] b(2) by (intro bexI [of _ p] exI [of _ b]) simp_all
qed

text \<open>
  A verify is compared with the dump of its own day (backups.go, \<open>BackupRunsForServer\<close>, with the renderer of backup.go). Whatever
  verify op is rendered into a document, in every reachable state, it is for an open verify run, and the digest it carries is the not
  empty digest of the one successful backup of the same policy on the same UTC day. Without such a backup no verify op is rendered.
\<close>

theorem rendered_verify_checks_own_day:
  assumes "backup_runs db0 = []" "backup_step\<^sup>*\<^sup>* db0 db"
    and "x \<in> set (renderBackupOps (BackupRunsForServer tie sid db) rendered)" "Kind x = KindBackupVerify"
  shows "\<exists>r \<in> set (backup_runs db). \<exists>b. day_backups r db = [b] \<and> open_run r \<and> rn_Kind r = ''verify'' \<and> ID x = ''bkr:'' @ rn_ID r \<and>
    rn_DumpSha256 b \<noteq> '''' \<and> (\<exists>spec. Spec x = WBackup spec \<and> bo_ExpectedSha spec = rn_DumpSha256 b)"
proof -
  note ok = reachable_runs_ok [OF assms(1,2)]
  obtain r spec where r: "r \<in> set (backup_runs db)" "rn_ServerID r = sid" "open_run r" "run_spec tie db r = Some spec"
    "renderBackupOp (backupOp (BackupRunsForServer tie sid db)) rendered spec = Some x"
    using assms(3) by (rule rendered_backup_cases)
  note s = run_spec_simps [OF r(4)]
  have x: "rn_Kind r = ''verify''" "expected_sha tie r db \<noteq> ''''" "\<exists>spec. Spec x = WBackup spec \<and> bo_ExpectedSha spec = expected_sha tie r db"
    using r(5) assms(4) s by (auto simp: renderBackupOp_def mk_op_def Let_def KindBackupVerify_def KindBackupRun_def KindBackupBase_def
      KindBackupRestore_def KindBackupRestorePITR_def split: option.splits if_splits)
  have one: "b = b'" if "b \<in> set (day_backups r db)" "b' \<in> set (day_backups r db)" for b b'
  proof (rule same_id [OF ok])
    show "rn_ID b = rn_ID b'" using ok that unfolding runs_ok_def by (auto simp: day_backups_def daily_def same_slot_def)
  qed (use that in \<open>auto simp: day_backups_def\<close>)
  have "distinct (backup_runs db)" using ok by (simp add: runs_ok_def distinct_map)
  then have "distinct (day_backups r db)" by (simp add: day_backups_def)
  moreover obtain b where b: "b \<in> set (day_backups r db)" "rn_DumpSha256 b = expected_sha tie r db"
    using x(1,2) by (auto simp: expected_sha_def Let_def dest!: pick_in top_rows_subset split: option.splits if_splits)
  ultimately have "day_backups r db = [b]" by (intro distinct_singleton) (use one in blast)+
  then show ?thesis using r(1,3) x b(2) rendered_backup_id [OF r(5)] s(1) by (intro bexI [of _ r] exI [of _ b]) auto
qed

text \<open>The last open backup of a resource in the order of rendering is the one its verify depends on.\<close>

lemma backupOp_last:
  "backupOp runs rid = (let rs = filter (\<lambda>r. br_Kind r = ''backup'' \<and> br_ResourceID r = rid) runs
     in if rs = [] then None else Some (''bkr:'' @ br_RunID (last rs)))"
  unfolding backupOp_def by (induction runs rule: rev_induct) (simp_all add: Let_def)

lemma BackupRunsForServer_in:
  "spec \<in> set (BackupRunsForServer tie sid db) \<longleftrightarrow>
     (\<exists>r \<in> set (backup_runs db). rn_ServerID r = sid \<and> open_run r \<and> run_spec tie db r = Some spec)"
  by (auto simp: BackupRunsForServer_def open_runs_of_def List.map_filter_def image_iff Bex_def)

text \<open>
  C29. A verify that is still open when the next day's backup is rendered waits for that backup (backup.go, \<open>renderBackupOps\<close>). The code makes
  a verify depend on the resource's backup op of the document, which is always a backup that has not finished, while the digest it
  carries is that of the finished backup of its own day. The comment says that a verify pinned to one day's digest and run after another day's dump is a guaranteed
  mismatch; with a backup of the next day in the document this is the order the agent is given.
\<close>

theorem verify_waits_for_other_backup:
  assumes "r \<in> set (backup_runs db)" "rn_ServerID r = sid" "open_run r" "rn_Kind r = ''verify''" "run_spec tie db r = Some spec"
    and "expected_sha tie r db \<noteq> ''''" "DBEngine (br_Engine spec) \<noteq> None"
    and "b \<in> set (backup_runs db)" "rn_ServerID b = sid" "open_run b" "rn_Kind b = ''backup''" "rn_ResourceID b = rn_ResourceID r"
      "run_spec tie db b \<noteq> None"
  shows "\<exists>x \<in> set (renderBackupOps (BackupRunsForServer tie sid db) rendered). \<exists>b'.
    ID x = ''bkr:'' @ rn_ID r \<and> Kind x = KindBackupVerify \<and> DependsOn x = [''bkr:'' @ rn_ID b'] \<and>
    b' \<in> set (backup_runs db) \<and> open_run b' \<and> rn_Kind b' = ''backup'' \<and> b' \<notin> set (day_backups r db) \<and>
    (\<exists>b'' spec. b'' \<in> set (day_backups r db) \<and> Spec x = WBackup spec \<and> bo_ExpectedSha spec = rn_DumpSha256 b'')"
proof -
  let ?runs = "BackupRunsForServer tie sid db" and ?f = "\<lambda>s. br_Kind s = ''backup'' \<and> br_ResourceID s = rn_ResourceID r"
  obtain bs where bs: "run_spec tie db b = Some bs" using assms(13) by blast
  have "bs \<in> set (filter ?f ?runs)"
    using assms(8-12) run_spec_simps [OF bs] bs by (auto simp: BackupRunsForServer_in)
  then have ne: "filter ?f ?runs \<noteq> []" by (metis empty_iff empty_set)
  then have "last (filter ?f ?runs) \<in> set (filter ?f ?runs)" by (rule last_in_set)
  then obtain b' where b': "b' \<in> set (backup_runs db)" "open_run b'" "run_spec tie db b' = Some (last (filter ?f ?runs))"
    "br_Kind (last (filter ?f ?runs)) = ''backup''" by (auto simp only: set_filter BackupRunsForServer_in mem_Collect_eq)
  note s = run_spec_simps [OF assms(5)] and s' = run_spec_simps [OF b'(3)]
  have dep: "backupOp ?runs (rn_ResourceID r) = Some (''bkr:'' @ rn_ID b')"
    using ne s'(1) by (simp add: backupOp_last Let_def)
  have "rn_Kind b' = ''backup''" "b' \<notin> set (day_backups r db)"
    using b'(2,4) s'(2) by (auto simp: day_backups_def open_run_def BackupRunSuccess_def BackupRunPending_def BackupRunRunning_def)
  moreover obtain b'' where "b'' \<in> set (day_backups r db)" "rn_DumpSha256 b'' = expected_sha tie r db"
    using assms(4,6) by (auto simp: expected_sha_def Let_def dest!: pick_in top_rows_subset split: option.splits if_splits)
  moreover obtain x where x: "renderBackupOp (backupOp ?runs) rendered spec = Some x" "Kind x = KindBackupVerify"
    "DependsOn x = [''bkr:'' @ rn_ID b']" "\<exists>sp. Spec x = WBackup sp \<and> bo_ExpectedSha sp = expected_sha tie r db"
    using assms(4,6,7) s dep by (auto simp: renderBackupOp_def mk_op_def Let_def)
  moreover have "spec \<in> set ?runs" using assms(1-5) by (auto simp: BackupRunsForServer_in)
  then have "x \<in> set (renderBackupOps ?runs rendered)" using x(1) by (force simp: renderBackupOps_def List.map_filter_def)
  ultimately show ?thesis using b'(1,2) rendered_backup_id [OF x(1)] s(1) by (intro bexI [of _ x] exI [of _ b']) auto
qed

text \<open>
  C31. A result reported while a time-out pass runs is lost (backups.go, \<open>TimeoutStaleBackupRuns\<close>). The statement selects the stale runs on its snapshot
  and then updates them by identifier alone, so a run whose success was committed in between is written over: it becomes
  failed with the detail of a time-out. A result otherwise only ever finds an open run.
\<close>

theorem timeout_overwrites_result:
  assumes "runs_ok db" "(i, old) \<in> set (stale_runs execMaxAge queueMaxAge t db)"
    and "SetBackupRunResult v sid i True snap sha detail db = (Inr (), db1)"
  shows "(\<exists>r \<in> set (backup_runs db1). rn_ID r = i \<and> rn_Status r = BackupRunSuccess \<and> rn_DumpSha256 r = sha) \<and>
    (\<exists>r \<in> set (backup_runs (snd (timeout_write (stale_runs execMaxAge queueMaxAge t db) db1))). rn_ID r = i \<and>
       rn_Status r = BackupRunFailed \<and> rn_Detail r \<in> {''timed out'', ''timed out in queue''})"
proof -
  have "set_result_tx sid i True snap sha detail db = Inr ((), db1)" using assms(3) by (simp add: SetBackupRunResult_def in_tx_ok)
  then obtain r where "r \<in> set (backup_runs db)" "rn_ID r = i" and
    db1: "backup_runs db1 = map (\<lambda>r. if rn_ID r = i then r\<lparr>rn_Status := BackupRunSuccess, rn_SnapshotID := snap,
      rn_DumpSha256 := sha, rn_Detail := take 4000 detail, rn_FinishedAt := Some (db_now db)\<rparr> else r) (backup_runs db)"
    by (auto simp: set_result_tx_def Let_def find_Some_iff split: option.splits) (metis nth_mem)
  then have "\<exists>r \<in> set (backup_runs db1). rn_ID r = i \<and> rn_Status r = BackupRunSuccess \<and> rn_DumpSha256 r = sha"
    unfolding db1 set_map bex_simps(7) by (intro bexI [of _ r]) auto
  moreover from this have "i \<in> rn_ID ` set (backup_runs db1)" by auto
  then have "\<exists>r \<in> set (backup_runs (snd (timeout_write (stale_runs execMaxAge queueMaxAge t db) db1))). rn_ID r = i \<and>
       rn_Status r = BackupRunFailed \<and> rn_Detail r \<in> {''timed out'', ''timed out in queue''}"
    by (rule timeout_write_fails [OF assms(2)])
  ultimately show ?thesis by blast
qed




section \<open>A small schedule\<close>

text \<open>One database with a policy and a target: two days of the scheduler.\<close>

definition demo_tables :: deploy_db where
  "demo_tables = \<lparr>deployments = [], resources = [], cluster_nodes = [], placements = [], git_connections = [], git_branch_map = [],
     deploy_requests = [], alert_rules = [], alert_outbox = [], deploy_logs = [], cp_audit_log = [], now = 1000,
     id_hex = (\<lambda>n. replicate n (CHR ''x'')), id_seq = 0, spec_hash = id\<rparr>"

definition demo_vault :: vault where
  "demo_vault = \<lparr>activeDEK = (\<lambda>_. Inr (''k'', ''key'')), dekPlaintext = (\<lambda>_. Inr ''key''), gcmSeal = (\<lambda>_ _ p. Inr (''n'', p)),
     gcmOpen = (\<lambda>_ _ _ c. Inr c), randomKey = Inr ''rk'', lower_text = id\<rparr>"

definition demo_policy :: BackupPolicy where
  "demo_policy = \<lparr>bp_ID = ''pol'', bp_OrgID = ''org'', bp_ResourceID = ''db'', bp_Schedule = ''daily'', bp_KeepDaily = 7, bp_KeepWeekly = 4,
     bp_KeepMonthly = 6, bp_TargetID = None, bp_Enabled = True, bp_PitrEnabled = False, bp_RepoKey = None\<rparr>"

definition demo_empty :: backup_db where
  "demo_empty = \<lparr>tables = demo_tables, backup_targets = [], backup_policies = [], backup_runs = [], db_credentials = [], wal_archive = [],
     repo_key_archive = []\<rparr>"

definition demo_created :: backup_db where
  "demo_created = demo_empty\<lparr>backup_policies := [demo_policy], db_credentials := [\<lparr>dc_OrgID = ''org'', dc_ResourceID = ''db'', dc_ServerID = ''s1'',
     dc_Engine = ''postgres'', dc_DBName = ''d'', dc_Username = ''u''\<rparr>]\<rparr>"

definition demo_targeted :: backup_db where
  "demo_targeted = snd (UpdateBackupPolicy Applied ''org'' ''db'' ''ann''
     \<lparr>ui_TargetID = Some ''bkt_'', ui_Schedule = None, ui_KeepDaily = None, ui_KeepWeekly = None, ui_KeepMonthly = None, ui_Enabled = None, ui_PitrEnabled = Some True\<rparr>
     (snd (CreateBackupTarget Applied demo_vault ''org'' ''ann'' \<lparr>ti_Name = ''t'', ti_Endpoint = '''', ti_Bucket = ''b'', ti_Region = '''',
        ti_ForcePathStyle = False, ti_AccessKey = ''a'', ti_SecretKey = ''s''\<rparr> demo_created)))"

definition demo_due :: backup_db where
  "demo_due = snd (CreateDueBackupRuns Applied demo_vault 1000 demo_targeted)"

definition demo_backed :: backup_db where
  "demo_backed = snd (SetBackupRunResult Applied ''s1'' ''run_x'' True ''snap'' ''sha'' '''' demo_due)"

definition demo_verify :: backup_db where
  "demo_verify = snd (CreateDueBackupRuns Applied demo_vault 1000 demo_backed)"

definition demo_midnight :: backup_db where
  "demo_midnight = demo_verify\<lparr>tables := (tables demo_verify)\<lparr>now := day_length\<rparr>\<rparr>"

definition demo_next :: backup_db where
  "demo_next = snd (CreateDueBackupRuns Applied demo_vault day_length demo_midnight)"

lemma schedule_views:
  "map (\<lambda>r. (rn_ID r, rn_Kind r, rn_Status r, day_of (rn_CreatedAt r))) (backup_runs demo_next) =
     [(''run_xxxxx'', ''basebackup'', ''pending'', 1), (''run_xxxx'', ''backup'', ''pending'', 1), (''run_xxx'', ''verify'', ''pending'', 0),
      (''run_xx'', ''basebackup'', ''pending'', 0), (''run_x'', ''backup'', ''success'', 0)]"
  by code_simp

lemma schedule_steps:
  "backup_step\<^sup>*\<^sup>* demo_empty demo_due" "backup_step demo_due demo_backed" "backup_step\<^sup>*\<^sup>* demo_backed demo_next"
proof -
  have "backup_step demo_empty demo_created"
    by (rule backup_step.others) (simp_all add: demo_created_def demo_empty_def demo_policy_def ids_go_on_def seq_of_def)
  moreover have "backup_step demo_created (snd (CreateBackupTarget Applied demo_vault ''org'' ''ann'' \<lparr>ti_Name = ''t'', ti_Endpoint = '''',
      ti_Bucket = ''b'', ti_Region = '''', ti_ForcePathStyle = False, ti_AccessKey = ''a'', ti_SecretKey = ''s''\<rparr> demo_created))"
    by (rule backup_step.create_target [OF prod.collapse [symmetric]])
  moreover have "backup_step (snd (CreateBackupTarget Applied demo_vault ''org'' ''ann'' \<lparr>ti_Name = ''t'', ti_Endpoint = '''',
      ti_Bucket = ''b'', ti_Region = '''', ti_ForcePathStyle = False, ti_AccessKey = ''a'', ti_SecretKey = ''s''\<rparr> demo_created)) demo_targeted"
    unfolding demo_targeted_def by (rule backup_step.update_policy [OF prod.collapse [symmetric]])
  moreover have "backup_step demo_targeted demo_due"
    unfolding demo_due_def by (rule backup_step.create_due [OF prod.collapse [symmetric]])
  ultimately show "backup_step\<^sup>*\<^sup>* demo_empty demo_due" by (meson converse_rtranclp_into_rtranclp rtranclp.rtrancl_refl)
  show "backup_step demo_due demo_backed"
    unfolding demo_backed_def by (rule backup_step.result [OF prod.collapse [symmetric]])
  have "backup_step demo_backed demo_verify"
    unfolding demo_verify_def by (rule backup_step.create_due [OF prod.collapse [symmetric]])
  moreover have "backup_step demo_verify demo_midnight"
  proof (rule backup_step.others)
    have "list_all (\<lambda>r. rn_PolicyID r = ''pol'') (backup_runs demo_verify)" "map bp_ID (backup_policies demo_verify) = [''pol'']" by code_simp+
    then show "backup_runs demo_midnight = filter (\<lambda>r. rn_PolicyID r \<in> bp_ID ` (set (backup_policies demo_verify) \<inter> set (backup_policies demo_midnight)))
        (backup_runs demo_verify)" "distinct (map bp_ID (backup_policies demo_midnight))"
      by (auto simp: demo_midnight_def list_all_iff simp flip: set_map intro!: sym [OF filter_True])
  qed (simp_all add: demo_midnight_def ids_go_on_def seq_of_def)
  moreover have "backup_step demo_midnight demo_next"
    unfolding demo_next_def by (rule backup_step.create_due [OF prod.collapse [symmetric]])
  ultimately show "backup_step\<^sup>*\<^sup>* demo_backed demo_next" by (meson converse_rtranclp_into_rtranclp rtranclp.rtrancl_refl)
qed

lemma schedule_reach: "backup_step\<^sup>*\<^sup>* demo_empty demo_backed" "backup_step\<^sup>*\<^sup>* demo_empty demo_next"
  using schedule_steps by (meson rtranclp.rtrancl_into_rtrancl rtranclp_trans)+

lemma schedule_init: "backup_runs demo_empty = []" "backup_init demo_empty" "inj (id_hex (tables demo_backed))"
proof -
  have "id_hex (tables demo_backed) = id_hex (tables demo_empty)"
    using descends_steps [OF backup_steps_runs [OF schedule_reach(1)]] by (simp add: descends_def ids_go_on_def)
  then show "inj (id_hex (tables demo_backed))" by (simp add: demo_empty_def demo_tables_def inj_def)
qed (simp_all add: demo_empty_def backup_init_def)

theorem backup_runs_daily_unique_witness:
  "length (filter (\<lambda>r. rn_Kind r = ''backup'') (backup_runs demo_next)) = 2 \<and>
   inj_on rn_ID (set (backup_runs demo_next))"
proof (intro conjI inj_onI)
  show "length (filter (\<lambda>r. rn_Kind r = ''backup'') (backup_runs demo_next)) = 2" by code_simp
  fix r r' assume "r \<in> set (backup_runs demo_next)" "r' \<in> set (backup_runs demo_next)" "rn_ID r = rn_ID r'"
  then show "r = r'" using backup_runs_daily_unique [OF schedule_init(1) schedule_reach(2)] by blast
qed

theorem restore_loads_what_it_pinned_witness:
  "\<exists>x \<in> set (renderBackupOps (BackupRunsForServer 0 ''s1'' (snd (CreateRestoreRun Applied 0 ''org'' ''db'' ''db'' ''ann'' demo_backed))) (\<lambda>_. True)).
     ID x = ''bkr:run_xxx'' \<and> Kind x = KindBackupRestore \<and>
     (\<exists>b spec. b \<in> set (successes ''pol'' demo_backed) \<and> Spec x = WBackup spec \<and> bo_SnapshotID spec = rn_SnapshotID b)"
proof -
  let ?q = "CreateRestoreRun Applied 0 ''org'' ''db'' ''db'' ''ann'' demo_backed"
  have run: "case fst ?q of Inl e \<Rightarrow> False | Inr r \<Rightarrow> rn_ID r = ''run_xxx''" by code_simp
  then obtain r where r: "fst ?q = Inr r" "rn_ID r = ''run_xxx''" by (auto split: sum.splits)
  then have q: "?q = (Inr r, snd ?q)" by (metis prod.collapse)
  have "list_ex (\<lambda>x. ID x = ''bkr:run_xxx'') (renderBackupOps (BackupRunsForServer 0 ''s1'' (snd ?q)) (\<lambda>_. True))" by code_simp
  then obtain x where x: "x \<in> set (renderBackupOps (BackupRunsForServer 0 ''s1'' (snd ?q)) (\<lambda>_. True))" "ID x = ''bkr:run_xxx''"
    by (auto simp: list_ex_iff)
  then have "ID x = ''bkr:'' @ rn_ID r" using r(2) by simp
  from restore_loads_what_it_pinned [OF schedule_init(1) schedule_reach(1) schedule_init(3) q rtranclp.rtrancl_refl x(1) this]
  obtain p b spec where "p \<in> set (backup_policies demo_backed)" "b \<in> set (successes (bp_ID p) demo_backed)" "Kind x = KindBackupRestore"
    "Spec x = WBackup spec" "bo_SnapshotID spec = rn_SnapshotID b" by blast
  moreover have "list_all (\<lambda>p. bp_ID p = ''pol'') (backup_policies demo_backed)" by code_simp
  ultimately have "b \<in> set (successes ''pol'' demo_backed) \<and> Spec x = WBackup spec \<and> bo_SnapshotID spec = rn_SnapshotID b" "Kind x = KindBackupRestore"
    by (auto simp: list_all_iff)
  then show ?thesis using x(2) by (intro bexI [OF _ x(1)]) blast
qed

theorem rendered_verify_checks_own_day_witness:
  "\<exists>x \<in> set (renderBackupOps (BackupRunsForServer 0 ''s1'' demo_next) (\<lambda>_. True)). Kind x = KindBackupVerify \<and>
     (\<exists>r b spec. day_backups r demo_next = [b] \<and> Spec x = WBackup spec \<and> bo_ExpectedSha spec = rn_DumpSha256 b)"
proof -
  have "list_ex (\<lambda>x. Kind x = KindBackupVerify) (renderBackupOps (BackupRunsForServer 0 ''s1'' demo_next) (\<lambda>_. True))" by code_simp
  then obtain x where x: "x \<in> set (renderBackupOps (BackupRunsForServer 0 ''s1'' demo_next) (\<lambda>_. True))" "Kind x = KindBackupVerify"
    by (auto simp: list_ex_iff)
  then show ?thesis using rendered_verify_checks_own_day [OF schedule_init(1) schedule_reach(2) x] by blast
qed

theorem verify_waits_for_other_backup_witness:
  "\<exists>x \<in> set (renderBackupOps (BackupRunsForServer 0 ''s1'' demo_next) (\<lambda>_. True)). \<exists>b'. Kind x = KindBackupVerify \<and>
     DependsOn x = [''bkr:'' @ rn_ID b'] \<and> open_run b' \<and> b' \<in> set (backup_runs demo_next)"
proof -
  let ?r = "backup_runs demo_next ! 2" and ?b = "backup_runs demo_next ! 1"
  have facts: "rn_ServerID ?r = ''s1''" "open_run ?r" "rn_Kind ?r = ''verify''" "expected_sha 0 ?r demo_next \<noteq> ''''"
    "rn_ServerID ?b = ''s1''" "open_run ?b" "rn_Kind ?b = ''backup''" "rn_ResourceID ?b = rn_ResourceID ?r" "length (backup_runs demo_next) = 5"
    "case run_spec 0 demo_next ?r of None \<Rightarrow> False | Some s \<Rightarrow> DBEngine (br_Engine s) \<noteq> None"
    "case run_spec 0 demo_next ?b of None \<Rightarrow> False | Some _ \<Rightarrow> True" by code_simp+
  then obtain spec where specs: "run_spec 0 demo_next ?r = Some spec" "DBEngine (br_Engine spec) \<noteq> None" "run_spec 0 demo_next ?b \<noteq> None"
    by (auto split: option.splits)
  have mem: "?r \<in> set (backup_runs demo_next)" "?b \<in> set (backup_runs demo_next)" by (simp_all add: facts(9))
  show ?thesis
    using verify_waits_for_other_backup [OF mem(1) facts(1-3) specs(1) facts(4) specs(2) mem(2) facts(5-8) specs(3), of "\<lambda>_. True"] by blast
qed

theorem timeout_overwrites_result_witness:
  "\<exists>r \<in> set (backup_runs (snd (timeout_write (stale_runs 0 0 5000 demo_due) demo_backed))). rn_ID r = ''run_x'' \<and> rn_Status r = BackupRunFailed"
proof -
  have "list_ex (\<lambda>(i, old). i = ''run_x'') (stale_runs 0 0 5000 demo_due)" by code_simp
  then obtain old where "(''run_x'', old) \<in> set (stale_runs 0 0 5000 demo_due)" by (auto simp: list_ex_iff)
  moreover have "case fst (SetBackupRunResult Applied ''s1'' ''run_x'' True ''snap'' ''sha'' '''' demo_due) of Inl _ \<Rightarrow> False | Inr _ \<Rightarrow> True" by code_simp
  then have "SetBackupRunResult Applied ''s1'' ''run_x'' True ''snap'' ''sha'' '''' demo_due = (Inr (), demo_backed)"
    unfolding demo_backed_def by (cases "SetBackupRunResult Applied ''s1'' ''run_x'' True ''snap'' ''sha'' '''' demo_due") (auto split: sum.splits)
  ultimately show ?thesis
    using timeout_overwrites_result [OF reachable_runs_ok [OF schedule_init(1) schedule_steps(1)]] by blast
qed


end
