(* ===== verification/Publish.thy ===== *)
theory Publish
  imports Backups
begin

text \<open>
  Publication of documents and ingestion of what agents report (cp/internal/store/dsd_store.go and destructive.go, the S3 fallback of
  s3_buckets.go, and cp/internal/api/dsd.go). \<open>server_dsd\<close> has one row per server: the last issued version with its signed document,
  the hash it was rendered from, the version the agent reported last and whether it converged. The
  document is stored as text and read back as the same value. Tokens are stored as digests; the digest
  is an argument. A status report is a list of op ids with the decoded status, in the order the code's map is iterated.
\<close>

section \<open>State\<close>

record 'p dsd_row =
  sd_OrgID :: string
  sd_Version :: int
  sd_Doc :: "'p Document option"
  sd_Signature :: string
  sd_DocHash :: string
  sd_AppliedVersion :: int
  sd_ApplyOK :: bool
  sd_RedriveCount :: int
  sd_FailedOps :: "string list"

record destructive_row =
  pr_ID :: string
  pr_OrgID :: string
  pr_ServerID :: string
  pr_OpKind :: string
  pr_Target :: string
  pr_CreatedBy :: string
  pr_CreatedAt :: timestamp
  pr_AppliedAt :: "timestamp option"

record confirm_token =
  ct_ID :: string
  ct_OrgID :: string
  ct_ServerID :: string
  ct_OpKind :: string
  ct_Target :: string
  ct_Hash :: string
  ct_CreatedBy :: string
  ct_ExpiresAt :: timestamp
  ct_UsedAt :: "timestamp option"

record s3_op_row =
  sr_ID :: string
  sr_OrgID :: string
  sr_ServerID :: string
  sr_ResourceID :: string
  sr_Action :: string
  sr_Bucket :: string
  sr_AppliedAt :: "timestamp option"
  sr_FailedAt :: "timestamp option"
  sr_Detail :: string

record s3_bucket =
  sb_OrgID :: string
  sb_ResourceID :: string
  sb_Name :: string
  sb_Status :: string

record op_report =
  rp_State :: string
  rp_Error :: string
  rp_Rest :: string \<comment> \<open>the other fields of the reported JSON\<close>

record 'p cp_db =
  cp_backup :: backup_db
  server_dsd :: "(string \<times> 'p dsd_row) list"
  server_names :: "(string \<times> string) list"
  pending_ops :: "destructive_row list"
  confirm_tokens :: "confirm_token list"
  resource_status :: "(string \<times> op_report) list"
  pending_s3_ops :: "s3_op_row list"
  s3_buckets :: "s3_bucket list"
  control_planes :: "(string \<times> string) list" \<comment> \<open>cluster, its control-plane node\<close>

type_synonym ('p, 'a) ctx = "'p cp_db \<Rightarrow> ('a \<times> 'p cp_db) res"

definition cp_tables :: "'p cp_db \<Rightarrow> deploy_db" where
  "cp_tables db = tables (cp_backup db)"

definition cp_now :: "'p cp_db \<Rightarrow> timestamp" where
  "cp_now db = now (cp_tables db)"

definition on_cp :: "(deploy_db \<Rightarrow> deploy_db) \<Rightarrow> 'p cp_db \<Rightarrow> 'p cp_db" where
  "on_cp f db = db\<lparr>cp_backup := on_tables f (cp_backup db)\<rparr>"

definition cp_fresh :: "string \<Rightarrow> 'p cp_db \<Rightarrow> string \<times> 'p cp_db" where
  "cp_fresh prefix db = (case fresh_id prefix (cp_backup db) of (i, b) \<Rightarrow> (i, db\<lparr>cp_backup := b\<rparr>))"

section \<open>Documents\<close>

definition maxDSDRedrive :: int where
  "maxDSDRedrive = 5"

definition AlertDSDApplyFailed :: string where
  "AlertDSDApplyFailed = ''dsd_apply_failed''"

definition new_dsd_row :: "string \<Rightarrow> 'p dsd_row" where
  "new_dsd_row orgID = \<lparr>sd_OrgID = orgID, sd_Version = 0, sd_Doc = None, sd_Signature = '''', sd_DocHash = '''', sd_AppliedVersion = 0,
     sd_ApplyOK = True, sd_RedriveCount = 0, sd_FailedOps = []\<rparr>"

definition dsd_row_of :: "'p cp_db \<Rightarrow> string \<Rightarrow> 'p dsd_row option" where
  "dsd_row_of db sid = map_of (server_dsd db) sid"

definition put_dsd_row :: "string \<Rightarrow> 'p dsd_row \<Rightarrow> 'p cp_db \<Rightarrow> 'p cp_db" where
  "put_dsd_row sid r db = db\<lparr>server_dsd := AList.update sid r (server_dsd db)\<rparr>"

definition cp_GetDSD :: "'p cp_db \<Rightarrow> string \<Rightarrow> 'p Signed res" where
  "cp_GetDSD db sid =
     (case dsd_row_of db sid of
        None \<Rightarrow> Inl ErrNotFound
      | Some r \<Rightarrow>
          if \<not> sd_Version r > 0 then Inl ErrNotFound
          else (case sd_Doc r of
                  None \<Rightarrow> Inl (ErrString ''unexpected end of JSON input'')
                | Some doc \<Rightarrow> Inr \<lparr>Doc = doc, Signature = sd_Signature r\<rparr>))"

definition CurrentDSDVersion :: "'p cp_db \<Rightarrow> string \<Rightarrow> int" where
  "CurrentDSDVersion db sid = (case dsd_row_of db sid of None \<Rightarrow> 0 | Some r \<Rightarrow> sd_Version r)"

definition force_reapply_tx :: "string \<Rightarrow> string \<Rightarrow> string \<Rightarrow> ('p, string) ctx" where
  "force_reapply_tx orgID resourceID actor db =
     (case org_resource orgID resourceID (cp_tables db) of
        None \<Rightarrow> Inl ErrNotFound
      | Some r \<Rightarrow>
          if rs_ServerID r = '''' then Inl (ErrInvalid ''resource is not scheduled on a server'')
          else let db1 = (case dsd_row_of db (rs_ServerID r) of
                            None \<Rightarrow> db
                          | Some x \<Rightarrow>
                              if sd_OrgID x = orgID then put_dsd_row (rs_ServerID r) (x\<lparr>sd_DocHash := '''', sd_RedriveCount := 0\<rparr>) db else db)
               in Inr (rs_ServerID r, on_cp (auditTx orgID actor ''Redeploy forced (re-apply)'' (rs_Name r)) db1))"

definition ForceReapplyResource :: "db_verdict \<Rightarrow> string \<Rightarrow> string \<Rightarrow> string \<Rightarrow> 'p cp_db \<Rightarrow> string res \<times> 'p cp_db" where
  "ForceReapplyResource v orgID resourceID actor = in_tx v (force_reapply_tx orgID resourceID actor)"

fun join_comma :: "string list \<Rightarrow> string" where
  "join_comma [] = ''''"
| "join_comma [x] = x"
| "join_comma (x # xs) = x @ '', '' @ join_comma xs"

definition alertApplyStuckTx :: "string \<Rightarrow> string \<Rightarrow> int \<Rightarrow> string list \<Rightarrow> 'p cp_db \<Rightarrow> 'p cp_db" where
  "alertApplyStuckTx orgID sid version failedOps db =
     (let name = (case map_of (server_names db) sid of None \<Rightarrow> sid | Some n \<Rightarrow> n);
          detail = (if failedOps = [] then ''no op ids were reported'' else join_comma failedOps);
          body = name @ '' has failed to apply desired-state version '' @ itoa version @ '' '' @ itoa maxDSDRedrive @
            '' times; the control plane has stopped retrying it. The server is still reachable, so its status will keep reading healthy '' @
            [CHR 0xE2, CHR 0x80, CHR 0x94] @ '' but the ops below have not been applied and will not be retried until its configuration changes.'' @
            [CHR 0x0A, CHR 0x0A] @ ''Failing ops: '' @ detail
      in on_cp (enqueueAlertTx orgID AlertDSDApplyFailed (''dsdfail:'' @ sid @ '':'' @ itoa version)
           (''Server stopped converging: '' @ name) body) db)"

text \<open>The row as the lazy insertion returns it, and the two conditions the decision rests on.\<close>

definition locked_row :: "string \<Rightarrow> string \<Rightarrow> 'p cp_db \<Rightarrow> 'p dsd_row" where
  "locked_row orgID sid db = (case dsd_row_of db sid of None \<Rightarrow> new_dsd_row orgID | Some r \<Rightarrow> r)"

definition same_doc :: "string \<Rightarrow> 'p dsd_row \<Rightarrow> bool" where
  "same_doc docHash r \<longleftrightarrow> sd_DocHash r = docHash \<and> sd_Version r > 0"

definition converged :: "'p dsd_row \<Rightarrow> bool" where
  "converged r \<longleftrightarrow> sd_ApplyOK r \<or> sd_AppliedVersion r < sd_Version r"

definition issued_row :: "'p Document \<Rightarrow> string \<Rightarrow> string \<Rightarrow> 'p dsd_row \<Rightarrow> 'p dsd_row" where
  "issued_row doc sig docHash r =
     r\<lparr>sd_Version := Version doc, sd_Doc := Some doc, sd_Signature := sig, sd_DocHash := docHash, sd_ApplyOK := True,
       sd_RedriveCount := (if same_doc docHash r then sd_RedriveCount r + 1 else 0), sd_FailedOps := []\<rparr>"

definition next_doc :: "string \<Rightarrow> string \<Rightarrow> 'p Op list \<Rightarrow> 'p dsd_row \<Rightarrow> 'p Document" where
  "next_doc orgID sid ops r = \<lparr>Version = sd_Version r + 1, OrgID = orgID, ServerID = sid, Ops = ops\<rparr>"

definition store_dsd_tx :: "'p crypto \<Rightarrow> string \<Rightarrow> string \<Rightarrow> string \<Rightarrow> 'p Op list \<Rightarrow> string \<Rightarrow> ('p, 'p Signed option) ctx" where
  "store_dsd_tx cr priv orgID sid ops docHash db =
     (let r = locked_row orgID sid db; db1 = put_dsd_row sid r db
      in if same_doc docHash r \<and> converged r then Inr (None, db1)
         else if same_doc docHash r \<and> sd_RedriveCount r \<ge> maxDSDRedrive
         then Inr (None, alertApplyStuckTx orgID sid (sd_Version r) (sd_FailedOps r) db1)
         else let doc = next_doc orgID sid ops r
              in case Sign cr priv doc of
                   Inl e \<Rightarrow> Inl e
                 | Inr sig \<Rightarrow>
                     Inr (Some \<lparr>Doc = doc, Signature = sig\<rparr>,
                          on_cp (auditTx orgID ''reconciler'' ''DSD issued'' (sid @ '' v'' @ itoa (Version doc)))
                            (put_dsd_row sid (issued_row doc sig docHash r) db1)))"

definition StoreDSD ::
  "db_verdict \<Rightarrow> 'p crypto \<Rightarrow> string \<Rightarrow> string \<Rightarrow> string \<Rightarrow> 'p Op list \<Rightarrow> string \<Rightarrow> 'p cp_db \<Rightarrow> 'p Signed option res \<times> 'p cp_db" where
  "StoreDSD v cr priv orgID sid ops docHash = in_tx v (store_dsd_tx cr priv orgID sid ops docHash)"

text \<open>One pass of the long poll: the version is read first, then the document. None is the end of the poll without a newer document.\<close>

definition handleGetDSD :: "'p cp_db \<Rightarrow> 'p cp_db \<Rightarrow> string \<Rightarrow> int \<Rightarrow> 'p Signed option res" where
  "handleGetDSD db db' sid after =
     (if CurrentDSDVersion db sid > after
      then (case cp_GetDSD db' sid of Inl e \<Rightarrow> Inl e | Inr signed \<Rightarrow> Inr (Some signed))
      else Inr None)"

section \<open>Statuses of documents\<close>

definition ResourceHostedHere :: "deploy_db \<Rightarrow> string \<Rightarrow> string \<Rightarrow> resource \<Rightarrow> bool" where
  "ResourceHostedHere t sid rid r \<longleftrightarrow>
     rs_ServerID r \<noteq> '''' \<and> rs_ServerID r = sid \<or>
     rs_ClusterID r \<noteq> '''' \<and> (rs_ClusterID r, sid) \<in> set (cluster_nodes t) \<or>
     (rid, sid) \<in> set (placements t)"

definition set_resource_status :: "string \<Rightarrow> string \<times> op_report \<Rightarrow> 'p cp_db \<Rightarrow> 'p cp_db" where
  "set_resource_status sid st db =
     (case map_of (resources (cp_tables db)) (fst st) of
        None \<Rightarrow> db
      | Some r \<Rightarrow>
          if ResourceHostedHere (cp_tables db) sid (fst st) r
          then db\<lparr>resource_status := AList.update (fst st) (snd st) (resource_status db)\<rparr> else db)"

definition apply_status_tx :: "string \<Rightarrow> int \<Rightarrow> (string \<times> op_report) list \<Rightarrow> bool \<Rightarrow> string list \<Rightarrow> ('p, bool) ctx" where
  "apply_status_tx sid version opStatus conv failedOps db =
     (case dsd_row_of db sid of
        None \<Rightarrow> Inl ErrNotFound
      | Some r \<Rightarrow>
          if version < sd_AppliedVersion r \<or> version > sd_Version r then Inr (False, db)
          else Inr (True, fold (set_resource_status sid) opStatus
                 (put_dsd_row sid (r\<lparr>sd_AppliedVersion := version, sd_ApplyOK := conv, sd_FailedOps := sort failedOps\<rparr>) db)))"

definition ApplyDSDStatus ::
  "db_verdict \<Rightarrow> string \<Rightarrow> int \<Rightarrow> (string \<times> op_report) list \<Rightarrow> bool \<Rightarrow> string list \<Rightarrow> 'p cp_db \<Rightarrow> bool res \<times> 'p cp_db" where
  "ApplyDSDStatus v sid version opStatus conv failedOps = in_tx v (apply_status_tx sid version opStatus conv failedOps)"

section \<open>Destructive operations\<close>

definition PendingDestructiveOpsForServer :: "string \<Rightarrow> string \<Rightarrow> 'p cp_db \<Rightarrow> PendingDestructiveOp list" where
  "PendingDestructiveOpsForServer orgID sid db =
     map (\<lambda>p. \<lparr>po_ID = pr_ID p, po_OpKind = pr_OpKind p, po_Target = pr_Target p\<rparr>)
       (sort_key pr_CreatedAt (sort_key pr_ID
         (filter (\<lambda>p. pr_ServerID p = sid \<and> pr_OrgID p = orgID \<and> pr_AppliedAt p = None) (pending_ops db))))"

definition MarkDestructiveOpApplied :: "db_verdict \<Rightarrow> string \<Rightarrow> string \<Rightarrow> 'p cp_db \<Rightarrow> goerr option \<times> 'p cp_db" where
  "MarkDestructiveOpApplied v sid i =
     statement v (\<lambda>db. db\<lparr>pending_ops := map (\<lambda>p. if pr_ID p = i \<and> pr_ServerID p = sid \<and> pr_AppliedAt p = None
        then p\<lparr>pr_AppliedAt := Some (cp_now db)\<rparr> else p) (pending_ops db)\<rparr>)"

text \<open>The token is random; its digest is what is stored.\<close>

definition issue_token_tx ::
  "(string \<Rightarrow> string) \<Rightarrow> string \<Rightarrow> string \<Rightarrow> string \<Rightarrow> string \<Rightarrow> string \<Rightarrow> string \<Rightarrow> timestamp \<Rightarrow> ('p, unit) ctx" where
  "issue_token_tx hashToken token orgID sid opKind target createdBy expiresAt db =
     (case cp_fresh ''sct'' db of
        (i, db) \<Rightarrow>
          if list_ex (\<lambda>c. ct_ID c = i \<or> ct_Hash c = hashToken token) (confirm_tokens db)
          then Inl (Wrapf ''insert confirm token'' (ErrString ''duplicate key value violates unique constraint''))
          else Inr ((), on_cp (auditTx orgID createdBy ''Destructive-op confirm requested'' (opKind @ '' '' @ target))
                 (db\<lparr>confirm_tokens := \<lparr>ct_ID = i, ct_OrgID = orgID, ct_ServerID = sid, ct_OpKind = opKind, ct_Target = target,
                      ct_Hash = hashToken token, ct_CreatedBy = createdBy, ct_ExpiresAt = expiresAt, ct_UsedAt = None\<rparr> # confirm_tokens db\<rparr>)))"

definition IssueConfirmToken ::
  "db_verdict \<Rightarrow> (string \<Rightarrow> string) \<Rightarrow> string \<Rightarrow> timestamp \<Rightarrow> string \<Rightarrow> string \<Rightarrow> string \<Rightarrow> string \<Rightarrow> string \<Rightarrow> duration \<Rightarrow> 'p cp_db \<Rightarrow>
   (string \<times> timestamp) res \<times> 'p cp_db" where
  "IssueConfirmToken v hashToken token t orgID sid opKind target createdBy ttl db =
     (case in_tx v (issue_token_tx hashToken token orgID sid opKind target createdBy (t + ttl)) db of
        (Inl e, db) \<Rightarrow> (Inl e, db) | (Inr _, db) \<Rightarrow> (Inr (token, t + ttl), db))"

definition insertPendingDestructiveOpTx :: "string \<Rightarrow> string \<Rightarrow> string \<Rightarrow> string \<Rightarrow> string \<Rightarrow> ('p, string) ctx" where
  "insertPendingDestructiveOpTx orgID sid opKind target createdBy db =
     (case cp_fresh ''pdo'' db of
        (i, db) \<Rightarrow>
          if list_ex (\<lambda>p. pr_ID p = i) (pending_ops db)
          then Inl (Wrapf ''insert pending destructive op'' (ErrString ''duplicate key value violates unique constraint''))
          else Inr (i, db\<lparr>pending_ops := \<lparr>pr_ID = i, pr_OrgID = orgID, pr_ServerID = sid, pr_OpKind = opKind, pr_Target = target,
                 pr_CreatedBy = createdBy, pr_CreatedAt = cp_now db, pr_AppliedAt = None\<rparr> # pending_ops db\<rparr>))"

definition usable_token :: "string \<Rightarrow> string \<Rightarrow> timestamp \<Rightarrow> confirm_token \<Rightarrow> bool" where
  "usable_token digest orgID t c \<longleftrightarrow> ct_Hash c = digest \<and> ct_OrgID c = orgID \<and> ct_UsedAt c = None \<and> ct_ExpiresAt c > t"

definition confirm_tx :: "(string \<Rightarrow> string) \<Rightarrow> string \<Rightarrow> string \<Rightarrow> string \<Rightarrow> string \<Rightarrow> string \<Rightarrow> string \<Rightarrow> ('p, string) ctx" where
  "confirm_tx hashToken orgID token sid opKind target actor db =
     (case find (usable_token (hashToken token) orgID (cp_now db)) (confirm_tokens db) of
        None \<Rightarrow> Inl ErrNotFound
      | Some c \<Rightarrow>
          let db1 = db\<lparr>confirm_tokens := map (\<lambda>x. if usable_token (hashToken token) orgID (cp_now db) x
                then x\<lparr>ct_UsedAt := Some (cp_now db)\<rparr> else x) (confirm_tokens db)\<rparr>
          in if ct_ServerID c \<noteq> sid \<or> ct_OpKind c \<noteq> opKind \<or> ct_Target c \<noteq> target
             then Inl (ErrInvalid ''confirm token does not authorise this operation'')
             else (case insertPendingDestructiveOpTx orgID sid opKind target actor db1 of
                     Inl e \<Rightarrow> Inl e
                   | Inr (i, db2) \<Rightarrow> Inr (i, on_cp (auditTx orgID actor ''Destructive-op confirmed'' (opKind @ '' '' @ target)) db2)))"

definition ConfirmDestructiveOp ::
  "db_verdict \<Rightarrow> (string \<Rightarrow> string) \<Rightarrow> string \<Rightarrow> string \<Rightarrow> string \<Rightarrow> string \<Rightarrow> string \<Rightarrow> string \<Rightarrow> 'p cp_db \<Rightarrow> string res \<times> 'p cp_db" where
  "ConfirmDestructiveOp v hashToken orgID token sid opKind target actor = in_tx v (confirm_tx hashToken orgID token sid opKind target actor)"

definition k8sTeardownWorkloads :: "(rune \<Rightarrow> rune) \<Rightarrow> (rune list \<Rightarrow> string) \<Rightarrow> string \<Rightarrow> compose_service list option \<Rightarrow> string list" where
  "k8sTeardownWorkloads lower digest resourceID compose =
     filter (\<lambda>n. n \<noteq> '''') (K8sWorkloadName lower digest resourceID '''' #
       (case compose of
          None \<Rightarrow> []
        | Some services \<Rightarrow> map (K8sWorkloadName lower digest resourceID) (filter (\<lambda>n. n \<noteq> '''') (map cs_Name services))))"

fun join_plain :: "string list \<Rightarrow> string" where
  "join_plain [] = ''''"
| "join_plain [x] = x"
| "join_plain (x # xs) = x @ '','' @ join_plain xs"

definition insertK8sTeardownTx ::
  "(rune \<Rightarrow> rune) \<Rightarrow> (rune list \<Rightarrow> string) \<Rightarrow> string \<Rightarrow> string \<Rightarrow> string \<Rightarrow> compose_service list option \<Rightarrow> ('p, string) ctx" where
  "insertK8sTeardownTx lower digest orgID clusterID resourceID compose db =
     (if clusterID = '''' then Inr ('''', db)
      else case map_of (control_planes db) clusterID of
             None \<Rightarrow> Inr ('''', db)
           | Some sid \<Rightarrow>
               let names = k8sTeardownWorkloads lower digest resourceID compose; target = join_plain names
               in if names = [] then Inr (sid, db)
                  else (case insertPendingDestructiveOpTx orgID sid KindK8sRemove target ''system'' db of
                          Inl e \<Rightarrow> Inl e
                        | Inr (_, db) \<Rightarrow> Inr (sid, on_cp (auditTx orgID ''system'' ''Cluster workload teardown queued'' target) db)))"

definition resourceVolumeNames :: "string \<Rightarrow> string list \<Rightarrow> string list" where
  "resourceVolumeNames resourceID volumes = map (VolumeName resourceID) (filter (\<lambda>n. n \<noteq> '''') volumes)"

section \<open>Object-storage operations\<close>

definition s3_failed_tx :: "string \<Rightarrow> string \<Rightarrow> string \<Rightarrow> ('p, unit) ctx" where
  "s3_failed_tx sid opID detail db =
     (let hit = (\<lambda>o'. sr_ID o' = opID \<and> sr_ServerID o' = sid \<and> sr_AppliedAt o' = None \<and> sr_FailedAt o' = None)
      in case find hit (pending_s3_ops db) of
           None \<Rightarrow> Inl ErrNotFound
         | Some x \<Rightarrow>
             let db1 = db\<lparr>pending_s3_ops := map (\<lambda>o'. if hit o' then o'\<lparr>sr_FailedAt := Some (cp_now db), sr_Detail := take 4000 detail\<rparr> else o')
                   (pending_s3_ops db)\<rparr>
             in Inr ((), if sr_Action x = ''create-bucket''
                  then db1\<lparr>s3_buckets := map (\<lambda>b. if sb_OrgID b = sr_OrgID x \<and> sb_ResourceID b = sr_ResourceID x \<and> sb_Name b = sr_Bucket x \<and>
                         sb_Status b = ''provisioning'' then b\<lparr>sb_Status := ''failed''\<rparr> else b) (s3_buckets db1)\<rparr>
                  else db1))"

definition MarkS3OpFailed :: "db_verdict \<Rightarrow> string \<Rightarrow> string \<Rightarrow> string \<Rightarrow> 'p cp_db \<Rightarrow> unit res \<times> 'p cp_db" where
  "MarkS3OpFailed v sid opID detail = in_tx v (s3_failed_tx sid opID detail)"

definition FailS3OpFromOpStatus :: "db_verdict \<Rightarrow> string \<Rightarrow> string \<Rightarrow> string \<Rightarrow> 'p cp_db \<Rightarrow> goerr option \<times> 'p cp_db" where
  "FailS3OpFromOpStatus v sid opID errText db =
     (case MarkS3OpFailed v sid opID errText db of
        (Inl e, db) \<Rightarrow> (if e = ErrNotFound then None else Some e, db) | (Inr _, db) \<Rightarrow> (None, db))"

section \<open>A status report\<close>

definition deployPhaseRank :: "string \<Rightarrow> int" where
  "deployPhaseRank phase = (if phase = ''clone'' then 0 else if phase = ''build'' then 1 else if phase = ''rollout'' then 2 else 3)"

text \<open>\<open>TrimPrefix\<close>, and the split at the first colon: what comes before it and what after, if there is one.\<close>

definition after_prefix :: "string \<Rightarrow> string \<Rightarrow> string" where
  "after_prefix p s = drop (length p) s"

definition cut_colon :: "string \<Rightarrow> string \<times> string" where
  "cut_colon s = (takeWhile (\<lambda>c. c \<noteq> CHR '':'') s, tl (dropWhile (\<lambda>c. c \<noteq> CHR '':'') s))"

definition deployPhase :: "string \<Rightarrow> (string \<times> string \<times> string) option" where
  "deployPhase opID =
     (if has_prefix opID ''clone:'' then Some (''clone'', cut_colon (after_prefix ''clone:'' opID))
      else if has_prefix opID ''build:'' then Some (''build'', cut_colon (after_prefix ''build:'' opID))
      else if has_prefix opID ''res:'' then Some (''rollout'', cut_colon (after_prefix ''res:'' opID))
      else None)"

definition deployPrereqResource :: "string \<Rightarrow> string option" where
  "deployPrereqResource opID =
     (let rest = (if has_prefix opID ''pull:'' then Some (after_prefix ''pull:'' opID)
                  else if has_prefix opID ''vol:'' then Some (after_prefix ''vol:'' opID)
                  else if has_prefix opID ''net:res:'' then Some (after_prefix ''net:res:'' opID) else None)
      in case rest of
           None \<Rightarrow> None
         | Some s \<Rightarrow> if fst (cut_colon s) = '''' then None else Some (fst (cut_colon s)))"

record deployAdvance =
  da_phase :: string
  da_resID :: string
  da_service :: string
  da_errText :: string
  da_ok :: bool

text \<open>What the database does with each call: its verdict by the kind of call and the op or resource it is for.\<close>

record status_env =
  se_verdict :: "string \<Rightarrow> string \<Rightarrow> db_verdict"
  se_fault :: "string \<Rightarrow> string \<Rightarrow> goerr option"
  se_tie :: nat

text \<open>The local variables of the loop over the reported ops.\<close>

record ingest =
  ig_converged :: bool
  ig_failedOps :: "string list"
  ig_advances :: "deployAdvance list"
  ig_byResource :: "(string \<times> op_report) list"
  ig_composeAgg :: "(string \<times> op_report) list" \<comment> \<open>resource, status of a service, in order\<close>
  ig_prereqs :: "(string \<times> string \<times> string) list" \<comment> \<open>op, resource, error\<close>

definition ingest_start :: ingest where
  "ingest_start = \<lparr>ig_converged = True, ig_failedOps = [], ig_advances = [], ig_byResource = [], ig_composeAgg = [], ig_prereqs = []\<rparr>"

definition failing :: "op_report \<Rightarrow> bool" where
  "failing st \<longleftrightarrow> rp_State st = ''failed'' \<or> rp_State st = ''skipped''"

definition synthetic :: "string \<Rightarrow> string \<Rightarrow> op_report" where
  "synthetic state err = \<lparr>rp_State = state, rp_Error = err, rp_Rest = ''''\<rparr>"

definition ingest_op :: "string \<times> op_report \<Rightarrow> ingest \<Rightarrow> ingest" where
  "ingest_op p g =
     (case p of
        (opID, st) \<Rightarrow>
          let g = (if failing st then g\<lparr>ig_converged := False, ig_failedOps := ig_failedOps g @ [opID]\<rparr> else g);
              g = (case deployPhase opID of
                     None \<Rightarrow> g
                   | Some (phase, resID, service) \<Rightarrow>
                       if rp_State st = '''' then g
                       else g\<lparr>ig_advances := ig_advances g @ [\<lparr>da_phase = phase, da_resID = resID, da_service = service,
                              da_errText = rp_Error st, da_ok = (rp_State st = ''applied'')\<rparr>]\<rparr>);
              g = (case (rp_State st = ''failed'', deployPrereqResource opID) of
                     (True, Some resID) \<Rightarrow> g\<lparr>ig_prereqs := ig_prereqs g @ [(opID, resID, rp_Error st)]\<rparr> | _ \<Rightarrow> g)
          in if has_prefix opID ''res:'' then
               let k = after_prefix ''res:'' opID
               in if CHR '':'' \<notin> set k then g\<lparr>ig_byResource := AList.update k st (ig_byResource g)\<rparr>
                  else g\<lparr>ig_composeAgg := ig_composeAgg g @ [(fst (cut_colon k), synthetic (rp_State st) (rp_Error st))]\<rparr>
             else g)"

definition retire_op :: "status_env \<Rightarrow> string \<Rightarrow> string \<times> op_report \<Rightarrow> 'p cp_db \<Rightarrow> 'p cp_db" where
  "retire_op se sid p db =
     (case p of
        (opID, st) \<Rightarrow>
          if has_prefix opID ''res:'' then db
          else if has_prefix opID ''volrm:'' \<or> has_prefix opID ''k8srm:'' then
            (if rp_State st = ''applied''
             then snd (MarkDestructiveOpApplied (se_verdict se ''mark'' opID) sid (snd (cut_colon opID)) db) else db)
          else if has_prefix opID ''bkr:'' then
            (if rp_State st = ''failed''
             then db\<lparr>cp_backup := snd (FailBackupRunFromOpStatus (se_verdict se ''backup'' opID) sid (after_prefix ''bkr:'' opID) (rp_Error st) (cp_backup db))\<rparr>
             else db)
          else if has_prefix opID ''s3cfg:'' then
            (if rp_State st = ''failed''
             then snd (FailS3OpFromOpStatus (se_verdict se ''s3'' opID) sid (after_prefix ''s3cfg:'' opID) (rp_Error st) db) else db)
          else db)"

definition fail_prereq :: "status_env \<Rightarrow> string \<Rightarrow> int \<Rightarrow> string \<times> string \<times> string \<Rightarrow> 'p cp_db \<Rightarrow> 'p cp_db" where
  "fail_prereq se sid version p =
     (case p of
        (opID, resID, errText) \<Rightarrow>
          on_cp (\<lambda>t. snd (FailDeploymentFromPrereqOp (se_fault se ''prereq'' opID) (se_verdict se ''log'' opID) (se_verdict se ''prereq'' opID) (se_tie se)
            sid resID opID errText version t)))"

definition advance_one :: "status_env \<Rightarrow> string \<Rightarrow> int \<Rightarrow> deployAdvance \<Rightarrow> 'p cp_db \<Rightarrow> 'p cp_db" where
  "advance_one se sid version a =
     on_cp (\<lambda>t. if da_service a = ''''
       then snd (AdvanceDeploymentForResource (se_fault se (da_phase a) (da_resID a)) (se_verdict se (da_phase a) (da_resID a)) (se_tie se)
              sid (da_resID a) (da_phase a) (da_ok a) (da_errText a) version t)
       else snd (AdvanceDeploymentService (se_verdict se (da_phase a) (da_resID a @ '':'' @ da_service a)) (se_tie se)
              sid (da_resID a) (da_service a) (da_phase a) (da_ok a) (da_errText a) version t))"

text \<open>The status of an app from those of its services, and that of a failed prerequisite; neither replaces a reported one.\<close>

definition compose_status :: "op_report list \<Rightarrow> op_report" where
  "compose_status sts = (case find (\<lambda>st. rp_State st \<noteq> ''applied'') sts of None \<Rightarrow> synthetic ''applied'' '''' | Some st \<Rightarrow> st)"

definition add_missing :: "string \<Rightarrow> op_report \<Rightarrow> (string \<times> op_report) list \<Rightarrow> (string \<times> op_report) list" where
  "add_missing k st m = (if map_of m k = None then m @ [(k, st)] else m)"

definition report_statuses :: "ingest \<Rightarrow> (string \<times> op_report) list" where
  "report_statuses g =
     (let agg = ig_composeAgg g;
          m = fold (\<lambda>k. add_missing k (compose_status (map snd (filter (\<lambda>(k', st). k' = k) agg)))) (remdups (map fst agg)) (ig_byResource g)
      in fold (\<lambda>(opID, resID, errText). add_missing resID (synthetic ''failed'' (opID @ '': '' @ errText)))
           (sort_key fst (ig_prereqs g)) m)"

datatype status_answer = Accepted bool | NoDSD | InternalError

definition handleDSDStatus ::
  "status_env \<Rightarrow> string \<Rightarrow> int \<Rightarrow> (string \<times> op_report) list \<Rightarrow> 'p cp_db \<Rightarrow> (status_answer \<times> string list) \<times> 'p cp_db" where
  "handleDSDStatus se sid version ops db =
     (let g = fold ingest_op ops ingest_start;
          advances = sort_key (\<lambda>a. deployPhaseRank (da_phase a)) (ig_advances g);
          db = fold (retire_op se sid) ops db;
          db = fold (fail_prereq se sid version) (sort_key fst (ig_prereqs g)) db;
          db = fold (advance_one se sid version) advances db;
          nudged = rev (remdups (rev (map da_resID advances)))
      in case ApplyDSDStatus (se_verdict se ''status'' sid) sid version (report_statuses g) (ig_converged g) (ig_failedOps g) db of
           (Inl e, db) \<Rightarrow> ((if e = ErrNotFound then NoDSD else InternalError, nudged), db)
         | (Inr b, db) \<Rightarrow> ((Accepted b, nudged), db))"

end
