(* ===== verification/Publish_Props.thy ===== *)
theory Publish_Props
  imports Publish Agent_Props "HOL-Library.Sublist"
begin

text \<open>
  Properties of publication. The specification is a log per server, to which documents are only ever appended, with consecutive
  versions (\<open>log_step\<close>). Every operation of the store is shown to either leave the log alone or append one document, whatever
  happens to its transaction (\<open>serves\<close> relates the two states). The rest follows the life of a version: it is accepted by the agent it is
  for, reported on, re-issued when its apply failed, and given up after a bounded number of attempts.
\<close>

section \<open>Frames\<close>

lemma on_cp_frame [simp]:
  "server_dsd (on_cp f db) = server_dsd db" "pending_ops (on_cp f db) = pending_ops db" "confirm_tokens (on_cp f db) = confirm_tokens db"
  "dsd_row_of (on_cp f db) sid = dsd_row_of db sid" "cp_tables (on_cp f db) = f (cp_tables db)"
  "backup_runs (cp_backup (on_cp f db)) = backup_runs (cp_backup db)"
  by (simp_all add: on_cp_def dsd_row_of_def cp_tables_def on_tables_def)

lemma put_row_frame [simp]:
  "dsd_row_of (put_dsd_row sid r db) i = (if i = sid then Some r else dsd_row_of db i)"
  "pending_ops (put_dsd_row sid r db) = pending_ops db" "confirm_tokens (put_dsd_row sid r db) = confirm_tokens db"
  "cp_backup (put_dsd_row sid r db) = cp_backup db"
  by (simp_all add: dsd_row_of_def put_dsd_row_def update_conv)

lemma alert_frame [simp]:
  "dsd_row_of (alertApplyStuckTx orgID sid n ops db) i = dsd_row_of db i"
  by (simp add: alertApplyStuckTx_def Let_def)

lemma fold_frame: "(\<And>x db. f (g x db) = f db) \<Longrightarrow> f (fold g xs db) = f db"
  by (induction xs arbitrary: db) auto

lemma set_status_frame [simp]:
  "server_dsd (fold (set_resource_status sid) sts db) = server_dsd db" "cp_backup (fold (set_resource_status sid) sts db) = cp_backup db"
  by (rule fold_frame, simp add: set_resource_status_def split: option.splits)+

lemma retire_frame: "server_dsd (retire_op se sid p db) = server_dsd db"
  by (auto simp: retire_op_def MarkDestructiveOpApplied_def FailS3OpFromOpStatus_def MarkS3OpFailed_def statement_def in_tx_def
    s3_failed_tx_def Let_def split: prod.splits db_verdict.splits sum.splits option.splits if_splits)

lemma fail_prereq_frame [simp]: "server_dsd (fail_prereq se sid n p db) = server_dsd db"
  "backup_runs (cp_backup (fail_prereq se sid n p db)) = backup_runs (cp_backup db)"
  by (simp_all add: fail_prereq_def split: prod.splits)

lemma advance_one_frame [simp]: "server_dsd (advance_one se sid n a db) = server_dsd db"
  "backup_runs (cp_backup (advance_one se sid n a db)) = backup_runs (cp_backup db)"
  by (simp_all add: advance_one_def)

text \<open>What a status report does to the rows of the documents: nothing, or it records the version on one row.\<close>

lemma handle_status_tail:
  assumes "handleDSDStatus se sid version ops db = (a, db')"
  shows "\<exists>db1 x. dsd_row_of db1 = dsd_row_of db \<and>
    ApplyDSDStatus (se_verdict se ''status'' sid) sid version (report_statuses (fold ingest_op ops ingest_start))
      (ig_converged (fold ingest_op ops ingest_start)) (ig_failedOps (fold ingest_op ops ingest_start)) db1 = (x, db') \<and>
    (fst a = Accepted True \<longrightarrow> x = Inr True)"
proof -
  let ?g = "fold ingest_op ops ingest_start"
  define db1 where "db1 = fold (advance_one se sid version) (sort_key (\<lambda>a. deployPhaseRank (da_phase a)) (ig_advances ?g))
     (fold (fail_prereq se sid version) (sort_key fst (ig_prereqs ?g)) (fold (retire_op se sid) ops db))"
  have "server_dsd db1 = server_dsd db" unfolding db1_def by (simp add: fold_frame [where f = server_dsd] retire_frame)
  then have "dsd_row_of db1 = dsd_row_of db" by (simp add: dsd_row_of_def fun_eq_iff)
  moreover have "\<exists>x. ApplyDSDStatus (se_verdict se ''status'' sid) sid version (report_statuses ?g) (ig_converged ?g) (ig_failedOps ?g) db1 = (x, db') \<and>
      (fst a = Accepted True \<longrightarrow> x = Inr True)"
    using assms by (auto simp: handleDSDStatus_def Let_def db1_def split: prod.splits sum.splits if_splits)
  ultimately show ?thesis by blast
qed

lemma handle_status_rows:
  assumes "handleDSDStatus se sid version ops db = (a, db')"
  obtains "dsd_row_of db' = dsd_row_of db"
  | r where "dsd_row_of db sid = Some r" "sd_AppliedVersion r \<le> version" "version \<le> sd_Version r"
    "dsd_row_of db' = (dsd_row_of db)(sid \<mapsto> r\<lparr>sd_AppliedVersion := version, sd_ApplyOK := ig_converged (fold ingest_op ops ingest_start),
       sd_FailedOps := sort (ig_failedOps (fold ingest_op ops ingest_start))\<rparr>)"
proof -
  let ?g = "fold ingest_op ops ingest_start"
  obtain db1 x where rows: "dsd_row_of db1 = dsd_row_of db"
    and run: "ApplyDSDStatus (se_verdict se ''status'' sid) sid version (report_statuses ?g) (ig_converged ?g) (ig_failedOps ?g) db1 = (x, db')"
    using handle_status_tail [OF assms] by blast
  from run consider "db' = db1" | y where "apply_status_tx sid version (report_statuses ?g) (ig_converged ?g) (ig_failedOps ?g) db1 = Inr (y, db')"
    unfolding ApplyDSDStatus_def by (rule in_tx_cases)
  then show thesis
  proof cases
    case 1
    then show ?thesis using that(1) rows by simp
  next
    case 2
    then consider "db' = db1" | r where "dsd_row_of db1 sid = Some r" "sd_AppliedVersion r \<le> version" "version \<le> sd_Version r"
      "db' = fold (set_resource_status sid) (report_statuses ?g)
         (put_dsd_row sid (r\<lparr>sd_AppliedVersion := version, sd_ApplyOK := ig_converged ?g, sd_FailedOps := sort (ig_failedOps ?g)\<rparr>) db1)"
      by (auto simp: apply_status_tx_def not_less split: option.splits if_splits)
    then show ?thesis
    proof cases
      case 1
      then show ?thesis using that(1) rows by simp
    next
      case (2 r)
      have "dsd_row_of db' = dsd_row_of (put_dsd_row sid (r\<lparr>sd_AppliedVersion := version, sd_ApplyOK := ig_converged ?g, sd_FailedOps := sort (ig_failedOps ?g)\<rparr>) db1)"
        unfolding 2(4) by (simp add: dsd_row_of_def fun_eq_iff)
      then show ?thesis using that(2) [of r] 2(1-3) rows by (simp add: fun_eq_iff)
    qed
  qed
qed

section \<open>The log\<close>

type_synonym 'p doc_log = "string \<Rightarrow> 'p Document list"

inductive log_step :: "'p doc_log \<Rightarrow> 'p doc_log \<Rightarrow> bool" where
  append: "Version doc = int (length (L sid)) + 1 \<Longrightarrow> ServerID doc = sid \<Longrightarrow> log_step L (L(sid := L sid @ [doc]))"

text \<open>A row of the table against the documents issued for its server.\<close>

definition row_serves :: "'p crypto \<Rightarrow> string \<Rightarrow> 'p dsd_row \<Rightarrow> 'p Document list \<Rightarrow> bool" where
  "row_serves cr priv r docs \<longleftrightarrow> sd_Version r = int (length docs) \<and> 0 \<le> sd_AppliedVersion r \<and> sd_AppliedVersion r \<le> sd_Version r \<and>
     0 \<le> sd_RedriveCount r \<and> (docs \<noteq> [] \<longrightarrow> sd_Doc r = Some (last docs) \<and> Sign cr priv (last docs) = Inr (sd_Signature r))"

definition serves :: "'p crypto \<Rightarrow> string \<Rightarrow> 'p cp_db \<Rightarrow> 'p doc_log \<Rightarrow> bool" where
  "serves cr priv db L \<longleftrightarrow> (\<forall>sid. case dsd_row_of db sid of None \<Rightarrow> L sid = [] | Some r \<Rightarrow> row_serves cr priv r (L sid))"

lemma serves_row: "serves cr priv db L \<Longrightarrow> dsd_row_of db sid = Some r \<Longrightarrow> row_serves cr priv r (L sid)"
  by (metis option.simps(5) serves_def)

lemma serves_update:
  assumes "serves cr priv db L" "dsd_row_of db' = (dsd_row_of db)(sid \<mapsto> r)" "row_serves cr priv r docs"
  shows "serves cr priv db' (L(sid := docs))"
  using assms by (simp add: serves_def cong: option.case_cong)

text \<open>
  The operations of the store on documents, with \<open>others\<close> for all that leaves the rows of \<open>server_dsd\<close> alone.
\<close>

inductive publish_step :: "'p crypto \<Rightarrow> string \<Rightarrow> 'p cp_db \<Rightarrow> 'p cp_db \<Rightarrow> bool" for cr priv where
  store: "StoreDSD v cr priv orgID sid ops docHash db = (x, db') \<Longrightarrow> publish_step cr priv db db'"
| status: "handleDSDStatus se sid version reports db = (a, db') \<Longrightarrow> publish_step cr priv db db'"
| force: "ForceReapplyResource v orgID resourceID actor db = (y, db') \<Longrightarrow> publish_step cr priv db db'"
| others: "server_dsd db' = server_dsd db \<Longrightarrow> publish_step cr priv db db'"

lemma serves_same: "dsd_row_of db' = dsd_row_of db \<Longrightarrow> serves cr priv db L \<Longrightarrow> serves cr priv db' L"
  by (simp add: serves_def)

text \<open>The outcomes of a store: the row is as it was (or created empty), or a document with the next version is on it.\<close>

lemma store_dsd_cases:
  assumes "store_dsd_tx cr priv orgID sid ops docHash db = Inr (x, db')"
  obtains "x = None" "same_doc docHash (locked_row orgID sid db)" "dsd_row_of db' = (dsd_row_of db)(sid \<mapsto> locked_row orgID sid db)"
      "converged (locked_row orgID sid db) \<or> sd_RedriveCount (locked_row orgID sid db) \<ge> maxDSDRedrive"
  | sig where "x = Some \<lparr>Doc = next_doc orgID sid ops (locked_row orgID sid db), Signature = sig\<rparr>"
      "Sign cr priv (next_doc orgID sid ops (locked_row orgID sid db)) = Inr sig"
      "\<not> same_doc docHash (locked_row orgID sid db) \<or> \<not> converged (locked_row orgID sid db) \<and> sd_RedriveCount (locked_row orgID sid db) < maxDSDRedrive"
      "dsd_row_of db' = (dsd_row_of db)(sid \<mapsto> issued_row (next_doc orgID sid ops (locked_row orgID sid db)) sig docHash (locked_row orgID sid db))"
  using assms by (auto simp: store_dsd_tx_def Let_def fun_eq_iff not_le split: if_splits sum.splits)

lemma serves_locked: "serves cr priv db L \<Longrightarrow> row_serves cr priv (locked_row orgID sid db) (L sid)"
  unfolding serves_def locked_row_def by (drule spec [of _ sid]) (auto simp: row_serves_def new_dsd_row_def split: option.splits)

lemma store_simulates:
  assumes "store_dsd_tx cr priv orgID sid ops docHash db = Inr (x, db')" "serves cr priv db L"
  shows "\<exists>L'. log_step\<^sup>*\<^sup>* L L' \<and> serves cr priv db' L'"
  using assms(1)
proof (cases rule: store_dsd_cases)
  case 1
  then have "serves cr priv db' (L(sid := L sid))" using assms(2) serves_locked by (intro serves_update) auto
  then show ?thesis by auto
next
  case (2 sig)
  let ?doc = "next_doc orgID sid ops (locked_row orgID sid db)" and ?r = "locked_row orgID sid db"
  have r: "row_serves cr priv ?r (L sid)" using assms(2) by (rule serves_locked)
  then have "log_step L (L(sid := L sid @ [?doc]))" by (intro log_step.append) (simp_all add: next_doc_def row_serves_def)
  moreover have "row_serves cr priv (issued_row ?doc sig docHash ?r) (L sid @ [?doc])"
    using r 2(2) by (simp add: row_serves_def issued_row_def next_doc_def)
  then have "serves cr priv db' (L(sid := L sid @ [?doc]))" using assms(2) 2(4) by (intro serves_update)
  ultimately show ?thesis by blast
qed

lemma update_row_serves:
  assumes "serves cr priv db L" "dsd_row_of db sid = Some r" "dsd_row_of db' = (dsd_row_of db)(sid \<mapsto> r')"
    and "sd_Version r' = sd_Version r" "sd_Doc r' = sd_Doc r" "sd_Signature r' = sd_Signature r" "0 \<le> sd_AppliedVersion r'"
      "sd_AppliedVersion r' \<le> sd_Version r'" "0 \<le> sd_RedriveCount r'"
  shows "serves cr priv db' L"
proof -
  have "row_serves cr priv r' (L sid)" using serves_row [OF assms(1,2)] assms(4-9) by (simp add: row_serves_def)
  then have "serves cr priv db' (L(sid := L sid))" using assms(1,3) by (intro serves_update)
  then show ?thesis by simp
qed

lemma publish_simulates: "publish_step cr priv db db' \<Longrightarrow> serves cr priv db L \<Longrightarrow> \<exists>L'. log_step\<^sup>*\<^sup>* L L' \<and> serves cr priv db' L'"
proof (induction rule: publish_step.induct)
  case (store v orgID sid ops docHash db x db')
  then consider "db' = db" | y where "store_dsd_tx cr priv orgID sid ops docHash db = Inr (y, db')"
    unfolding StoreDSD_def by (auto elim: in_tx_cases)
  then show ?case using store.prems store_simulates by cases blast+
next
  case (status se sid version reports db a db')
  from status.hyps show ?case
  proof (cases rule: handle_status_rows)
    case 1
    then show ?thesis using serves_same status.prems by blast
  next
    case (2 r)
    have "0 \<le> sd_AppliedVersion r" "0 \<le> sd_RedriveCount r"
      using serves_row [OF status.prems 2(1)] by (simp_all add: row_serves_def)
    then have "serves cr priv db' L" using 2(2,3) by (intro update_row_serves [OF status.prems 2(1,4)]) simp_all
    then show ?thesis by blast
  qed
next
  case (force v orgID resourceID actor db y db')
  then consider "db' = db" | z where "force_reapply_tx orgID resourceID actor db = Inr (z, db')"
    unfolding ForceReapplyResource_def by (auto elim: in_tx_cases)
  then show ?case
  proof cases
    case 1
    then show ?thesis using force.prems by blast
  next
    case (2 z)
    then consider "dsd_row_of db' = dsd_row_of db"
      | r where "dsd_row_of db z = Some r" "dsd_row_of db' = (dsd_row_of db)(z \<mapsto> r\<lparr>sd_DocHash := '''', sd_RedriveCount := 0\<rparr>)"
      by (auto simp: force_reapply_tx_def Let_def fun_eq_iff split: option.splits if_splits)
    then show ?thesis
    proof cases
      case 1
      then show ?thesis using serves_same force.prems by blast
    next
      case (2 r)
      have "0 \<le> sd_AppliedVersion r" "sd_AppliedVersion r \<le> sd_Version r"
        using serves_row [OF force.prems 2(1)] by (simp_all add: row_serves_def)
      then have "serves cr priv db' L" by (intro update_row_serves [OF force.prems 2]) simp_all
      then show ?thesis by blast
    qed
  qed
next
  case (others db' db)
  then show ?case using serves_same [of db' db] by (auto simp: dsd_row_of_def fun_eq_iff)
qed

lemma publish_steps_simulate:
  "(publish_step cr priv)\<^sup>*\<^sup>* db db' \<Longrightarrow> serves cr priv db L \<Longrightarrow> \<exists>L'. log_step\<^sup>*\<^sup>* L L' \<and> serves cr priv db' L'"
proof (induction rule: rtranclp_induct)
  case (step db1 db2)
  then show ?case using publish_simulates rtranclp_trans by meson
qed blast

lemma serves_init: "server_dsd db = [] \<Longrightarrow> serves cr priv db (\<lambda>_. [])"
  by (simp add: serves_def dsd_row_of_def)

text \<open>What the log keeps: consecutive versions from 1, every document for its own server; and it only grows.\<close>

definition log_ok :: "'p doc_log \<Rightarrow> bool" where
  "log_ok L \<longleftrightarrow> (\<forall>sid. map Version (L sid) = map int [1..<Suc (length (L sid))] \<and> (\<forall>doc \<in> set (L sid). ServerID doc = sid))"

lemma log_ok_init: "log_ok (\<lambda>_. [])"
  by (simp add: log_ok_def)

lemma log_step_ok: "log_step L L' \<Longrightarrow> log_ok L \<Longrightarrow> log_ok L' \<and> prefix (L sid) (L' sid)"
  by (induction rule: log_step.induct) (auto simp: log_ok_def)

lemma log_steps_ok: "log_step\<^sup>*\<^sup>* L L' \<Longrightarrow> log_ok L \<Longrightarrow> log_ok L' \<and> prefix (L sid) (L' sid)"
proof (induction rule: rtranclp_induct)
  case (step L1 L2)
  then show ?case using log_step_ok [of L1 L2 sid] prefix_order.trans by blast
qed simp

lemma log_ok_last: "log_ok L \<Longrightarrow> L sid \<noteq> [] \<Longrightarrow> Version (last (L sid)) = int (length (L sid)) \<and> ServerID (last (L sid)) = sid"
proof -
  assume ok: "log_ok L" and ne: "L sid \<noteq> []"
  then have "Version (last (L sid)) = last (map int [1..<Suc (length (L sid))])"
    unfolding log_ok_def by (metis last_map)
  moreover have "1 \<le> length (L sid)" using ne by (cases "L sid") simp_all
  ultimately show ?thesis using ok ne by (simp add: log_ok_def)
qed

lemma publish_log:
  assumes "server_dsd db0 = []" "(publish_step cr priv)\<^sup>*\<^sup>* db0 db1" "(publish_step cr priv)\<^sup>*\<^sup>* db1 db2"
  obtains L1 L2 where "log_step\<^sup>*\<^sup>* (\<lambda>_. []) L1" "log_step\<^sup>*\<^sup>* L1 L2" "serves cr priv db1 L1" "serves cr priv db2 L2" "log_ok L1" "log_ok L2"
proof -
  obtain L1 where 1: "log_step\<^sup>*\<^sup>* (\<lambda>_. []) L1" "serves cr priv db1 L1"
    using publish_steps_simulate [OF assms(2) serves_init] assms(1) by blast
  obtain L2 where 2: "log_step\<^sup>*\<^sup>* L1 L2" "serves cr priv db2 L2" using publish_steps_simulate [OF assms(3) 1(2)] by blast
  then show thesis using that 1 log_steps_ok log_ok_init by metis
qed

section \<open>What an agent is served\<close>

text \<open>
  The interface the long poll relies on: versions never go back, and a server with a version has a document with that very
  version, good for that server. The poll reads the version and then the document, with any steps of others in between.
\<close>

locale document_source =
  fixes current :: "'s \<Rightarrow> string \<Rightarrow> int"
    and fetch :: "'s \<Rightarrow> string \<Rightarrow> 'p Signed res"
    and ok :: "'s \<Rightarrow> bool"
    and step :: "'s \<Rightarrow> 's \<Rightarrow> bool"
    and good :: "string \<Rightarrow> 'p Signed \<Rightarrow> bool"
  assumes step_ok: "ok s \<Longrightarrow> step s s' \<Longrightarrow> ok s'"
    and current_grows: "ok s \<Longrightarrow> step s s' \<Longrightarrow> current s sid \<le> current s' sid"
    and fetch_current: "ok s \<Longrightarrow> 0 < current s sid \<Longrightarrow> \<exists>d. fetch s sid = Inr d \<and> Version (Doc d) = current s sid \<and> good sid d"
begin

lemma steps_grow: "step\<^sup>*\<^sup>* s s' \<Longrightarrow> ok s \<Longrightarrow> ok s' \<and> current s sid \<le> current s' sid"
  by (induction rule: rtranclp_induct) (use step_ok current_grows order_trans in blast)+

lemma poll_serves_newer:
  assumes "ok s" "step\<^sup>*\<^sup>* s s'" "0 \<le> n" "n < current s sid"
  shows "\<exists>d. fetch s' sid = Inr d \<and> n < Version (Doc d) \<and> good sid d"
  using steps_grow [OF assms(2,1), of sid] fetch_current [of s' sid] assms(3,4) by auto

end

definition published :: "'p crypto \<Rightarrow> string \<Rightarrow> 'p cp_db \<Rightarrow> bool" where
  "published cr priv db \<longleftrightarrow> (\<exists>L. log_ok L \<and> serves cr priv db L)"

definition signed_for :: "'p crypto \<Rightarrow> string \<Rightarrow> string \<Rightarrow> 'p Signed \<Rightarrow> bool" where
  "signed_for cr priv sid d \<longleftrightarrow> ServerID (Doc d) = sid \<and> Sign cr priv (Doc d) = Inr (Signature d)"

lemma serves_version: "serves cr priv db L \<Longrightarrow> CurrentDSDVersion db sid = int (length (L sid))"
  unfolding serves_def CurrentDSDVersion_def by (drule spec [of _ sid]) (auto simp: row_serves_def split: option.splits)

lemma serves_fetch:
  assumes "serves cr priv db L" "L sid \<noteq> []"
  shows "\<exists>sig. cp_GetDSD db sid = Inr \<lparr>Doc = last (L sid), Signature = sig\<rparr> \<and> Sign cr priv (last (L sid)) = Inr sig"
  using assms unfolding serves_def cp_GetDSD_def by (auto simp: row_serves_def split: option.splits dest!: spec [of _ sid])

interpretation pub: document_source CurrentDSDVersion cp_GetDSD "published cr priv" "publish_step cr priv" "signed_for cr priv" for cr priv
proof
  fix s s' :: "'a cp_db" and sid
  assume "published cr priv s" "publish_step cr priv s s'"
  then obtain L L' where L: "log_ok L" "serves cr priv s L" "log_step\<^sup>*\<^sup>* L L'" "serves cr priv s' L'"
    unfolding published_def using publish_simulates by blast
  note log = log_steps_ok [OF L(3,1), of sid]
  show "published cr priv s'" unfolding published_def using log L(4) by blast
  show "CurrentDSDVersion s sid \<le> CurrentDSDVersion s' sid"
    using log by (simp add: serves_version [OF L(2)] serves_version [OF L(4)] prefix_length_le)
next
  fix s :: "'a cp_db" and sid
  assume "published cr priv s" and pos: "0 < CurrentDSDVersion s sid"
  then obtain L where L: "log_ok L" "serves cr priv s L" unfolding published_def by blast
  then have "L sid \<noteq> []" using pos serves_version [of cr priv s L sid] by auto
  then show "\<exists>d. cp_GetDSD s sid = Inr d \<and> Version (Doc d) = CurrentDSDVersion s sid \<and> signed_for cr priv sid d"
    using serves_fetch [OF L(2)] log_ok_last [OF L(1)] serves_version [OF L(2)] unfolding signed_for_def by fastforce
qed
text \<open>
  C13. The table of documents implements an append-only log per server (dsd_store.go, StoreDSD, GetDSD, CurrentDSDVersion,
  ForceReapplyResource, ApplyDSDStatus; dsd.go, handleDSDStatus). In every run of the control plane that starts with no documents,
  with any interleaving of renders, status reports, forced re-applies and anything else, and with any of the transactions
  failing or losing its acknowledgement, the versions a server is given are 1, 2, 3, ... without gap or repetition, what was issued
  once is never changed, and at every moment the version and document served are those of the
  last entry, signed and for that server.
\<close>

theorem publication_refines_log:
  assumes "server_dsd db0 = []" "(publish_step cr priv)\<^sup>*\<^sup>* db0 db1" "(publish_step cr priv)\<^sup>*\<^sup>* db1 db2"
  shows "\<exists>L1 L2. log_step\<^sup>*\<^sup>* (\<lambda>_. []) L1 \<and> log_step\<^sup>*\<^sup>* L1 L2 \<and> serves cr priv db1 L1 \<and> serves cr priv db2 L2 \<and>
    (\<forall>sid. prefix (L1 sid) (L2 sid) \<and> map Version (L2 sid) = map int [1..<Suc (length (L2 sid))] \<and>
       CurrentDSDVersion db2 sid = int (length (L2 sid)) \<and>
       (L2 sid \<noteq> [] \<longrightarrow> ServerID (last (L2 sid)) = sid \<and>
          (\<exists>sig. cp_GetDSD db2 sid = Inr \<lparr>Doc = last (L2 sid), Signature = sig\<rparr> \<and> Sign cr priv (last (L2 sid)) = Inr sig)))"
proof -
  obtain L1 L2 where L: "log_step\<^sup>*\<^sup>* (\<lambda>_. []) L1" "log_step\<^sup>*\<^sup>* L1 L2" "serves cr priv db1 L1" "serves cr priv db2 L2" "log_ok L1" "log_ok L2"
    using publish_log [OF assms] .
  have "prefix (L1 sid) (L2 sid)" for sid using log_steps_ok [OF L(2,5)] by blast
  moreover have "map Version (L2 sid) = map int [1..<Suc (length (L2 sid))]" for sid using L(6) by (simp only: log_ok_def)
  ultimately show ?thesis using L(1-4) serves_version [OF L(4)] serves_fetch [OF L(4)] log_ok_last [OF L(6)] by blast
qed

definition dsd_tables :: deploy_db where
  "dsd_tables = \<lparr>deployments = [], resources = [], cluster_nodes = [], placements = [], git_connections = [], git_branch_map = [],
     deploy_requests = [], alert_rules = [(''o'', AlertDSDApplyFailed, ''ch'')], alert_outbox = [], deploy_logs = [], cp_audit_log = [], now = 1000,
     id_hex = (\<lambda>n. replicate n (CHR ''x'')), id_seq = 0, spec_hash = id\<rparr>"

definition dsd_demo :: "unit cp_db" where
  "dsd_demo = \<lparr>cp_backup = \<lparr>tables = dsd_tables, backup_targets = [], backup_policies = [], backup_runs = [], db_credentials = [], wal_archive = [],
     repo_key_archive = []\<rparr>, server_dsd = [], server_names = [], pending_ops = [], confirm_tokens = [], resource_status = [],
     pending_s3_ops = [], s3_buckets = [], control_planes = []\<rparr>"

definition demo_issue :: "string \<Rightarrow> unit cp_db \<Rightarrow> unit cp_db" where
  "demo_issue docHash db = snd (StoreDSD db_verdict.Applied demo_crypto ''priv'' ''o'' ''s'' topo_demo docHash db)"

lemma demo_issue_step: "publish_step demo_crypto ''priv'' db (demo_issue docHash db)"
  unfolding demo_issue_def by (rule publish_step.store [OF surjective_pairing])

lemma demo_issue_runs:
  "server_dsd dsd_demo = []" "(publish_step demo_crypto ''priv'')\<^sup>*\<^sup>* dsd_demo (demo_issue ''h1'' dsd_demo)"
  "(publish_step demo_crypto ''priv'')\<^sup>*\<^sup>* (demo_issue ''h1'' dsd_demo) (demo_issue ''h2'' (demo_issue ''h1'' dsd_demo))"
  by (simp add: dsd_demo_def) (rule r_into_rtranclp, rule demo_issue_step)+

lemma demo_issue_versions:
  "CurrentDSDVersion (demo_issue ''h1'' dsd_demo) ''s'' = 1" "CurrentDSDVersion (demo_issue ''h2'' (demo_issue ''h1'' dsd_demo)) ''s'' = 2"
  by code_simp+

theorem publication_refines_log_witness:
  "\<exists>(L1 :: unit doc_log) L2. log_step\<^sup>*\<^sup>* (\<lambda>_. []) L1 \<and> log_step\<^sup>*\<^sup>* L1 L2 \<and> prefix (L1 ''s'') (L2 ''s'') \<and> map Version (L2 ''s'') = [1, 2]"
proof -
  obtain L1 L2 :: "unit doc_log" where L: "log_step\<^sup>*\<^sup>* (\<lambda>_. []) L1" "log_step\<^sup>*\<^sup>* L1 L2"
    and all: "\<And>sid. prefix (L1 sid) (L2 sid)" "\<And>sid. map Version (L2 sid) = map int [1..<Suc (length (L2 sid))]"
      "\<And>sid. CurrentDSDVersion (demo_issue ''h2'' (demo_issue ''h1'' dsd_demo)) sid = int (length (L2 sid))"
    using publication_refines_log [OF demo_issue_runs] by blast
  then have "length (L2 ''s'') = 2" using all(3) [of "''s''"] demo_issue_versions(2) by simp
  then have "map Version (L2 ''s'') = [1, 2]" using all(2) [of "''s''"] by (simp add: upt_rec)
  with L all(1) show ?thesis by (intro exI conjI)
qed

text \<open>
  C14. What an agent fetches it accepts (dsd.go, handleGetDSD; dsd_store.go; agent main.go, runDSDLoop; both dsd.go, Sign and Verify).
  Once the control plane has issued a version above the one the agent holds, the poll answers with a document that passes all three checks of the
  agent, even though the version and the document are read one after the other and new versions may be issued in between: the signature is good under the pinned key,
  the document is for this server, and it is newer. The pinned text is assumed to decode to a
  32-byte key that accepts the signatures of the control plane's key.
\<close>

theorem published_document_is_accepted:
  assumes run: "server_dsd db0 = []" "(publish_step (ag_crypto ag) priv)\<^sup>*\<^sup>* db0 db1" "(publish_step (ag_crypto ag) priv)\<^sup>*\<^sup>* db1 db2"
    and polled: "0 \<le> after" "after < CurrentDSDVersion db1 (ag_ServerID ag)"
    and pinned: "b64_decode (ag_crypto ag) (DSDPublicKey ag) = Inr pub" "length pub = PublicKeySize"
    and pair: "\<forall>m. ed_verify (ag_crypto ag) pub m (ed_sign (ag_crypto ag) priv m)"
  shows "\<exists>signed. handleGetDSD db1 db2 (ag_ServerID ag) after = Inr (Some signed) \<and> reject ag after signed = None"
proof -
  obtain L where "log_ok L" "serves (ag_crypto ag) priv db1 L" using publish_log [OF run] by blast
  then have "published (ag_crypto ag) priv db1" unfolding published_def by blast
  then obtain d where d: "cp_GetDSD db2 (ag_ServerID ag) = Inr d" "after < Version (Doc d)" "signed_for (ag_crypto ag) priv (ag_ServerID ag) d"
    using pub.poll_serves_newer [OF _ run(3) polled] by blast
  have "Verify (ag_crypto ag) (DSDPublicKey ag) d = Inr ()"
    using d(3) pinned pair [rule_format] by (auto simp: signed_for_def Verify_def Sign_def split: sum.splits dest: sym)
  then show ?thesis using d polled(2) by (simp add: handleGetDSD_def reject_def signed_for_def)
qed

theorem published_document_is_accepted_witness:
  "\<exists>signed. handleGetDSD (demo_issue ''h1'' dsd_demo) (demo_issue ''h2'' (demo_issue ''h1'' dsd_demo)) ''s'' 0 = Inr (Some signed) \<and>
     reject demo_agent 0 signed = None"
proof -
  have ag: "ag_crypto demo_agent = demo_crypto" "ag_ServerID demo_agent = ''s''" "DSDPublicKey demo_agent = ''pinned''" by (simp_all add: demo_agent_def)
  show ?thesis
    using published_document_is_accepted [of dsd_demo demo_agent "''priv''" "demo_issue ''h1'' dsd_demo"
      "demo_issue ''h2'' (demo_issue ''h1'' dsd_demo)" 0 "replicate 32 CHR ''k''", unfolded ag, OF demo_issue_runs]
      demo_issue_versions(1) by (simp add: demo_crypto_def PublicKeySize_def)
qed
section \<open>Retries\<close>

text \<open>
  A run in which the documents rendered for one server keep their hash and nobody forces a re-apply there. Reports are arbitrary, and so is
  everything about other servers.
\<close>

inductive unchanged_step :: "'p crypto \<Rightarrow> string \<Rightarrow> string \<Rightarrow> string \<Rightarrow> 'p cp_db \<Rightarrow> 'p cp_db \<Rightarrow> bool" for cr priv sid h where
  u_store: "StoreDSD v cr priv orgID sid ops h db = (x, db') \<Longrightarrow> unchanged_step cr priv sid h db db'"
| u_status: "handleDSDStatus se i version reports db = (a, db') \<Longrightarrow> unchanged_step cr priv sid h db db'"
| u_others: "dsd_row_of db' sid = dsd_row_of db sid \<Longrightarrow> unchanged_step cr priv sid h db db'"

text \<open>The versions that can still be issued: the retries left, and one more for a document not yet issued.\<close>

definition budget :: "string \<Rightarrow> 'p dsd_row option \<Rightarrow> int" where
  "budget h ro = (case ro of
      None \<Rightarrow> maxDSDRedrive + 1
    | Some r \<Rightarrow> if same_doc h r then max 0 (maxDSDRedrive - sd_RedriveCount r) else maxDSDRedrive + 1)"

definition counts_ok :: "'p dsd_row option \<Rightarrow> bool" where
  "counts_ok ro \<longleftrightarrow> (case ro of None \<Rightarrow> True | Some r \<Rightarrow> 0 \<le> sd_Version r \<and> 0 \<le> sd_RedriveCount r)"

text \<open>From one state to another the version only grows, and what it grows by is taken from the budget.\<close>

definition spends :: "string \<Rightarrow> string \<Rightarrow> 'p cp_db \<Rightarrow> 'p cp_db \<Rightarrow> bool" where
  "spends sid h db db' \<longleftrightarrow> counts_ok (dsd_row_of db' sid) \<and> CurrentDSDVersion db sid \<le> CurrentDSDVersion db' sid \<and>
     CurrentDSDVersion db' sid + budget h (dsd_row_of db' sid) = CurrentDSDVersion db sid + budget h (dsd_row_of db sid)"

lemmas spends_defs = spends_def CurrentDSDVersion_def budget_def counts_ok_def same_doc_def maxDSDRedrive_def

lemma spends_same: "dsd_row_of db' sid = dsd_row_of db sid \<Longrightarrow> counts_ok (dsd_row_of db sid) \<Longrightarrow> spends sid h db db'"
  by (simp add: spends_def CurrentDSDVersion_def)

lemma store_spends:
  assumes "store_dsd_tx cr priv orgID sid ops h db = Inr (x, db')" "counts_ok (dsd_row_of db sid)"
  shows "spends sid h db db'"
  using assms(1)
proof (cases rule: store_dsd_cases)
  case 1
  then have "dsd_row_of db sid = Some (locked_row orgID sid db)"
    by (auto simp: locked_row_def same_doc_def new_dsd_row_def split: option.splits)
  then show ?thesis using 1(3) assms(2) by (intro spends_same) simp_all
next
  case (2 sig)
  then show ?thesis
  proof (cases "dsd_row_of db sid")
    case None
    then show ?thesis using 2(4) by (simp add: spends_defs locked_row_def new_dsd_row_def issued_row_def next_doc_def)
  next
    case (Some r)
    then show ?thesis using 2(3,4) assms(2) by (auto simp: spends_defs locked_row_def issued_row_def next_doc_def)
  qed
qed

lemma unchanged_spends:
  assumes "unchanged_step cr priv sid h db db'" "counts_ok (dsd_row_of db sid)"
  shows "spends sid h db db'"
  using assms(1)
proof (cases rule: unchanged_step.cases)
  case (u_store v orgID ops x)
  then consider "db' = db" | y where "store_dsd_tx cr priv orgID sid ops h db = Inr (y, db')"
    unfolding StoreDSD_def by (auto elim: in_tx_cases)
  then show ?thesis using store_spends spends_same assms(2) by cases blast+
next
  case (u_status se i version reports a)
  then show ?thesis
  proof (cases rule: handle_status_rows)
    case 1
    then show ?thesis using assms(2) by (intro spends_same) simp_all
  next
    case (2 r)
    then show ?thesis using assms(2) by (auto simp: spends_defs)
  qed
next
  case u_others
  then show ?thesis using assms(2) by (rule spends_same)
qed

lemma unchanged_steps_spend: "(unchanged_step cr priv sid h)\<^sup>*\<^sup>* db db' \<Longrightarrow> counts_ok (dsd_row_of db sid) \<Longrightarrow> spends sid h db db'"
proof (induction rule: rtranclp_induct)
  case base
  then show ?case by (simp add: spends_same)
next
  case (step db1 db2)
  then show ?case using unchanged_spends [of cr priv sid h db1 db2] by (auto simp: spends_def)
qed

lemma published_counts: "published cr priv db \<Longrightarrow> counts_ok (dsd_row_of db sid)"
  unfolding published_def by (auto simp: counts_ok_def row_serves_def dest: serves_row split: option.splits)

text \<open>
  C16. A failing document is retried a bounded number of times (dsd_store.go, StoreDSD, maxDSDRedrive). As long as what is rendered for a server
  does not change and no re-apply is forced, whatever the agent reports, in whatever order and for whatever versions, and whatever
  happens to the transactions, at most six versions are issued: one for the document itself if it is new, and
  five retries. A document that is already issued gets at most five more versions.
\<close>

theorem redrive_bounded:
  assumes "server_dsd db0 = []" "(publish_step cr priv)\<^sup>*\<^sup>* db0 db" "(unchanged_step cr priv sid h)\<^sup>*\<^sup>* db db'"
  shows "CurrentDSDVersion db sid \<le> CurrentDSDVersion db' sid \<and> CurrentDSDVersion db' sid \<le> CurrentDSDVersion db sid + 1 + maxDSDRedrive \<and>
    (\<forall>r. dsd_row_of db sid = Some r \<and> same_doc h r \<longrightarrow>
       CurrentDSDVersion db' sid \<le> CurrentDSDVersion db sid + max 0 (maxDSDRedrive - sd_RedriveCount r))"
proof -
  obtain L where "log_ok L" "serves cr priv db L" using publish_log [OF assms(1,2)] by blast
  then have ok: "counts_ok (dsd_row_of db sid)" by (intro published_counts) (auto simp: published_def)
  have "0 \<le> budget h (dsd_row_of db' sid)" by (auto simp: budget_def maxDSDRedrive_def split: option.splits)
  moreover have "budget h (dsd_row_of db sid) \<le> maxDSDRedrive + 1"
    using ok by (auto simp: budget_def counts_ok_def maxDSDRedrive_def split: option.splits)
  moreover have "dsd_row_of db sid = Some r \<and> same_doc h r \<Longrightarrow> budget h (dsd_row_of db sid) = max 0 (maxDSDRedrive - sd_RedriveCount r)" for r
    by (simp add: budget_def)
  ultimately show ?thesis using unchanged_steps_spend [OF assms(3) ok] unfolding spends_def by fastforce
qed
lemma ingest_op_views:
  "ig_converged (ingest_op p g) \<longleftrightarrow> ig_converged g \<and> \<not> failing (snd p)"
  "ig_failedOps (ingest_op p g) = ig_failedOps g @ (if failing (snd p) then [fst p] else [])"
  by (simp_all add: ingest_op_def Let_def split: prod.splits option.splits bool.splits)

lemma ingest_views:
  "ig_converged (fold ingest_op ops g) \<longleftrightarrow> ig_converged g \<and> (\<forall>p \<in> set ops. \<not> failing (snd p))"
  "ig_failedOps (fold ingest_op ops g) = ig_failedOps g @ map fst (filter (\<lambda>p. failing (snd p)) ops)"
  by (induction ops arbitrary: g) (auto simp: ingest_op_views)

lemma handle_status_accepted:
  assumes "handleDSDStatus se sid version ops db = ((Accepted True, nudged), db')" "dsd_row_of db sid = Some r"
  shows "dsd_row_of db' sid = Some (r\<lparr>sd_AppliedVersion := version, sd_ApplyOK := (\<forall>p \<in> set ops. \<not> failing (snd p)),
    sd_FailedOps := sort (map fst (filter (\<lambda>p. failing (snd p)) ops))\<rparr>)"
proof -
  let ?g = "fold ingest_op ops ingest_start"
  obtain db1 where rows: "dsd_row_of db1 = dsd_row_of db"
    and "apply_status_tx sid version (report_statuses ?g) (ig_converged ?g) (ig_failedOps ?g) db1 = Inr (True, db')"
    using handle_status_tail [OF assms(1)] by (auto simp: ApplyDSDStatus_def dest: in_tx_ok)
  then have "server_dsd db' = server_dsd (put_dsd_row sid (r\<lparr>sd_AppliedVersion := version, sd_ApplyOK := ig_converged ?g, sd_FailedOps := sort (ig_failedOps ?g)\<rparr>) db1)"
    using assms(2) by (auto simp: apply_status_tx_def split: option.splits if_splits)
  then show ?thesis by (simp add: dsd_row_of_def put_dsd_row_def update_conv ingest_views ingest_start_def)
qed

text \<open>
  C15. Exactly a failed apply is retried (dsd_store.go, StoreDSD and ApplyDSDStatus; dsd.go, handleDSDStatus, handleGetDSD). After an accepted
  report for the version in force, the next render of the same document issues a new version if and only if some op, of whatever kind,
  was reported failed or skipped and the retries are not used up. The new version is the next one with the ops rendered, and
  the agent's next poll gets it.
\<close>

theorem failed_apply_is_retried:
  assumes "dsd_row_of db sid = Some r" "0 < sd_Version r"
    and report: "handleDSDStatus se sid (sd_Version r) reports db = ((Accepted True, nudged), db1)"
    and render: "StoreDSD v cr priv orgID sid ops (sd_DocHash r) db1 = (Inr x, db2)"
  shows "(x \<noteq> None \<longleftrightarrow> (\<exists>p \<in> set reports. rp_State (snd p) \<in> {''failed'', ''skipped''}) \<and> sd_RedriveCount r < maxDSDRedrive) \<and>
    (\<forall>signed. x = Some signed \<longrightarrow> Version (Doc signed) = sd_Version r + 1 \<and> Ops (Doc signed) = ops \<and>
       handleGetDSD db2 db2 sid (sd_Version r) = Inr (Some signed))"
proof -
  define r1 where "r1 = r\<lparr>sd_AppliedVersion := sd_Version r, sd_ApplyOK := (\<forall>p \<in> set reports. \<not> failing (snd p)),
    sd_FailedOps := sort (map fst (filter (\<lambda>p. failing (snd p)) reports))\<rparr>"
  have "dsd_row_of db1 sid = Some r1" unfolding r1_def by (rule handle_status_accepted [OF report assms(1)])
  then have row: "locked_row orgID sid db1 = r1" by (simp add: locked_row_def)
  then have same: "same_doc (sd_DocHash r) (locked_row orgID sid db1)" using assms(2) by (simp add: same_doc_def r1_def)
  have conv: "converged r1 \<longleftrightarrow> (\<forall>p \<in> set reports. \<not> failing (snd p))" by (simp add: converged_def r1_def)
  from render have "store_dsd_tx cr priv orgID sid ops (sd_DocHash r) db1 = Inr (x, db2)" unfolding StoreDSD_def by (rule in_tx_ok)
  then show ?thesis
  proof (cases rule: store_dsd_cases)
    case 1
    then show ?thesis using conv by (auto simp: row r1_def failing_def)
  next
    case (2 sig)
    then have "\<not> converged r1 \<and> sd_RedriveCount r < maxDSDRedrive" using same by (simp add: row) (simp add: r1_def)
    moreover have "handleGetDSD db2 db2 sid (sd_Version r) = Inr x" using 2 assms(2)
      by (simp add: row handleGetDSD_def CurrentDSDVersion_def cp_GetDSD_def issued_row_def next_doc_def) (simp add: r1_def)
    ultimately show ?thesis using 2(1) conv by (auto simp: row next_doc_def r1_def failing_def)
  qed
qed
definition demo_status_env :: status_env where
  "demo_status_env = \<lparr>se_verdict = (\<lambda>_ _. db_verdict.Applied), se_fault = (\<lambda>_ _. None), se_tie = 0\<rparr>"

definition demo_failure :: "(string \<times> op_report) list" where
  "demo_failure = [(''host:nftables'', synthetic ''failed'' ''boom'')]"

definition demo_retry :: "unit cp_db \<Rightarrow> unit cp_db" where
  "demo_retry db = demo_issue ''h1'' (snd (handleDSDStatus demo_status_env ''s'' (CurrentDSDVersion db ''s'') demo_failure db))"

lemma demo_retry_steps: "(unchanged_step demo_crypto ''priv'' ''s'' ''h1'')\<^sup>*\<^sup>* dsd_demo ((demo_retry ^^ n) (demo_issue ''h1'' dsd_demo))"
proof (induction n)
  case 0
  show ?case unfolding demo_issue_def using unchanged_step.u_store [OF surjective_pairing] by fastforce
next
  case (Suc n)
  show ?case unfolding funpow.simps o_apply demo_retry_def [of "(demo_retry ^^ n) (demo_issue ''h1'' dsd_demo)"] demo_issue_def [of _ "snd _"]
    by (rule rtranclp.rtrancl_into_rtrancl [OF rtranclp.rtrancl_into_rtrancl [OF Suc unchanged_step.u_status [OF surjective_pairing]]
      unchanged_step.u_store [OF surjective_pairing]])
qed

theorem redrive_bounded_witness:
  "CurrentDSDVersion (demo_retry (demo_issue ''h1'' dsd_demo)) ''s'' = 2 \<and>
   (\<forall>n. CurrentDSDVersion ((demo_retry ^^ n) (demo_issue ''h1'' dsd_demo)) ''s'' \<le> 6)"
proof -
  have 0: "CurrentDSDVersion dsd_demo ''s'' = 0" by code_simp
  moreover have "CurrentDSDVersion (demo_retry (demo_issue ''h1'' dsd_demo)) ''s'' = 2" by code_simp
  ultimately show ?thesis
    using redrive_bounded [OF demo_issue_runs(1) rtranclp.rtrancl_refl demo_retry_steps] by (simp add: maxDSDRedrive_def)
qed

theorem failed_apply_is_retried_witness:
  "\<exists>signed. fst (StoreDSD db_verdict.Applied demo_crypto ''priv'' ''o'' ''s'' topo_demo ''h1''
      (snd (handleDSDStatus demo_status_env ''s'' 1 demo_failure (demo_issue ''h1'' dsd_demo)))) = Inr (Some signed) \<and> Version (Doc signed) = 2"
proof -
  let ?db = "demo_issue ''h1'' dsd_demo"
  let ?db1 = "snd (handleDSDStatus demo_status_env ''s'' 1 demo_failure ?db)"
  let ?s = "StoreDSD db_verdict.Applied demo_crypto ''priv'' ''o'' ''s'' topo_demo ''h1'' ?db1"
  have row: "map_option (\<lambda>r. (sd_Version r, sd_DocHash r, sd_RedriveCount r)) (dsd_row_of ?db ''s'') = Some (1, ''h1'', 0)" by code_simp
  then obtain r where r: "dsd_row_of ?db ''s'' = Some r" "sd_Version r = 1" "sd_DocHash r = ''h1''" "sd_RedriveCount r = 0" by auto
  have "fst (handleDSDStatus demo_status_env ''s'' 1 demo_failure ?db) = (Accepted True, [])" by code_simp
  then have report: "handleDSDStatus demo_status_env ''s'' (sd_Version r) demo_failure ?db = ((Accepted True, []), ?db1)" using r(2) by (simp add: prod_eq_iff)
  have "case fst ?s of Inl e \<Rightarrow> False | Inr x \<Rightarrow> True" by code_simp
  then obtain x where x: "fst ?s = Inr x" by (auto split: sum.splits)
  then have "StoreDSD db_verdict.Applied demo_crypto ''priv'' ''o'' ''s'' topo_demo (sd_DocHash r) ?db1 = (Inr x, snd ?s)"
    using r(3) by (simp add: prod_eq_iff)
  from failed_apply_is_retried [OF r(1) _ report this] r show ?thesis
    by (auto simp: x [unfolded demo_failure_def synthetic_def] demo_failure_def synthetic_def maxDSDRedrive_def)
qed
section \<open>Confirmation tokens\<close>

text \<open>
  The calls that touch tokens, for one digest function; everything else leaves the tokens alone.
\<close>

inductive token_step :: "(string \<Rightarrow> string) \<Rightarrow> 'p cp_db \<Rightarrow> 'p cp_db \<Rightarrow> bool" for hashToken where
  issue: "IssueConfirmToken v hashToken token t orgID sid opKind target createdBy ttl db = (x, db') \<Longrightarrow> token_step hashToken db db'"
| confirm: "ConfirmDestructiveOp v hashToken orgID token sid opKind target actor db = (y, db') \<Longrightarrow> token_step hashToken db db'"
| rest: "confirm_tokens db' = confirm_tokens db \<Longrightarrow> token_step hashToken db db'"

lemma cp_fresh_frame: "cp_fresh p db = (i, db') \<Longrightarrow> confirm_tokens db' = confirm_tokens db \<and> pending_ops db' = pending_ops db \<and> cp_now db' = cp_now db"
  by (auto simp: cp_fresh_def cp_now_def cp_tables_def fresh_id_def newID_def split: prod.splits)

lemma issue_token_cases:
  assumes "issue_token_tx hashToken token orgID sid opKind target createdBy e db = Inr (x, db')"
  shows "\<exists>c. confirm_tokens db' = c # confirm_tokens db \<and> ct_Hash c \<notin> ct_Hash ` set (confirm_tokens db)"
  using assms by (fastforce simp: issue_token_tx_def list_ex_iff image_iff split: prod.splits if_splits dest!: cp_fresh_frame)

text \<open>What a confirmation does to a token.\<close>

definition claim :: "string \<Rightarrow> string \<Rightarrow> timestamp \<Rightarrow> confirm_token \<Rightarrow> confirm_token" where
  "claim digest orgID t c = (if usable_token digest orgID t c then c\<lparr>ct_UsedAt := Some t\<rparr> else c)"

lemma claim_keeps [simp]: "ct_Hash (claim digest orgID t c) = ct_Hash c" "ct_UsedAt c \<noteq> None \<Longrightarrow> ct_UsedAt (claim digest orgID t c) \<noteq> None"
  by (simp_all add: claim_def usable_token_def)

lemma insert_pending_cases:
  "insertPendingDestructiveOpTx orgID sid opKind target actor db = Inr (i, db') \<Longrightarrow> confirm_tokens db' = confirm_tokens db \<and>
    pending_ops db' = \<lparr>pr_ID = i, pr_OrgID = orgID, pr_ServerID = sid, pr_OpKind = opKind, pr_Target = target,
      pr_CreatedBy = actor, pr_CreatedAt = cp_now db, pr_AppliedAt = None\<rparr> # pending_ops db"
  by (auto simp: insertPendingDestructiveOpTx_def cp_now_def cp_tables_def split: if_splits prod.splits dest!: cp_fresh_frame)

lemma confirm_tx_cases:
  assumes "confirm_tx hashToken orgID token sid opKind target actor db = Inr (i, db')"
  obtains c where "c \<in> set (confirm_tokens db)" "usable_token (hashToken token) orgID (cp_now db) c"
    "ct_ServerID c = sid" "ct_OpKind c = opKind" "ct_Target c = target"
    "confirm_tokens db' = map (claim (hashToken token) orgID (cp_now db)) (confirm_tokens db)"
    "pending_ops db' = \<lparr>pr_ID = i, pr_OrgID = orgID, pr_ServerID = sid, pr_OpKind = opKind, pr_Target = target,
                 pr_CreatedBy = actor, pr_CreatedAt = cp_now db, pr_AppliedAt = None\<rparr> # pending_ops db"
proof -
  define db1 where "db1 = db\<lparr>confirm_tokens := map (claim (hashToken token) orgID (cp_now db)) (confirm_tokens db)\<rparr>"
  have now: "cp_now db1 = cp_now db" by (simp add: db1_def cp_now_def cp_tables_def)
  obtain c db2 where c: "find (usable_token (hashToken token) orgID (cp_now db)) (confirm_tokens db) = Some c"
    "ct_ServerID c = sid" "ct_OpKind c = opKind" "ct_Target c = target"
    "insertPendingDestructiveOpTx orgID sid opKind target actor db1 = Inr (i, db2)"
    "db' = on_cp (auditTx orgID actor ''Destructive-op confirmed'' (opKind @ '' '' @ target)) db2"
    using assms unfolding db1_def claim_def by (auto simp: confirm_tx_def Let_def split: option.splits if_splits sum.splits prod.splits)
  from c(1) have "c \<in> set (confirm_tokens db)" "usable_token (hashToken token) orgID (cp_now db) c" by (auto simp: find_Some_iff)
  then show thesis using that c(2-4,6) insert_pending_cases [OF c(5)] by (auto simp: now) (simp add: db1_def)
qed

text \<open>Digests are unique, and a spent token stays spent.\<close>

definition token_spent :: "string \<Rightarrow> 'p cp_db \<Rightarrow> bool" where
  "token_spent digest db \<longleftrightarrow> (\<exists>c \<in> set (confirm_tokens db). ct_Hash c = digest \<and> ct_UsedAt c \<noteq> None)"

lemma token_step_inv:
  assumes "token_step hashToken db db'"
  shows "distinct (map ct_Hash (confirm_tokens db)) \<Longrightarrow> distinct (map ct_Hash (confirm_tokens db'))" "token_spent digest db \<Longrightarrow> token_spent digest db'"
proof -
  have cases: "confirm_tokens db' = confirm_tokens db \<or>
      (\<exists>c. confirm_tokens db' = c # confirm_tokens db \<and> ct_Hash c \<notin> ct_Hash ` set (confirm_tokens db)) \<or>
      (\<exists>d orgID t. confirm_tokens db' = map (claim d orgID t) (confirm_tokens db))"
    using assms
  proof (cases rule: token_step.cases)
    case (issue v token t orgID sid opKind target createdBy ttl x)
    then obtain z where "in_tx v (issue_token_tx hashToken token orgID sid opKind target createdBy (t + ttl)) db = (z, db')"
      by (auto simp: IssueConfirmToken_def split: prod.splits sum.splits)
    then show ?thesis by (rule in_tx_cases) (simp, drule issue_token_cases, blast)
  next
    case (confirm v orgID token sid opKind target actor y)
    then have "in_tx v (confirm_tx hashToken orgID token sid opKind target actor) db = (y, db')" by (simp add: ConfirmDestructiveOp_def)
    then show ?thesis by (rule in_tx_cases) (simp, erule confirm_tx_cases, blast)
  qed simp
  then show "distinct (map ct_Hash (confirm_tokens db)) \<Longrightarrow> distinct (map ct_Hash (confirm_tokens db'))" by (auto simp: o_def)
  assume "token_spent digest db"
  then obtain c where c: "c \<in> set (confirm_tokens db)" "ct_Hash c = digest" "ct_UsedAt c \<noteq> None" unfolding token_spent_def by blast
  from cases c(1) have "\<exists>c' \<in> set (confirm_tokens db'). c' = c \<or> (\<exists>d orgID t. c' = claim d orgID t c)"
    by (metis image_eqI list.set_intros(2) list.set_map)
  with c(2,3) show "token_spent digest db'" unfolding token_spent_def by (metis claim_keeps)
qed

lemma token_steps_inv:
  assumes "(token_step hashToken)\<^sup>*\<^sup>* db db'"
  shows "distinct (map ct_Hash (confirm_tokens db)) \<Longrightarrow> distinct (map ct_Hash (confirm_tokens db'))" "token_spent digest db \<Longrightarrow> token_spent digest db'"
  using assms by (induction rule: rtranclp_induct) (use token_step_inv in blast)+

lemma spent_is_refused:
  assumes "distinct (map ct_Hash (confirm_tokens db))" "token_spent (hashToken token) db"
  shows "confirm_tx hashToken orgID token sid opKind target actor db = Inl ErrNotFound"
proof -
  have "\<not> usable_token (hashToken token) orgID (cp_now db) c" if "c \<in> set (confirm_tokens db)" for c
    using assms that unfolding token_spent_def distinct_map by (auto simp: usable_token_def inj_on_def)
  then have "find (usable_token (hashToken token) orgID (cp_now db)) (confirm_tokens db) = None" by (auto simp: find_None_iff)
  then show ?thesis by (simp add: confirm_tx_def)
qed

text \<open>
  C17. A confirmation authorises one destructive operation, once (destructive.go, IssueConfirmToken, ConfirmDestructiveOp,
  insertPendingDestructiveOpTx). In every run that starts without tokens: a confirmation that succeeds was made with a token of that organisation, issued for this very server, kind
  and target, unused and not expired, and it queues exactly that operation; and from then on
  every confirmation with this token is refused and changes nothing, whatever it asks for, whoever asks, and whatever calls and lost acknowledgements
  came in between.
\<close>

theorem confirm_token_single_use:
  assumes "confirm_tokens db0 = []" "(token_step hashToken)\<^sup>*\<^sup>* db0 db"
    and ok: "ConfirmDestructiveOp v hashToken orgID token sid opKind target actor db = (Inr i, db1)"
    and later: "(token_step hashToken)\<^sup>*\<^sup>* db1 db2"
  shows "(\<exists>c \<in> set (confirm_tokens db). ct_Hash c = hashToken token \<and> ct_OrgID c = orgID \<and> ct_ServerID c = sid \<and> ct_OpKind c = opKind \<and>
      ct_Target c = target \<and> ct_UsedAt c = None \<and> cp_now db < ct_ExpiresAt c) \<and>
    pending_ops db1 = \<lparr>pr_ID = i, pr_OrgID = orgID, pr_ServerID = sid, pr_OpKind = opKind, pr_Target = target,
      pr_CreatedBy = actor, pr_CreatedAt = cp_now db, pr_AppliedAt = None\<rparr> # pending_ops db \<and>
    ConfirmDestructiveOp v' hashToken orgID' token sid' opKind' target' actor' db2 = (Inl ErrNotFound, db2)"
proof -
  have tx: "confirm_tx hashToken orgID token sid opKind target actor db = Inr (i, db1)" using ok unfolding ConfirmDestructiveOp_def by (rule in_tx_ok)
  obtain c where c: "c \<in> set (confirm_tokens db)" "usable_token (hashToken token) orgID (cp_now db) c"
    "ct_ServerID c = sid" "ct_OpKind c = opKind" "ct_Target c = target"
    "confirm_tokens db1 = map (claim (hashToken token) orgID (cp_now db)) (confirm_tokens db)"
    "pending_ops db1 = \<lparr>pr_ID = i, pr_OrgID = orgID, pr_ServerID = sid, pr_OpKind = opKind, pr_Target = target,
      pr_CreatedBy = actor, pr_CreatedAt = cp_now db, pr_AppliedAt = None\<rparr> # pending_ops db"
    using tx by (rule confirm_tx_cases)
  let ?c = "claim (hashToken token) orgID (cp_now db) c"
  have "?c \<in> set (confirm_tokens db1)" "ct_Hash ?c = hashToken token" "ct_UsedAt ?c \<noteq> None"
    using c(1,2) by (simp_all add: c(6) claim_def usable_token_def)
  then have "token_spent (hashToken token) db1" unfolding token_spent_def by blast
  moreover have "distinct (map ct_Hash (confirm_tokens db))" using token_steps_inv(1) [OF assms(2)] assms(1) by simp
  then have "distinct (map ct_Hash (confirm_tokens db1))" using c(6) by (simp add: o_def)
  ultimately have "confirm_tx hashToken orgID' token sid' opKind' target' actor' db2 = Inl ErrNotFound"
    using token_steps_inv [OF later] by (intro spent_is_refused) blast+
  then show ?thesis using c(1-5,7) by (auto simp: ConfirmDestructiveOp_def in_tx_def usable_token_def)
qed

definition demo_issued :: "unit cp_db" where
  "demo_issued = snd (IssueConfirmToken db_verdict.Applied id ''tok'' 1000 ''o'' ''s'' ''volume.remove'' ''vol'' ''ann'' 60 dsd_demo)"

definition demo_confirmed :: "unit cp_db" where
  "demo_confirmed = snd (ConfirmDestructiveOp db_verdict.Applied id ''o'' ''tok'' ''s'' ''volume.remove'' ''vol'' ''ann'' demo_issued)"

theorem confirm_token_single_use_witness:
  "\<exists>i. fst (ConfirmDestructiveOp db_verdict.Applied id ''o'' ''tok'' ''s'' ''volume.remove'' ''vol'' ''ann'' demo_issued) = Inr i \<and>
     ConfirmDestructiveOp db_verdict.Applied id ''o'' ''tok'' ''s'' ''volume.remove'' ''vol'' ''bob'' demo_confirmed = (Inl ErrNotFound, demo_confirmed)"
proof -
  have "case fst (ConfirmDestructiveOp db_verdict.Applied id ''o'' ''tok'' ''s'' ''volume.remove'' ''vol'' ''ann'' demo_issued) of Inl e \<Rightarrow> False | Inr i \<Rightarrow> True"
    by code_simp
  then obtain i where i: "ConfirmDestructiveOp db_verdict.Applied id ''o'' ''tok'' ''s'' ''volume.remove'' ''vol'' ''ann'' demo_issued = (Inr i, demo_confirmed)"
    by (auto simp: demo_confirmed_def prod_eq_iff split: sum.splits)
  have start: "confirm_tokens dsd_demo = []" by (simp add: dsd_demo_def)
  have run: "(token_step id)\<^sup>*\<^sup>* dsd_demo demo_issued"
    unfolding demo_issued_def by (rule r_into_rtranclp, rule token_step.issue [OF surjective_pairing])
  from confirm_token_single_use [OF start run i rtranclp.rtrancl_refl] i show ?thesis by simp
qed
end
