(* ===== verification/Alerts.thy ===== *)
theory Alerts
  imports Publish
begin

text \<open>
  The alert outbox and its dispatcher (cp/internal/store/alerts_store.go, the outbox part of retention.go, cp/internal/alerts/dispatcher.go). Alerts are rows
  of a table; a dispatcher claims due rows for the time of a lease, sends each through its channel and records the result. Several replicas
  run a dispatcher each, and each sends a batch from several goroutines, so every claimed row is a job of its own, whose statements
  interleave with those of all other jobs (\<open>outbox_step\<close>). The transport is not modelled: a send may have any
  outcome. Names of events that are not used elsewhere are literals.
\<close>

section \<open>State\<close>

record outbox_row =
  ob_ID :: int
  ob_OrgID :: string
  ob_ChannelID :: string
  ob_Event :: string
  ob_DedupKey :: string
  ob_Title :: string
  ob_Body :: string
  ob_Status :: string
  ob_Attempts :: nat
  ob_NextAttempt :: timestamp
  ob_LastError :: string
  ob_CreatedAt :: timestamp
  ob_SentAt :: "timestamp option"

record alert_channel =
  ac_ID :: string
  ac_OrgID :: string
  ac_Kind :: string
  ac_Name :: string
  ac_Config :: string
  ac_Secret :: "(string \<times> string \<times> string) option" \<comment> \<open>ciphertext, nonce, key id\<close>
  ac_Enabled :: bool
  ac_LastOk :: "timestamp option"
  ac_LastError :: string

record domain_cert =
  dm_OrgID :: string
  dm_Domain :: string
  dm_CertStatus :: string
  dm_CertExpires :: "timestamp option"

record outbox_db =
  outbox :: "outbox_row list"
  ob_channels :: "alert_channel list"
  ob_rules :: "(string \<times> string \<times> string) list" \<comment> \<open>organisation, event, channel\<close>
  ob_domains :: "domain_cert list"
  ob_audit :: "(string \<times> string \<times> string \<times> string) list"
  ob_now :: timestamp
  ob_seq :: int

record AlertDelivery =
  dl_ID :: int
  dl_OrgID :: string
  dl_ChannelID :: string
  dl_Event :: string
  dl_Title :: string
  dl_Body :: string
  dl_Attempts :: nat

record AlertChannelSend =
  cs_ID :: string
  cs_OrgID :: string
  cs_Kind :: string
  cs_Config :: string
  cs_Secret :: string

section \<open>Channels and rules\<close>

definition AlertCertExpiring :: string where
  "AlertCertExpiring = ''cert_expiring''"

definition AlertEvents :: "string list" where
  "AlertEvents = [''server_unreachable'', ''server_recovered'', ''decommission_timed_out'', AlertDSDApplyFailed, AlertDeployFailed, AlertBackupFailed,
     AlertVerifyFailed, ''cert_failed'', AlertCertExpiring, ''payment_failed'']"

definition validAlertEvent :: "string \<Rightarrow> bool" where
  "validAlertEvent e \<longleftrightarrow> e \<in> set AlertEvents"

definition alertChannelAAD :: "string \<Rightarrow> string \<Rightarrow> string" where
  "alertChannelAAD orgID channelID = orgID @ ''|alch|'' @ channelID"

definition channel_of :: "string \<Rightarrow> string \<Rightarrow> outbox_db \<Rightarrow> alert_channel option" where
  "channel_of orgID channelID db = find (\<lambda>c. ac_OrgID c = orgID \<and> ac_ID c = channelID) (ob_channels db)"

text \<open>Rules and queued alerts of a channel go with it.\<close>

definition delete_channel_tx :: "string \<Rightarrow> string \<Rightarrow> string \<Rightarrow> outbox_db \<Rightarrow> (unit \<times> outbox_db) res" where
  "delete_channel_tx orgID channelID actor db =
     (case channel_of orgID channelID db of
        None \<Rightarrow> Inl ErrNotFound
      | Some c \<Rightarrow>
          Inr ((), db\<lparr>ob_channels := filter (\<lambda>x. \<not> (ac_OrgID x = orgID \<and> ac_ID x = channelID)) (ob_channels db),
                      ob_rules := filter (\<lambda>(_, _, ch). ch \<noteq> channelID) (ob_rules db),
                      outbox := filter (\<lambda>r. ob_ChannelID r \<noteq> channelID) (outbox db),
                      ob_audit := (orgID, actor, ''Alert channel deleted'', ac_Name c) # ob_audit db\<rparr>))"

definition DeleteAlertChannel :: "db_verdict \<Rightarrow> string \<Rightarrow> string \<Rightarrow> string \<Rightarrow> outbox_db \<Rightarrow> unit res \<times> outbox_db" where
  "DeleteAlertChannel v orgID channelID actor = in_tx v (delete_channel_tx orgID channelID actor)"

definition set_rules_tx :: "string \<Rightarrow> string \<Rightarrow> string list \<Rightarrow> string \<Rightarrow> outbox_db \<Rightarrow> (unit \<times> outbox_db) res" where
  "set_rules_tx orgID channelID events actor db =
     (case channel_of orgID channelID db of
        None \<Rightarrow> Inl ErrNotFound
      | Some c \<Rightarrow>
          let kept = filter (\<lambda>(org, _, ch). \<not> (org = orgID \<and> ch = channelID)) (ob_rules db)
          in Inr ((), db\<lparr>ob_rules := fold (\<lambda>ev rs. List.insert (orgID, ev, channelID) rs) events kept,
                         ob_audit := (orgID, actor, ''Alert rules updated'', ac_Name c) # ob_audit db\<rparr>))"

definition SetAlertRules :: "db_verdict \<Rightarrow> string \<Rightarrow> string \<Rightarrow> string list \<Rightarrow> string \<Rightarrow> outbox_db \<Rightarrow> unit res \<times> outbox_db" where
  "SetAlertRules v orgID channelID events actor db =
     (case find (\<lambda>ev. \<not> validAlertEvent ev) events of
        Some ev \<Rightarrow> (Inl (ErrInvalid (''unknown alert event '' @ go_quote ev)), db)
      | None \<Rightarrow> in_tx v (set_rules_tx orgID channelID events actor) db)"

definition AlertChannelForSend :: "vault \<Rightarrow> string \<Rightarrow> string \<Rightarrow> outbox_db \<Rightarrow> AlertChannelSend res" where
  "AlertChannelForSend vt orgID channelID db =
     (case channel_of orgID channelID db of
        None \<Rightarrow> Inl ErrNotFound
      | Some c \<Rightarrow>
          let out = \<lparr>cs_ID = ac_ID c, cs_OrgID = ac_OrgID c, cs_Kind = ac_Kind c, cs_Config = ac_Config c, cs_Secret = ''''\<rparr>
          in case ac_Secret c of
               None \<Rightarrow> Inr out
             | Some (ct, nonce, dekID) \<Rightarrow>
                 if ct = '''' then Inr out
                 else (case dekPlaintext vt dekID of
                         Inl e \<Rightarrow> Inl e
                       | Inr dek \<Rightarrow>
                           (case gcmOpen vt dek (alertChannelAAD orgID channelID) nonce ct of
                              Inl e \<Rightarrow> Inl (Wrapf ''open channel secret'' e)
                            | Inr plain \<Rightarrow> Inr (out\<lparr>cs_Secret := plain\<rparr>))))"

section \<open>The outbox\<close>

definition left :: "string \<Rightarrow> nat \<Rightarrow> string" where
  "left s n = (if length s > n then take n s else s)"

text \<open>A channel that has had the alert, ever (no window) or within the window.\<close>

definition recently_alerted :: "string \<Rightarrow> string \<Rightarrow> duration \<Rightarrow> outbox_db \<Rightarrow> bool" where
  "recently_alerted ch dedupKey window db \<longleftrightarrow>
     list_ex (\<lambda>o'. ob_ChannelID o' = ch \<and> ob_DedupKey o' = dedupKey \<and> (window \<le> 0 \<or> ob_CreatedAt o' > ob_now db - window)) (outbox db)"

definition new_alert :: "int \<Rightarrow> string \<Rightarrow> string \<Rightarrow> string \<Rightarrow> string \<Rightarrow> string \<Rightarrow> string \<Rightarrow> timestamp \<Rightarrow> outbox_row" where
  "new_alert i org ch event dedupKey title body t =
     \<lparr>ob_ID = i, ob_OrgID = org, ob_ChannelID = ch, ob_Event = event, ob_DedupKey = dedupKey, ob_Title = title, ob_Body = body,
      ob_Status = ''pending'', ob_Attempts = 0, ob_NextAttempt = t, ob_LastError = '''', ob_CreatedAt = t, ob_SentAt = None\<rparr>"

definition alert_targets :: "string \<Rightarrow> string \<Rightarrow> string \<Rightarrow> duration \<Rightarrow> outbox_db \<Rightarrow> string list" where
  "alert_targets orgID event dedupKey window db =
     map (\<lambda>(_, _, ch). ch)
       (filter (\<lambda>(org, ev, ch). org = orgID \<and> ev = event \<and> list_ex (\<lambda>c. ac_ID c = ch \<and> ac_Enabled c) (ob_channels db) \<and>
                  \<not> recently_alerted ch dedupKey window db) (ob_rules db))"

definition insert_alerts :: "timestamp \<Rightarrow> string list \<Rightarrow> string \<Rightarrow> string \<Rightarrow> string \<Rightarrow> string \<Rightarrow> string \<Rightarrow> outbox_db \<Rightarrow> outbox_db" where
  "insert_alerts t chs orgID event dedupKey title body db =
     db\<lparr>outbox := outbox db @ map (\<lambda>(k, ch). new_alert (ob_seq db + int k) orgID ch event dedupKey title body t) (List.enumerate 0 chs),
        ob_seq := ob_seq db + int (length chs)\<rparr>"

text \<open>
  The producer most of the store uses. The advisory lock of the organisation and key is taken before the one statement that selects and
  inserts, and held to the end of the transaction: it sees what every producer of the key that goes this way has inserted.
\<close>

definition outbox_enqueueAlertTx :: "string \<Rightarrow> string \<Rightarrow> string \<Rightarrow> duration \<Rightarrow> string \<Rightarrow> string \<Rightarrow> outbox_db \<Rightarrow> outbox_db" where
  "outbox_enqueueAlertTx orgID event dedupKey window title body db =
     insert_alerts (ob_now db) (alert_targets orgID event dedupKey window db) orgID event dedupKey title (left body 4000) db"

text \<open>
  Two statements insert alerts themselves, without the lock: the time-out of backup runs and the marking of silent
  servers. They select the channels on their snapshot, which may miss an alert that another transaction is about to commit.
\<close>

definition direct_alerts :: "timestamp \<Rightarrow> outbox_db \<Rightarrow> string \<Rightarrow> string \<Rightarrow> string \<Rightarrow> duration \<Rightarrow> string \<Rightarrow> string \<Rightarrow> outbox_db \<Rightarrow> outbox_db" where
  "direct_alerts t snapshot orgID event dedupKey window title body =
     insert_alerts t (alert_targets orgID event dedupKey window snapshot) orgID event dedupKey title body"

text \<open>Their keys: \<open>bkr:\<close> with the run, and \<open>srv:\<close> with the server and \<open>:unreachable\<close>.\<close>

definition direct_key :: "string \<Rightarrow> bool" where
  "direct_key k \<longleftrightarrow> take 4 k = ''bkr:'' \<or> take 4 k = ''srv:'' \<and> drop (length k - 12) k = '':unreachable''"

text \<open>\<open>now()\<close> in a transaction is the time it began, which may be before another one that has already committed.\<close>

definition in_clock :: "timestamp \<Rightarrow> (outbox_db \<Rightarrow> outbox_db) \<Rightarrow> outbox_db \<Rightarrow> outbox_db" where
  "in_clock t f db = (f (db\<lparr>ob_now := t\<rparr>))\<lparr>ob_now := ob_now db\<rparr>"

definition deliveryLease :: duration where
  "deliveryLease = minutes 5"

definition due_row :: "timestamp \<Rightarrow> outbox_row \<Rightarrow> bool" where
  "due_row t r \<longleftrightarrow> (ob_Status r = ''pending'' \<or> ob_Status r = ''sending'') \<and> ob_NextAttempt r \<le> t"

text \<open>
  The claim: rows other statements have locked are skipped; \<open>tie\<close> orders rows that are due at the same instant.
\<close>

definition claimed_rows :: "int set \<Rightarrow> (outbox_row \<Rightarrow> nat) \<Rightarrow> nat \<Rightarrow> outbox_db \<Rightarrow> outbox_row list" where
  "claimed_rows locked tie limit db =
     take limit (sort_key ob_NextAttempt (sort_key tie (filter (\<lambda>r. due_row (ob_now db) r \<and> ob_ID r \<notin> locked) (outbox db))))"

definition delivery_of :: "outbox_row \<Rightarrow> AlertDelivery" where
  "delivery_of r = \<lparr>dl_ID = ob_ID r, dl_OrgID = ob_OrgID r, dl_ChannelID = ob_ChannelID r, dl_Event = ob_Event r, dl_Title = ob_Title r,
     dl_Body = ob_Body r, dl_Attempts = ob_Attempts r\<rparr>"

definition claim_tx :: "int set \<Rightarrow> (outbox_row \<Rightarrow> nat) \<Rightarrow> nat \<Rightarrow> outbox_db \<Rightarrow> (AlertDelivery list \<times> outbox_db) res" where
  "claim_tx locked tie limit db =
     (let rows = claimed_rows locked tie limit db
      in Inr (map delivery_of rows,
              db\<lparr>outbox := map (\<lambda>r. if ob_ID r \<in> ob_ID ` set rows
                  then r\<lparr>ob_Status := ''sending'', ob_NextAttempt := ob_now db + deliveryLease\<rparr> else r) (outbox db)\<rparr>))"

definition DueAlertDeliveries :: "db_verdict \<Rightarrow> int set \<Rightarrow> (outbox_row \<Rightarrow> nat) \<Rightarrow> nat \<Rightarrow> outbox_db \<Rightarrow> AlertDelivery list res \<times> outbox_db" where
  "DueAlertDeliveries v locked tie limit = in_tx v (claim_tx locked tie limit)"

text \<open>Changes the row with this id if it is being sent, and tells whether there was one.\<close>

definition on_sending :: "int \<Rightarrow> (outbox_row \<Rightarrow> outbox_row) \<Rightarrow> outbox_db \<Rightarrow> outbox_db" where
  "on_sending i f db = db\<lparr>outbox := map (\<lambda>r. if ob_ID r = i \<and> ob_Status r = ''sending'' then f r else r) (outbox db)\<rparr>"

definition sending_row :: "int \<Rightarrow> outbox_db \<Rightarrow> outbox_row option" where
  "sending_row i db = find (\<lambda>r. ob_ID r = i \<and> ob_Status r = ''sending'') (outbox db)"

definition RenewAlertDeliveryLease :: "db_verdict \<Rightarrow> int \<Rightarrow> outbox_db \<Rightarrow> bool res \<times> outbox_db" where
  "RenewAlertDeliveryLease v i =
     in_tx v (\<lambda>db. Inr (sending_row i db \<noteq> None, on_sending i (\<lambda>r. r\<lparr>ob_NextAttempt := ob_now db + deliveryLease\<rparr>) db))"

definition backoff_secs :: "nat \<Rightarrow> int" where
  "backoff_secs attempts = min 3600 (30 * 2 ^ attempts)"

definition failed_send :: "string \<Rightarrow> nat \<Rightarrow> timestamp \<Rightarrow> outbox_row \<Rightarrow> outbox_row" where
  "failed_send errText maxAttempts t r =
     r\<lparr>ob_Attempts := ob_Attempts r + 1, ob_LastError := take 2000 errText,
       ob_Status := (if ob_Attempts r + 1 \<ge> maxAttempts then ''failed'' else ''pending''),
       ob_NextAttempt := t + seconds (backoff_secs (ob_Attempts r))\<rparr>"

definition on_channel :: "string \<Rightarrow> (alert_channel \<Rightarrow> alert_channel) \<Rightarrow> outbox_db \<Rightarrow> outbox_db" where
  "on_channel ch f db = db\<lparr>ob_channels := map (\<lambda>c. if ac_ID c = ch then f c else c) (ob_channels db)\<rparr>"

definition result_tx :: "int \<Rightarrow> bool \<Rightarrow> string \<Rightarrow> nat \<Rightarrow> outbox_db \<Rightarrow> (unit \<times> outbox_db) res" where
  "result_tx i ok errText maxAttempts db =
     (case sending_row i db of
        None \<Rightarrow> Inl ErrNotFound
      | Some x \<Rightarrow>
          Inr ((), if ok
            then on_channel (ob_ChannelID x) (\<lambda>c. c\<lparr>ac_LastOk := Some (ob_now db), ac_LastError := ''''\<rparr>)
                   (on_sending i (\<lambda>r. r\<lparr>ob_Status := ''sent'', ob_SentAt := Some (ob_now db), ob_LastError := ''''\<rparr>) db)
            else on_channel (ob_ChannelID x) (\<lambda>c. c\<lparr>ac_LastError := take 2000 errText\<rparr>)
                   (on_sending i (failed_send errText maxAttempts (ob_now db)) db)))"

definition SetAlertDeliveryResult :: "db_verdict \<Rightarrow> int \<Rightarrow> bool \<Rightarrow> string \<Rightarrow> nat \<Rightarrow> outbox_db \<Rightarrow> unit res \<times> outbox_db" where
  "SetAlertDeliveryResult v i ok errText maxAttempts = in_tx v (result_tx i ok errText maxAttempts)"

text \<open>Retention: finished rows past their age, a batch at a time; which ones is the database's choice.\<close>

definition prune_outbox :: "db_verdict \<Rightarrow> duration \<Rightarrow> int set \<Rightarrow> outbox_db \<Rightarrow> goerr option \<times> outbox_db" where
  "prune_outbox v retain batch db =
     (if retain \<le> 0 then (None, db)
      else statement v (\<lambda>db. db\<lparr>outbox := filter (\<lambda>r. \<not> ((ob_Status r = ''sent'' \<or> ob_Status r = ''failed'') \<and>
             ob_CreatedAt r < ob_now db - retain \<and> ob_ID r \<in> batch)) (outbox db)\<rparr>) db)"

text \<open>
  The producer for certificates. The days are counted on the clock of the process, truncated towards zero.
\<close>

definition trunc_days :: "duration \<Rightarrow> int" where
  "trunc_days d = sgn d * (\<bar>d\<bar> div (24 * minutes 60))"

definition cert_alert :: "timestamp \<Rightarrow> string \<Rightarrow> string \<Rightarrow> timestamp \<Rightarrow> outbox_db \<Rightarrow> outbox_db" where
  "cert_alert wall orgID domain expires =
     outbox_enqueueAlertTx orgID AlertCertExpiring (''cert:'' @ domain @ '':'' @ itoa (expires div seconds 1)) 0
       (''Certificate for '' @ domain @ '' expires in '' @ itoa (trunc_days (expires - wall)) @ '' days'')
       (''The TLS certificate for '' @ domain @ '' expires at '' @ rfc3339 expires @
        ''. Automatic renewal should replace it; if this alert repeats as the date approaches, renewal is failing '' @ [CHR 0xE2, CHR 0x80, CHR 0x94] @
        '' check the domain's cert status.'')"

definition expiring :: "duration \<Rightarrow> outbox_db \<Rightarrow> (string \<times> string \<times> timestamp) list" where
  "expiring ahead db =
     concat (map (\<lambda>d. case dm_CertExpires d of
         None \<Rightarrow> []
       | Some e \<Rightarrow> if dm_CertStatus d = ''issued'' \<and> e > ob_now db \<and> e < ob_now db + ahead then [(dm_OrgID d, dm_Domain d, e)] else []) (ob_domains db))"

definition EnqueueCertExpiringAlerts :: "db_verdict \<Rightarrow> timestamp \<Rightarrow> duration \<Rightarrow> outbox_db \<Rightarrow> unit res \<times> outbox_db" where
  "EnqueueCertExpiringAlerts v wall ahead =
     in_tx v (\<lambda>db. Inr ((), fold (\<lambda>(orgID, domain, e). cert_alert wall orgID domain e) (expiring ahead db) db))"

section \<open>The dispatcher\<close>

record Config =
  cf_Interval :: duration
  cf_BatchSize :: int
  cf_Concurrency :: int
  cf_MaxAttempts :: int
  cf_CertScanEvery :: duration
  cf_CertExpiryWindow :: duration

definition defaultConcurrency :: int where
  "defaultConcurrency = 8"

definition defaults :: "Config \<Rightarrow> Config" where
  "defaults c =
     \<lparr>cf_Interval = (if cf_Interval c \<le> 0 then seconds 15 else cf_Interval c),
      cf_BatchSize = (if cf_BatchSize c \<le> 0 then 50 else cf_BatchSize c),
      cf_Concurrency = (if cf_Concurrency c \<le> 0 then defaultConcurrency else cf_Concurrency c),
      cf_MaxAttempts = (if cf_MaxAttempts c \<le> 0 then 8 else cf_MaxAttempts c),
      cf_CertScanEvery = (if cf_CertScanEvery c \<le> 0 then minutes 60 else cf_CertScanEvery c),
      cf_CertExpiryWindow = (if cf_CertExpiryWindow c \<le> 0 then 14 * 24 * minutes 60 else cf_CertExpiryWindow c)\<rparr>"

text \<open>
  A delivery of a batch and how far \<open>deliver\<close> has come with it. Between two of these points any other job may run. An error of the lease's renewal is
  only logged; an error of the channel's lookup is recorded as the result.
\<close>

datatype progress = Waiting | Looked_up AlertChannelSend | Ready AlertChannelSend | Outcome "string option" | Finished

record job =
  jb_delivery :: AlertDelivery
  jb_at :: progress

definition after_lookup :: "(goerr \<Rightarrow> string) \<Rightarrow> AlertChannelSend res \<Rightarrow> progress" where
  "after_lookup msg r = (case r of Inl e \<Rightarrow> Outcome (Some (msg e)) | Inr c \<Rightarrow> Looked_up c)"

definition after_renewal :: "AlertChannelSend \<Rightarrow> bool res \<Rightarrow> progress" where
  "after_renewal c r = (case r of Inl e \<Rightarrow> Ready c | Inr held \<Rightarrow> if held then Ready c else Finished)"

definition record_result :: "db_verdict \<Rightarrow> Config \<Rightarrow> AlertDelivery \<Rightarrow> string option \<Rightarrow> outbox_db \<Rightarrow> unit res \<times> outbox_db" where
  "record_result v cfg d sendErr =
     SetAlertDeliveryResult v (dl_ID d) (sendErr = None) (case sendErr of None \<Rightarrow> '''' | Some e \<Rightarrow> e) (nat (cf_MaxAttempts cfg))"

record outbox_sys =
  sys_db :: outbox_db
  sys_jobs :: "job list"
  sys_sends :: "int list" \<comment> \<open>the deliveries sent, oldest first\<close>

definition move_job :: "nat \<Rightarrow> progress \<Rightarrow> outbox_sys \<Rightarrow> outbox_sys" where
  "move_job i p s = s\<lparr>sys_jobs := (sys_jobs s)[i := (sys_jobs s ! i)\<lparr>jb_at := p\<rparr>]\<rparr>"

definition job_at :: "outbox_sys \<Rightarrow> nat \<Rightarrow> progress \<Rightarrow> AlertDelivery \<Rightarrow> bool" where
  "job_at s i p d \<longleftrightarrow> i < length (sys_jobs s) \<and> sys_jobs s ! i = \<lparr>jb_delivery = d, jb_at = p\<rparr>"

text \<open>
  The system: producers, dispatchers, their jobs, and the administration of channels and rules. \<open>win\<close> is the window a producer uses for a key. A producer's
  transaction has any clock, and a producer without the lock any snapshot. A job is given up where it is when its process ends (\<open>drop\<close>).
\<close>

inductive outbox_step :: "vault \<Rightarrow> (goerr \<Rightarrow> string) \<Rightarrow> Config \<Rightarrow> (string \<Rightarrow> duration) \<Rightarrow> outbox_sys \<Rightarrow> outbox_sys \<Rightarrow> bool" for vt msg cfg win where
  enqueue: "outbox_step vt msg cfg win s (s\<lparr>sys_db := in_clock t (outbox_enqueueAlertTx orgID event key (win key) title body) (sys_db s)\<rparr>)"
| direct: "direct_key key \<Longrightarrow>
    outbox_step vt msg cfg win s (s\<lparr>sys_db := direct_alerts t snapshot orgID event key (win key) title body (sys_db s)\<rparr>)"
| due: "DueAlertDeliveries v locked tie (nat (cf_BatchSize cfg)) (sys_db s) = (r, db') \<Longrightarrow>
    outbox_step vt msg cfg win s (s\<lparr>sys_db := db', sys_jobs := sys_jobs s @
      (case r of Inl e \<Rightarrow> [] | Inr ds \<Rightarrow> map (\<lambda>d. \<lparr>jb_delivery = d, jb_at = Waiting\<rparr>) ds)\<rparr>)"
| lookup: "job_at s i Waiting d \<Longrightarrow> r = AlertChannelForSend vt (dl_OrgID d) (dl_ChannelID d) (sys_db s) \<or> r = Inl e \<Longrightarrow>
    outbox_step vt msg cfg win s (move_job i (after_lookup msg r) s)"
| renew: "job_at s i (Looked_up c) d \<Longrightarrow> RenewAlertDeliveryLease v (dl_ID d) (sys_db s) = (r, db') \<Longrightarrow>
    outbox_step vt msg cfg win s (move_job i (after_renewal c r) (s\<lparr>sys_db := db'\<rparr>))"
| send: "job_at s i (Ready c) d \<Longrightarrow>
    outbox_step vt msg cfg win s (move_job i (Outcome sendErr) (s\<lparr>sys_sends := sys_sends s @ [dl_ID d]\<rparr>))"
| result: "job_at s i (Outcome sendErr) d \<Longrightarrow> record_result v cfg d sendErr (sys_db s) = (x, db') \<Longrightarrow>
    outbox_step vt msg cfg win s (move_job i Finished (s\<lparr>sys_db := db'\<rparr>))"
| drop: "i < length (sys_jobs s) \<Longrightarrow> outbox_step vt msg cfg win s (move_job i Finished s)"
| tick: "ob_now (sys_db s) \<le> t \<Longrightarrow> outbox_step vt msg cfg win s (s\<lparr>sys_db := (sys_db s)\<lparr>ob_now := t\<rparr>\<rparr>)"
| prune: "prune_outbox v retain batch (sys_db s) = (y, db') \<Longrightarrow> outbox_step vt msg cfg win s (s\<lparr>sys_db := db'\<rparr>)"
| del_channel: "DeleteAlertChannel v orgID channelID actor (sys_db s) = (x, db') \<Longrightarrow> outbox_step vt msg cfg win s (s\<lparr>sys_db := db'\<rparr>)"
| set_rules: "SetAlertRules v orgID channelID events actor (sys_db s) = (x, db') \<Longrightarrow> outbox_step vt msg cfg win s (s\<lparr>sys_db := db'\<rparr>)"
end
