(* ===== verification/Alerts_Props.thy ===== *)
theory Alerts_Props
  imports Alerts
begin

text \<open>
  Properties of the outbox. As long as no job outlives its lease, a delivery is in one pair of hands at a time, and a finished one is never sent again; without that
  assumption the renewal before the send does not keep two dispatchers apart. And the outbox never has two alerts of one kind for a channel
  closer together than the producer's window, the keys excepted whose producers take no lock.
\<close>

section \<open>What the statements do to the rows\<close>

text \<open>
  Every change of the table adds rows, removes rows or changes rows in place. \<open>rows_map\<close> says how the status of what is kept may
  have changed; identity, channel, key and time of creation are never touched.
\<close>

definition same_alert :: "outbox_row \<Rightarrow> outbox_row \<Rightarrow> bool" where
  "same_alert r r' \<longleftrightarrow> ob_ID r' = ob_ID r \<and> ob_ChannelID r' = ob_ChannelID r \<and> ob_DedupKey r' = ob_DedupKey r \<and> ob_CreatedAt r' = ob_CreatedAt r"

definition rows_map :: "(outbox_row \<Rightarrow> outbox_row \<Rightarrow> bool) \<Rightarrow> outbox_db \<Rightarrow> outbox_db \<Rightarrow> bool" where
  "rows_map R db db' \<longleftrightarrow> ob_seq db' = ob_seq db \<and> ob_now db \<le> ob_now db' \<and> (distinct (ob_rules db) \<longrightarrow> distinct (ob_rules db')) \<and>
     (distinct (map ob_ID (outbox db)) \<longrightarrow> distinct (map ob_ID (outbox db'))) \<and>
     (\<forall>r' \<in> set (outbox db'). \<exists>r \<in> set (outbox db). same_alert r r' \<and> R r r')"

lemma rows_mapI:
  assumes "outbox db' = map f (filter P (outbox db))" "\<And>r. r \<in> set (outbox db) \<Longrightarrow> same_alert r (f r) \<and> R r (f r)"
    "ob_seq db' = ob_seq db" "ob_now db \<le> ob_now db'" "distinct (ob_rules db) \<Longrightarrow> distinct (ob_rules db')"
  shows "rows_map R db db'"
proof -
  have ids: "map ob_ID (outbox db') = map ob_ID (filter P (outbox db))" using assms(2) by (simp add: assms(1) same_alert_def)
  have "\<exists>r \<in> set (outbox db). same_alert r r' \<and> R r r'" if r': "r' \<in> set (outbox db')" for r'
  proof -
    obtain r where "r \<in> set (outbox db)" "r' = f r" using r' unfolding assms(1) by auto
    then show ?thesis using assms(2) by blast
  qed
  then show ?thesis using assms(3-5) ids distinct_map_filter [of ob_ID "outbox db" P] unfolding rows_map_def by metis
qed

lemma rows_map_same:
  "outbox db' = outbox db \<Longrightarrow> ob_seq db' = ob_seq db \<Longrightarrow> ob_now db \<le> ob_now db' \<Longrightarrow> (distinct (ob_rules db) \<Longrightarrow> distinct (ob_rules db')) \<Longrightarrow>
    (\<And>r. R r r) \<Longrightarrow> rows_map R db db'"
  by (rule rows_mapI [where f = id and P = "\<lambda>_. True"]) (auto simp: same_alert_def)

lemma rows_map_refl: "(\<And>r. R r r) \<Longrightarrow> rows_map R db db"
  by (rule rows_map_same) simp_all

lemma on_sending_rows:
  assumes "\<And>r. ob_ID r = i \<Longrightarrow> ob_Status r = ''sending'' \<Longrightarrow> same_alert r (f r) \<and> R r (f r)" "\<And>r. R r r"
  shows "rows_map R db (on_sending i f db)"
  by (rule rows_mapI [where P = "\<lambda>_. True" and f = "\<lambda>r. if ob_ID r = i \<and> ob_Status r = ''sending'' then f r else r"])
    (use assms in \<open>auto simp: on_sending_def same_alert_def\<close>)

text \<open>The status of a row that is not of this id, or not being sent, does not change.\<close>

definition status_kept :: "outbox_row \<Rightarrow> outbox_row \<Rightarrow> bool" where
  "status_kept r r' \<longleftrightarrow> ob_Status r' = ob_Status r"

definition settled_only :: "int \<Rightarrow> outbox_row \<Rightarrow> outbox_row \<Rightarrow> bool" where
  "settled_only i r r' \<longleftrightarrow> ob_Status r' = ob_Status r \<or> ob_ID r = i \<and> ob_Status r = ''sending''"

lemma renew_rows: "RenewAlertDeliveryLease v i db = (x, db') \<Longrightarrow> rows_map status_kept db db'"
  unfolding RenewAlertDeliveryLease_def
  by (erule in_tx_cases) (auto simp: status_kept_def same_alert_def intro!: rows_map_refl on_sending_rows)

lemma on_channel_frame [simp]: "outbox (on_channel ch f db) = outbox db" "ob_seq (on_channel ch f db) = ob_seq db" "ob_now (on_channel ch f db) = ob_now db"
  "ob_rules (on_channel ch f db) = ob_rules db"
  by (simp_all add: on_channel_def)

lemma rows_map_channel: "rows_map R db db' \<Longrightarrow> rows_map R db (on_channel ch f db')"
  by (simp add: rows_map_def)

lemma result_rows: "SetAlertDeliveryResult v i ok e m db = (x, db') \<Longrightarrow> rows_map (settled_only i) db db'"
  unfolding SetAlertDeliveryResult_def
proof (erule in_tx_cases)
  fix y assume "result_tx i ok e m db = Inr (y, db')"
  then show ?thesis
    by (auto simp: result_tx_def settled_only_def same_alert_def failed_send_def split: option.splits if_splits
      intro!: rows_map_channel on_sending_rows)
qed (simp add: rows_map_refl settled_only_def)

lemma prune_rows: "prune_outbox v retain batch db = (y, db') \<Longrightarrow> rows_map status_kept db db'"
  unfolding prune_outbox_def statement_def
  by (auto simp: status_kept_def same_alert_def split: if_splits db_verdict.splits intro!: rows_map_refl
    rows_mapI [where f = id and P = "\<lambda>r. \<not> ((ob_Status r = ''sent'' \<or> ob_Status r = ''failed'') \<and> ob_CreatedAt r < ob_now db - retain \<and> ob_ID r \<in> batch)"])

lemma delete_rows: "DeleteAlertChannel v org ch actor db = (x, db') \<Longrightarrow> rows_map status_kept db db'"
  unfolding DeleteAlertChannel_def
proof (erule in_tx_cases)
  fix y assume "delete_channel_tx org ch actor db = Inr (y, db')"
  then show ?thesis
    by (intro rows_mapI [where f = id and P = "\<lambda>r. ob_ChannelID r \<noteq> ch"])
      (auto simp: delete_channel_tx_def status_kept_def same_alert_def split: option.splits)
qed (simp add: rows_map_refl status_kept_def)

lemma distinct_fold_insert: "distinct rs \<Longrightarrow> distinct (fold (\<lambda>ev rs. List.insert (f ev) rs) evs rs)"
  by (induction evs arbitrary: rs) simp_all

lemma set_rules_rows: "SetAlertRules v org ch evs actor db = (x, db') \<Longrightarrow> rows_map status_kept db db'"
  unfolding SetAlertRules_def
proof (cases "find (\<lambda>ev. \<not> validAlertEvent ev) evs", goal_cases)
  case 1
  then have "in_tx v (set_rules_tx org ch evs actor) db = (x, db')" by simp
  then show ?case
  proof (rule in_tx_cases)
    fix y assume "set_rules_tx org ch evs actor db = Inr (y, db')"
    then show ?thesis
      by (intro rows_map_same) (auto simp: set_rules_tx_def Let_def status_kept_def split: option.splits intro!: distinct_fold_insert)
  qed (simp add: rows_map_refl status_kept_def)
qed (simp add: rows_map_refl status_kept_def)

text \<open>A claim changes only rows that are due; here identifiers have to be unique.\<close>

definition claim_change :: "timestamp \<Rightarrow> outbox_row \<Rightarrow> outbox_row \<Rightarrow> bool" where
  "claim_change t r r' \<longleftrightarrow> ob_Status r' = ob_Status r \<or> due_row t r \<and> ob_Status r' = ''sending''"

lemma claimed_rows_due: "r \<in> set (claimed_rows locked tie n db) \<Longrightarrow> r \<in> set (outbox db) \<and> due_row (ob_now db) r"
  by (auto simp: claimed_rows_def dest!: in_set_takeD)

lemma claimed_rows_distinct: "distinct (map ob_ID (outbox db)) \<Longrightarrow> distinct (map ob_ID (claimed_rows locked tie n db))"
proof -
  assume "distinct (map ob_ID (outbox db))"
  then have "distinct (map ob_ID (filter P (outbox db)))" for P by (rule distinct_map_filter)
  then have "distinct (map ob_ID (sort_key ob_NextAttempt (sort_key tie (filter P (outbox db)))))" for P by (simp add: distinct_map)
  then show ?thesis unfolding claimed_rows_def by (simp add: take_map [symmetric])
qed

lemma due_cases:
  assumes "DueAlertDeliveries v locked tie n db = (r, db')" "distinct (map ob_ID (outbox db))"
  obtains e where "r = Inl e" "rows_map (claim_change (ob_now db)) db db'"
  | "r = Inr (map delivery_of (claimed_rows locked tie n db))" "rows_map (claim_change (ob_now db)) db db'"
    "\<And>x. x \<in> set (outbox db') \<Longrightarrow> ob_ID x \<in> ob_ID ` set (claimed_rows locked tie n db) \<Longrightarrow> ob_Status x = ''sending''"
proof -
  let ?rows = "claimed_rows locked tie n db"
  define f :: "outbox_row \<Rightarrow> outbox_row" where "f = (\<lambda>r. if ob_ID r \<in> ob_ID ` set ?rows then r\<lparr>ob_Status := ''sending'', ob_NextAttempt := ob_now db + deliveryLease\<rparr> else r)"
  define db1 where "db1 = db\<lparr>outbox := map f (outbox db)\<rparr>"
  have due: "due_row (ob_now db) x" if x: "x \<in> set (outbox db)" "ob_ID x \<in> ob_ID ` set ?rows" for x
  proof -
    obtain y where y: "y \<in> set ?rows" "ob_ID x = ob_ID y" using x(2) by blast
    then have "y \<in> set (outbox db)" "due_row (ob_now db) y" using claimed_rows_due by simp_all
    then show ?thesis using inj_onD [of ob_ID "set (outbox db)" x y] assms(2) x(1) y(2) by (simp add: distinct_map)
  qed
  have "same_alert r (f r) \<and> claim_change (ob_now db) r (f r)" if "r \<in> set (outbox db)" for r
    using due [OF that] by (simp add: f_def same_alert_def claim_change_def)
  then have change: "rows_map (claim_change (ob_now db)) db db1"
    by (intro rows_mapI [where P = "\<lambda>_. True" and f = f]) (simp_all add: db1_def)
  have kept: "rows_map (claim_change (ob_now db)) db db" by (simp add: rows_map_refl claim_change_def)
  have sending: "ob_Status x = ''sending''" if "x \<in> set (outbox db1)" "ob_ID x \<in> ob_ID ` set ?rows" for x
    using that by (auto simp: db1_def f_def split: if_splits)
  have "claim_tx locked tie n db = Inr (map delivery_of ?rows, db1)" by (simp add: claim_tx_def Let_def db1_def f_def)
  then consider "v = db_verdict.Applied" "r = Inr (map delivery_of ?rows)" "db' = db1" | e where "v = Lost e" "r = Inl e" "db' = db"
    | e where "v = Unacked e" "r = Inl e" "db' = db1"
    using assms(1) by (cases v) (simp_all add: DueAlertDeliveries_def in_tx_def)
  then show thesis
  proof cases
    case 1
    show thesis by (rule that(2)) (use 1 change sending in simp_all)
  next
    case 2
    show thesis by (rule that(1)) (use 2 kept in simp_all)
  next
    case 3
    show thesis by (rule that(1)) (use 3 change in simp_all)
  qed
qed

text \<open>New alerts have new identifiers.\<close>

lemma insert_rows:
  assumes db'_def: "db' = insert_alerts t chs orgID event key title body db"
  shows "set (outbox db') = set (outbox db) \<union> {new_alert (ob_seq db + int k) orgID (chs ! k) event key title body t | k. k < length chs}"
    "ob_seq db \<le> ob_seq db'" "ob_now db' = ob_now db" "ob_rules db' = ob_rules db"
    "distinct (map ob_ID (outbox db)) \<Longrightarrow> \<forall>r \<in> set (outbox db). ob_ID r < ob_seq db \<Longrightarrow> distinct (map ob_ID (outbox db')) \<and> (\<forall>r \<in> set (outbox db'). ob_ID r < ob_seq db')"
proof -
  have out: "outbox db' = outbox db @ map (\<lambda>(k, ch). new_alert (ob_seq db + int k) orgID ch event key title body t) (List.enumerate 0 chs)"
    and seq: "ob_seq db' = ob_seq db + int (length chs)" by (simp_all add: db'_def insert_alerts_def)
  show rows: "set (outbox db') = set (outbox db) \<union> {new_alert (ob_seq db + int k) orgID (chs ! k) event key title body t | k. k < length chs}"
    unfolding out by (auto simp: in_set_enumerate_eq image_iff)
  show "ob_seq db \<le> ob_seq db'" using seq by simp
  show "ob_now db' = ob_now db" "ob_rules db' = ob_rules db" by (simp_all add: db'_def insert_alerts_def)
  assume ids: "distinct (map ob_ID (outbox db))" "\<forall>r \<in> set (outbox db). ob_ID r < ob_seq db"
  have "map ob_ID (outbox db') = map ob_ID (outbox db) @ map (\<lambda>k. ob_seq db + int k) [0..<length chs]"
    unfolding out by (rule nth_equalityI) (auto simp: new_alert_def nth_append nth_enumerate_eq)
  then show "distinct (map ob_ID (outbox db')) \<and> (\<forall>r \<in> set (outbox db'). ob_ID r < ob_seq db')"
    using ids seq rows by (fastforce simp: distinct_map inj_on_def new_alert_def)
qed

lemma in_clock_enqueue:
  "in_clock t (outbox_enqueueAlertTx orgID event key w title body) db =
   insert_alerts t (alert_targets orgID event key w (db\<lparr>ob_now := t\<rparr>)) orgID event key title (left body 4000) db"
  by (simp add: in_clock_def outbox_enqueueAlertTx_def insert_alerts_def)

section \<open>Jobs\<close>

definition busy :: "outbox_sys \<Rightarrow> nat \<Rightarrow> int \<Rightarrow> bool" where
  "busy s i x \<longleftrightarrow> i < length (sys_jobs s) \<and> jb_at (sys_jobs s ! i) \<noteq> Finished \<and> dl_ID (jb_delivery (sys_jobs s ! i)) = x"

lemma move_job_frame [simp]: "sys_db (move_job i p s) = sys_db s" "sys_sends (move_job i p s) = sys_sends s"
  by (simp_all add: move_job_def)

lemma busy_frame [simp]: "busy (s\<lparr>sys_db := db\<rparr>) = busy s" "busy (s\<lparr>sys_sends := l\<rparr>) = busy s" "job_at (s\<lparr>sys_db := db\<rparr>) = job_at s" "job_at (s\<lparr>sys_sends := l\<rparr>) = job_at s"
  by (simp_all add: busy_def job_at_def fun_eq_iff)

lemma job_busy: "job_at s i p d \<Longrightarrow> p \<noteq> Finished \<Longrightarrow> busy s i (dl_ID d)"
  by (simp add: job_at_def busy_def)

lemma busy_move:
  assumes "busy (move_job i p s) k x"
  shows "k = i \<longrightarrow> p \<noteq> Finished" "job_at s i q d \<Longrightarrow> q \<noteq> Finished \<Longrightarrow> busy s k x" "p = Finished \<Longrightarrow> busy s k x"
  using assms by (cases "k = i"; auto simp: busy_def move_job_def job_at_def)+

text \<open>
  What holds between dispatchers that keep to their leases: identifiers are unique, no delivery is in two hands, and the row of a delivery being worked on
  is marked as such.
\<close>

definition ids_ok :: "outbox_db \<Rightarrow> bool" where
  "ids_ok db \<longleftrightarrow> distinct (map ob_ID (outbox db)) \<and> (\<forall>r \<in> set (outbox db). ob_ID r < ob_seq db)"

definition held :: "outbox_sys \<Rightarrow> bool" where
  "held s \<longleftrightarrow> (\<forall>i k x. busy s i x \<longrightarrow> busy s k x \<longrightarrow> i = k) \<and>
     (\<forall>i x. busy s i x \<longrightarrow> x < ob_seq (sys_db s) \<and> (\<forall>r \<in> set (outbox (sys_db s)). ob_ID r = x \<longrightarrow> ob_Status r = ''sending''))"

definition leases_hold :: "outbox_sys \<Rightarrow> bool" where
  "leases_hold s \<longleftrightarrow> (\<forall>i x. busy s i x \<longrightarrow> (\<forall>r \<in> set (outbox (sys_db s)). ob_ID r = x \<and> ob_Status r = ''sending'' \<longrightarrow> ob_now (sys_db s) < ob_NextAttempt r))"

lemma rows_map_ids: "rows_map R db db' \<Longrightarrow> ids_ok db \<Longrightarrow> ids_ok db'"
  by (fastforce simp: rows_map_def ids_ok_def same_alert_def)

lemma insert_ids: "ids_ok db \<Longrightarrow> ids_ok (insert_alerts t chs orgID event key title body db)"
  using insert_rows(5) [OF refl] by (simp add: ids_ok_def)

text \<open>Steps that take up no new job keep this, if the rows they change are not being worked on afterwards.\<close>

lemma held_shrinks:
  assumes "held s" "rows_map R (sys_db s) (sys_db s')" "\<And>k x. busy s' k x \<Longrightarrow> busy s k x"
    and "\<And>k x r r'. busy s' k x \<Longrightarrow> R r r' \<Longrightarrow> ob_ID r = x \<Longrightarrow> ob_Status r = ''sending'' \<Longrightarrow> ob_Status r' = ''sending''"
  shows "held s'"
proof -
  have "x < ob_seq (sys_db s') \<and> (\<forall>r' \<in> set (outbox (sys_db s')). ob_ID r' = x \<longrightarrow> ob_Status r' = ''sending'')" if "busy s' k x" for k x
  proof (intro conjI ballI impI)
    have b: "busy s k x" using assms(3) [OF that] .
    then show "x < ob_seq (sys_db s')" using assms(1,2) by (simp add: held_def rows_map_def)
    fix r' assume "r' \<in> set (outbox (sys_db s'))" "ob_ID r' = x"
    then obtain r where r: "r \<in> set (outbox (sys_db s))" "ob_ID r = x" "R r r'" using assms(2) unfolding rows_map_def same_alert_def by metis
    then show "ob_Status r' = ''sending''" using assms(4) [OF that] b assms(1) unfolding held_def by blast
  qed
  moreover have "busy s' i x \<Longrightarrow> busy s' k x \<Longrightarrow> i = k" for i k x using assms(1,3) unfolding held_def by blast
  ultimately show ?thesis unfolding held_def by blast
qed

lemma held_insert:
  assumes "held s"
  shows "held (s\<lparr>sys_db := insert_alerts t chs orgID event key title body (sys_db s)\<rparr>)"
proof -
  note rows = insert_rows [where db = "sys_db s" and t = t and chs = chs and orgID = orgID and event = event and key = key and title = title and body = body, OF refl]
  have "x < ob_seq (insert_alerts t chs orgID event key title body (sys_db s)) \<and>
     (\<forall>r \<in> set (outbox (insert_alerts t chs orgID event key title body (sys_db s))). ob_ID r = x \<longrightarrow> ob_Status r = ''sending'')"
    if "busy s i x" for i x
    using that assms rows(1,2) unfolding held_def by (fastforce simp: new_alert_def)
  then show ?thesis using assms unfolding held_def by simp
qed

lemma held_due:
  assumes "held s" "ids_ok (sys_db s)" "leases_hold s" "DueAlertDeliveries v locked tie n (sys_db s) = (r, db')"
  shows "held (s\<lparr>sys_db := db', sys_jobs := sys_jobs s @
      (case r of Inl e \<Rightarrow> [] | Inr ds \<Rightarrow> map (\<lambda>d. \<lparr>jb_delivery = d, jb_at = Waiting\<rparr>) ds)\<rparr>)" (is "held ?s'")
proof -
  have ids: "distinct (map ob_ID (outbox (sys_db s)))" using assms(2) by (simp add: ids_ok_def)
  from assms(4) ids show ?thesis
  proof (cases rule: due_cases)
    case (1 e)
    then show ?thesis using assms(1) by (intro held_shrinks [OF assms(1), of "claim_change (ob_now (sys_db s))"]) (auto simp: busy_def claim_change_def)
  next
    case 2
    let ?rows = "claimed_rows locked tie n (sys_db s)"
    let ?jobs = "map (\<lambda>d. \<lparr>jb_delivery = d, jb_at = Waiting\<rparr>) (map delivery_of ?rows)"
    have jobs: "sys_jobs ?s' = sys_jobs s @ ?jobs" "sys_db ?s' = db'" by (simp_all add: 2(1))
    have old: "busy ?s' k x \<longleftrightarrow> busy s k x" if "k < length (sys_jobs s)" for k x using that by (simp add: busy_def jobs nth_append)
    have new: "busy ?s' k x \<longleftrightarrow> k < length (sys_jobs s) + length ?rows \<and> x = map ob_ID ?rows ! (k - length (sys_jobs s))" if "length (sys_jobs s) \<le> k" for k x
      using that by (auto simp: busy_def jobs nth_append delivery_of_def)
    have free: "x \<notin> ob_ID ` set ?rows" if b: "busy s k x" for k x
    proof
      assume "x \<in> ob_ID ` set ?rows"
      then obtain y where y: "y \<in> set (outbox (sys_db s))" "due_row (ob_now (sys_db s)) y" "ob_ID y = x" using claimed_rows_due by blast
      then have "ob_Status y = ''sending''" using assms(1) b unfolding held_def by blast
      then have "ob_now (sys_db s) < ob_NextAttempt y" using assms(3) b y(1,3) unfolding leases_hold_def by blast
      then show False using y(2) by (simp add: due_row_def)
    qed
    have claimed: "x \<in> ob_ID ` set ?rows" if "busy ?s' k x" "length (sys_jobs s) \<le> k" for k x
      using that new [OF that(2), of x] by (auto intro!: imageI nth_mem)
    show ?thesis unfolding held_def
    proof (intro conjI allI impI)
      fix i k x assume b: "busy ?s' i x" "busy ?s' k x"
      have both: "i < length (sys_jobs s) \<longleftrightarrow> k < length (sys_jobs s)" using b claimed free old by (metis not_le)
      show "i = k"
      proof (cases "i < length (sys_jobs s)")
        case True
        then have "busy s i x" "busy s k x" using b old both by simp_all
        then show ?thesis using assms(1) unfolding held_def by blast
      next
        case False
        then have len: "length (sys_jobs s) \<le> i" "length (sys_jobs s) \<le> k" using both by simp_all
        have "map ob_ID ?rows ! (i - length (sys_jobs s)) = map ob_ID ?rows ! (k - length (sys_jobs s))"
          "i - length (sys_jobs s) < length (map ob_ID ?rows)" "k - length (sys_jobs s) < length (map ob_ID ?rows)"
          using b new [OF len(1), of x] new [OF len(2), of x] len by auto
        then have "i - length (sys_jobs s) = k - length (sys_jobs s)" using nth_eq_iff_index_eq [OF claimed_rows_distinct [OF ids]] by blast
        then show ?thesis using len by simp
      qed
    next
      fix i x assume b: "busy ?s' i x"
      have "\<exists>y. y \<in> set (outbox (sys_db s)) \<and> ob_ID y = x" if "x \<in> ob_ID ` set ?rows" using that claimed_rows_due by blast
      moreover have "busy s i x \<or> x \<in> ob_ID ` set ?rows" using b claimed old by (metis not_le)
      ultimately have "x < ob_seq (sys_db s)" using assms(1,2) unfolding held_def ids_ok_def by blast
      then show "x < ob_seq (sys_db ?s')" using 2(2) unfolding jobs by (simp add: rows_map_def)
      show "\<forall>y \<in> set (outbox (sys_db ?s')). ob_ID y = x \<longrightarrow> ob_Status y = ''sending''"
      proof (intro ballI impI)
        fix y assume y: "y \<in> set (outbox (sys_db ?s'))" "ob_ID y = x"
        show "ob_Status y = ''sending''"
        proof (cases "x \<in> ob_ID ` set ?rows")
          case True
          then show ?thesis using y 2(3) unfolding jobs by blast
        next
          case False
          then have bs: "busy s i x" using b claimed old by (metis not_le)
          obtain z where z: "z \<in> set (outbox (sys_db s))" "ob_ID z = x" "claim_change (ob_now (sys_db s)) z y"
            using 2(2) y unfolding jobs rows_map_def same_alert_def by metis
          then show ?thesis using assms(1) bs unfolding held_def claim_change_def by metis
        qed
      qed
    qed
  qed
qed
lemma status_kept_sending: "status_kept r r' \<Longrightarrow> ob_Status r = ''sending'' \<Longrightarrow> ob_Status r' = ''sending''"
  by (simp add: status_kept_def)

lemma step_ids: "outbox_step vt msg cfg win s s' \<Longrightarrow> ids_ok (sys_db s) \<Longrightarrow> ids_ok (sys_db s')"
proof (induction rule: outbox_step.induct)
  case (due v locked tie s r db')
  then show ?case by (auto simp: ids_ok_def elim!: due_cases dest!: rows_map_ids [unfolded ids_ok_def])
next
  case (tick s t)
  then show ?case by (simp add: ids_ok_def)
qed (simp_all add: in_clock_enqueue direct_alerts_def insert_ids, auto simp: record_result_def dest!: renew_rows result_rows prune_rows delete_rows set_rules_rows elim: rows_map_ids)

lemma step_held: "outbox_step vt msg cfg win s s' \<Longrightarrow> held s \<Longrightarrow> ids_ok (sys_db s) \<Longrightarrow> leases_hold s \<Longrightarrow> held s'"
proof (induction rule: outbox_step.induct)
  case (enqueue s t orgID event key title body)
  then show ?case unfolding in_clock_enqueue by (intro held_insert)
next
  case (direct key s t snapshot orgID event title body)
  then show ?case unfolding direct_alerts_def by (intro held_insert)
next
  case (due v locked tie s r db')
  then show ?case by (intro held_due)
next
  case (lookup s i d r e)
  then show ?case
    by (intro held_shrinks [OF lookup.prems(1), of status_kept]) (auto simp: rows_map_refl status_kept_def dest: busy_move(2))
next
  case (renew s i c d v r db')
  then show ?case
    by (intro held_shrinks [OF renew.prems(1), of status_kept]) (auto simp: renew_rows status_kept_def dest: busy_move(2))
next
  case (send s i c d sendErr)
  then show ?case
    by (intro held_shrinks [OF send.prems(1), of status_kept]) (auto simp: rows_map_refl status_kept_def dest: busy_move(2))
next
  case (result s i sendErr d v x db')
  show ?case
  proof (intro held_shrinks [OF result.prems(1), of "settled_only (dl_ID d)"])
    show "rows_map (settled_only (dl_ID d)) (sys_db s) (sys_db (move_job i Finished (s\<lparr>sys_db := db'\<rparr>)))"
      using result.hyps(2) result_rows unfolding record_result_def by simp
  next
    fix k x assume b: "busy (move_job i Finished (s\<lparr>sys_db := db'\<rparr>)) k x"
    then show bs: "busy s k x" using busy_move(3) [OF b] by simp
    have "busy s i (dl_ID d)" using job_busy [OF result.hyps(1)] by simp
    then have "x \<noteq> dl_ID d" using busy_move(1) [OF b] bs result.prems(1) unfolding held_def by blast
    then show "settled_only (dl_ID d) r r' \<Longrightarrow> ob_ID r = x \<Longrightarrow> ob_Status r = ''sending'' \<Longrightarrow> ob_Status r' = ''sending''" for r r'
      by (simp add: settled_only_def)
  qed
next
  case (drop i s)
  then show ?case
    by (intro held_shrinks [OF drop.prems(1), of status_kept]) (auto simp: rows_map_refl status_kept_def dest: busy_move(3))
next
  case (tick s t)
  then show ?case by (simp add: held_def)
next
  case (prune v retain batch s y db')
  then show ?case by (intro held_shrinks [OF prune.prems(1), of status_kept]) (auto simp: prune_rows status_kept_def)
next
  case (del_channel v orgID channelID actor s x db')
  then show ?case by (intro held_shrinks [OF del_channel.prems(1), of status_kept]) (auto simp: delete_rows status_kept_def)
next
  case (set_rules v orgID channelID events actor s x db')
  then show ?case by (intro held_shrinks [OF set_rules.prems(1), of status_kept]) (auto simp: set_rules_rows status_kept_def)
qed
text \<open>Runs in which no job outlives the lease of its delivery.\<close>

inductive timely_step :: "vault \<Rightarrow> (goerr \<Rightarrow> string) \<Rightarrow> Config \<Rightarrow> (string \<Rightarrow> duration) \<Rightarrow> outbox_sys \<Rightarrow> outbox_sys \<Rightarrow> bool" for vt msg cfg win where
  timely: "outbox_step vt msg cfg win s s' \<Longrightarrow> leases_hold s' \<Longrightarrow> timely_step vt msg cfg win s s'"

definition outbox_start :: "outbox_sys \<Rightarrow> bool" where
  "outbox_start s \<longleftrightarrow> ids_ok (sys_db s) \<and> sys_jobs s = []"

lemma timely_held:
  "(timely_step vt msg cfg win)\<^sup>*\<^sup>* s0 s \<Longrightarrow> outbox_start s0 \<Longrightarrow> held s \<and> ids_ok (sys_db s) \<and> leases_hold s"
proof (induction rule: rtranclp_induct)
  case base
  then show ?case by (simp add: outbox_start_def held_def leases_hold_def busy_def)
next
  case (step s1 s2)
  then show ?case by (auto elim!: timely_step.cases dest: step_ids step_held)
qed

text \<open>A delivery that is over: its row is finished and nobody works on it. This lasts, with or without leases.\<close>

definition over :: "int \<Rightarrow> outbox_sys \<Rightarrow> bool" where
  "over x s \<longleftrightarrow> ids_ok (sys_db s) \<and> x < ob_seq (sys_db s) \<and> (\<forall>k. \<not> busy s k x) \<and>
     (\<forall>r \<in> set (outbox (sys_db s)). ob_ID r = x \<longrightarrow> ob_Status r = ''sent'' \<or> ob_Status r = ''failed'')"

lemma over_shrinks:
  assumes "over x s" "rows_map R (sys_db s) (sys_db s')" "\<And>k. busy s' k x \<Longrightarrow> busy s k x"
    and "\<And>r r'. R r r' \<Longrightarrow> ob_Status r = ''sent'' \<or> ob_Status r = ''failed'' \<Longrightarrow> ob_Status r' = ob_Status r"
  shows "over x s'"
proof -
  have "ob_Status r' = ''sent'' \<or> ob_Status r' = ''failed''" if r': "r' \<in> set (outbox (sys_db s'))" "ob_ID r' = x" for r'
  proof -
    obtain r where "r \<in> set (outbox (sys_db s))" "ob_ID r = x" "R r r'" using assms(2) r' unfolding rows_map_def same_alert_def by metis
    then show ?thesis using assms(1,4) unfolding over_def by metis
  qed
  moreover have "ids_ok (sys_db s')" using assms(1,2) rows_map_ids unfolding over_def by blast
  moreover have "ob_seq (sys_db s') = ob_seq (sys_db s)" using assms(2) by (simp add: rows_map_def)
  ultimately show ?thesis using assms(1,3) unfolding over_def by auto
qed

lemma over_insert:
  assumes "over x s"
  shows "over x (s\<lparr>sys_db := insert_alerts t chs orgID event key title body (sys_db s)\<rparr>)"
proof -
  note rows = insert_rows [where db = "sys_db s" and t = t and chs = chs and orgID = orgID and event = event and key = key and title = title and body = body, OF refl]
  then show ?thesis using assms insert_ids [of "sys_db s"] unfolding over_def by (auto simp: new_alert_def)
qed

lemma over_due:
  assumes "over x s" "DueAlertDeliveries v locked tie n (sys_db s) = (r, db')"
  shows "over x (s\<lparr>sys_db := db', sys_jobs := sys_jobs s @
      (case r of Inl e \<Rightarrow> [] | Inr ds \<Rightarrow> map (\<lambda>d. \<lparr>jb_delivery = d, jb_at = Waiting\<rparr>) ds)\<rparr>)" (is "over x ?s'")
proof -
  have ids: "distinct (map ob_ID (outbox (sys_db s)))" using assms(1) by (simp add: over_def ids_ok_def)
  have fin: "claim_change (ob_now (sys_db s)) a b \<Longrightarrow> ob_Status a = ''sent'' \<or> ob_Status a = ''failed'' \<Longrightarrow> ob_Status b = ob_Status a" for a b
    by (auto simp: claim_change_def due_row_def)
  have free: "x \<notin> ob_ID ` set (claimed_rows locked tie n (sys_db s))"
    using assms(1) claimed_rows_due [of _ locked tie n "sys_db s"] by (fastforce simp: over_def due_row_def)
  from assms(2) ids show ?thesis
  proof (cases rule: due_cases)
    case (1 e)
    then show ?thesis by (intro over_shrinks [OF assms(1), of "claim_change (ob_now (sys_db s))"] fin) (auto simp: busy_def)
  next
    case 2
    have "\<not> busy ?s' k x" for k
      using assms(1) free unfolding over_def 2(1) by (auto simp: busy_def nth_append delivery_of_def split: if_splits)
    then show ?thesis using 2(2) by (intro over_shrinks [OF assms(1), of "claim_change (ob_now (sys_db s))"] fin) auto
  qed
qed

lemma over_step: "outbox_step vt msg cfg win s s' \<Longrightarrow> over x s \<Longrightarrow> over x s' \<and> count_list (sys_sends s') x = count_list (sys_sends s) x"
proof (induction rule: outbox_step.induct)
  case (enqueue s t orgID event key title body)
  then show ?case unfolding in_clock_enqueue by (simp add: over_insert)
next
  case (direct key s t snapshot orgID event title body)
  then show ?case unfolding direct_alerts_def by (simp add: over_insert)
next
  case (due v locked tie s r db')
  then show ?case using over_due [OF due.prems due.hyps] by simp
next
  case (lookup s i d r e)
  then show ?case
    by (intro conjI over_shrinks [OF lookup.prems, of status_kept]) (auto simp: rows_map_refl status_kept_def dest: busy_move(2))
next
  case (renew s i c d v r db')
  then show ?case
    by (intro conjI over_shrinks [OF renew.prems, of status_kept]) (auto simp: renew_rows status_kept_def dest: busy_move(2))
next
  case (send s i c d sendErr)
  have "dl_ID d \<noteq> x" using job_busy [OF send.hyps] send.prems unfolding over_def by auto
  then show ?case using send
    by (intro conjI over_shrinks [OF send.prems, of status_kept]) (auto simp: rows_map_refl status_kept_def dest: busy_move(2))
next
  case (result s i sendErr d v y db')
  then show ?case
    by (intro conjI over_shrinks [OF result.prems, of "settled_only (dl_ID d)"])
      (auto simp: record_result_def result_rows settled_only_def dest: busy_move(2))
next
  case (drop i s)
  then show ?case
    by (intro conjI over_shrinks [OF drop.prems, of status_kept]) (auto simp: rows_map_refl status_kept_def dest: busy_move(3))
next
  case (tick s t)
  then show ?case by (simp add: over_def ids_ok_def)
next
  case (prune v retain batch s y db')
  then show ?case by (intro conjI over_shrinks [OF prune.prems, of status_kept]) (auto simp: prune_rows status_kept_def)
next
  case (del_channel v orgID channelID actor s y db')
  then show ?case by (intro conjI over_shrinks [OF del_channel.prems, of status_kept]) (auto simp: delete_rows status_kept_def)
next
  case (set_rules v orgID channelID events actor s y db')
  then show ?case by (intro conjI over_shrinks [OF set_rules.prems, of status_kept]) (auto simp: set_rules_rows status_kept_def)
qed

lemma over_steps: "(outbox_step vt msg cfg win)\<^sup>*\<^sup>* s s' \<Longrightarrow> over x s \<Longrightarrow> over x s' \<and> count_list (sys_sends s') x = count_list (sys_sends s) x"
  by (induction rule: rtranclp_induct) (use over_step in force)+

text \<open>
  C32. Deliveries are exclusive while leases hold (alerts_store.go, DueAlertDeliveries, RenewAlertDeliveryLease, SetAlertDeliveryResult; dispatcher.go,
  drain and deliver). In every run of any number of dispatchers, with crashes, lost statements, retention and deleted channels, in which no job outlives the
  lease of its delivery: no delivery is ever worked on by two jobs at a time; and once a delivery is recorded as sent or given up it is never
  sent again, whatever happens afterwards, leases kept or not.
\<close>

theorem deliveries_exclusive:
  assumes "outbox_start s0" "(timely_step vt msg cfg win)\<^sup>*\<^sup>* s0 s" "(outbox_step vt msg cfg win)\<^sup>*\<^sup>* s s'"
  shows "(\<forall>i k p q d e. job_at s i p d \<and> job_at s k q e \<and> p \<noteq> Finished \<and> q \<noteq> Finished \<and> dl_ID d = dl_ID e \<longrightarrow> i = k) \<and>
    (\<forall>r \<in> set (outbox (sys_db s)). ob_Status r = ''sent'' \<or> ob_Status r = ''failed'' \<longrightarrow>
       count_list (sys_sends s') (ob_ID r) = count_list (sys_sends s) (ob_ID r))"
proof -
  have inv: "held s" "ids_ok (sys_db s)" using timely_held [OF assms(2,1)] by simp_all
  have "over (ob_ID r) s" if r: "r \<in> set (outbox (sys_db s))" "ob_Status r = ''sent'' \<or> ob_Status r = ''failed''" for r
  proof -
    have "r' = r" if "r' \<in> set (outbox (sys_db s))" "ob_ID r' = ob_ID r" for r'
      using inv(2) r(1) that unfolding ids_ok_def distinct_map by (blast dest: inj_onD)
    moreover have "\<not> busy s k (ob_ID r)" for k using inv(1) r unfolding held_def by fastforce
    ultimately show ?thesis using inv(2) r unfolding over_def ids_ok_def by metis
  qed
  then show ?thesis using over_steps [OF assms(3)] inv(1) job_busy unfolding held_def by metis
qed
section \<open>The renewal before the send\<close>

lemma sending_row_iff: "sending_row i db \<noteq> None \<longleftrightarrow> (\<exists>r \<in> set (outbox db). ob_ID r = i \<and> ob_Status r = ''sending'')"
  unfolding sending_row_def by (simp only: find_None_iff) blast

lemma claimed_is_sending:
  assumes "DueAlertDeliveries db_verdict.Applied locked tie n db = (Inr ds, db')" "d \<in> set ds"
  shows "sending_row (dl_ID d) db' \<noteq> None"
proof -
  let ?rows = "claimed_rows locked tie n db"
  have eq: "ds = map delivery_of ?rows" "outbox db' = map (\<lambda>r. if ob_ID r \<in> ob_ID ` set ?rows
      then r\<lparr>ob_Status := ''sending'', ob_NextAttempt := ob_now db + deliveryLease\<rparr> else r) (outbox db)"
    using assms(1) by (auto simp: DueAlertDeliveries_def in_tx_def claim_tx_def Let_def)
  obtain r where r: "r \<in> set ?rows" "dl_ID d = ob_ID r" using assms(2) by (auto simp: eq(1) delivery_of_def)
  then have "r\<lparr>ob_Status := ''sending'', ob_NextAttempt := ob_now db + deliveryLease\<rparr> \<in> set (outbox db')"
    using claimed_rows_due [OF r(1)] unfolding eq(2) by force
  then show ?thesis unfolding sending_row_iff using r(2) by (intro bexI) simp_all
qed

lemma renew_keeps_sending: "sending_row i db \<noteq> None \<Longrightarrow> \<exists>db'. RenewAlertDeliveryLease db_verdict.Applied j db = (Inr (sending_row j db \<noteq> None), db') \<and> sending_row i db' \<noteq> None"
proof -
  assume "sending_row i db \<noteq> None"
  then obtain r where r: "r \<in> set (outbox db)" "ob_ID r = i" "ob_Status r = ''sending''" unfolding sending_row_iff by blast
  let ?f = "\<lambda>r. if ob_ID r = j \<and> ob_Status r = ''sending'' then r\<lparr>ob_NextAttempt := ob_now db + deliveryLease\<rparr> else r"
  let ?db' = "on_sending j (\<lambda>r. r\<lparr>ob_NextAttempt := ob_now db + deliveryLease\<rparr>) db"
  have "?f r \<in> set (outbox ?db')" unfolding on_sending_def using r(1) by simp
  moreover have "ob_ID (?f r) = i" "ob_Status (?f r) = ''sending''" using r(2,3) by simp_all
  ultimately have "sending_row i ?db' \<noteq> None" unfolding sending_row_iff by blast
  moreover have "RenewAlertDeliveryLease db_verdict.Applied j db = (Inr (sending_row j db \<noteq> None), ?db')"
    by (simp add: RenewAlertDeliveryLease_def in_tx_def)
  ultimately show ?thesis by blast
qed

text \<open>
  C34. The renewal does not tell whose delivery it is (alerts_store.go, RenewAlertDeliveryLease; dispatcher.go, deliver). The row has no owner, only the mark that it is being sent. When a
  dispatcher has been slower than its lease and another one has claimed the delivery again, the renewal of the first one is answered with yes, as is that of the second, in either order: both go on to send, and the alert goes out
  twice. The comment of the renewal says that it closes this window.
\<close>

theorem renewal_does_not_exclude:
  assumes first: "DueAlertDeliveries db_verdict.Applied locked tie n db = (Inr ds, db1)" "d \<in> set ds"
    and slow: "ob_now db1 + deliveryLease \<le> t"
    and second: "DueAlertDeliveries db_verdict.Applied locked' tie' n' (db1\<lparr>ob_now := t\<rparr>) = (Inr es, db2)" "e \<in> set es" "dl_ID e = dl_ID d"
  shows "\<exists>db3 db4. RenewAlertDeliveryLease db_verdict.Applied (dl_ID d) db2 = (Inr True, db3) \<and>
    RenewAlertDeliveryLease db_verdict.Applied (dl_ID e) db3 = (Inr True, db4) \<and> (\<forall>c. after_renewal c (Inr True) = Ready c)"
proof -
  have "sending_row (dl_ID e) db2 \<noteq> None" using claimed_is_sending [OF second(1,2)] .
  then obtain db3 where db3: "RenewAlertDeliveryLease db_verdict.Applied (dl_ID d) db2 = (Inr True, db3)" "sending_row (dl_ID e) db3 \<noteq> None"
    using renew_keeps_sending [of "dl_ID e" db2 "dl_ID d"] second(3) by auto
  then obtain db4 where "RenewAlertDeliveryLease db_verdict.Applied (dl_ID e) db3 = (Inr True, db4)"
    using renew_keeps_sending [of "dl_ID e" db3 "dl_ID e"] by auto
  with db3 show ?thesis by (auto simp: after_renewal_def)
qed

section \<open>Windows\<close>

definition spaced :: "(string \<Rightarrow> duration) \<Rightarrow> outbox_db \<Rightarrow> bool" where
  "spaced win db \<longleftrightarrow> distinct (ob_rules db) \<and>
     (\<forall>r \<in> set (outbox db). \<forall>r' \<in> set (outbox db). \<not> direct_key (ob_DedupKey r) \<and> ob_ID r \<noteq> ob_ID r' \<and> ob_ChannelID r = ob_ChannelID r' \<and>
          ob_DedupKey r = ob_DedupKey r' \<longrightarrow>
        0 < win (ob_DedupKey r) \<and> win (ob_DedupKey r) \<le> \<bar>ob_CreatedAt r - ob_CreatedAt r'\<bar>)"

lemma rows_map_spaced: assumes "rows_map R db db'" "spaced win db" shows "spaced win db'"
proof -
  have origin: "\<exists>r \<in> set (outbox db). same_alert r r'" if "r' \<in> set (outbox db')" for r' using assms(1) that unfolding rows_map_def by blast
  have "0 < win (ob_DedupKey r) \<and> win (ob_DedupKey r) \<le> \<bar>ob_CreatedAt r - ob_CreatedAt r'\<bar>"
    if r: "r \<in> set (outbox db')" "r' \<in> set (outbox db')" "ob_ID r \<noteq> ob_ID r'" "ob_ChannelID r = ob_ChannelID r'" "ob_DedupKey r = ob_DedupKey r'"
      "\<not> direct_key (ob_DedupKey r)" for r r'
  proof -
    obtain a b where ab: "a \<in> set (outbox db)" "same_alert a r" "b \<in> set (outbox db)" "same_alert b r'" using origin r(1,2) by blast
    then have "\<not> direct_key (ob_DedupKey a) \<and> ob_ID a \<noteq> ob_ID b \<and> ob_ChannelID a = ob_ChannelID b \<and> ob_DedupKey a = ob_DedupKey b" using r(3-6) by (simp add: same_alert_def)
    with ab(1,3) have "0 < win (ob_DedupKey a) \<and> win (ob_DedupKey a) \<le> \<bar>ob_CreatedAt a - ob_CreatedAt b\<bar>" using assms(2) unfolding spaced_def by blast
    then show ?thesis using ab(2,4) by (simp add: same_alert_def)
  qed
  moreover have "distinct (ob_rules db')" using assms by (simp add: rows_map_def spaced_def)
  ultimately show ?thesis unfolding spaced_def by blast
qed

lemma alert_targets_distinct: "distinct (ob_rules db) \<Longrightarrow> distinct (alert_targets orgID event key w db)"
  unfolding alert_targets_def by (auto simp: distinct_map inj_on_def)

lemma alert_targets_quiet: "ch \<in> set (alert_targets orgID event key w db) \<Longrightarrow> \<not> recently_alerted ch key w db"
  by (auto simp: alert_targets_def)

lemma insert_spaced:
  assumes "spaced win db" "distinct chs"
    and quiet: "\<And>r k. r \<in> set (outbox db) \<Longrightarrow> ob_ChannelID r = chs ! k \<Longrightarrow> ob_DedupKey r = key \<Longrightarrow> k < length chs \<Longrightarrow> \<not> direct_key key \<Longrightarrow>
      0 < win key \<and> win key \<le> t - ob_CreatedAt r"
  shows "spaced win (insert_alerts t chs orgID event key title body db)" (is "spaced win ?db'")
proof -
  let ?new = "\<lambda>k. new_alert (ob_seq db + int k) orgID (chs ! k) event key title body t"
  note rows = insert_rows [where db = db and t = t and chs = chs and orgID = orgID and event = event and key = key and title = title and body = body, OF refl]
  have "0 < win (ob_DedupKey r) \<and> win (ob_DedupKey r) \<le> \<bar>ob_CreatedAt r - ob_CreatedAt r'\<bar>"
    if r: "r \<in> set (outbox ?db')" "r' \<in> set (outbox ?db')" "ob_ID r \<noteq> ob_ID r'" "ob_ChannelID r = ob_ChannelID r'" "ob_DedupKey r = ob_DedupKey r'"
      "\<not> direct_key (ob_DedupKey r)" for r r'
  proof -
    consider "r \<in> set (outbox db)" "r' \<in> set (outbox db)" | k where "r \<in> set (outbox db)" "r' = ?new k" "k < length chs"
      | k where "r = ?new k" "k < length chs" "r' \<in> set (outbox db)" | k l where "r = ?new k" "k < length chs" "r' = ?new l" "l < length chs"
      using r(1,2) unfolding rows(1) by blast
    then show ?thesis
    proof cases
      case 1
      then show ?thesis using assms(1) r(3-6) unfolding spaced_def by blast
    next
      case (2 k)
      have "ob_ChannelID r = chs ! k" "ob_DedupKey r = key" using r(4,5) unfolding 2(2) by (simp_all add: new_alert_def)
      then show ?thesis using quiet [OF 2(1) _ _ 2(3)] r(6) unfolding 2(2) by (simp add: new_alert_def)
    next
      case (3 k)
      have "ob_ChannelID r' = chs ! k" "ob_DedupKey r' = key" "ob_DedupKey r = key" using r(4,5) unfolding 3(1) by (simp_all add: new_alert_def)
      then show ?thesis using quiet [OF 3(3) _ _ 3(2)] r(6) unfolding 3(1) by (simp add: new_alert_def)
    next
      case (4 k l)
      then show ?thesis using r(3,4) nth_eq_iff_index_eq [OF assms(2)] by (auto simp: new_alert_def)
    qed
  qed
  moreover have "distinct (ob_rules ?db')" using assms(1) rows(4) by (simp add: spaced_def)
  ultimately show ?thesis unfolding spaced_def by blast
qed

lemma enqueue_spaced:
  assumes "spaced win db"
  shows "spaced win (in_clock t (outbox_enqueueAlertTx orgID event key (win key) title body) db)"
  unfolding in_clock_enqueue
proof (rule insert_spaced [OF assms])
  let ?chs = "alert_targets orgID event key (win key) (db\<lparr>ob_now := t\<rparr>)"
  show "distinct ?chs" using assms by (intro alert_targets_distinct) (simp add: spaced_def)
  fix r k assume r: "r \<in> set (outbox db)" "ob_ChannelID r = ?chs ! k" "ob_DedupKey r = key" "k < length ?chs"
  then show "0 < win key \<and> win key \<le> t - ob_CreatedAt r"
    using alert_targets_quiet [OF nth_mem [OF r(4)]] by (auto simp: recently_alerted_def list_ex_iff)
qed

text \<open>
  What a producer without the lock inserts has a key of its own kind; nothing is said of these keys.
\<close>

lemma direct_spaced:
  assumes "spaced win db" "direct_key key"
  shows "spaced win (direct_alerts t snapshot orgID event key w title body db)"
proof -
  let ?chs = "alert_targets orgID event key w snapshot" and ?db' = "direct_alerts t snapshot orgID event key w title body db"
  note rows = insert_rows [where db = db and db' = ?db' and t = t and chs = ?chs and orgID = orgID and event = event and key = key and title = title and body = body]
  have old: "r \<in> set (outbox db)" if "r \<in> set (outbox ?db')" "ob_DedupKey r \<noteq> key" for r
    using that unfolding rows(1) [unfolded direct_alerts_def, OF refl] direct_alerts_def by (auto simp: new_alert_def)
  have "ob_rules ?db' = ob_rules db" by (simp add: direct_alerts_def insert_alerts_def)
  then show ?thesis using assms old unfolding spaced_def by metis
qed

lemma step_spaced: "outbox_step vt msg cfg win s s' \<Longrightarrow> ids_ok (sys_db s) \<Longrightarrow> spaced win (sys_db s) \<Longrightarrow> spaced win (sys_db s')"
proof (induction rule: outbox_step.induct)
  case (due v locked tie s r db')
  then show ?case by (auto simp: ids_ok_def elim!: due_cases dest: rows_map_spaced)
next
  case (tick s t)
  then show ?case by (force simp: spaced_def)
qed (simp_all add: enqueue_spaced direct_spaced,
  auto simp: record_result_def dest!: renew_rows result_rows prune_rows delete_rows set_rules_rows elim: rows_map_spaced)

text \<open>
  C33. Alerts are deduplicated (alerts_store.go, enqueueAlertTx, with retention, rules and channels changing meanwhile). In every run that starts with an
  empty outbox, two alerts with the same key in the outbox of one channel are at least the window of the key's producer apart;
  where the producer has no window there is never a second one. This holds whatever the clocks of the producers' transactions, and for all keys
  but those of failed backup runs (\<open>bkr:\<close>) and of unreachable servers, whose alerts are also inserted by statements that take no lock and
  look for earlier ones on a snapshot only; such insertions may happen at any time.
\<close>

theorem alerts_spaced:
  assumes "outbox (sys_db s0) = []" "distinct (ob_rules (sys_db s0))" "(outbox_step vt msg cfg win)\<^sup>*\<^sup>* s0 s"
  shows "\<forall>r \<in> set (outbox (sys_db s)). \<forall>r' \<in> set (outbox (sys_db s)).
    \<not> direct_key (ob_DedupKey r) \<and> ob_ID r \<noteq> ob_ID r' \<and> ob_ChannelID r = ob_ChannelID r' \<and> ob_DedupKey r = ob_DedupKey r' \<longrightarrow>
      0 < win (ob_DedupKey r) \<and> win (ob_DedupKey r) \<le> \<bar>ob_CreatedAt r - ob_CreatedAt r'\<bar>"
proof -
  have "ids_ok (sys_db s) \<and> spaced win (sys_db s)" using assms(3)
  proof (induction rule: rtranclp_induct)
    case base
    then show ?case using assms(1,2) by (simp add: ids_ok_def spaced_def)
  next
    case (step s1 s2)
    then show ?case using step_ids step_spaced by blast
  qed
  then show ?thesis unfolding spaced_def by blast
qed

text \<open>
  A run of a backup that fails and is timed out at the same moment is alerted twice: the alert of its result is inserted under the lock, the
  alert of the time-out on a snapshot from before.
\<close>

lemma direct_alert_duplicates:
  assumes "ch \<in> set (alert_targets orgID event key w db)" "ch \<in> set (alert_targets orgID event key w snapshot)"
  shows "2 \<le> card {i. \<exists>r \<in> set (outbox (direct_alerts t snapshot orgID event key w title' body' (outbox_enqueueAlertTx orgID event key w title body db))).
     ob_ID r = i \<and> ob_ChannelID r = ch \<and> ob_DedupKey r = key}"
proof -
  let ?db1 = "outbox_enqueueAlertTx orgID event key w title body db" and ?chs = "alert_targets orgID event key w"
  let ?db2 = "direct_alerts t snapshot orgID event key w title' body' ?db1"
  let ?ids = "{i. \<exists>r \<in> set (outbox ?db2). ob_ID r = i \<and> ob_ChannelID r = ch \<and> ob_DedupKey r = key}"
  obtain k l where k: "k < length (?chs db)" "?chs db ! k = ch" and l: "l < length (?chs snapshot)" "?chs snapshot ! l = ch"
    using assms by (auto simp: in_set_conv_nth)
  have out1: "set (outbox ?db1) = set (outbox db) \<union> {new_alert (ob_seq db + int k) orgID (?chs db ! k) event key title (left body 4000) (ob_now db) | k. k < length (?chs db)}"
    unfolding outbox_enqueueAlertTx_def by (rule insert_rows(1) [OF refl])
  have out2: "set (outbox ?db2) = set (outbox ?db1) \<union> {new_alert (ob_seq ?db1 + int k) orgID (?chs snapshot ! k) event key title' body' t | k. k < length (?chs snapshot)}"
    unfolding direct_alerts_def by (rule insert_rows(1) [OF refl])
  have "new_alert (ob_seq db + int k) orgID ch event key title (left body 4000) (ob_now db) \<in> set (outbox ?db2)"
    unfolding out2 out1 using k by blast
  moreover have "new_alert (ob_seq ?db1 + int l) orgID ch event key title' body' t \<in> set (outbox ?db2)"
    unfolding out2 using l by (intro UnI2 CollectI exI [of _ l] conjI) simp_all
  ultimately have "{ob_seq db + int k, ob_seq ?db1 + int l} \<subseteq> ?ids" by (force simp: new_alert_def)
  moreover have "finite ?ids" by (rule finite_subset [of _ "ob_ID ` set (outbox ?db2)"]) auto
  moreover have "ob_seq db + int k \<noteq> ob_seq ?db1 + int l" using k(1) by (simp add: outbox_enqueueAlertTx_def insert_alerts_def)
  ultimately show ?thesis using card_mono [of ?ids "{ob_seq db + int k, ob_seq ?db1 + int l}"] by simp
qed

section \<open>Runs\<close>

definition demo_outbox :: outbox_db where
  "demo_outbox = \<lparr>outbox = [], ob_channels = [\<lparr>ac_ID = ''ch'', ac_OrgID = ''o'', ac_Kind = ''slack'', ac_Name = ''ops'', ac_Config = ''{}'', ac_Secret = None,
     ac_Enabled = True, ac_LastOk = None, ac_LastError = ''''\<rparr>], ob_rules = [(''o'', AlertDeployFailed, ''ch'')], ob_domains = [], ob_audit = [],
     ob_now = 1000, ob_seq = 1\<rparr>"

definition demo_enqueue :: "outbox_sys \<Rightarrow> outbox_sys" where
  "demo_enqueue s = s\<lparr>sys_db := outbox_enqueueAlertTx ''o'' AlertDeployFailed ''dep:1'' 0 ''Deploy failed'' ''boom'' (sys_db s)\<rparr>"

definition demo_mail_vault :: vault where
  "demo_mail_vault = \<lparr>activeDEK = (\<lambda>_. Inr (''k'', ''key'')), dekPlaintext = (\<lambda>_. Inr ''key''), gcmSeal = (\<lambda>_ _ p. Inr (''n'', p)),
     gcmOpen = (\<lambda>_ _ _ c. Inr c), randomKey = Inr ''rk'', lower_text = id\<rparr>"

definition demo_config :: Config where
  "demo_config = defaults \<lparr>cf_Interval = 0, cf_BatchSize = 0, cf_Concurrency = 0, cf_MaxAttempts = 0, cf_CertScanEvery = 0, cf_CertExpiryWindow = 0\<rparr>"

definition demo_outbox_sys :: outbox_sys where
  "demo_outbox_sys = \<lparr>sys_db = demo_outbox, sys_jobs = [], sys_sends = []\<rparr>"

definition demo_first :: "AlertDelivery list res \<times> outbox_db" where
  "demo_first = DueAlertDeliveries db_verdict.Applied {} (\<lambda>_. 0) 50 (sys_db (demo_enqueue demo_outbox_sys))"

definition demo_claimed :: outbox_sys where
  "demo_claimed = (demo_enqueue demo_outbox_sys)\<lparr>sys_db := snd demo_first, sys_jobs := sys_jobs (demo_enqueue demo_outbox_sys) @
      (case fst demo_first of Inl e \<Rightarrow> [] | Inr ds \<Rightarrow> map (\<lambda>d. \<lparr>jb_delivery = d, jb_at = Waiting\<rparr>) ds)\<rparr>"

lemma demo_enqueue_step: "outbox_step vt msg cfg (\<lambda>_. 0) s (demo_enqueue s)"
proof -
  have "in_clock (ob_now (sys_db s)) (outbox_enqueueAlertTx ''o'' AlertDeployFailed ''dep:1'' 0 ''Deploy failed'' ''boom'') (sys_db s) =
      outbox_enqueueAlertTx ''o'' AlertDeployFailed ''dep:1'' 0 ''Deploy failed'' ''boom'' (sys_db s)"
    by (simp add: in_clock_enqueue outbox_enqueueAlertTx_def)
  then show ?thesis
    unfolding demo_enqueue_def
    using outbox_step.enqueue [where win = "\<lambda>_. 0" and key = "''dep:1''" and t = "ob_now (sys_db s)" and s = s] by metis
qed

lemma demo_claim_step: "outbox_step vt msg demo_config win (demo_enqueue demo_outbox_sys) demo_claimed"
proof -
  have "nat (cf_BatchSize demo_config) = 50" by (simp add: demo_config_def defaults_def)
  then have "DueAlertDeliveries db_verdict.Applied {} (\<lambda>_. 0) (nat (cf_BatchSize demo_config)) (sys_db (demo_enqueue demo_outbox_sys)) = (fst demo_first, snd demo_first)"
    by (simp add: demo_first_def)
  then show ?thesis unfolding demo_claimed_def by (rule outbox_step.due)
qed

lemma leases_holdI:
  assumes "\<forall>j \<in> set (sys_jobs s). \<forall>r \<in> set (outbox (sys_db s)).
    jb_at j = Finished \<or> ob_ID r \<noteq> dl_ID (jb_delivery j) \<or> ob_Status r \<noteq> ''sending'' \<or> ob_now (sys_db s) < ob_NextAttempt r"
  shows "leases_hold s"
  unfolding leases_hold_def
proof (intro allI impI ballI)
  fix i x r assume b: "busy s i x" and r: "r \<in> set (outbox (sys_db s))" "ob_ID r = x \<and> ob_Status r = ''sending''"
  then have "sys_jobs s ! i \<in> set (sys_jobs s)" by (simp add: busy_def)
  with assms r(1) show "ob_now (sys_db s) < ob_NextAttempt r" using b r(2) unfolding busy_def by blast
qed

lemma demo_timely: "(timely_step vt msg demo_config (\<lambda>_. 0))\<^sup>*\<^sup>* demo_outbox_sys demo_claimed" "outbox_start demo_outbox_sys"
proof -
  have "leases_hold (demo_enqueue demo_outbox_sys)" "leases_hold demo_claimed" by (rule leases_holdI, code_simp)+
  then have "timely_step vt msg demo_config (\<lambda>_. 0) demo_outbox_sys (demo_enqueue demo_outbox_sys)"
    "timely_step vt msg demo_config (\<lambda>_. 0) (demo_enqueue demo_outbox_sys) demo_claimed"
    using demo_enqueue_step demo_claim_step timely_step.timely by blast+
  then show "(timely_step vt msg demo_config (\<lambda>_. 0))\<^sup>*\<^sup>* demo_outbox_sys demo_claimed" by auto
  show "outbox_start demo_outbox_sys" by (simp add: outbox_start_def ids_ok_def demo_outbox_sys_def demo_outbox_def)
qed

lemma demo_claimed_job: "\<exists>d. job_at demo_claimed 0 Waiting d \<and> dl_ID d = 1"
proof -
  have "length (sys_jobs demo_claimed) = 1" "jb_at (hd (sys_jobs demo_claimed)) = Waiting" "dl_ID (jb_delivery (hd (sys_jobs demo_claimed))) = 1" by code_simp+
  then show ?thesis by (intro exI [of _ "jb_delivery (hd (sys_jobs demo_claimed))"]) (simp add: job_at_def hd_conv_nth flip: length_greater_0_conv)
qed

theorem deliveries_exclusive_witness: "{i. \<exists>p d. job_at demo_claimed i p d \<and> p \<noteq> Finished \<and> dl_ID d = 1} = {0}"
proof -
  obtain d where d: "job_at demo_claimed 0 Waiting d" "dl_ID d = 1" using demo_claimed_job by blast
  then show ?thesis
    using deliveries_exclusive [OF demo_timely(2) demo_timely(1) [of demo_mail_vault "\<lambda>_. ''e''"] rtranclp.rtrancl_refl] by fastforce
qed

theorem alerts_spaced_witness:
  "let rows = set (outbox (sys_db (demo_enqueue (demo_enqueue demo_outbox_sys)))) in
   rows \<noteq> {} \<and> {(r, r'). r \<in> rows \<and> r' \<in> rows \<and> ob_ID r \<noteq> ob_ID r' \<and> ob_ChannelID r = ob_ChannelID r' \<and> ob_DedupKey r = ob_DedupKey r'} = {}"
proof -
  let ?rows = "outbox (sys_db (demo_enqueue (demo_enqueue demo_outbox_sys)))"
  have start: "outbox (sys_db demo_outbox_sys) = []" "distinct (ob_rules (sys_db demo_outbox_sys))" by (simp_all add: demo_outbox_sys_def demo_outbox_def)
  have run: "(outbox_step demo_mail_vault (\<lambda>_. ''e'') demo_config (\<lambda>_. 0))\<^sup>*\<^sup>* demo_outbox_sys (demo_enqueue (demo_enqueue demo_outbox_sys))"
    using demo_enqueue_step by (meson r_into_rtranclp rtranclp.rtrancl_into_rtrancl)
  have "?rows \<noteq> []" "list_all (\<lambda>r. \<not> direct_key (ob_DedupKey r)) ?rows" by code_simp+
  then show ?thesis using alerts_spaced [OF start run] unfolding Let_def list_all_iff by fastforce
qed

definition demo_second :: "AlertDelivery list res \<times> outbox_db" where
  "demo_second = DueAlertDeliveries db_verdict.Applied {} (\<lambda>_. 0) 50 (snd demo_first\<lparr>ob_now := 1000 + deliveryLease\<rparr>)"

theorem renewal_does_not_exclude_witness:
  "\<exists>db3 db4. RenewAlertDeliveryLease db_verdict.Applied 1 (snd demo_second) = (Inr True, db3) \<and>
     RenewAlertDeliveryLease db_verdict.Applied 1 db3 = (Inr True, db4)"
proof -
  have "case fst demo_first of Inl e \<Rightarrow> False | Inr ds \<Rightarrow> map dl_ID ds = [1]" "case fst demo_second of Inl e \<Rightarrow> False | Inr ds \<Rightarrow> map dl_ID ds = [1]" by code_simp+
  then obtain d e where d: "fst demo_first = Inr [d]" "dl_ID d = 1" "fst demo_second = Inr [e]" "dl_ID e = 1" by (auto split: sum.splits)
  have first: "DueAlertDeliveries db_verdict.Applied {} (\<lambda>_. 0) 50 (sys_db (demo_enqueue demo_outbox_sys)) = (Inr [d], snd demo_first)"
    using d(1) by (simp add: demo_first_def prod_eq_iff)
  have second: "DueAlertDeliveries db_verdict.Applied {} (\<lambda>_. 0) 50 (snd demo_first\<lparr>ob_now := 1000 + deliveryLease\<rparr>) = (Inr [e], snd demo_second)"
    using d(3) by (simp add: demo_second_def prod_eq_iff)
  have slow: "ob_now (snd demo_first) + deliveryLease \<le> 1000 + deliveryLease" by code_simp
  have "d \<in> set [d]" "e \<in> set [e]" "dl_ID e = dl_ID d" using d(2,4) by simp_all
  from renewal_does_not_exclude [OF first this(1) slow second this(2,3)] show ?thesis unfolding d(2,4) by blast
qed
end
