(* ===== verification/Spec2Isabelle.thy ===== *)
theory Spec2Isabelle
  imports Rollout_Props Driver_Props Gc_Props Agent_Props Naming HostPorts Idempotency Traefik Release_Props Render_Policy Backups_Props Publish_Props Alerts_Props
begin

text \<open>
  SigmaHub: a control plane (cp/) that keeps the desired state of servers in PostgreSQL and renders it into signed
  documents, and an agent (agent/) on every server that polls for its document, verifies it, applies its ops
  in dependency order on the local Docker daemon, reports, and repairs and collects containers in the background.

  \<^bold>\<open>Shared.\<close> \<open>Prelude\<close> holds Go errors as values (\<open>goerr\<close>, \<open>'a res\<close>), strings, clocks and generic lemmas.
  \<open>Bolt\<close> is a key-ordered bbolt bucket whose transactions may fail, with a locale for a durable map, interpreted on
  it; \<open>Sql\<close> is a database transaction that takes effect, is lost, or takes effect with its acknowledgement lost.

  \<^bold>\<open>Agent: documents.\<close> \<open>Dsd\<close> (dsd.go of both binaries): documents, \<open>Sign\<close>, the two \<open>Verify\<close> and the
  depth-first \<open>TopoOrder\<close>; Ed25519, base64 and the JSON of a document are parameters. \<open>Journal\<close> (journal.go) is every
  method of the apply journal. \<open>Apply\<close> (apply.go) is the registry and \<open>Apply\<close> with its resume, skip, failure
  and deadline paths: each op at most once, never before its dependencies, closed under dependencies at every stop.
  \<open>Agent\<close> and \<open>Agent_Props\<close> (runDSDLoop of cmd/sigmad/main.go): a round of the loop, and that nothing but a verified,
  newer document for this server reaches the handlers; versions only grow; a report that was dropped is sent again.

  \<^bold>\<open>Agent: containers.\<close> \<open>Container_Spec\<close> and \<open>Policy\<close> (spec.go, policy.go, allowlist.go, driver.go): specs, the local policy and
  the create body. \<open>Rollout\<close> (rollout.go): generations, the health gate, drain, blue-green rollout, recreate, retention.
  \<open>Rollout_Trace\<close> and \<open>Rollout_Props\<close> wrap the daemon so that it records its calls, and prove orderings of the calls for every
  daemon. \<open>RateLimit\<close> is the token bucket, \<open>Store\<close> the desired containers, \<open>Driver\<close> the handlers
  (driver.go, secrets.go), \<open>Gc\<close> the reconcile loop, garbage collection and decommissioning (reconcile.go, purge.go), \<open>Traefik\<close> the
  ingress proxy and its certificates (traefik.go). \<open>Demo_Daemon\<close> is a daemon in memory on which witnesses run.
  The Docker daemon is a record of functions over a state of any type: it may answer anything, also errors.

  \<^bold>\<open>Control plane.\<close> \<open>Naming\<close> (naming.go) is the naming contract of rendered objects, shown acceptable to the agent's policy.
  \<open>HostPorts\<close> (host_ports.go, databases.go) hands out the ports of a server, never one twice to engines and apps whose specs both allocators read alike. \<open>Idempotency\<close>
  (api/idempotency.go, store/idempotency.go) is the wrapper of mutating requests, alone and interleaved. \<open>Deploy\<close>
  (store/deployments.go, \<open>CreateHeadDeployment\<close> of git.go) is the release history: every transaction that writes the deployments
  table, those that read before they write split at that point. \<open>Deploy_Props\<close> makes them steps of \<open>deploy_step\<close> and shows that each acts on the table
  by changes that rewrite no finished row and by the entry of a queued row, of a config deployment or with nothing but config deployments in flight
  under its (organisation, resource, server); \<open>Release_Props\<close> has the properties of its runs. \<open>Render_Spec\<close>, \<open>Render\<close> and \<open>Render_Deploy\<close> (reconciler/, with the engine catalogs of the store) are the
  renderers: from the rows of the tables to the ops of one server's document, each op with the struct that is encoded
  into it. \<open>Render_Order\<close> shows that the agent can order what is rendered, \<open>Render_Agent\<close> decodes the ops at the agent and has what goes wrong when a
  Compose service is held back, \<open>Render_Gc\<close> runs the agent's collection against rendered documents, \<open>Render_Policy\<close> its policy and port bindings.
  \<open>Backups\<close> (store/backups.go, backup/scheduler.go) is targets, policies, runs and the daily schedule; \<open>Backups_Steps\<close> makes its calls the steps
  of one relation and shows what they keep, \<open>Backups_Props\<close> has its properties and those of the ops rendered from it. \<open>Publish\<close> (store/dsd_store.go, store/destructive.go,
  api/dsd.go) is the publication of documents, the long poll, the ingestion of status reports and the two-phase confirmation of destructive operations;
  \<open>Publish_Props\<close> shows that it implements an append-only log of documents that the agent accepts, that exactly failed applies are retried, boundedly often,
  and that a confirmation is used once. \<open>Alerts\<close> (store/alerts_store.go, alerts/dispatcher.go) is the outbox of alerts and the dispatchers that deliver them, each claimed alert being
  a job whose statements interleave with all others; \<open>Alerts_Props\<close> shows what leases and windows guarantee, and what the renewal of a lease does not. This theory has what spans the agent and the control plane otherwise.

  \<^bold>\<open>Interfaces\<close> are locales, interpreted where their provider is modelled: the durable map (\<open>kv_bucket\<close>, on bbolt buckets), the journal of
  results (\<open>op_journal\<close>), the desired containers (\<open>desired_store\<close>) and the source of documents the long poll reads (\<open>document_source\<close>, on the control plane's store).

  \<^bold>\<open>Transactions.\<close> PostgreSQL runs at READ COMMITTED. A transaction is one step where what it reads before it writes is protected by a lock it
  takes first (the row locks of status transitions and documents, the advisory locks of superseding creators, ports and alerts) or is of no consequence for
  the properties. Where it is not, the step takes what it read from an arbitrary state: the reports and config deployments of the release
  history, the time-out of backup runs, the alerts that two statements insert without the lock; and the statements of idempotent requests, claims and deliveries are
  steps of their own. \<open>now()\<close> is the time a transaction began: the clock of a step of the release history and of a producer of alerts is arbitrary.
  The effects of foreign keys are steps only where a theory says so; those of the deployments table are not.

  \<^bold>\<open>Bounds.\<close> The polling of the health gate has no bound in the code but its deadline: it carries fuel, and with the deadline divided
  by the interval plus two it provably ends with a verdict. Every other loop is structural recursion. Timestamps and counters
  are unbounded integers; the token bucket has rational numbers for float64. A choice the database makes
  (which of several rows with equal stamps comes first) is an argument \<open>tie\<close>.

  \<^bold>\<open>Not modelled.\<close> The HTTP clients and servers, JSON, the Docker transport, the runners of backups, builds and
  object stores (they drive other programs), the host integration of the agent, the Kubernetes handler, and of the
  control plane git connections, billing, the transports of alerts, authentication, object-storage buckets and
  retention. The web dashboard is not Go.

  \<^bold>\<open>Plan.\<close> Next: the status of a server (compatibility, heartbeat, sweeper, decommissioning), placement of Compose
  services, object-storage buckets, the rest of retention.
\<close>

section \<open>Rollback across the two binaries\<close>

lemma spared_index:
  assumes "take n xs @ plan = xs" "distinct xs" "i < n" "i < length xs"
  shows "xs ! i \<notin> set plan"
proof -
  have "xs ! i \<in> set (take n xs)" using assms(3,4) by (auto simp: in_set_conv_nth intro!: exI [of _ i])
  moreover have "distinct (take n xs @ plan)" using assms(1,2) by simp
  ultimately show ?thesis by auto
qed

lemma offered_at_most_window: "card (f ` set (RollbackTargets orgID rid limit db)) \<le> 10"
proof -
  have "length (RollbackTargets orgID rid limit db) \<le> 10" by (auto simp: RollbackTargets_def RollbackWindow_def Let_def)
  then show ?thesis using card_image_le [of "set (RollbackTargets orgID rid limit db)" f] card_length [of "RollbackTargets orgID rid limit db"]
    by simp
qed

lemma members_before:
  assumes "distinct xs" "i < length xs" "xs ! i \<in> S" "finite S"
  shows "length (filter (\<lambda>t. t \<in> S) (take i xs)) < card S"
proof -
  have "xs ! i \<notin> set (take i xs)" using assms(1,2) by (auto simp: in_set_conv_nth nth_eq_iff_index_eq)
  then have "set (filter (\<lambda>t. t \<in> S) (take i xs)) \<subset> S" using assms(3) by auto
  then have "card (set (filter (\<lambda>t. t \<in> S) (take i xs))) < card S" by (rule psubset_card_mono [OF assms(4)])
  then show ?thesis using distinct_card [of "filter (\<lambda>t. t \<in> S) (take i xs)"] assms(1) by simp
qed

text \<open>
  C26. The agent's image retention keeps what the control plane offers to roll back to. The control plane
  lists at most ten releases; the agent prunes the images of a resource by tag, newest first, failed and superseded builds
  included. An image of an offered release that is cached survives every pass of the pruning as long as at most ten newer cached images
  are of releases that are not offered.
\<close>

theorem offered_rollback_images_survive:
  fixes repo :: string and dk :: "'d docker" and imgs :: "ImageSummary list"
  defines "cached \<equiv> \<lambda>repo inUse imgs. filter (\<lambda>t. \<not> inUse t)
     (remdups_first (filter (\<lambda>t. has_prefix t repo) (concat (map IS_RepoTags imgs))))"
    and "offered \<equiv> \<lambda>orgID rid limit db. (\<lambda>r. pinnedImageTag rid (d_GitSHA r) (d_ImagePin r)) ` set (RollbackTargets orgID rid limit db)"
  assumes "repo \<noteq> ''''" "ImageList dk (repo @ ''*'') d = (Inr imgs, d1)"
    and "i < length (cached repo inUse imgs)" "cached repo inUse imgs ! i \<in> offered orgID rid limit db"
    and "length (filter (\<lambda>t. t \<notin> offered orgID rid limit db) (take i (cached repo inUse imgs))) \<le> 10"
  shows "\<exists>plan. retainImages dk repo defaultImageRetention inUse d = fold (\<lambda>t d. snd (ImageRemove dk t d)) plan d1 \<and>
    cached repo inUse imgs ! i \<notin> set plan"
proof -
  let ?c = "cached repo inUse imgs" and ?o = "offered orgID rid limit db"
  have distinct: "distinct ?c" by (simp add: cached_def remdups_first_def)
  have "length (filter (\<lambda>t. t \<in> ?o) (take i ?c)) < card ?o"
    by (rule members_before [OF distinct assms(5,6)]) (simp add: offered_def)
  moreover have "card ?o \<le> 10" unfolding offered_def by (rule offered_at_most_window)
  moreover have "length (filter (\<lambda>t. t \<in> ?o) (take i ?c)) + length (filter (\<lambda>t. t \<notin> ?o) (take i ?c)) = i"
    using sum_length_filter_compl [of "\<lambda>t. t \<in> ?o" "take i ?c"] assms(5) by simp
  ultimately have "i < nat defaultImageRetention" using assms(7) by (simp add: defaultImageRetention_def)
  moreover have "take (nat defaultImageRetention) ?c @ retention_plan repo defaultImageRetention inUse imgs = ?c"
    using retention_plan_props [of repo imgs defaultImageRetention inUse] unfolding cached_def Let_def by metis
  ultimately have "?c ! i \<notin> set (retention_plan repo defaultImageRetention inUse imgs)"
    using distinct assms(5) by (intro spared_index)
  moreover have "retainImages dk repo defaultImageRetention inUse d =
      fold (\<lambda>t d. snd (ImageRemove dk t d)) (retention_plan repo defaultImageRetention inUse imgs) d1"
    using assms(3,4) by (simp add: retainImages_def Let_def defaultImageRetention_def)
  ultimately show ?thesis by blast
qed

definition demo_cache :: daemon where
  "demo_cache = demo_daemon\<lparr>dm_images := [\<lparr>IS_ID = ''i2'', IS_RepoTags = [''sigmahub/app:bb-1''], IS_Created = 2\<rparr>,
     \<lparr>IS_ID = ''i1'', IS_RepoTags = [''sigmahub/app:aa-0''], IS_Created = 1\<rparr>]\<rparr>"

theorem offered_rollback_images_survive_witness:
  "\<exists>plan. retainImages memory_docker ''sigmahub/app:'' defaultImageRetention (\<lambda>t. False) demo_cache =
     fold (\<lambda>t d. snd (ImageRemove memory_docker t d)) plan demo_cache \<and> ''sigmahub/app:aa-0'' \<notin> set plan"
proof -
  let ?imgs = "dm_images demo_cache"
  have cached: "filter (\<lambda>t. \<not> False) (remdups_first (filter (\<lambda>t. has_prefix t ''sigmahub/app:'') (concat (map IS_RepoTags ?imgs)))) =
      [''sigmahub/app:bb-1'', ''sigmahub/app:aa-0'']" by code_simp
  have "map (\<lambda>r. pinnedImageTag ''app'' (d_GitSHA r) (d_ImagePin r)) (RollbackTargets ''org'' ''app'' 0 demo_built) = [''sigmahub/app:aa-0'']"
    by code_simp
  then have offered: "(\<lambda>r. pinnedImageTag ''app'' (d_GitSHA r) (d_ImagePin r)) ` set (RollbackTargets ''org'' ''app'' 0 demo_built) =
      {''sigmahub/app:aa-0''}" by (metis list.set_map list.simps(15) empty_set)
  from offered_rollback_images_survive [of "''sigmahub/app:''" memory_docker demo_cache ?imgs demo_cache 1 "\<lambda>t. False" "''app''" "''org''" 0 demo_built]
  show ?thesis by (simp only: cached offered) (simp add: memory_docker_def)
qed

end
